(* ===== verification/Prelude.thy ===== *)
theory Prelude
  imports Main "HOL-Library.Word" "HOL-Library.AList"
begin

text \<open>
  Shared vocabulary of the development: the parts of Rust's standard library that the modelled
  sources use (string slices, integer parsing and printing, saturating arithmetic, panics,
  hash maps that are iterated), the result types, and the generic lemmas the component proofs
  share.

  Conventions.
  \<^item> A Rust string is a \<open>string\<close>, one \<open>char\<close> per byte.  SIP header fields, routing patterns and
    configuration keys are ASCII; the white space and the letter case that \<open>trim\<close> and
    \<open>to_lowercase\<close> handle are those of ASCII.
  \<^item> A \<open>Duration\<close> or an \<open>Instant\<close> is a number of nanoseconds (\<open>nat\<close>); the current time is an
    argument \<open>now\<close> of every operation that reads the clock.
  \<^item> An operation that may panic returns \<open>'a run\<close>; an operation that returns a Rust \<open>Result\<close>
    returns \<open>err + 'a\<close>, the text of the error in \<open>Inl\<close>.
  \<^item> A \<open>HashMap\<close> that is only read and written by key is a map \<open>'k \<rightharpoonup> 'v\<close>; one that the code
    iterates over is an association list with distinct keys, whose order is the iteration order.
\<close>

section \<open>Named collections\<close>

named_theorems str_simps \<open>evaluation of the string operations\<close>
named_theorems inv_intros \<open>an operation keeps the invariant of its component\<close>

section \<open>Results and panics\<close>

type_synonym err = string
type_synonym leg_id = string
type_synonym 'a result = "err + 'a"

datatype 'a run = Ret 'a | Panic

fun map_run :: "('a \<Rightarrow> 'b) \<Rightarrow> 'a run \<Rightarrow> 'b run" where
  "map_run f (Ret a) = Ret (f a)"
| "map_run f Panic = Panic"

fun bind_run :: "'a run \<Rightarrow> ('a \<Rightarrow> 'b run) \<Rightarrow> 'b run" where
  "bind_run (Ret a) f = f a"
| "bind_run Panic f = Panic"

lemma bind_run_Ret_iff: "bind_run m f = Ret b \<longleftrightarrow> (\<exists>a. m = Ret a \<and> f a = Ret b)"
  by (cases m) auto

lemma map_run_Ret_iff: "map_run f m = Ret b \<longleftrightarrow> (\<exists>a. m = Ret a \<and> b = f a)"
  by (cases m) auto

fun is_ok :: "'a result \<Rightarrow> bool" where
  "is_ok (Inl _) = False"
| "is_ok (Inr _) = True"

section \<open>Time\<close>

type_synonym duration = nat
type_synonym instant = nat

definition secs :: "nat \<Rightarrow> duration" where
  "secs n = n * 1000000000"

definition as_secs :: "duration \<Rightarrow> nat" where
  "as_secs d = d div 1000000000"

lemma as_secs_secs [simp]: "as_secs (secs n) = n"
  by (simp add: as_secs_def secs_def)

lemma secs_less_iff [simp]: "secs a < secs b \<longleftrightarrow> a < b"
  by (simp add: secs_def)

lemma secs_le_iff [simp]: "secs a \<le> secs b \<longleftrightarrow> a \<le> b"
  by (simp add: secs_def)

text \<open>An \<open>Instant\<close> holds its seconds in an \<open>i64\<close>; \<open>Instant + Duration\<close> panics when the sum does not
  fit.\<close>

definition instant_limit :: instant where
  "instant_limit = secs (2 ^ 63)"

definition instant_add :: "instant \<Rightarrow> duration \<Rightarrow> instant run" where
  "instant_add t d = (if t + d < instant_limit then Ret (t + d) else Panic)"

section \<open>Strings\<close>

definition is_whitespace :: "char \<Rightarrow> bool" where
  "is_whitespace c \<longleftrightarrow> (let n = (of_char c :: nat) in (9 \<le> n \<and> n \<le> 13) \<or> n = 32)"

definition trim_start :: "string \<Rightarrow> string" where
  "trim_start s = dropWhile is_whitespace s"

definition trim_end :: "string \<Rightarrow> string" where
  "trim_end s = rev (dropWhile is_whitespace (rev s))"

definition trim :: "string \<Rightarrow> string" where
  "trim s = trim_end (trim_start s)"

definition ascii_lower :: "char \<Rightarrow> char" where
  "ascii_lower c = (let n = (of_char c :: nat) in if 65 \<le> n \<and> n \<le> 90 then char_of (n + 32) else c)"

definition to_ascii_lowercase :: "string \<Rightarrow> string" where
  "to_ascii_lowercase s = map ascii_lower s"

definition eq_ignore_ascii_case :: "string \<Rightarrow> string \<Rightarrow> bool" where
  "eq_ignore_ascii_case a b \<longleftrightarrow> to_ascii_lowercase a = to_ascii_lowercase b"

fun strip_prefix :: "string \<Rightarrow> string \<Rightarrow> string option" where
  "strip_prefix [] s = Some s"
| "strip_prefix (p # ps) [] = None"
| "strip_prefix (p # ps) (c # cs) = (if p = c then strip_prefix ps cs else None)"

definition starts_with :: "string \<Rightarrow> string \<Rightarrow> bool" where
  "starts_with p s \<longleftrightarrow> strip_prefix p s \<noteq> None"

definition ends_with :: "string \<Rightarrow> string \<Rightarrow> bool" where
  "ends_with p s \<longleftrightarrow> strip_prefix (rev p) (rev s) \<noteq> None"

lemma strip_prefix_Some_iff: "strip_prefix p s = Some r \<longleftrightarrow> s = p @ r"
  by (induction p s rule: strip_prefix.induct) auto

lemma strip_prefix_append [simp]: "strip_prefix p (p @ r) = Some r"
  by (simp add: strip_prefix_Some_iff)

lemma starts_with_iff: "starts_with p s \<longleftrightarrow> (\<exists>r. s = p @ r)"
  by (simp add: starts_with_def strip_prefix_Some_iff)

text \<open>\<open>str::trim_start_matches\<close> with a string pattern removes the pattern as often as it occurs at
  the front; an empty pattern removes nothing.\<close>

function trim_start_matches :: "string \<Rightarrow> string \<Rightarrow> string" where
  "trim_start_matches p s =
     (if p = [] then s
      else case strip_prefix p s of None \<Rightarrow> s | Some r \<Rightarrow> trim_start_matches p r)"
  by pat_completeness auto
termination
  by (relation "measure (\<lambda>(p, s). length s)") (auto simp: strip_prefix_Some_iff)

declare trim_start_matches.simps [simp del]

fun contains_str :: "string \<Rightarrow> string \<Rightarrow> bool" where
  "contains_str p [] \<longleftrightarrow> p = []"
| "contains_str p (c # cs) \<longleftrightarrow> starts_with p (c # cs) \<or> contains_str p cs"

lemma contains_str_iff: "contains_str p s \<longleftrightarrow> (\<exists>a b. s = a @ p @ b)"
proof (induction s)
  case (Cons c cs)
  have "(\<exists>a b. c # cs = a @ p @ b) \<longleftrightarrow> (\<exists>b. c # cs = p @ b) \<or> (\<exists>a b. cs = a @ p @ b)"
    by (metis append_Cons append_Nil list.sel(3) neq_Nil_conv)
  with Cons.IH show ?case by (simp add: starts_with_iff)
qed auto

text \<open>\<open>str::find(p)\<close>: the index of the first occurrence of a text.\<close>

fun find_str :: "string \<Rightarrow> string \<Rightarrow> nat option" where
  "find_str p [] = (if p = [] then Some 0 else None)"
| "find_str p (c # cs) = (if starts_with p (c # cs) then Some 0 else map_option Suc (find_str p cs))"

lemma find_str_Some: "find_str p s = Some i \<Longrightarrow> s = take i s @ p @ drop (i + length p) s"
proof (induction s arbitrary: i)
  case (Cons c cs)
  then show ?case by (auto simp: starts_with_iff split: if_splits)
qed (auto split: if_splits)

lemma find_str_None: "find_str p s = None \<longleftrightarrow> \<not> contains_str p s"
  by (induction s) auto

text \<open>\<open>str::split(c)\<close>: the parts between the separators, always at least one.\<close>

fun split_on :: "char \<Rightarrow> string \<Rightarrow> string list" where
  "split_on d [] = [[]]"
| "split_on d (c # cs) =
     (if c = d then [] # split_on d cs
      else case split_on d cs of [] \<Rightarrow> [[c]] | p # ps \<Rightarrow> (c # p) # ps)"

lemma split_on_not_Nil [simp]: "split_on d s \<noteq> []"
  by (induction s) (auto split: list.splits)

lemma split_on_absent: "d \<notin> set s \<Longrightarrow> split_on d s = [s]"
  by (induction s) auto

lemma split_on_append: "d \<notin> set a \<Longrightarrow> split_on d (a @ d # b) = a # split_on d b"
  by (induction a) auto

lemma length_split_on: "length (split_on d s) = Suc (length (filter (\<lambda>c. c = d) s))"
  by (induction s) (auto split: list.splits)

lemma split_on_single: "split_on d s = [a] \<longleftrightarrow> d \<notin> set s \<and> a = s"
proof (cases "d \<in> set s")
  case True
  then have "filter (\<lambda>c. c = d) s \<noteq> []" by (auto simp: filter_empty_conv)
  with length_split_on [of d s] True show ?thesis by auto
qed (auto simp: split_on_absent)

text \<open>\<open>str::split_whitespace\<close>: the maximal runs of characters that are not white space.\<close>

fun split_ws_aux :: "string \<Rightarrow> string \<Rightarrow> string list" where
  "split_ws_aux acc [] = (if acc = [] then [] else [rev acc])"
| "split_ws_aux acc (c # cs) =
     (if is_whitespace c then (if acc = [] then split_ws_aux [] cs else rev acc # split_ws_aux [] cs)
      else split_ws_aux (c # acc) cs)"

definition split_whitespace :: "string \<Rightarrow> string list" where
  "split_whitespace s = split_ws_aux [] s"

text \<open>\<open>str::find(c)\<close>: the index of the first occurrence.\<close>

fun find_char :: "char \<Rightarrow> string \<Rightarrow> nat option" where
  "find_char d [] = None"
| "find_char d (c # cs) = (if c = d then Some 0 else map_option Suc (find_char d cs))"

lemma find_char_None_iff: "find_char d s = None \<longleftrightarrow> d \<notin> set s"
  by (induction s) auto

lemma find_char_Some:
  "find_char d s = Some i \<Longrightarrow> i < length s \<and> s ! i = d \<and> d \<notin> set (take i s)"
  by (induction s arbitrary: i) (auto split: if_splits)

text \<open>The parts before and after the first occurrence of a character.\<close>

definition split_once :: "char \<Rightarrow> string \<Rightarrow> (string \<times> string) option" where
  "split_once d s = map_option (\<lambda>i. (take i s, drop (i + 1) s)) (find_char d s)"

lemma split_once_Some: "split_once d s = Some (a, b) \<Longrightarrow> s = a @ d # b \<and> d \<notin> set a"
  by (auto simp: split_once_def id_take_nth_drop [symmetric] dest!: find_char_Some)

lemma split_once_append: "d \<notin> set a \<Longrightarrow> split_once d (a @ d # b) = Some (a, b)"
proof -
  assume "d \<notin> set a"
  then have "find_char d (a @ d # b) = Some (length a)" by (induction a) auto
  then show ?thesis by (simp add: split_once_def)
qed

lemma split_once_absent: "d \<notin> set s \<Longrightarrow> split_once d s = None"
  by (simp add: split_once_def find_char_None_iff)

section \<open>Parsing and printing of numbers\<close>

definition digit_val :: "char \<Rightarrow> nat option" where
  "digit_val c = (let n = (of_char c :: nat) in if 48 \<le> n \<and> n \<le> 57 then Some (n - 48) else None)"

definition digit_char :: "nat \<Rightarrow> char" where
  "digit_char d = char_of (48 + d)"

fun digits_val :: "nat \<Rightarrow> string \<Rightarrow> nat option" where
  "digits_val acc [] = Some acc"
| "digits_val acc (c # cs) =
     (case digit_val c of None \<Rightarrow> None | Some d \<Rightarrow> digits_val (10 * acc + d) cs)"

text \<open>\<open>FromStr\<close> of an unsigned integer type with greatest value \<open>m\<close>: an optional \<open>+\<close>, then one or
  more decimal digits; an error for anything else and for a value above \<open>m\<close>.\<close>

definition parse_unsigned :: "nat \<Rightarrow> string \<Rightarrow> nat option" where
  "parse_unsigned m s =
     (let ds = (case s of [] \<Rightarrow> [] | c # cs \<Rightarrow> (if c = CHR ''+'' then cs else s))
      in if ds = [] then None
         else case digits_val 0 ds of
                None \<Rightarrow> None
              | Some n \<Rightarrow> if n \<le> m then Some n else None)"

definition u8_max :: nat where "u8_max = 255"
definition u32_max :: nat where "u32_max = 4294967295"
definition u64_max :: nat where "u64_max = 18446744073709551615"

abbreviation parse_u8 :: "string \<Rightarrow> nat option" where "parse_u8 \<equiv> parse_unsigned u8_max"
abbreviation parse_u64 :: "string \<Rightarrow> nat option" where "parse_u64 \<equiv> parse_unsigned u64_max"

text \<open>\<open>Display\<close> of an unsigned integer.\<close>

fun string_of_nat :: "nat \<Rightarrow> string" where
  "string_of_nat n =
     (if n < 10 then [digit_char n] else string_of_nat (n div 10) @ [digit_char (n mod 10)])"

declare string_of_nat.simps [simp del]

lemma digit_val_digit_char [simp]: "d < 10 \<Longrightarrow> digit_val (digit_char d) = Some d"
  by (simp add: digit_val_def digit_char_def)

lemma digit_char_lits [simp]:
  "digit_char 0 = CHR ''0''" "digit_char 1 = CHR ''1''" "digit_char 2 = CHR ''2''"
  "digit_char 3 = CHR ''3''" "digit_char 4 = CHR ''4''" "digit_char 5 = CHR ''5''"
  "digit_char 6 = CHR ''6''" "digit_char 7 = CHR ''7''" "digit_char 8 = CHR ''8''"
  "digit_char 9 = CHR ''9''" "digit_char (Suc 0) = CHR ''1''"
  by code_simp+

lemma digit_char_code: "d < 10 \<Longrightarrow> (of_char (digit_char d) :: nat) = 48 + d"
  by (simp add: digit_char_def)

lemma digits_val_append:
  "digits_val acc (xs @ ys) = (case digits_val acc xs of None \<Rightarrow> None | Some n \<Rightarrow> digits_val n ys)"
  by (induction xs arbitrary: acc) (auto split: option.splits)

lemma digits_val_string_of_nat: "digits_val 0 (string_of_nat n) = Some n"
proof (induction n rule: string_of_nat.induct)
  case (1 n)
  show ?case
  proof (cases "n < 10")
    case True
    then show ?thesis by (simp add: string_of_nat.simps [of n])
  next
    case False
    with "1.IH" show ?thesis
      by (simp add: string_of_nat.simps [of n] digits_val_append)
  qed
qed

lemma string_of_nat_not_Nil [simp]: "string_of_nat n \<noteq> []"
  by (subst string_of_nat.simps) simp

lemma set_string_of_nat: "c \<in> set (string_of_nat n) \<Longrightarrow> \<exists>d < 10. c = digit_char d"
proof (induction n rule: string_of_nat.induct)
  case (1 n)
  show ?case
  proof (cases "n < 10")
    case True
    with "1.prems" show ?thesis by (auto simp: string_of_nat.simps [of n])
  next
    case False
    then have s: "string_of_nat n = string_of_nat (n div 10) @ [digit_char (n mod 10)]"
      by (simp add: string_of_nat.simps [of n])
    have "n mod 10 < 10" by simp
    with s False "1.prems" "1.IH" show ?thesis by fastforce
  qed
qed

lemma string_of_nat_digit_code:
  "c \<in> set (string_of_nat n) \<Longrightarrow> 48 \<le> (of_char c :: nat) \<and> (of_char c :: nat) \<le> 57"
  by (drule set_string_of_nat) (auto simp: digit_char_code)

text \<open>Characters outside the range of the digits do not occur in a printed number.\<close>

lemma not_in_string_of_nat:
  "(of_char c :: nat) < 48 \<or> 57 < (of_char c :: nat) \<Longrightarrow> c \<notin> set (string_of_nat n)"
  using string_of_nat_digit_code by fastforce

lemma not_in_string_of_nat_lits [simp]:
  "CHR '';'' \<notin> set (string_of_nat n)" "CHR '':'' \<notin> set (string_of_nat n)"
  "CHR ''+'' \<notin> set (string_of_nat n)" "CHR ''/'' \<notin> set (string_of_nat n)"
  "CHR ''@'' \<notin> set (string_of_nat n)"
  by (rule not_in_string_of_nat; simp)+

lemma parse_string_of_nat [simp]: "n \<le> m \<Longrightarrow> parse_unsigned m (string_of_nat n) = Some n"
proof -
  assume le: "n \<le> m"
  obtain c cs where s: "string_of_nat n = c # cs"
    by (cases "string_of_nat n") auto
  then have "c \<noteq> CHR ''+''"
    using not_in_string_of_nat_lits(3) [of n] by auto
  with s le digits_val_string_of_nat [of n] show ?thesis
    by (simp add: parse_unsigned_def)
qed

lemma parse_unsigned_le: "parse_unsigned m s = Some n \<Longrightarrow> n \<le> m"
  by (auto simp: parse_unsigned_def Let_def split: list.splits option.splits if_splits)

section \<open>White space\<close>

lemma dropWhile_id: "(\<forall>c \<in> set s. \<not> P c) \<Longrightarrow> dropWhile P s = s"
  by (cases s) auto

lemma trim_id: "(\<forall>c \<in> set s. \<not> is_whitespace c) \<Longrightarrow> trim s = s"
  by (simp add: trim_def trim_start_def trim_end_def dropWhile_id)

lemma digit_not_whitespace: "c \<in> set (string_of_nat n) \<Longrightarrow> \<not> is_whitespace c"
  using string_of_nat_digit_code [of c n] by (auto simp: is_whitespace_def Let_def)

lemma trim_string_of_nat [simp]: "trim (string_of_nat n) = string_of_nat n"
  by (rule trim_id) (blast dest: digit_not_whitespace)

lemma trim_start_hd: "trim_start s = c # cs \<Longrightarrow> \<not> is_whitespace c"
  using hd_dropWhile [of is_whitespace s] by (auto simp: trim_start_def)

lemma trim_end_Nil [simp]: "trim_end [] = []"
  by (simp add: trim_end_def)

lemma trim_end_cases:
  "trim_end (c # cs) = (if trim_end cs = [] then (if is_whitespace c then [] else [c]) else c # trim_end cs)"
  by (auto simp: trim_end_def dropWhile_append dropWhile_eq_Nil_conv split: if_splits)

lemma trim_Cons_not_ws: "trim s = c # cs \<Longrightarrow> \<not> is_whitespace c"
proof -
  assume t: "trim s = c # cs"
  then obtain d ds where s: "trim_start s = d # ds"
    by (cases "trim_start s") (auto simp: trim_def)
  with t have "d = c" by (auto simp: trim_def trim_end_cases split: if_splits)
  with trim_start_hd [OF s] show ?thesis by simp
qed

lemma trim_end_idem: "trim_end (trim_end s) = trim_end s"
  by (simp add: trim_end_def dropWhile_idem)

lemma trim_idem [simp]: "trim (trim s) = trim s"
proof (cases "trim s")
  case Nil
  then show ?thesis by (simp add: trim_def trim_start_def)
next
  case (Cons c cs)
  then have "\<not> is_whitespace c" by (rule trim_Cons_not_ws)
  with Cons have "trim_start (trim s) = trim s" by (simp add: trim_start_def)
  then show ?thesis by (simp add: trim_def trim_end_idem)
qed

section \<open>Letter case\<close>

lemma trim_no_edges: "s \<noteq> [] \<Longrightarrow> \<not> is_whitespace (hd s) \<Longrightarrow> \<not> is_whitespace (last s) \<Longrightarrow> trim s = s"
proof -
  assume s: "s \<noteq> []" "\<not> is_whitespace (hd s)" "\<not> is_whitespace (last s)"
  then have "trim_start s = s" by (cases s) (simp_all add: trim_start_def)
  moreover have "trim_end s = s" using s(1,3) by (cases "rev s") (auto simp: trim_end_def last_rev [symmetric] rev_swap)
  ultimately show ?thesis by (simp add: trim_def)
qed

lemma trim_end_last: "trim_end s \<noteq> [] \<Longrightarrow> \<not> is_whitespace (last (trim_end s))"
  using hd_dropWhile [of is_whitespace "rev s"] by (auto simp: trim_end_def last_rev)

lemma trim_fixed: "trim s = s \<Longrightarrow> s \<noteq> [] \<Longrightarrow> \<not> is_whitespace (hd s) \<and> \<not> is_whitespace (last s)"
  by (metis hd_Cons_tl trim_Cons_not_ws trim_def trim_end_last)

lemma ascii_lower_idem [simp]: "ascii_lower (ascii_lower c) = ascii_lower c"
proof (cases "65 \<le> (of_char c :: nat) \<and> (of_char c :: nat) \<le> 90")
  case True
  then have "(of_char (char_of (of_char c + 32 :: nat)) :: nat) = of_char c + 32" by simp
  with True show ?thesis by (simp add: ascii_lower_def Let_def)
qed (auto simp: ascii_lower_def Let_def)

lemma to_ascii_lowercase_idem [simp]: "to_ascii_lowercase (to_ascii_lowercase s) = to_ascii_lowercase s"
  by (simp add: to_ascii_lowercase_def)

lemma eq_ignore_ascii_case_refl [simp]: "eq_ignore_ascii_case s s"
  by (simp add: eq_ignore_ascii_case_def)

lemma eq_ignore_ascii_case_sym: "eq_ignore_ascii_case a b \<longleftrightarrow> eq_ignore_ascii_case b a"
  by (auto simp: eq_ignore_ascii_case_def)

section \<open>Hash maps that are iterated\<close>

type_synonym ('k, 'v) hmap = "('k \<times> 'v) list"

abbreviation hm_get :: "('k, 'v) hmap \<Rightarrow> 'k \<Rightarrow> 'v option" where "hm_get \<equiv> map_of"
abbreviation hm_insert :: "'k \<Rightarrow> 'v \<Rightarrow> ('k, 'v) hmap \<Rightarrow> ('k, 'v) hmap" where "hm_insert \<equiv> AList.update"
abbreviation hm_remove :: "'k \<Rightarrow> ('k, 'v) hmap \<Rightarrow> ('k, 'v) hmap" where "hm_remove \<equiv> AList.delete"
abbreviation hm_keys :: "('k, 'v) hmap \<Rightarrow> 'k list" where "hm_keys m \<equiv> map fst m"
abbreviation hm_values :: "('k, 'v) hmap \<Rightarrow> 'v list" where "hm_values m \<equiv> map snd m"

definition hm_wf :: "('k, 'v) hmap \<Rightarrow> bool" where
  "hm_wf m \<longleftrightarrow> distinct (hm_keys m)"

definition hm_retain :: "('k \<Rightarrow> 'v \<Rightarrow> bool) \<Rightarrow> ('k, 'v) hmap \<Rightarrow> ('k, 'v) hmap" where
  "hm_retain P m = filter (\<lambda>(k, v). P k v) m"

lemma hm_wf_Nil [simp]: "hm_wf []"
  by (simp add: hm_wf_def)

lemma hm_wf_insert [simp]: "hm_wf m \<Longrightarrow> hm_wf (hm_insert k v m)"
  by (simp add: hm_wf_def distinct_update)

lemma hm_wf_remove [simp]: "hm_wf m \<Longrightarrow> hm_wf (hm_remove k m)"
  by (simp add: hm_wf_def distinct_delete)

lemma hm_wf_retain [simp]: "hm_wf m \<Longrightarrow> hm_wf (hm_retain P m)"
  by (auto simp: hm_wf_def hm_retain_def distinct_map inj_on_def)

lemma hm_get_insert [simp]: "hm_get (hm_insert k v m) k' = (if k' = k then Some v else hm_get m k')"
  by (simp add: update_conv')

lemma hm_get_remove [simp]: "hm_get (hm_remove k m) k' = (if k' = k then None else hm_get m k')"
  by (simp add: delete_conv')

lemma hm_get_in_set: "hm_wf m \<Longrightarrow> hm_get m k = Some v \<longleftrightarrow> (k, v) \<in> set m"
  by (simp add: hm_wf_def)

lemma hm_get_retain:
  "hm_wf m \<Longrightarrow> hm_get (hm_retain P m) k =
     (case hm_get m k of None \<Rightarrow> None | Some v \<Rightarrow> if P k v then Some v else None)"
proof -
  assume wf: "hm_wf m"
  have iff: "hm_get (hm_retain P m) k = Some v \<longleftrightarrow> hm_get m k = Some v \<and> P k v" for v
    by (simp only: hm_get_in_set [OF wf] hm_get_in_set [OF hm_wf_retain [OF wf]])
      (simp add: hm_retain_def)
  show ?thesis
  proof (cases "hm_get (hm_retain P m) k")
    case None
    with iff show ?thesis by (cases "hm_get m k") simp_all
  next
    case (Some v)
    with iff [of v] show ?thesis by simp
  qed
qed

lemma hm_get_foldr_remove:
  "hm_get (foldr hm_remove ks m) k = (if k \<in> set ks then None else hm_get m k)"
  by (induction ks) auto

lemma hm_get_fold_remove:
  "hm_get (fold hm_remove ks m) k = (if k \<in> set ks then None else hm_get m k)"
  by (induction ks arbitrary: m) auto

lemma hm_wf_fold_remove [simp]: "hm_wf m \<Longrightarrow> hm_wf (fold hm_remove ks m)"
  by (induction ks arbitrary: m) auto

lemma hm_keys_get: "k \<in> set (hm_keys m) \<longleftrightarrow> hm_get m k \<noteq> None"
  by (simp add: map_of_eq_None_iff)

lemma hm_length_insert:
  "length (hm_insert k v m) = (if hm_get m k = None then Suc (length m) else length m)"
  by (induction m) auto

lemma hm_remove_absent: "hm_get m k = None \<Longrightarrow> hm_remove k m = m"
  by (simp add: AList.delete_eq map_of_eq_None_iff) (rule filter_True, auto simp: image_iff)

lemma hm_length_remove:
  "hm_wf m \<Longrightarrow> hm_get m k = Some v \<Longrightarrow> Suc (length (hm_remove k m)) = length m"
proof (induction m)
  case (Cons p m)
  then show ?case
    by (cases p; cases "fst p = k")
      (auto simp: hm_wf_def map_of_eq_None_iff hm_remove_absent)
qed simp

section \<open>Lists\<close>

text \<open>\<open>iter().position(P)\<close>: the index of the first element that satisfies \<open>P\<close>.\<close>

fun position :: "('a \<Rightarrow> bool) \<Rightarrow> 'a list \<Rightarrow> nat option" where
  "position P [] = None"
| "position P (x # xs) = (if P x then Some 0 else map_option Suc (position P xs))"

definition insert_at :: "nat \<Rightarrow> 'a \<Rightarrow> 'a list \<Rightarrow> 'a list" where
  "insert_at i x xs = take i xs @ x # drop i xs"

definition remove_at :: "nat \<Rightarrow> 'a list \<Rightarrow> 'a list" where
  "remove_at i xs = take i xs @ drop (Suc i) xs"

lemma position_None_iff: "position P xs = None \<longleftrightarrow> (\<forall>x \<in> set xs. \<not> P x)"
  by (induction xs) auto

lemma position_Some:
  "position P xs = Some i \<Longrightarrow> i < length xs \<and> P (xs ! i) \<and> (\<forall>x \<in> set (take i xs). \<not> P x)"
  by (induction xs arbitrary: i) (auto split: if_splits)

lemma position_Some_iff:
  "position P xs = Some i \<longleftrightarrow> i < length xs \<and> P (xs ! i) \<and> (\<forall>j < i. \<not> P (xs ! j))"
proof (induction xs arbitrary: i)
  case (Cons x xs)
  then show ?case by (cases i) (auto simp: All_less_Suc2)
qed simp

lemma position_append:
  "position P (xs @ ys) =
     (case position P xs of Some i \<Rightarrow> Some i | None \<Rightarrow> map_option (\<lambda>i. length xs + i) (position P ys))"
proof (induction xs)
  case Nil
  then show ?case by (cases "position P ys") auto
next
  case (Cons x xs)
  then show ?case by (cases "position P xs"; cases "position P ys") auto
qed

lemma length_filter_mono: "(\<And>x. P x \<Longrightarrow> Q x) \<Longrightarrow> length (filter P xs) \<le> length (filter Q xs)"
  by (induction xs) (auto intro: le_SucI)

lemma set_map_filter: "set (List.map_filter f xs) = {y. \<exists>x \<in> set xs. f x = Some y}"
  by (induction xs) (auto simp: List.map_filter_simps split: option.splits)

section \<open>Directories\<close>

text \<open>
  Two tables that must agree: a key's owner, and the list of keys of each owner, after which the keys are removed when
  the owner goes.  The registry of calls (dialogs and sessions) and the registry of mixers (sessions and mixers) are
  such directories.
\<close>

locale directory =
  fixes owner :: "'s \<Rightarrow> 'k \<Rightarrow> 'g option"
    and members :: "'s \<Rightarrow> 'g \<Rightarrow> 'k list"
    and drop_group :: "'g \<Rightarrow> 's \<Rightarrow> 's"
  assumes owner_drop: "owner (drop_group g s) k = (if k \<in> set (members s g) then None else owner s k)"
    and members_drop: "members (drop_group g s) h = (if h = g then [] else members s h)"
begin

definition tracked :: "'s \<Rightarrow> bool" where
  "tracked s \<longleftrightarrow> (\<forall>k g. owner s k = Some g \<longrightarrow> k \<in> set (members s g))"

definition owned :: "'s \<Rightarrow> bool" where
  "owned s \<longleftrightarrow> (\<forall>g k. k \<in> set (members s g) \<longrightarrow> owner s k = Some g)"

lemma drop_tracked: "tracked s \<Longrightarrow> tracked (drop_group g s)"
  by (simp add: tracked_def owner_drop members_drop) metis

lemma drop_owned:
  assumes "owned s"
  shows "owned (drop_group g s)"
proof -
  have "owner (drop_group g s) k = Some h" if "h \<noteq> g" "k \<in> set (members s h)" for h k
  proof -
    have "owner s k = Some h" using assms that(2) by (simp add: owned_def)
    moreover from this have "k \<notin> set (members s g)"
      using assms that(1) unfolding owned_def by (metis option.inject)
    ultimately show ?thesis by (simp add: owner_drop)
  qed
  then show ?thesis by (simp add: owned_def members_drop)
qed

lemma drop_exact:
  assumes "tracked s" and "owned s"
  shows "owner (drop_group g s) k = (if owner s k = Some g then None else owner s k)"
proof -
  have "k \<in> set (members s g) \<longleftrightarrow> owner s k = Some g" using assms unfolding tracked_def owned_def by blast
  then show ?thesis by (simp add: owner_drop)
qed

lemma drop_leaves_none: "tracked s \<Longrightarrow> owner (drop_group g s) k \<noteq> Some g"
  by (auto simp: tracked_def owner_drop)

end

end
