(* ===== verification/Sip.thy ===== *)
theory Sip
  imports Prelude
begin

text \<open>
  The SIP vocabulary that the gateway takes from its protocol stack: header fields, URIs and
  addresses.  The stack's own code (printing and parsing of URIs, comparison of URIs) is outside
  the repository; a \<open>sip_lib\<close> record carries these functions, and every definition that calls one
  takes the record as an argument.
\<close>

text \<open>A header field is one of the stack's typed variants with its text, or \<open>Other\<close> with the name as
  it was received.  \<open>HTyped\<close> stands for the variants no source of the gateway mentions.\<close>

datatype header_tag =
    HVia | HFrom | HTo | HContact | HCallId | HCSeq | HMaxForwards | HContentLength | HContentType
  | HAuthorization | HProxyAuthorization | HProxyAuthenticate | HWwwAuthenticate | HRoute
  | HRecordRoute | HUserAgent | HAllow | HSupported | HRequire | HTyped string

datatype header = Std header_tag string | Other string string

type_synonym headers = "header list"

fun tag_name :: "header_tag \<Rightarrow> string" where
  "tag_name HVia = ''Via''"
| "tag_name HFrom = ''From''"
| "tag_name HTo = ''To''"
| "tag_name HContact = ''Contact''"
| "tag_name HCallId = ''Call-ID''"
| "tag_name HCSeq = ''CSeq''"
| "tag_name HMaxForwards = ''Max-Forwards''"
| "tag_name HContentLength = ''Content-Length''"
| "tag_name HContentType = ''Content-Type''"
| "tag_name HAuthorization = ''Authorization''"
| "tag_name HProxyAuthorization = ''Proxy-Authorization''"
| "tag_name HProxyAuthenticate = ''Proxy-Authenticate''"
| "tag_name HWwwAuthenticate = ''WWW-Authenticate''"
| "tag_name HRoute = ''Route''"
| "tag_name HRecordRoute = ''Record-Route''"
| "tag_name HUserAgent = ''User-Agent''"
| "tag_name HAllow = ''Allow''"
| "tag_name HSupported = ''Supported''"
| "tag_name HRequire = ''Require''"
| "tag_name (HTyped n) = n"

fun header_name :: "header \<Rightarrow> string" where
  "header_name (Std t v) = tag_name t"
| "header_name (Other n v) = n"

fun header_value :: "header \<Rightarrow> string" where
  "header_value (Std t v) = v"
| "header_value (Other n v) = v"

text \<open>The parts of a URI.  \<open>u_rest\<close> is its parameters and headers, which the gateway passes on.\<close>

record uri =
  u_scheme :: string
  u_user :: "string option"
  u_password :: "string option"
  u_host :: string
  u_port :: "nat option"
  u_rest :: string

type_synonym host_port = "string \<times> nat option"

definition host_with_port :: "uri \<Rightarrow> host_port" where
  "host_with_port u = (u_host u, u_port u)"

definition set_host_with_port :: "host_port \<Rightarrow> uri \<Rightarrow> uri" where
  "set_host_with_port hp u = u\<lparr>u_host := fst hp, u_port := snd hp\<rparr>"

definition user_or_default :: "uri \<Rightarrow> string" where
  "user_or_default u = (case u_user u of Some s \<Rightarrow> s | None \<Rightarrow> [])"

lemma host_with_port_set [simp]: "host_with_port (set_host_with_port hp u) = hp"
  by (simp add: host_with_port_def set_host_with_port_def)

lemma u_user_set_host_with_port [simp]: "u_user (set_host_with_port hp u) = u_user u"
  by (simp add: set_host_with_port_def)

datatype transport = Udp | Tcp | Tls | Ws | Wss

record sip_addr =
  a_type :: "transport option"
  a_addr :: host_port

text \<open>The functions of the stack.\<close>

record sip_lib =
  uri_show :: "uri \<Rightarrow> string"
  uri_parse :: "string \<Rightarrow> uri option"
  uri_eq :: "uri \<Rightarrow> uri \<Rightarrow> bool"
  host_port_parse :: "string \<Rightarrow> host_port option"

end
