(* ===== verification/Dialplan.thy ===== *)
theory Dialplan
  imports Sip
begin

text \<open>
  The data of a call plan, \<open>src/src/call/mod.rs\<close>: registered locations, the endpoints a call can be
  transferred to, call forwarding, the plan of a queue, and the flow of a dialplan (a chain of queues
  that ends in targets or in an application).  Of a location the record has the fields that some
  modelled operation reads; the parameters of an application are opaque text.
\<close>

section \<open>Locations\<close>

record credential =
  cr_username :: string
  cr_password :: string
  cr_realm :: "string option"

record location =
  aor :: uri
  expires :: nat
  destination :: "sip_addr option"
  last_modified :: "instant option"
  supports_webrtc :: bool
  loc_credential :: "credential option"
  loc_headers :: "headers option"
  registered_aor :: "uri option"
  contact_raw :: "string option"
  instance_id :: "string option"
  gruu :: "string option"
  loc_transport :: "transport option"
  home_proxy :: "sip_addr option"

definition default_uri :: uri where
  "default_uri = \<lparr>u_scheme = [], u_user = None, u_password = None, u_host = [], u_port = None, u_rest = []\<rparr>"

definition default_location :: location where
  "default_location =
     \<lparr>aor = default_uri, expires = 0, destination = None, last_modified = None, supports_webrtc = False,
      loc_credential = None, loc_headers = None, registered_aor = None, contact_raw = None, instance_id = None,
      gruu = None, loc_transport = None, home_proxy = None\<rparr>"

definition binding_key :: "sip_lib \<Rightarrow> location \<Rightarrow> string" where
  "binding_key lib l =
     (case instance_id l of
        Some i \<Rightarrow> uri_show lib (aor l) @ ''|instance='' @ i
      | None \<Rightarrow>
          (case gruu l of
             Some g \<Rightarrow> uri_show lib (aor l) @ ''|gruu='' @ g
           | None \<Rightarrow> uri_show lib (aor l)))"

definition is_expired_at :: "instant \<Rightarrow> location \<Rightarrow> bool" where
  "is_expired_at now l =
     (if expires l = 0 then True
      else case last_modified l of
             Some t \<Rightarrow> secs (expires l) \<le> now - t
           | None \<Rightarrow> False)"

datatype dial_strategy = Sequential "location list" | Parallel "location list"

fun strategy_targets :: "dial_strategy \<Rightarrow> location list" where
  "strategy_targets (Sequential ls) = ls"
| "strategy_targets (Parallel ls) = ls"

section \<open>Transfer endpoints\<close>

datatype transfer_endpoint = EpUri string | EpQueue string | EpIvr string

text \<open>Slicing a string at a byte index panics when the index is inside a character: the byte there is a
  continuation byte.\<close>

definition is_char_boundary :: "string \<Rightarrow> nat \<Rightarrow> bool" where
  "is_char_boundary s i \<longleftrightarrow>
     i = 0 \<or> i = length s
     \<or> (i < length s \<and> \<not> (128 \<le> (of_char (s ! i) :: nat) \<and> (of_char (s ! i) :: nat) < 192))"

definition strip_endpoint_prefix :: "string \<Rightarrow> string \<Rightarrow> string option run" where
  "strip_endpoint_prefix p s =
     (if length s < length p then Ret None
      else if \<not> is_char_boundary s (length p) then Panic
      else if eq_ignore_ascii_case (take (length p) s) p then Ret (Some (trim (drop (length p) s)))
      else Ret None)"

definition endpoint_parse :: "string \<Rightarrow> transfer_endpoint option run" where
  "endpoint_parse value =
     (let trimmed = trim value
      in if trimmed = [] then Ret None
         else case strip_endpoint_prefix ''queue:'' trimmed of
                Panic \<Rightarrow> Panic
              | Ret (Some name) \<Rightarrow> Ret (if name = [] then None else Some (EpQueue name))
              | Ret None \<Rightarrow>
                  (case strip_endpoint_prefix ''ivr:'' trimmed of
                     Panic \<Rightarrow> Panic
                   | Ret (Some name) \<Rightarrow> Ret (if name = [] then None else Some (EpIvr name))
                   | Ret None \<Rightarrow> Ret (Some (EpUri trimmed))))"

fun endpoint_display :: "transfer_endpoint \<Rightarrow> string" where
  "endpoint_display (EpUri u) = u"
| "endpoint_display (EpQueue n) = ''queue:'' @ n"
| "endpoint_display (EpIvr n) = ''ivr:'' @ n"

section \<open>Call forwarding\<close>

datatype call_forwarding_mode = FwdAlways | WhenBusy | WhenNoAnswer

definition CALL_FORWARDING_TIMEOUT_MIN_SECS :: nat where "CALL_FORWARDING_TIMEOUT_MIN_SECS = 5"
definition CALL_FORWARDING_TIMEOUT_MAX_SECS :: nat where "CALL_FORWARDING_TIMEOUT_MAX_SECS = 120"
definition CALL_FORWARDING_TIMEOUT_DEFAULT_SECS :: nat where "CALL_FORWARDING_TIMEOUT_DEFAULT_SECS = 30"

record call_forwarding_config =
  cf_mode :: call_forwarding_mode
  cf_endpoint :: transfer_endpoint
  cf_timeout :: duration

definition call_forwarding_new :: "call_forwarding_mode \<Rightarrow> transfer_endpoint \<Rightarrow> nat \<Rightarrow> call_forwarding_config" where
  "call_forwarding_new mode endpoint timeout_secs =
     \<lparr>cf_mode = mode, cf_endpoint = endpoint,
      cf_timeout = secs (min (max timeout_secs CALL_FORWARDING_TIMEOUT_MIN_SECS) CALL_FORWARDING_TIMEOUT_MAX_SECS)\<rparr>"

definition clamp_timeout :: "int \<Rightarrow> nat" where
  "clamp_timeout value =
     (if value \<le> 0 then CALL_FORWARDING_TIMEOUT_DEFAULT_SECS
      else nat (min (max value (int CALL_FORWARDING_TIMEOUT_MIN_SECS)) (int CALL_FORWARDING_TIMEOUT_MAX_SECS)))"

section \<open>Queue plans\<close>

datatype failure_action =
    Hangup "nat option" "string option"
  | PlayThenHangup string bool nat "string option"
  | Transfer transfer_endpoint

datatype queue_fallback_action = FbFailure failure_action | FbRedirect uri | FbQueue string

record queue_hold_config =
  hold_audio_file :: "string option"
  hold_loop_playback :: bool

definition default_hold :: queue_hold_config where
  "default_hold = \<lparr>hold_audio_file = None, hold_loop_playback = True\<rparr>"

record voice_prompts =
  transfer_prompt :: "string option"
  busy_prompt :: "string option"
  off_hours_prompt :: "string option"
  no_answer_prompt :: "string option"

definition TemporarilyUnavailable :: nat where "TemporarilyUnavailable = 480"

record queue_plan =
  accept_immediately :: bool
  passthrough_ringback :: bool
  hold :: "queue_hold_config option"
  fallback :: "queue_fallback_action option"
  plan_strategy :: "dial_strategy option"
  ring_timeout :: "duration option"
  acd_policy :: "string option"
  label :: "string option"
  retry_codes :: "nat list option"
  no_trying_timeout :: "duration option"
  plan_prompts :: "voice_prompts option"
  queue_name :: string
  failure_audio :: "string option"

definition default_plan :: queue_plan where
  "default_plan =
     \<lparr>accept_immediately = False, passthrough_ringback = False,
      hold = Some (default_hold\<lparr>hold_audio_file := Some ''config/sounds/phone-calling.wav''\<rparr>),
      fallback = Some (FbFailure (PlayThenHangup ''config/sounds/unavailable-phone.wav'' False TemporarilyUnavailable
                         (Some ''All agents are currently unavailable''))),
      plan_strategy = None, ring_timeout = None, acd_policy = None, label = None, retry_codes = None,
      no_trying_timeout = None, plan_prompts = None,
      queue_name = [], failure_audio = None\<rparr>"

section \<open>The flow of a dialplan\<close>

datatype flow = Targets dial_strategy | QueueFlow queue_plan flow | AppFlow string "string option" bool

fun replace_terminal :: "flow \<Rightarrow> flow \<Rightarrow> flow" where
  "replace_terminal (QueueFlow plan next) t = QueueFlow plan (replace_terminal next t)"
| "replace_terminal _ t = t"

fun flow_is_empty :: "flow \<Rightarrow> bool" where
  "flow_is_empty (Targets s) = (strategy_targets s = [])"
| "flow_is_empty (QueueFlow _ _) = False"
| "flow_is_empty (AppFlow _ _ _) = False"

fun get_queue_plan_recursive :: "flow \<Rightarrow> queue_plan option" where
  "get_queue_plan_recursive (QueueFlow plan _) = Some plan"
| "get_queue_plan_recursive _ = None"

fun all_webrtc_target :: "flow \<Rightarrow> bool" where
  "all_webrtc_target (Targets s) =
     (strategy_targets s \<noteq> [] \<and> (\<forall>l \<in> set (strategy_targets s). supports_webrtc l))"
| "all_webrtc_target (QueueFlow plan next) =
     (case plan_strategy plan of
        Some s \<Rightarrow> if strategy_targets s \<noteq> [] then (\<forall>l \<in> set (strategy_targets s). supports_webrtc l)
                  else all_webrtc_target next
      | None \<Rightarrow> all_webrtc_target next)"
| "all_webrtc_target (AppFlow _ _ _) = False"

fun find_targets :: "flow \<Rightarrow> location list option" where
  "find_targets (Targets s) = Some (strategy_targets s)"
| "find_targets (QueueFlow _ next) = find_targets next"
| "find_targets (AppFlow _ _ _) = None"

fun is_parallel :: "flow \<Rightarrow> bool" where
  "is_parallel (Targets (Parallel _)) = True"
| "is_parallel (QueueFlow _ next) = is_parallel next"
| "is_parallel _ = False"

fun has_queue :: "flow \<Rightarrow> bool" where
  "has_queue (QueueFlow _ _) = True"
| "has_queue _ = False"

fun has_queue_hold_audio :: "flow \<Rightarrow> bool" where
  "has_queue_hold_audio (QueueFlow plan next) =
     (Option.bind (hold plan) hold_audio_file \<noteq> None \<or> has_queue_hold_audio next)"
| "has_queue_hold_audio _ = False"

definition with_targets :: "dial_strategy \<Rightarrow> flow \<Rightarrow> flow" where
  "with_targets s f = replace_terminal f (Targets s)"

definition with_queue :: "queue_plan \<Rightarrow> flow \<Rightarrow> flow" where
  "with_queue q f = QueueFlow q f"

definition with_application :: "string \<Rightarrow> string option \<Rightarrow> bool \<Rightarrow> flow \<Rightarrow> flow" where
  "with_application name params auto f = AppFlow name params auto"

definition first_target :: "flow \<Rightarrow> location option" where
  "first_target f = (case find_targets f of Some (l # _) \<Rightarrow> Some l | _ \<Rightarrow> None)"

section \<open>Endpoints survive being written and read\<close>

definition ascii :: "string \<Rightarrow> bool" where
  "ascii s \<longleftrightarrow> (\<forall>c \<in> set s. (of_char c :: nat) < 128)"

definition ci_prefix :: "string \<Rightarrow> string \<Rightarrow> bool" where
  "ci_prefix p s \<longleftrightarrow> length p \<le> length s \<and> eq_ignore_ascii_case (take (length p) s) p"

text \<open>The endpoints that \<open>endpoint_parse\<close> can return.\<close>

fun endpoint_wf :: "transfer_endpoint \<Rightarrow> bool" where
  "endpoint_wf (EpUri u) = (u \<noteq> [] \<and> trim u = u \<and> \<not> ci_prefix ''queue:'' u \<and> \<not> ci_prefix ''ivr:'' u)"
| "endpoint_wf (EpQueue n) = (n \<noteq> [] \<and> trim n = n)"
| "endpoint_wf (EpIvr n) = (n \<noteq> [] \<and> trim n = n)"

lemma ascii_boundary: "ascii s \<Longrightarrow> i \<le> length s \<Longrightarrow> is_char_boundary s i"
  using nth_mem [of i s] by (fastforce simp: ascii_def is_char_boundary_def)

lemma strip_endpoint_ascii:
  "ascii s \<Longrightarrow> strip_endpoint_prefix p s = Ret (if ci_prefix p s then Some (trim (drop (length p) s)) else None)"
  by (auto simp: strip_endpoint_prefix_def ci_prefix_def ascii_boundary)

lemma ascii_drop: "ascii s \<Longrightarrow> ascii (drop n s)"
  by (auto simp: ascii_def dest: in_set_dropD)

lemma trim_set: "set (trim s) \<subseteq> set s"
  by (auto simp: trim_def trim_start_def trim_end_def dest!: set_dropWhileD)

lemma ascii_trim: "ascii s \<Longrightarrow> ascii (trim s)"
  using trim_set by (fastforce simp: ascii_def)

lemma trim_prefixed:
  assumes "trim n = n" "n \<noteq> []" "p \<noteq> []" "\<forall>c \<in> set p. \<not> is_whitespace c"
  shows "trim (p @ n) = p @ n"
proof -
  have "\<not> is_whitespace (last n)"
  proof -
    have "last (trim_end m) = x \<Longrightarrow> trim_end m \<noteq> [] \<Longrightarrow> \<not> is_whitespace x" for m x
      using hd_dropWhile [of is_whitespace "rev m"] by (auto simp: trim_end_def last_rev)
    from this [of "trim_start n" "last n"] assms(1,2) show ?thesis by (simp add: trim_def)
  qed
  then have "dropWhile is_whitespace (rev (p @ n)) = rev (p @ n)"
    using assms(2) by (cases n rule: rev_cases) auto
  moreover have "dropWhile is_whitespace (p @ n) = p @ n" using assms(3,4) by (cases p) auto
  ultimately show ?thesis by (simp add: trim_def trim_start_def trim_end_def)
qed

text \<open>What is written is read back.  Every endpoint in ASCII that the parser can return is returned for its
  own text; conversely whatever the parser returns for an ASCII text is such an endpoint, and it never panics on ASCII.\<close>

theorem endpoint_roundtrip:
  "(endpoint_wf e \<and> ascii (endpoint_display e) \<longrightarrow> endpoint_parse (endpoint_display e) = Ret (Some e))
   \<and> (ascii s \<longrightarrow> (\<exists>r. endpoint_parse s = Ret r \<and> (\<forall>e'. r = Some e' \<longrightarrow> endpoint_wf e')))"
proof (intro conjI impI)
  assume wf: "endpoint_wf e \<and> ascii (endpoint_display e)"
  then show "endpoint_parse (endpoint_display e) = Ret (Some e)"
  proof (cases e)
    case (EpUri u)
    with wf show ?thesis by (simp add: endpoint_parse_def strip_endpoint_ascii Let_def)
  next
    case (EpQueue n)
    have "trim (''queue:'' @ n) = ''queue:'' @ n"
      using wf EpQueue by (intro trim_prefixed) (auto simp: is_whitespace_def)
    moreover have "ci_prefix ''queue:'' (''queue:'' @ n)" by (simp add: ci_prefix_def)
    ultimately show ?thesis
      using wf EpQueue by (simp add: endpoint_parse_def strip_endpoint_ascii Let_def)
  next
    case (EpIvr n)
    have "trim (''ivr:'' @ n) = ''ivr:'' @ n"
      using wf EpIvr by (intro trim_prefixed) (auto simp: is_whitespace_def)
    moreover have "ci_prefix ''ivr:'' (''ivr:'' @ n)" by (simp add: ci_prefix_def)
    moreover have "\<not> ci_prefix ''queue:'' (''ivr:'' @ n)"
      by (cases n) (auto simp: ci_prefix_def eq_ignore_ascii_case_def to_ascii_lowercase_def ascii_lower_def)
    ultimately show ?thesis
      using wf EpIvr by (simp add: endpoint_parse_def strip_endpoint_ascii Let_def)
  qed
next
  assume "ascii s"
  then have "ascii (trim s)" by (rule ascii_trim)
  then show "\<exists>r. endpoint_parse s = Ret r \<and> (\<forall>e'. r = Some e' \<longrightarrow> endpoint_wf e')"
    by (auto simp: endpoint_parse_def strip_endpoint_ascii Let_def)
qed

lemma endpoint_roundtrip_witness:
  "endpoint_parse (endpoint_display (EpIvr ''main menu'')) = Ret (Some (EpIvr ''main menu''))"
proof -
  have "endpoint_wf (EpIvr ''main menu'')" "ascii (endpoint_display (EpIvr ''main menu''))" by code_simp+
  then show ?thesis using endpoint_roundtrip [of "EpIvr ''main menu''" "[]"] by blast
qed

text \<open>A name with a letter outside ASCII crashes the parser.  The text of the endpoint \<open>ivr:a\<close> followed by the
  two bytes of an accented letter is cut inside that letter by the test for the longer prefix.\<close>

theorem endpoint_parse_panics:
  "endpoint_parse (endpoint_display (EpIvr [CHR ''a'', CHR 0xC3, CHR 0xA9])) = Panic"
  by code_simp

section \<open>The flow\<close>

fun queues :: "flow \<Rightarrow> queue_plan list" where
  "queues (QueueFlow q f) = q # queues f"
| "queues _ = []"

text \<open>Setting the targets of a plan replaces its end and keeps its queues; a queue is put in front.\<close>

theorem flow_operations:
  "queues (with_targets s f) = queues f \<and> find_targets (with_targets s f) = Some (strategy_targets s)
   \<and> queues (with_queue q f) = q # queues f \<and> find_targets (with_queue q f) = find_targets f
   \<and> with_targets s (with_queue q f) = with_queue q (with_targets s f)
   \<and> get_queue_plan_recursive f = (case queues f of [] \<Rightarrow> None | p # _ \<Rightarrow> Some p)
   \<and> has_queue_hold_audio f = (\<exists>p \<in> set (queues f). \<exists>h a. hold p = Some h \<and> hold_audio_file h = Some a)
   \<and> (flow_is_empty f \<longleftrightarrow> queues f = [] \<and> find_targets f = Some [])"
proof -
  have "queues (replace_terminal f (Targets s)) = queues f" "find_targets (replace_terminal f (Targets s)) = Some (strategy_targets s)"
    by (induction f) auto
  moreover have "has_queue_hold_audio f = (\<exists>p \<in> set (queues f). \<exists>h a. hold p = Some h \<and> hold_audio_file h = Some a)"
    by (induction f) (auto simp: bind_eq_Some_conv)
  moreover have "get_queue_plan_recursive f = (case queues f of [] \<Rightarrow> None | p # _ \<Rightarrow> Some p)" by (cases f) auto
  moreover have "flow_is_empty f \<longleftrightarrow> queues f = [] \<and> find_targets f = Some []" by (cases f) auto
  ultimately show ?thesis by (simp add: with_targets_def with_queue_def)
qed

end
