(* ===== verification/Users.thy ===== *)
theory Users
  imports Dialplan
begin

text \<open>
  Users and where they come from: the record of a user with the values a request fills in
  (\<open>src/src/call/user.rs\<close>), the back ends in memory and in a text file, the chain of back ends
  (\<open>src/src/proxy/user.rs\<close>, \<open>src/src/proxy/user_plain.rs\<close>) and the one on the table of extensions with its cache
  (\<open>src/src/proxy/user_extension.rs\<close>).  What authentication relies on is the contract \<open>user_store\<close>: a back end
  hands out only users that are stored, with their own password.  The bounded cache of the sources is a library;
  its operations are a record of functions with the laws of its documentation.
\<close>

section \<open>Users\<close>

record sip_contact =
  ct_display_name :: "string option"
  ct_uri :: uri
  ct_transport :: "transport option"

record sip_user =
  su_id :: nat
  su_enabled :: bool
  su_username :: string
  su_password :: "string option"
  su_realm :: "string option"
  su_departments :: "string list option"
  su_display_name :: "string option"
  su_email :: "string option"
  su_phone :: "string option"
  su_note :: "string option"
  su_allow_guest_calls :: bool
  su_voicemail_disabled :: bool
  su_forwarding_mode :: "string option"
  su_forwarding_destination :: "string option"
  su_forwarding_timeout :: "int option"
  su_origin_contact :: "sip_contact option"
  su_contact :: "sip_contact option"
  su_from :: "uri option"
  su_destination :: "sip_addr option"
  su_is_support_webrtc :: bool

definition default_user :: sip_user where
  "default_user =
     \<lparr>su_id = 0, su_enabled = True, su_username = [], su_password = None, su_realm = None, su_departments = None,
      su_display_name = None, su_email = None, su_phone = None, su_note = None, su_allow_guest_calls = False,
      su_voicemail_disabled = False, su_forwarding_mode = None, su_forwarding_destination = None,
      su_forwarding_timeout = None, su_origin_contact = None, su_contact = None, su_from = None,
      su_destination = None, su_is_support_webrtc = False\<rparr>"

definition show_user :: "sip_user \<Rightarrow> string" where
  "show_user u = (case su_realm u of Some realm \<Rightarrow> su_username u @ ''@'' @ realm | None \<Rightarrow> su_username u)"

definition get_contact_username :: "sip_user \<Rightarrow> string" where
  "get_contact_username u = (case su_origin_contact u of Some c \<Rightarrow> user_or_default (ct_uri c) | None \<Rightarrow> su_username u)"

definition or_else :: "'a option \<Rightarrow> 'a option \<Rightarrow> 'a option" where
  "or_else a b = (case a of Some x \<Rightarrow> Some x | None \<Rightarrow> b)"

text \<open>What is missing in one user is taken from another.  The name, whether the user is enabled, the voicemail and the
  forwarding stay as they are.\<close>

definition merge_with :: "sip_user \<Rightarrow> sip_user \<Rightarrow> sip_user" where
  "merge_with other u =
     u\<lparr>su_id := (if su_id u = 0 then su_id other else su_id u),
       su_password := or_else (su_password u) (su_password other),
       su_realm := or_else (su_realm u) (su_realm other),
       su_departments := or_else (su_departments u) (su_departments other),
       su_display_name := or_else (su_display_name u) (su_display_name other),
       su_email := or_else (su_email u) (su_email other),
       su_phone := or_else (su_phone u) (su_phone other),
       su_note := or_else (su_note u) (su_note other),
       su_allow_guest_calls := (if \<not> su_allow_guest_calls u then su_allow_guest_calls other else True),
       su_origin_contact := or_else (su_origin_contact u) (su_origin_contact other),
       su_contact := or_else (su_contact u) (su_contact other),
       su_from := or_else (su_from u) (su_from other),
       su_destination := or_else (su_destination u) (su_destination other),
       su_is_support_webrtc := (if \<not> su_is_support_webrtc u then su_is_support_webrtc other else True)\<rparr>"

definition forwarding_mode_of :: "string \<Rightarrow> call_forwarding_mode option" where
  "forwarding_mode_of t =
     (if t = ''always'' then Some FwdAlways
      else if t = ''when_busy'' \<or> t = ''busy'' then Some WhenBusy
      else if t = ''when_not_answered'' \<or> t = ''no_answer'' then Some WhenNoAnswer
      else None)"

definition forwarding_config :: "sip_user \<Rightarrow> call_forwarding_config option run" where
  "forwarding_config u =
     (case su_forwarding_mode u of
        None \<Rightarrow> Ret None
      | Some value \<Rightarrow>
          (let mode_text = to_ascii_lowercase (trim value)
           in if mode_text = [] \<or> mode_text = ''none'' then Ret None
              else case su_forwarding_destination u of
                     None \<Rightarrow> Ret None
                   | Some dest \<Rightarrow>
                       if trim dest = [] then Ret None
                       else bind_run (endpoint_parse (trim dest)) (\<lambda>ep. Ret (
                              case ep of
                                None \<Rightarrow> None
                              | Some endpoint \<Rightarrow>
                                  map_option (\<lambda>mode. call_forwarding_new mode endpoint
                                     (case su_forwarding_timeout u of
                                        Some v \<Rightarrow> clamp_timeout v
                                      | None \<Rightarrow> CALL_FORWARDING_TIMEOUT_DEFAULT_SECS)) (forwarding_mode_of mode_text)))))"

text \<open>The digest of the credentials, with the hash functions given.\<close>

datatype digest_algorithm = Md5 | Md5Sess | Sha256 | Sha256Sess | Sha512 | Sha512Sess

fun hash_family :: "digest_algorithm \<Rightarrow> string" where
  "hash_family Md5 = ''md5''" | "hash_family Md5Sess = ''md5''" | "hash_family Sha256 = ''sha256''"
| "hash_family Sha256Sess = ''sha256''" | "hash_family Sha512 = ''sha512''" | "hash_family Sha512Sess = ''sha512''"

definition text_or_empty :: "string option \<Rightarrow> string" where
  "text_or_empty v = (case v of Some s \<Rightarrow> s | None \<Rightarrow> [])"

definition auth_digest :: "(string \<Rightarrow> string \<Rightarrow> string) \<Rightarrow> digest_algorithm \<Rightarrow> sip_user \<Rightarrow> string" where
  "auth_digest hex_hash algorithm u =
     hex_hash (hash_family algorithm) (su_username u @ '':'' @ text_or_empty (su_realm u) @ '':'' @ text_or_empty (su_password u))"

section \<open>Realms\<close>

definition normalize_realm :: "string \<Rightarrow> string" where
  "normalize_realm realm =
     (let r = (case find_char (CHR '':'') realm of Some pos \<Rightarrow> take pos realm | None \<Rightarrow> realm)
      in if r = [] \<or> r = ''*'' \<or> r = ''127.0.0.1'' \<or> r = ''::1'' then ''localhost'' else r)"

section \<open>Users in memory\<close>

datatype auth_error = UserNotFound | UserDisabled | InvalidCredentials | SpamDetected | PaymentRequired | AuthOther string

type_synonym user_result = "auth_error + sip_user option"

type_synonym user_map = "(string, sip_user) hmap"

definition user_identifier :: "string \<Rightarrow> string option \<Rightarrow> string" where
  "user_identifier user realm = (case realm of Some r \<Rightarrow> user @ ''@'' @ normalize_realm r | None \<Rightarrow> user)"

definition mem_create_user :: "sip_user \<Rightarrow> user_map \<Rightarrow> user_map" where
  "mem_create_user u users = hm_insert (user_identifier (su_username u) (su_realm u)) u users"

definition mem_users_new :: "sip_user list option \<Rightarrow> user_map" where
  "mem_users_new builtin = (case builtin of Some us \<Rightarrow> fold mem_create_user us [] | None \<Rightarrow> [])"

definition mem_update_user :: "string \<Rightarrow> string option \<Rightarrow> sip_user \<Rightarrow> user_map \<Rightarrow> user_map" where
  "mem_update_user username realm u users = hm_insert (user_identifier username realm) u users"

definition mem_delete_user :: "string \<Rightarrow> string option \<Rightarrow> user_map \<Rightarrow> user_map" where
  "mem_delete_user user realm users = hm_remove (user_identifier user realm) users"

text \<open>Changing a user that is not there panics.\<close>

definition mem_change_user :: "(sip_user \<Rightarrow> sip_user) \<Rightarrow> string \<Rightarrow> string option \<Rightarrow> user_map \<Rightarrow> user_map run" where
  "mem_change_user f username realm users =
     (let i = user_identifier username realm
      in case hm_get users i of Some u \<Rightarrow> Ret (hm_insert i (f u) users) | None \<Rightarrow> Panic)"

definition update_user_password :: "string \<Rightarrow> string option \<Rightarrow> string \<Rightarrow> user_map \<Rightarrow> user_map run" where
  "update_user_password username realm password = mem_change_user (\<lambda>u. u\<lparr>su_password := Some password\<rparr>) username realm"

definition enable_user :: "string \<Rightarrow> string option \<Rightarrow> user_map \<Rightarrow> user_map run" where
  "enable_user = mem_change_user (\<lambda>u. u\<lparr>su_enabled := True\<rparr>)"

definition disable_user :: "string \<Rightarrow> string option \<Rightarrow> user_map \<Rightarrow> user_map run" where
  "disable_user = mem_change_user (\<lambda>u. u\<lparr>su_enabled := False\<rparr>)"

definition empty_realm :: "string \<Rightarrow> bool" where
  "empty_realm realm \<longleftrightarrow> realm = []"

definition mem_get_user :: "user_map \<Rightarrow> string \<Rightarrow> string option \<Rightarrow> user_result" where
  "mem_get_user users username realm =
     (case hm_get users (user_identifier username realm) of
        Some u \<Rightarrow> Inr (Some (u\<lparr>su_realm := realm\<rparr>))
      | None \<Rightarrow>
          (case hm_get users username of
             Some u \<Rightarrow>
               if (case su_realm u of Some r \<Rightarrow> r \<noteq> [] | None \<Rightarrow> False) then Inl UserNotFound else Inr (Some u)
           | None \<Rightarrow> Inr None))"

section \<open>Users in a text file\<close>

definition plain_line :: "string \<Rightarrow> user_map \<Rightarrow> user_map" where
  "plain_line text users =
     (let line = trim text
      in if line = [] \<or> starts_with ''#'' line then users
         else case split_once (CHR '':'') line of
                None \<Rightarrow> users
              | Some (name, password) \<Rightarrow>
                  hm_insert (trim name) (default_user\<lparr>su_username := trim name, su_password := Some (trim password)\<rparr>) users)"

definition plain_load :: "string list \<Rightarrow> user_map" where
  "plain_load ls = fold plain_line ls []"

definition plain_get_user :: "user_map \<Rightarrow> string \<Rightarrow> string option \<Rightarrow> user_result" where
  "plain_get_user users username realm =
     (case hm_get users username of
        None \<Rightarrow> Inr None
      | Some u \<Rightarrow> if \<not> su_enabled u then Inl UserDisabled else Inr (Some (u\<lparr>su_realm := realm\<rparr>)))"

section \<open>A chain of back ends\<close>

record user_backend =
  ub_get_user :: "string \<Rightarrow> string option \<Rightarrow> user_result"
  ub_is_same_realm :: "string \<Rightarrow> bool"

definition mem_backend :: "user_map \<Rightarrow> user_backend" where
  "mem_backend users = \<lparr>ub_get_user = mem_get_user users, ub_is_same_realm = empty_realm\<rparr>"

definition plain_backend :: "user_map \<Rightarrow> user_backend" where
  "plain_backend users = \<lparr>ub_get_user = plain_get_user users, ub_is_same_realm = empty_realm\<rparr>"

fun chain_get_user :: "auth_error option \<Rightarrow> user_backend list \<Rightarrow> string \<Rightarrow> string option \<Rightarrow> user_result" where
  "chain_get_user last_err [] username realm = (case last_err of Some e \<Rightarrow> Inl e | None \<Rightarrow> Inr None)"
| "chain_get_user last_err (b # bs) username realm =
     (case ub_get_user b username realm of
        Inr (Some u) \<Rightarrow> Inr (Some u)
      | Inr None \<Rightarrow> chain_get_user last_err bs username realm
      | Inl e \<Rightarrow> chain_get_user (Some e) bs username realm)"

definition chain_is_same_realm :: "user_backend list \<Rightarrow> string \<Rightarrow> bool" where
  "chain_is_same_realm bs realm = list_ex (\<lambda>b. ub_is_same_realm b realm) bs"

definition chained_backend :: "user_backend list \<Rightarrow> user_backend" where
  "chained_backend bs = \<lparr>ub_get_user = chain_get_user None bs, ub_is_same_realm = chain_is_same_realm bs\<rparr>"

section \<open>Extensions in the database\<close>

record extension_row =
  ex_id :: nat
  ex_extension :: string
  ex_sip_password :: "string option"
  ex_login_disabled :: bool
  ex_voicemail_disabled :: bool
  ex_allow_guest_calls :: bool
  ex_forwarding_mode :: "string option"
  ex_forwarding_destination :: "string option"
  ex_forwarding_timeout :: "int option"
  ex_display_name :: "string option"
  ex_email :: "string option"
  ex_notes :: "string option"
  ex_departments :: "string list"

definition build_sip_user :: "extension_row \<Rightarrow> string option \<Rightarrow> sip_user" where
  "build_sip_user row realm =
     default_user\<lparr>su_id := ex_id row, su_username := ex_extension row, su_password := ex_sip_password row,
       su_enabled := \<not> ex_login_disabled row, su_realm := realm, su_forwarding_mode := ex_forwarding_mode row,
       su_forwarding_destination := ex_forwarding_destination row, su_forwarding_timeout := ex_forwarding_timeout row,
       su_departments := (if ex_departments row = [] then None else Some (ex_departments row)),
       su_display_name := ex_display_name row, su_email := ex_email row, su_note := ex_notes row,
       su_allow_guest_calls := ex_allow_guest_calls row, su_voicemail_disabled := ex_voicemail_disabled row\<rparr>"

text \<open>
  A cache of bounded size that forgets the entry used longest ago, from a library: looking up counts as use.  The laws:
  what is put is found; putting may forget other entries and changes none; a lookup changes nothing else; what is taken
  out is gone; a new cache is empty.
\<close>

record ('k, 'v, 'c) lru_lib =
  lru_new :: "nat \<Rightarrow> 'c"
  lru_put :: "'k \<Rightarrow> 'v \<Rightarrow> 'c \<Rightarrow> 'c"
  lru_get :: "'k \<Rightarrow> 'c \<Rightarrow> 'v option \<times> 'c"
  lru_pop :: "'k \<Rightarrow> 'c \<Rightarrow> 'c"
  lru_len :: "'c \<Rightarrow> nat"

definition lru_find :: "('k, 'v, 'c) lru_lib \<Rightarrow> 'k \<Rightarrow> 'c \<Rightarrow> 'v option" where
  "lru_find lib k c = fst (lru_get lib k c)"

definition lru_laws :: "('k, 'v, 'c) lru_lib \<Rightarrow> bool" where
  "lru_laws lib \<longleftrightarrow>
     (\<forall>k v c. lru_find lib k (lru_put lib k v c) = Some v)
     \<and> (\<forall>k k' v c. k' \<noteq> k \<longrightarrow> lru_find lib k (lru_put lib k' v c) \<in> {lru_find lib k c, None})
     \<and> (\<forall>k k' c. lru_find lib k (snd (lru_get lib k' c)) = lru_find lib k c)
     \<and> (\<forall>k k' c. lru_find lib k (lru_pop lib k' c) = (if k = k' then None else lru_find lib k c))
     \<and> (\<forall>k n. lru_find lib k (lru_new lib n) = None)"

record ('c) extension_backend =
  eb_cache :: 'c
  eb_ttl_secs :: nat

type_synonym ext_key = "string \<times> string option"
type_synonym ext_entry = "sip_user option \<times> instant"

text \<open>The rows of an extension, as the database returns them; the last one counts.\<close>

definition fetch_extension :: "(string \<Rightarrow> extension_row list result) \<Rightarrow> string \<Rightarrow> extension_row option result" where
  "fetch_extension db ext = map_sum id (\<lambda>rows. if rows = [] then None else Some (last rows)) (db ext)"

definition ext_fetch ::
  "(ext_key, ext_entry, 'c) lru_lib \<Rightarrow> (string \<Rightarrow> extension_row list result) \<Rightarrow> instant \<Rightarrow> string \<Rightarrow> string option
     \<Rightarrow> 'c extension_backend \<Rightarrow> user_result \<times> 'c extension_backend" where
  "ext_fetch lru db now username realm b =
     (case fetch_extension db username of
        Inl e \<Rightarrow> (Inl (AuthOther e), b)
      | Inr row \<Rightarrow>
          (let u = map_option (\<lambda>r. build_sip_user r realm) row
           in (Inr u, if 0 < eb_ttl_secs b then b\<lparr>eb_cache := lru_put lru (username, realm) (u, now) (eb_cache b)\<rparr> else b)))"

definition ext_get_user ::
  "(ext_key, ext_entry, 'c) lru_lib \<Rightarrow> (string \<Rightarrow> extension_row list result) \<Rightarrow> instant \<Rightarrow> string \<Rightarrow> string option
     \<Rightarrow> 'c extension_backend \<Rightarrow> user_result \<times> 'c extension_backend" where
  "ext_get_user lru db now username realm b =
     (if trim username = [] then (Inr None, b)
      else if 0 < eb_ttl_secs b then
        (let (hit, cache) = lru_get lru (username, realm) (eb_cache b); b1 = b\<lparr>eb_cache := cache\<rparr>
         in case hit of
              Some (u, timestamp) \<Rightarrow>
                if now - timestamp < secs (eb_ttl_secs b) then (Inr u, b1) else ext_fetch lru db now username realm b1
            | None \<Rightarrow> ext_fetch lru db now username realm b1)
      else ext_fetch lru db now username realm b)"

lemma lru_put_same: "lru_laws lru \<Longrightarrow> lru_find lru k (lru_put lru k v c) = Some v"
  unfolding lru_laws_def by blast

lemma lru_put_other: "lru_laws lru \<Longrightarrow> k \<noteq> k' \<Longrightarrow> lru_find lru k (lru_put lru k' v c) = Some w \<Longrightarrow> lru_find lru k c = Some w"
  unfolding lru_laws_def by (metis (no_types, lifting) insertE option.distinct(1) singletonD)

lemma lru_get_frame: "lru_laws lru \<Longrightarrow> lru_find lru k (snd (lru_get lru k' c)) = lru_find lru k c"
  unfolding lru_laws_def by blast

lemma lru_popped: "lru_laws lru \<Longrightarrow> lru_find lru k (lru_pop lru k' c) = (if k = k' then None else lru_find lru k c)"
  unfolding lru_laws_def by blast

lemma lru_empty: "lru_laws lru \<Longrightarrow> lru_find lru k (lru_new lru n) = None"
  unfolding lru_laws_def by blast

section \<open>The contract of a back end\<close>

locale user_store =
  fixes get_user :: "'s \<Rightarrow> string \<Rightarrow> string option \<Rightarrow> user_result" and stored :: "'s \<Rightarrow> sip_user set"
  assumes stored_only: "get_user s n r = Inr (Some u) \<Longrightarrow>
    \<exists>v \<in> stored s. su_username u = su_username v \<and> su_password u = su_password v \<and> su_enabled u = su_enabled v"
begin

text \<open>A chain of back ends hands out only what one of them has stored.\<close>

lemma chain_stored:
  "chain_get_user e (map (\<lambda>s. \<lparr>ub_get_user = get_user s, ub_is_same_realm = f s\<rparr>) ss) n r = Inr (Some u) \<Longrightarrow>
     \<exists>s \<in> set ss. \<exists>v \<in> stored s. su_username u = su_username v \<and> su_password u = su_password v \<and> su_enabled u = su_enabled v"
proof (induction ss arbitrary: e)
  case (Cons s ss)
  show ?case
  proof (cases "get_user s n r")
    case (Inl x)
    then show ?thesis using Cons.prems Cons.IH [of "Some x"] by auto
  next
    case (Inr o')
    then show ?thesis using Cons.prems Cons.IH [of e] stored_only [of s n r] by (cases o') auto
  qed
qed (simp split: option.splits)

end

definition stored_users :: "user_map \<Rightarrow> sip_user set" where
  "stored_users users = set (hm_values users)"

lemma stored_get: "hm_get users i = Some u \<Longrightarrow> u \<in> stored_users users"
  unfolding stored_users_def by (force dest: map_of_SomeD)

interpretation mem_store: user_store mem_get_user stored_users
  by unfold_locales (fastforce simp: mem_get_user_def dest: stored_get split: option.splits if_splits)

interpretation plain_store: user_store plain_get_user stored_users
  by unfold_locales (fastforce simp: plain_get_user_def dest: stored_get split: option.splits if_splits)

section \<open>Users of the back ends\<close>

lemma user_created_found:
  "mem_get_user (mem_create_user u users) (su_username u) (su_realm u) = Inr (Some u)"
  by (simp add: mem_get_user_def mem_create_user_def)

lemma user_deleted_gone:
  "hm_get users n = None \<Longrightarrow> mem_get_user (mem_delete_user n r users) n r = Inr None"
  by (simp add: mem_get_user_def mem_delete_user_def)

text \<open>A line of the file of users, a name and a password with a colon between them, gives a user with that name and
  that password; the password may have colons itself.\<close>

lemma plain_line_roundtrip:
  assumes "CHR '':'' \<notin> set name" "trim (name @ '':'' @ password) = name @ '':'' @ password" "name \<noteq> []" "hd name \<noteq> CHR ''#''"
    "trim name = name" "trim password = password"
  shows "plain_get_user (plain_line (name @ '':'' @ password) users) name realm
     = Inr (Some (default_user\<lparr>su_username := name, su_password := Some password, su_realm := realm\<rparr>))"
  using assms split_once_append [of "CHR '':''" name password]
  by (cases name) (auto simp: plain_line_def Let_def starts_with_def plain_get_user_def default_user_def)

text \<open>A cached user is served until its time is over, whatever the database says.\<close>

lemma ext_cached:
  assumes "lru_laws lru" "trim username \<noteq> []" "0 < eb_ttl_secs b" "db username = Inr rows" "lru_find lru (username, realm) (eb_cache b) = None"
    "ext_get_user lru db t username realm b = (r, b1)" "t' - t < secs (eb_ttl_secs b)"
  shows "fst (ext_get_user lru db' t' username realm b1) = r"
proof -
  have miss: "fst (lru_get lru (username, realm) (eb_cache b)) = None" using assms(5) by (simp add: lru_find_def)
  let ?u = "map_option (\<lambda>r. build_sip_user r realm) (if rows = [] then None else Some (last rows))"
  let ?c = "lru_put lru (username, realm) (?u, t) (snd (lru_get lru (username, realm) (eb_cache b)))"
  have "r = Inr ?u \<and> eb_cache b1 = ?c \<and> eb_ttl_secs b1 = eb_ttl_secs b"
    using assms(2,3,4,6) miss
    by (cases "lru_get lru (username, realm) (eb_cache b)") (auto simp: ext_get_user_def Let_def ext_fetch_def fetch_extension_def)
  moreover have "fst (lru_get lru (username, realm) ?c) = Some (?u, t)" using assms(1) by (simp add: lru_laws_def lru_find_def)
  ultimately show ?thesis
    using assms(2,3,7) by (cases "lru_get lru (username, realm) ?c") (simp add: ext_get_user_def Let_def)
qed

text \<open>Merging keeps what a user has, and the fields that decide on access.\<close>

lemma merge_with_frame:
  "su_username (merge_with o' u) = su_username u" "su_enabled (merge_with o' u) = su_enabled u"
  "su_password o' = None \<Longrightarrow> su_password (merge_with o' u) = su_password u"
  "su_voicemail_disabled (merge_with o' u) = su_voicemail_disabled u"
  by (simp_all add: merge_with_def or_else_def split: option.split)

section \<open>A cache that satisfies the laws\<close>

definition list_lru :: "('k, 'v, nat \<times> ('k \<times> 'v) list) lru_lib" where
  "list_lru =
     \<lparr>lru_new = \<lambda>n. (n - 1, []),
      lru_put = \<lambda>k v (n, xs). (n, take (Suc n) ((k, v) # hm_remove k xs)),
      lru_get = \<lambda>k (n, xs). (case hm_get xs k of Some v \<Rightarrow> (Some v, (n, (k, v) # hm_remove k xs)) | None \<Rightarrow> (None, (n, xs))),
      lru_pop = \<lambda>k (n, xs). (n, hm_remove k xs), lru_len = \<lambda>(n, xs). length xs\<rparr>"

lemma map_of_take: "map_of (take n xs) k \<in> {map_of xs k, None}"
proof (induction xs arbitrary: n)
  case (Cons x xs)
  then show ?case by (cases n; cases x) auto
qed simp

lemma list_lru_find: "lru_find list_lru k (n, xs) = hm_get xs k"
  by (simp add: lru_find_def list_lru_def split: option.split)

lemma list_lru_laws: "lru_laws list_lru"
  unfolding lru_laws_def
proof (intro conjI allI impI)
  fix k k' :: 'a and v :: 'b and c :: "nat \<times> ('a \<times> 'b) list" and n :: nat
  obtain m xs where c: "c = (m, xs)" by fastforce
  show "lru_find list_lru k (lru_put list_lru k v c) = Some v"
    by (simp add: c list_lru_find) (simp add: list_lru_def lru_find_def)
  show "lru_find list_lru k (lru_put list_lru k' v c) \<in> {lru_find list_lru k c, None}" if "k' \<noteq> k"
  proof -
    have "lru_put list_lru k' v c = (m, (k', v) # take m (hm_remove k' xs))" by (simp add: c list_lru_def)
    then show ?thesis using that map_of_take [of m "hm_remove k' xs" k] by (simp add: c list_lru_find)
  qed
  show "lru_find list_lru k (snd (lru_get list_lru k' c)) = lru_find list_lru k c"
  proof (cases "hm_get xs k'")
    case None
    then have "snd (lru_get list_lru k' c) = c" by (simp add: c list_lru_def)
    then show ?thesis by simp
  next
    case (Some w)
    then have "snd (lru_get list_lru k' c) = (m, (k', w) # hm_remove k' xs)" by (simp add: c list_lru_def)
    then show ?thesis using Some by (simp add: c list_lru_find)
  qed
  show "lru_find list_lru k (lru_pop list_lru k' c) = (if k = k' then None else lru_find list_lru k c)"
  proof -
    have "lru_pop list_lru k' c = (m, hm_remove k' xs)" by (simp add: c list_lru_def)
    then show ?thesis by (simp add: c list_lru_find)
  qed
  have "lru_new list_lru n = (n - 1, [] :: ('a \<times> 'b) list)" by (simp add: list_lru_def)
  then show "lru_find list_lru k (lru_new list_lru n) = (None :: 'b option)" by (simp only: list_lru_find) simp
qed

end
