(* ===== verification/Ip_Addr.thy ===== *)
theory Ip_Addr
  imports Prelude
begin

text \<open>
  Internet addresses as the standard library has them: \<open>IpAddr\<close>, its octets and segments, the
  parsers behind \<open>FromStr\<close> for \<open>IpAddr\<close> and \<open>SocketAddr\<close>, and the printing of an IPv4 address.
  The reading functions take the remaining input and return the value with the input after it;
  on \<open>None\<close> the caller goes on with the input it had.
\<close>

unbundle bit_operations_syntax

section \<open>Addresses\<close>

datatype ip_addr = V4 "32 word" | V6 "16 word list"

fun ip_wf :: "ip_addr \<Rightarrow> bool" where
  "ip_wf (V4 _) = True"
| "ip_wf (V6 ss) = (length ss = 8)"

text \<open>The bits of an address, the most significant one first.\<close>

definition msb_bits :: "'a::len word \<Rightarrow> bool list" where
  "msb_bits w = map (bit w) (rev [0..<LENGTH('a)])"

fun ip_bits :: "ip_addr \<Rightarrow> bool list" where
  "ip_bits (V4 w) = msb_bits w"
| "ip_bits (V6 ss) = concat (map msb_bits ss)"

fun same_family :: "ip_addr \<Rightarrow> ip_addr \<Rightarrow> bool" where
  "same_family (V4 _) (V4 _) = True"
| "same_family (V6 _) (V6 _) = True"
| "same_family _ _ = False"

definition v4_of_octets :: "nat \<Rightarrow> nat \<Rightarrow> nat \<Rightarrow> nat \<Rightarrow> 32 word" where
  "v4_of_octets a b c d =
     ((word_of_nat a * 256 + word_of_nat b) * 256 + word_of_nat c) * 256 + word_of_nat d"

definition octets :: "32 word \<Rightarrow> nat list" where
  "octets w = map (\<lambda>i. unat (take_bit 8 (drop_bit i w))) [24, 16, 8, 0]"

section \<open>Parsing\<close>

definition to_digit :: "nat \<Rightarrow> char \<Rightarrow> nat option" where
  "to_digit radix c =
     (let n = (of_char c :: nat);
          v = (if 48 \<le> n \<and> n \<le> 57 then n - 48
               else if 97 \<le> n \<and> n \<le> 122 then n - 87
               else if 65 \<le> n \<and> n \<le> 90 then n - 55 else radix)
      in if v < radix then Some v else None)"

fun radix_val :: "nat \<Rightarrow> nat \<Rightarrow> string \<Rightarrow> nat" where
  "radix_val radix acc [] = acc"
| "radix_val radix acc (c # cs) =
     radix_val radix (acc * radix + (case to_digit radix c of None \<Rightarrow> 0 | Some v \<Rightarrow> v)) cs"

definition read_number :: "nat \<Rightarrow> nat option \<Rightarrow> bool \<Rightarrow> nat \<Rightarrow> string \<Rightarrow> (nat \<times> string) option" where
  "read_number radix max_digits allow_zero_prefix m s =
     (let ds = takeWhile (\<lambda>c. to_digit radix c \<noteq> None) s;
          v = radix_val radix 0 ds
      in if ds = [] \<or> m < v
            \<or> (case max_digits of None \<Rightarrow> False | Some n \<Rightarrow> n < length ds)
            \<or> (\<not> allow_zero_prefix \<and> hd ds = CHR ''0'' \<and> 1 < length ds)
         then None else Some (v, drop (length ds) s))"

definition read_given_char :: "char \<Rightarrow> string \<Rightarrow> string option" where
  "read_given_char c s = (case s of [] \<Rightarrow> None | d # r \<Rightarrow> if d = c then Some r else None)"

definition read_separator ::
    "char \<Rightarrow> nat \<Rightarrow> (string \<Rightarrow> ('a \<times> string) option) \<Rightarrow> string \<Rightarrow> ('a \<times> string) option" where
  "read_separator sep i inner s =
     (if 0 < i then Option.bind (read_given_char sep s) inner else inner s)"

abbreviation read_octet :: "nat \<Rightarrow> string \<Rightarrow> (nat \<times> string) option" where
  "read_octet i \<equiv> read_separator (CHR ''.'') i (read_number 10 (Some 3) False 255)"

definition read_ipv4 :: "string \<Rightarrow> (32 word \<times> string) option" where
  "read_ipv4 s =
     Option.bind (read_octet 0 s) (\<lambda>(a, s1).
     Option.bind (read_octet 1 s1) (\<lambda>(b, s2).
     Option.bind (read_octet 2 s2) (\<lambda>(c, s3).
     Option.bind (read_octet 3 s3) (\<lambda>(d, s4). Some (v4_of_octets a b c d, s4)))))"

text \<open>\<open>read_groups\<close> fills a slice of \<open>limit\<close> segments: the segments read, whether the last two came from
  an embedded IPv4 address, and the input after them.\<close>

function read_groups :: "nat \<Rightarrow> nat \<Rightarrow> string \<Rightarrow> 16 word list \<times> bool \<times> string" where
  "read_groups limit i s =
     (if limit \<le> i then ([], False, s)
      else case (if i < limit - 1 then read_separator (CHR '':'') i read_ipv4 s else None) of
             Some (w, r) \<Rightarrow> ([ucast (drop_bit 16 w), ucast w], True, r)
           | None \<Rightarrow>
               (case read_separator (CHR '':'') i (read_number 16 (Some 4) True 65535) s of
                  None \<Rightarrow> ([], False, s)
                | Some (g, r) \<Rightarrow>
                    (let (gs, v4, r') = read_groups limit (Suc i) r in (word_of_nat g # gs, v4, r'))))"
  by pat_completeness auto
termination
  by (relation "measure (\<lambda>(limit, i, s). limit - i)") auto

declare read_groups.simps [simp del]

definition read_ipv6 :: "string \<Rightarrow> (16 word list \<times> string) option" where
  "read_ipv6 s =
     (let (head, head_ipv4, s1) = read_groups 8 0 s
      in if length head = 8 then Some (head, s1)
         else if head_ipv4 then None
         else Option.bind (read_given_char (CHR '':'') s1) (\<lambda>s2.
              Option.bind (read_given_char (CHR '':'') s2) (\<lambda>s3.
                let (tail, _, s4) = read_groups (8 - (length head + 1)) 0 s3
                in Some (head @ replicate (8 - length tail - length head) 0 @ tail, s4))))"

definition read_ip_addr :: "string \<Rightarrow> (ip_addr \<times> string) option" where
  "read_ip_addr s =
     (case read_ipv4 s of
        Some (w, r) \<Rightarrow> Some (V4 w, r)
      | None \<Rightarrow> map_option (\<lambda>(ss, r). (V6 ss, r)) (read_ipv6 s))"

text \<open>\<open>parse_with\<close>: the whole input must have been read.\<close>

definition parse_with :: "(string \<Rightarrow> ('a \<times> string) option) \<Rightarrow> string \<Rightarrow> 'a option" where
  "parse_with p s = (case p s of Some (x, []) \<Rightarrow> Some x | _ \<Rightarrow> None)"

definition ip_from_str :: "string \<Rightarrow> ip_addr option" where
  "ip_from_str s = parse_with read_ip_addr s"

definition read_port :: "string \<Rightarrow> (nat \<times> string) option" where
  "read_port s = Option.bind (read_given_char (CHR '':'') s) (read_number 10 None True 65535)"

definition read_scope_id :: "string \<Rightarrow> (nat \<times> string) option" where
  "read_scope_id s = Option.bind (read_given_char (CHR ''%'') s) (read_number 10 None True u32_max)"

definition read_socket_v4 :: "string \<Rightarrow> ((ip_addr \<times> nat) \<times> string) option" where
  "read_socket_v4 s =
     Option.bind (read_ipv4 s) (\<lambda>(w, s1).
     Option.bind (read_port s1) (\<lambda>(p, s2). Some ((V4 w, p), s2)))"

definition read_socket_v6 :: "string \<Rightarrow> ((ip_addr \<times> nat) \<times> string) option" where
  "read_socket_v6 s =
     Option.bind (read_given_char (CHR ''['') s) (\<lambda>s1.
     Option.bind (read_ipv6 s1) (\<lambda>(ss, s2).
     let s3 = (case read_scope_id s2 of None \<Rightarrow> s2 | Some (_, r) \<Rightarrow> r)
     in Option.bind (read_given_char (CHR '']'') s3) (\<lambda>s4.
        Option.bind (read_port s4) (\<lambda>(p, s5). Some ((V6 ss, p), s5)))))"

definition socket_from_str :: "string \<Rightarrow> (ip_addr \<times> nat) option" where
  "socket_from_str s =
     parse_with (\<lambda>s. case read_socket_v4 s of Some x \<Rightarrow> Some x | None \<Rightarrow> read_socket_v6 s) s"

text \<open>\<open>Display\<close> of an IPv4 address.\<close>

definition show_v4 :: "32 word \<Rightarrow> string" where
  "show_v4 w =
     (case octets w of [a, b, c, d] \<Rightarrow>
        string_of_nat a @ ''.'' @ string_of_nat b @ ''.'' @ string_of_nat c @ ''.'' @ string_of_nat d
      | _ \<Rightarrow> [])"

section \<open>What the parser returns\<close>

lemma read_groups_length: "length (fst (read_groups limit i s)) \<le> limit - i"
proof (induction limit i s rule: read_groups.induct)
  case (1 limit i s)
  then show ?case
    by (subst read_groups.simps) (fastforce simp: Let_def split: option.splits prod.splits if_splits)
qed

lemma read_ipv6_length: "read_ipv6 s = Some (ss, r) \<Longrightarrow> length ss = 8"
proof -
  assume r: "read_ipv6 s = Some (ss, r)"
  obtain h v s1 where h: "read_groups 8 0 s = (h, v, s1)" by (metis prod_cases3)
  have "length h \<le> 8" using read_groups_length [of 8 0 s] h by simp
  moreover have "read_groups (7 - length h) 0 x = (t, b, y) \<Longrightarrow> length t \<le> 7 - length h" for x t b y
    using read_groups_length [of "7 - length h" 0 x] by simp
  moreover have "length h = 8 \<and> ss = h \<or> (\<exists>x t b y. length h \<noteq> 8 \<and> read_groups (7 - length h) 0 x = (t, b, y)
      \<and> ss = h @ replicate (8 - length t - length h) 0 @ t)"
    using r h by (auto simp: read_ipv6_def bind_eq_Some_conv split: if_splits prod.split_asm) (metis prod_cases3)
  ultimately show ?thesis by fastforce
qed

lemma ip_from_str_wf: "ip_from_str s = Some a \<Longrightarrow> ip_wf a"
  by (auto simp: ip_from_str_def parse_with_def read_ip_addr_def dest: read_ipv6_length
      split: option.splits list.splits prod.splits)

section \<open>Printing and parsing an IPv4 address\<close>

lemma to_digit_digit_char: "d < 10 \<Longrightarrow> to_digit 10 (digit_char d) = Some d"
  by (simp add: to_digit_def digit_char_code)

lemma radix_val_append: "radix_val b acc (xs @ ys) = radix_val b (radix_val b acc xs) ys"
  by (induction xs arbitrary: acc) auto

lemma radix_val_string_of_nat: "radix_val 10 0 (string_of_nat n) = n"
proof (induction n rule: string_of_nat.induct)
  case (1 n)
  then show ?case
    by (cases "n < 10") (simp_all add: string_of_nat.simps [of n] radix_val_append to_digit_digit_char)
qed

lemma hd_string_of_nat: "hd (string_of_nat n) = CHR ''0'' \<longleftrightarrow> n = 0"
proof (induction n rule: string_of_nat.induct)
  case (1 n)
  show ?case
  proof (cases "n < 10")
    case True
    have "digit_char n = CHR ''0'' \<longleftrightarrow> n = 0"
      using to_digit_digit_char [OF True] to_digit_digit_char [of 0] by auto
    with True show ?thesis by (simp add: string_of_nat.simps [of n])
  next
    case False
    with 1 show ?thesis by (simp add: string_of_nat.simps [of n])
  qed
qed

lemma length_string_of_nat_octet: "n < 256 \<Longrightarrow> length (string_of_nat n) \<le> 3"
  by (simp add: string_of_nat.simps [of n] string_of_nat.simps [of "n div 10"] string_of_nat.simps [of "n div 10 div 10"])

definition no_digit_first :: "string \<Rightarrow> bool" where
  "no_digit_first s \<longleftrightarrow> (case s of [] \<Rightarrow> True | c # _ \<Rightarrow> to_digit 10 c = None)"

lemma read_number_octet:
  assumes "n < 256" and "no_digit_first r"
  shows "read_number 10 (Some 3) False 255 (string_of_nat n @ r) = Some (n, r)"
proof -
  have "\<forall>c \<in> set (string_of_nat n). to_digit 10 c \<noteq> None"
    using to_digit_digit_char by (auto dest!: set_string_of_nat)
  then have "takeWhile (\<lambda>c. to_digit 10 c \<noteq> None) (string_of_nat n @ r) = string_of_nat n"
    using assms(2) by (cases r) (auto simp: no_digit_first_def takeWhile_append)
  moreover have "hd (string_of_nat n) = CHR ''0'' \<Longrightarrow> length (string_of_nat n) = 1"
    using hd_string_of_nat [of n] by (simp add: string_of_nat.simps)
  ultimately show ?thesis
    using assms(1) length_string_of_nat_octet [OF assms(1)]
    by (auto simp: read_number_def radix_val_string_of_nat Let_def)
qed

lemma unat_bound: "unat (w :: 32 word) < 4294967296"
  using unsigned_less [of w] by simp

lemma unat_octet: "i < 32 \<Longrightarrow> unat (take_bit 8 (drop_bit i (w :: 32 word))) = unat w div 2 ^ i mod 256"
proof -
  have "unat (drop_bit i w) = unat w div 2 ^ i"
    using unat_bound [of w]
    by (simp only: unsigned_drop_bit_eq) (simp add: drop_bit_eq_div take_bit_nat_eq_self)
  then show ?thesis by (simp only: unsigned_take_bit_eq) (simp add: take_bit_eq_mod)
qed

lemma octets_eq:
  "octets w = [unat w div 16777216 mod 256, unat w div 65536 mod 256, unat w div 256 mod 256, unat w mod 256]"
  using unat_octet [of 24 w] unat_octet [of 16 w] unat_octet [of 8 w] unat_octet [of 0 w] by (simp add: octets_def)

lemma base_256: "(((n :: nat) div 16777216 * 256 + n div 65536 mod 256) * 256 + n div 256 mod 256) * 256 + n mod 256 = n"
proof -
  have "n div 65536 = n div 256 div 256" "n div 16777216 = n div 256 div 256 div 256"
    by (simp_all add: div_mult2_eq [symmetric])
  then show ?thesis by (simp only: div_mult_mod_eq)
qed

lemma octets_v4: "octets w = [a, b, c, d] \<Longrightarrow> v4_of_octets a b c d = w"
proof -
  assume o: "octets w = [a, b, c, d]"
  have "unat w < 4294967296" by (rule unat_bound)
  then have "((a * 256 + b) * 256 + c) * 256 + d = unat w"
    using o base_256 [of "unat w"] unfolding octets_eq by simp
  then have "word_of_nat (((a * 256 + b) * 256 + c) * 256 + d) = w" by simp
  then show ?thesis by (simp add: v4_of_octets_def)
qed

lemma read_ipv4_show:
  assumes "no_digit_first r"
  shows "read_ipv4 (show_v4 w @ r) = Some (w, r)"
proof -
  obtain a b c d where o: "octets w = [a, b, c, d]" by (simp add: octets_def)
  have lt: "a < 256" "b < 256" "c < 256" "d < 256"
    using o by (auto simp: octets_eq)
  have dot: "no_digit_first (CHR ''.'' # x)" for x by (simp add: no_digit_first_def to_digit_def)
  show ?thesis
    using lt assms octets_v4 [OF o]
    by (simp add: show_v4_def o read_ipv4_def read_separator_def read_given_char_def read_number_octet dot)
qed


section \<open>Masks and prefixes\<close>

text \<open>A mask of \<open>k\<close> leading ones, as the sources shift it together.\<close>

definition prefix_mask :: "nat \<Rightarrow> 'a::len word" where
  "prefix_mask k = push_bit (LENGTH('a) - k) (- 1)"

lemma length_msb_bits [simp]: "length (msb_bits (w :: 'a::len word)) = LENGTH('a)"
  by (simp add: msb_bits_def)

lemma nth_msb_bits: "i < LENGTH('a) \<Longrightarrow> msb_bits (w :: 'a::len word) ! i = bit w (LENGTH('a) - Suc i)"
  by (simp add: msb_bits_def rev_nth)

lemma bit_prefix_mask: "bit (prefix_mask k :: 'a::len word) i \<longleftrightarrow> LENGTH('a) - k \<le> i \<and> i < LENGTH('a)"
  by (auto simp: prefix_mask_def bit_simps)

lemma masked_eq_iff:
  fixes u v :: "'a::len word"
  assumes "k \<le> LENGTH('a)"
  shows "u AND prefix_mask k = v AND prefix_mask k \<longleftrightarrow> take k (msb_bits u) = take k (msb_bits v)"
proof -
  have "u AND prefix_mask k = v AND prefix_mask k \<longleftrightarrow>
    (\<forall>i < LENGTH('a). LENGTH('a) - k \<le> i \<longrightarrow> bit u i = bit v i)"
    by (auto simp: bit_eq_iff bit_simps bit_prefix_mask)
  also have "\<dots> \<longleftrightarrow> (\<forall>j < k. bit u (LENGTH('a) - Suc j) = bit v (LENGTH('a) - Suc j))"
  proof (rule iffI; intro allI impI)
    fix i assume h: "\<forall>j < k. bit u (LENGTH('a) - Suc j) = bit v (LENGTH('a) - Suc j)" "i < LENGTH('a)" "LENGTH('a) - k \<le> i"
    then have "LENGTH('a) - Suc i < k" "LENGTH('a) - Suc (LENGTH('a) - Suc i) = i" by auto
    with h(1) show "bit u i = bit v i" by metis
  qed (use assms in auto)
  also have "\<dots> \<longleftrightarrow> take k (msb_bits u) = take k (msb_bits v)"
    using assms by (auto simp: list_eq_iff_nth_eq nth_msb_bits)
  finally show ?thesis .
qed

lemma msb_bits_inject [simp]: "msb_bits (u :: 'a::len word) = msb_bits v \<longleftrightarrow> u = v"
  using masked_eq_iff [of "LENGTH('a)" u v] by (simp add: prefix_mask_def)

lemma take_msb_mask:
  fixes u :: "'a::len word"
  assumes "k \<le> LENGTH('a)"
  shows "msb_bits (u AND prefix_mask k) = take k (msb_bits u) @ replicate (LENGTH('a) - k) False"
  using assms by (auto simp: list_eq_iff_nth_eq nth_msb_bits bit_simps bit_prefix_mask nth_append)

lemma prefix_mask_0 [simp]: "prefix_mask 0 = 0"
  by (simp add: prefix_mask_def)

end
