(* ===== verification/Trunk.thy ===== *)
theory Trunk
  imports Ip_Addr Sip
begin

text \<open>
  SIP trunks, the first part of \<open>src/src/proxy/routing/mod.rs\<close>: the configuration of a trunk, the test
  whether an address belongs to a trunk, the prefixes a trunk demands of the users of a call, and
  the direction in which a trunk may be used.

  Outside the repository are the CIDR parser of the \<open>ipnetwork\<close> crate, name resolution and the
  \<open>regex\<close> crate.  They are the fields of a \<open>net_lib\<close> record: \<open>cidr\<close> returns the membership test of the
  network it has read, \<open>resolve\<close> the addresses of a host name, \<open>regex_new\<close> the matcher of a pattern or the text of the
  error.
\<close>

section \<open>Data\<close>

datatype dial_direction = DirInbound | DirOutbound | DirInternal

datatype trunk_direction = TrunkInbound | TrunkOutbound | TrunkBidirectional

text \<open>The fields of \<open>TrunkConfig\<close> that routing and access control read; \<open>'p\<close> is the type of policies.\<close>

record 'p trunk_config =
  dest :: string
  backup_dest :: "string option"
  username :: "string option"
  password :: "string option"
  codec :: "string list"
  trunk_disabled :: "bool option"
  weight :: "nat option"
  trunk_transport :: "string option"
  trunk_id :: "int option"
  trunk_dir :: "trunk_direction option"
  inbound_hosts :: "string list"
  incoming_from_user_prefix :: "string option"
  incoming_to_user_prefix :: "string option"
  country :: "string option"
  trunk_policy :: "'p option"
  rewrite_hostport :: bool
  did_numbers :: "string list"

record prefix_mismatch =
  pm_field :: string
  pm_expected :: string
  pm_actual :: string

record source_trunk =
  st_name :: string
  st_id :: "int option"
  st_direction :: "trunk_direction option"

record net_lib =
  cidr :: "string \<Rightarrow> (ip_addr \<Rightarrow> bool) option"
  resolve :: "string \<Rightarrow> ip_addr list option"
  regex_new :: "string \<Rightarrow> err + (string \<Rightarrow> bool)"
  uri_host :: "string \<Rightarrow> string option"

section \<open>Hosts\<close>

text \<open>The part of \<open>split_host_port\<close> after the test for a bracketed address.\<close>

definition split_last_colon :: "string \<Rightarrow> (string \<times> string) option" where
  "split_last_colon input =
     (case find_char (CHR '':'') (rev input) of
        None \<Rightarrow> None
      | Some j \<Rightarrow>
          (let idx = length input - 1 - j
           in if CHR '':'' \<in> set (take idx input) then None
              else Some (take idx input, drop (idx + 1) input)))"

definition split_host_port :: "string \<Rightarrow> (string \<times> string) option" where
  "split_host_port input =
     (case find_char (CHR '']'') input of
        Some e \<Rightarrow>
          if starts_with ''['' input \<and> e + 1 < length input \<and> starts_with '':'' (drop (e + 1) input)
          then Some (drop 1 (take e input), drop (e + 2) input)
          else split_last_colon input
      | None \<Rightarrow> split_last_colon input)"

definition trim_matches_by :: "(char \<Rightarrow> bool) \<Rightarrow> string \<Rightarrow> string" where
  "trim_matches_by P s = rev (dropWhile P (rev (dropWhile P s)))"

definition host_matches :: "net_lib \<Rightarrow> string \<Rightarrow> ip_addr \<Rightarrow> bool" where
  "host_matches lib host addr =
     (let cleaned = trim (rev (dropWhile (\<lambda>c. c = CHR '']'') (rev (dropWhile (\<lambda>c. c = CHR ''['') (trim host)))))
      in if cleaned = [] then False
         else case cidr lib cleaned of
           Some mem \<Rightarrow> mem addr
         | None \<Rightarrow>
             (case socket_from_str cleaned of
                Some (ip, _) \<Rightarrow> ip = addr
              | None \<Rightarrow>
                  (case ip_from_str cleaned of
                     Some ip \<Rightarrow> ip = addr
                   | None \<Rightarrow>
                       (case resolve lib (case split_host_port cleaned of Some (h, _) \<Rightarrow> h | None \<Rightarrow> cleaned) of
                          Some addrs \<Rightarrow> addr \<in> set addrs
                        | None \<Rightarrow> False))))"

definition candidate_matches :: "net_lib \<Rightarrow> string \<Rightarrow> ip_addr \<Rightarrow> bool" where
  "candidate_matches lib candidate addr =
     (let trimmed = trim_matches_by (\<lambda>c. c = CHR ''<'' \<or> c = CHR ''>'') (trim candidate)
      in if trimmed = [] then False
         else case cidr lib trimmed of
           Some mem \<Rightarrow> mem addr
         | None \<Rightarrow>
             (case socket_from_str trimmed of
                Some (ip, _) \<Rightarrow> ip = addr
              | None \<Rightarrow>
                  (case ip_from_str trimmed of
                     Some ip \<Rightarrow> ip = addr
                   | None \<Rightarrow>
                       (case uri_host lib trimmed of
                          Some h \<Rightarrow> host_matches lib h addr
                        | None \<Rightarrow>
                            (case split_host_port trimmed of
                               Some (h, _) \<Rightarrow> host_matches lib h addr
                             | None \<Rightarrow> host_matches lib trimmed addr)))))"

definition matches_inbound_ip :: "net_lib \<Rightarrow> 'p trunk_config \<Rightarrow> ip_addr \<Rightarrow> bool" where
  "matches_inbound_ip lib trunk addr =
     (if \<exists>h \<in> set (inbound_hosts trunk). candidate_matches lib h addr then True
      else if candidate_matches lib (dest trunk) addr then True
      else case backup_dest trunk of
             Some b \<Rightarrow> candidate_matches lib b addr
           | None \<Rightarrow> False)"

section \<open>Users\<close>

definition regex_chars :: string where
  "regex_chars = ''^$.*?[](){}|'' @ [CHR 0x5C]"

definition matches_user_prefix :: "net_lib \<Rightarrow> string \<Rightarrow> string \<Rightarrow> bool result" where
  "matches_user_prefix lib pattern value =
     (let trimmed = trim pattern
      in if trimmed = [] then Inr True
         else if \<not> (\<exists>c \<in> set trimmed. c \<in> set regex_chars) then Inr (starts_with trimmed value)
         else case regex_new lib trimmed of
                Inl e \<Rightarrow> Inl (''invalid regex '' @ [CHR 0x27] @ trimmed @ [CHR 0x27] @ '': '' @ e)
              | Inr is_match \<Rightarrow> Inr (is_match value))"

definition check_user_prefix :: "net_lib \<Rightarrow> string \<Rightarrow> string option \<Rightarrow> string option \<Rightarrow> prefix_mismatch + unit" where
  "check_user_prefix lib field prefix user =
     (case prefix of
        None \<Rightarrow> Inr ()
      | Some pattern \<Rightarrow>
          (let candidate = (case user of Some u \<Rightarrow> u | None \<Rightarrow> [])
           in if trim pattern = [] then Inr ()
              else case matches_user_prefix lib pattern candidate of
                     Inl e \<Rightarrow> Inl \<lparr>pm_field = field, pm_expected = pattern,
                                  pm_actual = candidate @ '' (pattern error: '' @ e @ '')''\<rparr>
                   | Inr True \<Rightarrow> Inr ()
                   | Inr False \<Rightarrow> Inl \<lparr>pm_field = field, pm_expected = pattern, pm_actual = candidate\<rparr>))"

definition matches_incoming_user_prefixes ::
    "net_lib \<Rightarrow> 'p trunk_config \<Rightarrow> string option \<Rightarrow> string option \<Rightarrow> prefix_mismatch + bool" where
  "matches_incoming_user_prefixes lib trunk from_user to_user =
     (case check_user_prefix lib ''from_user'' (incoming_from_user_prefix trunk) from_user of
        Inl e \<Rightarrow> Inl e
      | Inr _ \<Rightarrow>
          (case check_user_prefix lib ''to_user'' (incoming_to_user_prefix trunk) to_user of
             Inl e \<Rightarrow> Inl e
           | Inr _ \<Rightarrow> Inr True))"

section \<open>Directions\<close>

fun allows :: "trunk_direction \<Rightarrow> dial_direction \<Rightarrow> bool" where
  "allows TrunkInbound d = (d = DirInbound)"
| "allows TrunkOutbound d = (d = DirOutbound)"
| "allows TrunkBidirectional d = True"

definition build_source_trunk :: "string \<Rightarrow> 'p trunk_config \<Rightarrow> dial_direction \<Rightarrow> source_trunk option" where
  "build_source_trunk name config direction =
     (case trunk_dir config of
        Some d \<Rightarrow> if \<not> allows d direction then None
                  else Some \<lparr>st_name = name, st_id = trunk_id config, st_direction = trunk_dir config\<rparr>
      | None \<Rightarrow> Some \<lparr>st_name = name, st_id = trunk_id config, st_direction = trunk_dir config\<rparr>)"

section \<open>Literal addresses\<close>

lemma show_v4_chars: "c \<in> set (show_v4 w) \<Longrightarrow> c = CHR ''.'' \<or> (48 \<le> (of_char c :: nat) \<and> (of_char c :: nat) \<le> 57)"
  using string_of_nat_digit_code by (auto simp: show_v4_def octets_def)

lemma show_v4_clean: "c \<in> set (show_v4 w) \<Longrightarrow> \<not> is_whitespace c \<and> c \<notin> set ''<>[]:''"
  using show_v4_chars [of c w] by (auto simp: is_whitespace_def)

lemma show_v4_not_Nil [simp]: "show_v4 w \<noteq> []"
  by (simp add: show_v4_def octets_def)

lemma ip_from_str_show: "ip_from_str (show_v4 w) = Some (V4 w)"
  using read_ipv4_show [of "[]" w] by (simp add: ip_from_str_def parse_with_def read_ip_addr_def no_digit_first_def)

lemma socket_from_str_show: "socket_from_str (show_v4 w) = None"
proof -
  have "read_given_char (CHR ''['') (show_v4 w) = None"
    using show_v4_clean [of "hd (show_v4 w)" w] by (cases "show_v4 w") (auto simp: read_given_char_def)
  then show ?thesis
    using read_ipv4_show [of "[]" w]
    by (simp add: socket_from_str_def parse_with_def read_socket_v4_def read_socket_v6_def no_digit_first_def
        read_port_def read_given_char_def)
qed

lemma trim_show_v4:
  "trim_matches_by (\<lambda>c. c = CHR ''<'' \<or> c = CHR ''>'') (trim (show_v4 w)) = show_v4 w"
proof -
  have "trim (show_v4 w) = show_v4 w" using show_v4_clean by (intro trim_id) blast
  moreover have "\<forall>c \<in> set (show_v4 w). \<not> (c = CHR ''<'' \<or> c = CHR ''>'')" using show_v4_clean by fastforce
  ultimately show ?thesis by (simp add: trim_matches_by_def dropWhile_id)
qed

text \<open>What the sources rely on of the CIDR parser: if it reads a plain IPv4 address, then as the network of
  that address alone.\<close>

definition cidr_reads_hosts :: "net_lib \<Rightarrow> bool" where
  "cidr_reads_hosts lib \<longleftrightarrow> (\<forall>w. case cidr lib (show_v4 w) of None \<Rightarrow> True | Some mem \<Rightarrow> \<forall>a. mem a \<longleftrightarrow> a = V4 w)"

lemma candidate_literal:
  assumes "cidr_reads_hosts lib"
  shows "candidate_matches lib (show_v4 w) addr \<longleftrightarrow> addr = V4 w"
  using assms [unfolded cidr_reads_hosts_def, rule_format, of w]
  by (auto simp: candidate_matches_def trim_show_v4 ip_from_str_show socket_from_str_show split: option.splits)

text \<open>A trunk given by literal addresses is recognised by exactly these addresses.\<close>

theorem trunk_literal_exact:
  assumes "cidr_reads_hosts lib" and "inbound_hosts t = map show_v4 ws" and "dest t = show_v4 d"
    and "backup_dest t = map_option show_v4 b"
  shows "matches_inbound_ip lib t addr \<longleftrightarrow> (\<exists>w \<in> set ws \<union> {d} \<union> set_option b. addr = V4 w)"
  using assms candidate_literal [OF assms(1)] by (cases b) (auto simp: matches_inbound_ip_def)

definition demo_trunk :: "unit trunk_config" where
  "demo_trunk = \<lparr>dest = ''10.0.0.1'', backup_dest = None, username = None, password = None, codec = [],
     trunk_disabled = None, weight = None, trunk_transport = None, trunk_id = Some 7, trunk_dir = None,
     inbound_hosts = [''10.0.0.2''], incoming_from_user_prefix = None, incoming_to_user_prefix = None,
     country = None, trunk_policy = None, rewrite_hostport = True, did_numbers = []\<rparr>"

lemma trunk_literal_exact_witness:
  "let lib = \<lparr>cidr = \<lambda>_. None, resolve = \<lambda>_. None, regex_new = \<lambda>_. Inl [], uri_host = \<lambda>_. None\<rparr>
   in matches_inbound_ip lib demo_trunk (V4 0x0A000002) \<and> \<not> matches_inbound_ip lib demo_trunk (V4 0x0A000003)"
proof -
  let ?lib = "\<lparr>cidr = \<lambda>_. None, resolve = \<lambda>_. None, regex_new = \<lambda>_. Inl [], uri_host = \<lambda>_. None\<rparr>"
  have l: "cidr_reads_hosts ?lib" by (simp add: cidr_reads_hosts_def)
  have s: "show_v4 0x0A000002 = ''10.0.0.2''" "show_v4 0x0A000001 = ''10.0.0.1''" by code_simp+
  have h: "inbound_hosts demo_trunk = map show_v4 [0x0A000002]" "dest demo_trunk = show_v4 0x0A000001"
    "backup_dest demo_trunk = map_option show_v4 None"
    using s by (simp_all add: demo_trunk_def)
  from trunk_literal_exact [OF l h] show ?thesis by (simp add: Let_def)
qed

end
