(* ===== verification/Acl.thy ===== *)
theory Acl
  imports Trunk
begin

text \<open>
  Access control, \<open>src/src/proxy/acl.rs\<close>, and the loop of the server that runs the modules on a
  transaction, \<open>process_transaction\<close> of \<open>src/src/proxy/server.rs\<close>: the rules on source addresses and user
  agents, the length check on the From URI, and the protection against floods from one address.

  The protocol stack hands a transaction over as its User-Agent, its From header field and the source
  address of its Via header field, or the error with which the stack refuses to give them.
\<close>

section \<open>Networks\<close>

record ip_network =
  network :: ip_addr
  prefix_len :: nat

fun v6_contains :: "nat \<Rightarrow> 16 word list \<Rightarrow> 16 word list \<Rightarrow> bool" where
  "v6_contains remaining_bits (n # ns) (i # is) =
     (if remaining_bits = 0 then True
      else let bits = min remaining_bits 16;
               mask = (if bits = 16 then 0xFFFF else push_bit (16 - bits) 0xFFFF)
           in if n AND mask \<noteq> i AND mask then False
              else if 16 \<le> remaining_bits then v6_contains (remaining_bits - 16) ns is
              else True)"
| "v6_contains remaining_bits _ _ = True"

definition v4_mask :: "nat \<Rightarrow> 32 word" where
  "v4_mask p = (if p = 0 then 0 else push_bit (32 - p) (- 1))"

definition contains :: "ip_network \<Rightarrow> ip_addr \<Rightarrow> bool" where
  "contains net ip =
     (case (network net, ip) of
        (V4 n, V4 i) \<Rightarrow> n AND v4_mask (prefix_len net) = i AND v4_mask (prefix_len net)
      | (V6 ns, V6 is) \<Rightarrow> v6_contains (prefix_len net) ns is
      | _ \<Rightarrow> False)"

fun v6_truncate :: "nat \<Rightarrow> nat \<Rightarrow> 16 word list \<Rightarrow> 16 word list" where
  "v6_truncate p i [] = []"
| "v6_truncate p i (s # ss) =
     (if i * 16 < p then
        (let bits = min (p - i * 16) 16;
             mask = (if bits = 16 then 0xFFFF else push_bit (16 - bits) 0xFFFF)
         in s AND mask)
      else 0) # v6_truncate p (Suc i) ss"

definition parse_network :: "string \<Rightarrow> (ip_addr \<times> nat) result" where
  "parse_network addr =
     (if CHR ''/'' \<notin> set addr then
        (case ip_from_str addr of
           None \<Rightarrow> Inl ''invalid IP address syntax''
         | Some (V4 w) \<Rightarrow> Inr (V4 w, 32)
         | Some (V6 ss) \<Rightarrow> Inr (V6 ss, 128))
      else case split_on (CHR ''/'') addr of
             [a, p] \<Rightarrow>
               (case ip_from_str a of
                  None \<Rightarrow> Inl ''invalid IP address syntax''
                | Some ip \<Rightarrow>
                    (case parse_u8 p of
                       None \<Rightarrow> Inl ''invalid network address''
                     | Some n \<Rightarrow>
                         (case ip of
                            V4 w \<Rightarrow> if 32 < n then Inl ''invalid network address prefix > 32''
                                    else Inr (V4 (w AND v4_mask n), n)
                          | V6 ss \<Rightarrow> if 128 < n then Inl ''invalid network address prefix > 128''
                                    else Inr (V6 (v6_truncate n 0 ss), n))))
           | _ \<Rightarrow> Inl ''invalid network address'')"

section \<open>Rules\<close>

datatype acl_action = Allow | Deny

record acl_rule =
  rule_action :: acl_action
  rule_network :: "ip_network option"

definition acl_rule_new :: "string \<Rightarrow> acl_rule option" where
  "acl_rule_new rule =
     (case split_whitespace rule of
        a # n # _ \<Rightarrow>
          Option.bind (if to_ascii_lowercase a = ''allow'' then Some Allow
                       else if to_ascii_lowercase a = ''deny'' then Some Deny else None)
            (\<lambda>action.
               if n = ''all'' then Some \<lparr>rule_action = action, rule_network = None\<rparr>
               else case parse_network n of
                      Inl _ \<Rightarrow> None
                    | Inr (net, p) \<Rightarrow>
                        Some \<lparr>rule_action = action, rule_network = Some \<lparr>network = net, prefix_len = p\<rparr>\<rparr>)
      | _ \<Rightarrow> None)"

definition parse_rules :: "string list \<Rightarrow> acl_rule list" where
  "parse_rules rules = List.map_filter acl_rule_new rules"

definition resolve_base_rules :: "string list option \<Rightarrow> string list" where
  "resolve_base_rules acl_rules = (case acl_rules of Some rs \<Rightarrow> rs | None \<Rightarrow> [''allow all'', ''deny all''])"

fun rules_allow :: "acl_rule list \<Rightarrow> ip_addr \<Rightarrow> bool" where
  "rules_allow [] addr = False"
| "rules_allow (r # rs) addr =
     (case rule_network r of
        Some net \<Rightarrow> if contains net addr then rule_action r = Allow else rules_allow rs addr
      | None \<Rightarrow> rule_action r = Allow)"

section \<open>The module\<close>

record dos_per_ip =
  recent :: "instant list"
  concurrent :: nat
  blocked_until :: "instant option"

record dos_config =
  dos_enabled :: bool
  dos_max_cps_per_ip :: nat
  dos_max_concurrent_per_ip :: nat
  dos_scan_probe_threshold :: nat
  dos_scan_block_duration_secs :: nat
  uri_max_length :: nat
  uri_reject_malformed :: bool

record trunk_context =
  tc_id :: "int option"
  tc_name :: string
  tc_did_numbers :: "string list"

text \<open>The tables of the running server: the current rules and trunks, absent in a module without a server.\<close>

record 'p server_data =
  acl_rules_snapshot :: "string list"
  trunks_snapshot :: "(string, 'p trunk_config) hmap"

record 'p acl_module =
  acl_config :: dos_config
  config_trunks :: "(string, 'p trunk_config) hmap"
  server :: "'p server_data option"
  ua_white_list :: "string set"
  ua_black_list :: "string set"
  fallback_rules :: "string list"
  dos_data :: "ip_addr \<rightharpoonup> dos_per_ip"

definition with_server ::
    "dos_config \<Rightarrow> string list option \<Rightarrow> string list option \<Rightarrow> string list option
       \<Rightarrow> (string, 'p trunk_config) hmap \<Rightarrow> 'p server_data option \<Rightarrow> 'p acl_module" where
  "with_server cfg rules white black trunks srv =
     \<lparr>acl_config = cfg, config_trunks = trunks, server = srv,
      ua_white_list = (case white of Some l \<Rightarrow> set l | None \<Rightarrow> {}),
      ua_black_list = (case black of Some l \<Rightarrow> set l | None \<Rightarrow> {}),
      fallback_rules = resolve_base_rules rules, dos_data = Map.empty\<rparr>"

definition load_rules :: "'p acl_module \<Rightarrow> acl_rule list" where
  "load_rules m =
     (case server m of Some s \<Rightarrow> parse_rules (acl_rules_snapshot s) | None \<Rightarrow> parse_rules (fallback_rules m))"

definition is_ip_allowed :: "'p acl_module \<Rightarrow> ip_addr \<Rightarrow> bool" where
  "is_ip_allowed m addr = rules_allow (load_rules m) addr"

definition is_ua_allowed :: "'p acl_module \<Rightarrow> string \<Rightarrow> bool" where
  "is_ua_allowed m ua =
     (if ua \<in> ua_black_list m then False
      else if ua_white_list m = {} then True
      else ua \<in> ua_white_list m)"

definition trunk_of :: "net_lib \<Rightarrow> (string, 'p trunk_config) hmap \<Rightarrow> ip_addr \<Rightarrow> trunk_context option" where
  "trunk_of lib trunks addr =
     map_option (\<lambda>(name, t). \<lparr>tc_id = trunk_id t, tc_name = name, tc_did_numbers = did_numbers t\<rparr>)
       (List.find (\<lambda>(name, t). matches_inbound_ip lib t addr) trunks)"

definition is_from_trunk_context :: "net_lib \<Rightarrow> 'p acl_module \<Rightarrow> ip_addr \<Rightarrow> trunk_context option" where
  "is_from_trunk_context lib m addr =
     (case Option.bind (server m) (\<lambda>s. trunk_of lib (trunks_snapshot s) addr) of
        Some c \<Rightarrow> Some c
      | None \<Rightarrow> trunk_of lib (config_trunks m) addr)"

section \<open>Floods\<close>

definition fresh_dos :: dos_per_ip where
  "fresh_dos = \<lparr>recent = [], concurrent = 0, blocked_until = None\<rparr>"

definition dos_check_entry :: "dos_config \<Rightarrow> instant \<Rightarrow> dos_per_ip \<Rightarrow> unit result \<times> dos_per_ip" where
  "dos_check_entry cfg now entry =
     (if (case blocked_until entry of Some until \<Rightarrow> now < until | None \<Rightarrow> False)
      then (Inl ''IP blocked'', entry)
      else
        let e1 = (case blocked_until entry of
                    Some _ \<Rightarrow> entry\<lparr>recent := [], concurrent := 0, blocked_until := None\<rparr>
                  | None \<Rightarrow> entry);
            e2 = e1\<lparr>recent := filter (\<lambda>t. now < t + secs 1) (recent e1)\<rparr>;
            block = e2\<lparr>blocked_until := Some (now + secs (dos_scan_block_duration_secs cfg))\<rparr>
        in if dos_max_cps_per_ip cfg \<le> length (recent e2) then (Inl ''CPS limit exceeded'', block)
           else if dos_max_concurrent_per_ip cfg \<le> concurrent e2 then (Inl ''Concurrent limit exceeded'', e2)
           else if dos_scan_probe_threshold cfg \<le> length (recent e2) then (Inl ''Scan detected'', block)
           else (Inr (), e2\<lparr>recent := recent e2 @ [now], concurrent := concurrent e2 + 1\<rparr>))"

definition dos_check_and_track :: "instant \<Rightarrow> ip_addr \<Rightarrow> 'p acl_module \<Rightarrow> unit result \<times> 'p acl_module" where
  "dos_check_and_track now ip m =
     (let entry = (case dos_data m ip of Some e \<Rightarrow> e | None \<Rightarrow> fresh_dos);
          (r, e) = dos_check_entry (acl_config m) now entry
      in (r, m\<lparr>dos_data := (dos_data m)(ip \<mapsto> e)\<rparr>))"

definition dos_release :: "ip_addr \<Rightarrow> 'p acl_module \<Rightarrow> 'p acl_module" where
  "dos_release ip m =
     (case dos_data m ip of
        None \<Rightarrow> m
      | Some e \<Rightarrow> m\<lparr>dos_data := (dos_data m)(ip \<mapsto> e\<lparr>concurrent := concurrent e - 1\<rparr>)\<rparr>)"

section \<open>Transactions\<close>

datatype proxy_action = Continue | Abort

datatype spam_result = UaBlacklist | Spam | IpBlacklist

record cookie =
  spam :: "spam_result option"
  from_trunk :: "trunk_context option"

record tx =
  tx_user_agent :: "string option"
  tx_from_uri :: "err + (err + string)"
  tx_source :: "ip_addr result"

definition check_uri_normalization :: "dos_config \<Rightarrow> tx \<Rightarrow> unit result" where
  "check_uri_normalization cfg t =
     (if \<not> uri_reject_malformed cfg then Inr ()
      else case tx_from_uri t of
             Inl _ \<Rightarrow> Inl ''malformed From header''
           | Inr (Inl _) \<Rightarrow> Inl ''malformed From URI''
           | Inr (Inr uri) \<Rightarrow> if uri_max_length cfg < length uri then Inl ''From URI too long'' else Inr ())"

definition extract_ip :: "tx \<Rightarrow> ip_addr option" where
  "extract_ip t = (case tx_source t of Inr ip \<Rightarrow> Some ip | Inl _ \<Rightarrow> None)"

definition ua_check :: "'p acl_module \<Rightarrow> tx \<Rightarrow> spam_result option" where
  "ua_check m t =
     (case tx_user_agent t of
        Some ua \<Rightarrow> if \<not> is_ua_allowed m ua then Some UaBlacklist else None
      | None \<Rightarrow> if ua_white_list m \<noteq> {} then Some Spam else None)"

definition on_transaction_begin ::
    "net_lib \<Rightarrow> instant \<Rightarrow> tx \<Rightarrow> cookie \<times> 'p acl_module \<Rightarrow> proxy_action result \<times> cookie \<times> 'p acl_module" where
  "on_transaction_begin lib now t = (\<lambda>(c, m).
     case ua_check m t of
       Some s \<Rightarrow> (Inr Abort, c\<lparr>spam := Some s\<rparr>, m)
     | None \<Rightarrow>
         if \<not> is_ok (check_uri_normalization (acl_config m) t) then (Inr Abort, c, m)
         else
           let (dos, m1) = (if dos_enabled (acl_config m)
                            then case extract_ip t of
                                   Some ip \<Rightarrow> dos_check_and_track now ip m
                                 | None \<Rightarrow> (Inr (), m)
                            else (Inr (), m))
           in if \<not> is_ok dos then (Inr Abort, c, m1)
              else case tx_source t of
                     Inl e \<Rightarrow> (Inl e, c, m1)
                   | Inr addr \<Rightarrow>
                       (case is_from_trunk_context lib m1 addr of
                          Some ctx \<Rightarrow> (Inr Continue, c\<lparr>from_trunk := Some ctx\<rparr>, m1)
                        | None \<Rightarrow>
                            if is_ip_allowed m1 addr then (Inr Continue, c, m1)
                            else (Inr Abort, c\<lparr>spam := Some IpBlacklist\<rparr>, m1)))"

definition on_transaction_end :: "tx \<Rightarrow> cookie \<times> 'p acl_module \<Rightarrow> unit result \<times> cookie \<times> 'p acl_module" where
  "on_transaction_end t = (\<lambda>(c, m).
     (Inr (), c, if dos_enabled (acl_config m)
                 then (case extract_ip t of Some ip \<Rightarrow> dos_release ip m | None \<Rightarrow> m) else m))"

text \<open>The server's loop over its modules, each a pair of handlers on a state; the first result says
  whether the transaction failed with an error of a module.\<close>

type_synonym 's proxy_module = "('s \<Rightarrow> proxy_action result \<times> 's) \<times> ('s \<Rightarrow> unit result \<times> 's)"

fun run_begins :: "'s proxy_module list \<Rightarrow> 's \<Rightarrow> bool \<times> 's" where
  "run_begins [] s = (True, s)"
| "run_begins (m # ms) s =
     (case fst m s of
        (Inr Continue, s') \<Rightarrow> run_begins ms s'
      | (Inr Abort, s') \<Rightarrow> (True, s')
      | (Inl _, s') \<Rightarrow> (False, s'))"

fun run_ends :: "'s proxy_module list \<Rightarrow> 's \<Rightarrow> 's" where
  "run_ends [] s = s"
| "run_ends (m # ms) s = run_ends ms (snd (snd m s))"

definition process_transaction :: "'s proxy_module list \<Rightarrow> 's \<Rightarrow> bool \<times> 's" where
  "process_transaction modules s =
     (case run_begins modules s of
        (False, s') \<Rightarrow> (False, s')
      | (True, s') \<Rightarrow> (True, run_ends modules s'))"

section \<open>A network is a set of addresses with a common prefix\<close>

lemma v4_mask_eq: "p \<le> 32 \<Longrightarrow> v4_mask p = prefix_mask p"
proof (cases "p = 0")
  case False
  then show ?thesis by (simp add: v4_mask_def prefix_mask_def)
qed (simp add: v4_mask_def)

lemma v6_mask_eq:
  "b \<le> 16 \<Longrightarrow> (if b = 16 then 0xFFFF else push_bit (16 - b) 0xFFFF) = (prefix_mask b :: 16 word)"
proof -
  have "(0xFFFF :: 16 word) = - 1" by simp
  then show ?thesis by (simp only: prefix_mask_def) (auto simp: len_num1)
qed

lemma take_concat_Cons:
  "length a = n \<Longrightarrow> length b = n \<Longrightarrow>
   take p (a @ as) = take p (b @ bs) \<longleftrightarrow> take (min p n) a = take (min p n) b \<and> take (p - n) as = take (p - n) bs"
  by (auto simp: min_def)

lemma v6_contains_iff:
  "length ns = length is \<Longrightarrow>
   v6_contains p ns is \<longleftrightarrow> take p (concat (map msb_bits ns)) = take p (concat (map msb_bits is))"
proof (induction p ns "is" rule: v6_contains.induct)
  case (1 p n ns i "is")
  let ?b = "min p 16"
  have m: "n AND prefix_mask ?b = i AND prefix_mask ?b \<longleftrightarrow> take ?b (msb_bits n) = take ?b (msb_bits i)"
    by (rule masked_eq_iff) simp
  have t: "take p (concat (map msb_bits (n # ns))) = take p (concat (map msb_bits (i # is))) \<longleftrightarrow>
      take ?b (msb_bits n) = take ?b (msb_bits i)
      \<and> take (p - 16) (concat (map msb_bits ns)) = take (p - 16) (concat (map msb_bits is))"
    using take_concat_Cons [of "msb_bits n" 16 "msb_bits i" p] by simp
  show ?case
    unfolding t v6_contains.simps v6_mask_eq [OF min.cobounded2 [of p 16]] Let_def m
    using 1 v6_mask_eq [OF min.cobounded2 [of p 16]] m by (auto simp: Let_def)
qed auto

definition net_wf :: "ip_network \<Rightarrow> bool" where
  "net_wf net \<longleftrightarrow> ip_wf (network net) \<and> prefix_len net \<le> length (ip_bits (network net))"

lemma length_segments [simp]: "length (concat (map msb_bits (ss :: 16 word list))) = 16 * length ss"
  by (induction ss) auto

lemma length_ip_bits: "ip_wf a \<Longrightarrow> length (ip_bits a) = (case a of V4 _ \<Rightarrow> 32 | V6 _ \<Rightarrow> 128)"
  by (cases a) auto

lemma contains_prefix:
  assumes "net_wf net" and "ip_wf ip"
  shows "contains net ip \<longleftrightarrow> same_family (network net) ip
    \<and> take (prefix_len net) (ip_bits (network net)) = take (prefix_len net) (ip_bits ip)"
proof (cases "network net")
  case (V4 n)
  with assms(1) have "prefix_len net \<le> 32" by (simp add: net_wf_def)
  with V4 show ?thesis
    by (cases ip) (simp_all add: contains_def v4_mask_eq masked_eq_iff)
next
  case (V6 ns)
  with assms show ?thesis
    by (cases ip) (simp_all add: contains_def v6_contains_iff net_wf_def)
qed

text \<open>Cutting an address off after the prefix does not change the prefix.\<close>

lemma v6_truncate_bits:
  "p \<le> i * 16 + 16 * length ss \<Longrightarrow> take (p - i * 16) (concat (map msb_bits (v6_truncate p i ss))) =
     take (p - i * 16) (concat (map msb_bits ss))"
proof (induction ss arbitrary: i)
  case (Cons s ss)
  show ?case
  proof (cases "i * 16 < p")
    case True
    let ?b = "min (p - i * 16) 16"
    have h: "hd (v6_truncate p i (s # ss)) = s AND prefix_mask ?b"
      using True v6_mask_eq [OF min.cobounded2 [of "p - i * 16" 16]] by (simp add: Let_def)
    have t: "tl (v6_truncate p i (s # ss)) = v6_truncate p (Suc i) ss" by simp
    have e: "v6_truncate p i (s # ss) = (s AND prefix_mask ?b) # v6_truncate p (Suc i) ss"
      using h t by (metis list.collapse list.distinct(1) v6_truncate.simps(2))
    have "take ?b (msb_bits (s AND prefix_mask ?b)) = take ?b (msb_bits s)"
      by (subst take_msb_mask) auto
    moreover have "take (p - i * 16 - 16) (concat (map msb_bits (v6_truncate p (Suc i) ss)))
        = take (p - i * 16 - 16) (concat (map msb_bits ss))"
      using Cons.IH [of "Suc i"] Cons.prems by (simp add: diff_diff_add add.commute)
    moreover have len: "length (msb_bits w) = 16" for w :: "16 word" by simp
    ultimately show ?thesis unfolding e by (simp only: list.map concat.simps take_concat_Cons [OF len len] simp_thms)
  qed simp
qed simp

lemma length_v6_truncate [simp]: "length (v6_truncate p i ss) = length ss"
  by (induction ss arbitrary: i) auto

lemma v4_truncate_bits: "p \<le> 32 \<Longrightarrow> take p (msb_bits (w AND v4_mask p)) = take p (msb_bits w)"
  by (simp add: v4_mask_eq take_msb_mask)

text \<open>What a network text denotes: the address in front of the slash and the number of its leading
  bits that count.\<close>

definition written_network :: "string \<Rightarrow> (ip_addr \<times> nat) option" where
  "written_network txt =
     (case split_on (CHR ''/'') txt of
        [a] \<Rightarrow> map_option (\<lambda>ip. (ip, length (ip_bits ip))) (ip_from_str a)
      | [a, p] \<Rightarrow> Option.bind (ip_from_str a) (\<lambda>ip.
                   Option.bind (parse_u8 p) (\<lambda>n. if n \<le> length (ip_bits ip) then Some (ip, n) else None))
      | _ \<Rightarrow> None)"

lemma parse_network_meaning:
  "case parse_network txt of
     Inl _ \<Rightarrow> written_network txt = None
   | Inr (net, p) \<Rightarrow> \<exists>ip. written_network txt = Some (ip, p) \<and> ip_wf ip \<and> ip_wf net \<and> same_family net ip
       \<and> p \<le> length (ip_bits ip) \<and> take p (ip_bits net) = take p (ip_bits ip)"
proof (cases "CHR ''/'' \<in> set txt")
  case False
  then have "split_on (CHR ''/'') txt = [txt]" by (rule split_on_absent)
  with False show ?thesis
    by (auto simp: parse_network_def written_network_def
        dest: ip_from_str_wf split: option.splits ip_addr.splits)
next
  case True
  then have "split_on (CHR ''/'') txt \<noteq> [a]" for a using split_on_single by blast
  with True show ?thesis
    by (auto simp: parse_network_def written_network_def v4_truncate_bits v6_truncate_bits [where i = 0, simplified]
        dest: ip_from_str_wf split: option.splits ip_addr.splits list.splits)
qed

section \<open>The first rule that covers an address decides\<close>

text \<open>A reference reading of the rules: the action, and the set of addresses the rule covers.\<close>

definition covered :: "ip_addr \<Rightarrow> nat \<Rightarrow> ip_addr \<Rightarrow> bool" where
  "covered ip p addr \<longleftrightarrow> same_family ip addr \<and> take p (ip_bits ip) = take p (ip_bits addr)"

definition spec_action :: "string \<Rightarrow> acl_action option" where
  "spec_action a =
     (if eq_ignore_ascii_case a ''allow'' then Some Allow
      else if eq_ignore_ascii_case a ''deny'' then Some Deny else None)"

definition spec_rule :: "string \<Rightarrow> (acl_action \<times> (ip_addr \<Rightarrow> bool)) option" where
  "spec_rule txt =
     (case split_whitespace txt of
        a # n # _ \<Rightarrow>
          Option.bind (spec_action a) (\<lambda>action.
            if n = ''all'' then Some (action, \<lambda>_. True)
            else map_option (\<lambda>(ip, p). (action, covered ip p)) (written_network n))
      | _ \<Rightarrow> None)"

definition spec_allowed :: "string list \<Rightarrow> ip_addr \<Rightarrow> bool" where
  "spec_allowed texts addr \<longleftrightarrow>
     (\<exists>f. List.find (\<lambda>(_, covers). covers addr) (List.map_filter spec_rule texts) = Some (Allow, f))"

lemma spec_action_eq:
  "spec_action a = (if to_ascii_lowercase a = ''allow'' then Some Allow
     else if to_ascii_lowercase a = ''deny'' then Some Deny else None)"
  by (simp add: spec_action_def eq_ignore_ascii_case_def to_ascii_lowercase_def ascii_lower_def)

lemma parsed_covers:
  assumes "parse_network n = Inr (net, p)" and "ip_wf addr"
  shows "\<exists>ip. written_network n = Some (ip, p) \<and> contains \<lparr>network = net, prefix_len = p\<rparr> addr = covered ip p addr"
proof -
  from parse_network_meaning [of n] assms(1) obtain ip where
    ip: "written_network n = Some (ip, p)" "ip_wf ip" "ip_wf net" "same_family net ip" "p \<le> length (ip_bits ip)"
      "take p (ip_bits net) = take p (ip_bits ip)" by auto
  have fam: "same_family net addr = same_family ip addr" using ip(4) by (cases net; cases ip; cases addr) auto
  have "length (ip_bits net) = length (ip_bits ip)"
    using ip(2-4) by (cases net; cases ip) (auto simp: length_ip_bits)
  then have "net_wf \<lparr>network = net, prefix_len = p\<rparr>" using ip(3,5) by (simp add: net_wf_def)
  from contains_prefix [OF this assms(2)] ip(1,6) fam show ?thesis by (auto simp: covered_def)
qed

lemma parse_network_error: "parse_network n = Inl e \<Longrightarrow> written_network n = None"
  using parse_network_meaning [of n] by simp

lemma rule_meaning:
  assumes "ip_wf addr"
  shows "rel_option (\<lambda>r (a, covers). rule_action r = a
    \<and> covers addr = (case rule_network r of None \<Rightarrow> True | Some net \<Rightarrow> contains net addr)) (acl_rule_new txt) (spec_rule txt)"
proof (cases "split_whitespace txt")
  case (Cons a ns)
  show ?thesis
  proof (cases ns)
    case ns: (Cons n rest)
    show ?thesis
    proof (cases "spec_action a")
      case (Some act)
      then show ?thesis
        unfolding acl_rule_new_def spec_rule_def Cons ns spec_action_eq [symmetric]
        by (cases "parse_network n") (auto simp: parse_network_error dest!: parsed_covers [OF _ assms])
    qed (simp add: acl_rule_new_def spec_rule_def Cons ns spec_action_eq [symmetric])
  qed (simp add: acl_rule_new_def spec_rule_def Cons)
qed (simp add: acl_rule_new_def spec_rule_def)

lemma rules_allow_spec:
  assumes "ip_wf addr"
  shows "rules_allow (parse_rules texts) addr \<longleftrightarrow> spec_allowed texts addr"
proof (induction texts)
  case (Cons t texts)
  show ?case
    using rule_meaning [OF assms, of t] Cons.IH
    by (cases "acl_rule_new t"; cases "spec_rule t")
      (auto simp: parse_rules_def spec_allowed_def List.map_filter_simps split: option.splits)
qed (simp add: parse_rules_def spec_allowed_def List.map_filter_simps)

section \<open>Floods are limited\<close>

datatype flood_event = Arrival instant ip_addr | Departure ip_addr

fun flood_run :: "flood_event list \<Rightarrow> 'p acl_module \<times> (ip_addr \<times> instant) list \<Rightarrow> 'p acl_module \<times> (ip_addr \<times> instant) list" where
  "flood_run [] s = s"
| "flood_run (Arrival now ip # es) (m, log) =
     (case dos_check_and_track now ip m of
        (Inr _, m') \<Rightarrow> flood_run es (m', log @ [(ip, now)])
      | (Inl _, m') \<Rightarrow> flood_run es (m', log))"
| "flood_run (Departure ip # es) (m, log) = flood_run es (dos_release ip m, log)"

fun arrivals :: "flood_event list \<Rightarrow> instant list" where
  "arrivals [] = []"
| "arrivals (Arrival now ip # es) = now # arrivals es"
| "arrivals (Departure ip # es) = arrivals es"

definition admitted :: "ip_addr \<Rightarrow> (ip_addr \<times> instant) list \<Rightarrow> instant list" where
  "admitted ip log = map snd (filter (\<lambda>(a, t). a = ip) log)"

definition in_second :: "instant \<Rightarrow> instant \<Rightarrow> bool" where
  "in_second T t \<longleftrightarrow> T < t + secs 1 \<and> t \<le> T"

definition rate_limit :: "dos_config \<Rightarrow> nat" where
  "rate_limit cfg = min (dos_max_cps_per_ip cfg) (dos_scan_probe_threshold cfg)"

text \<open>The entry of an address remembers every admission of the t0 second, or the address is blocked
  at least until its admissions are older than a second.\<close>

definition dos_inv :: "dos_config \<Rightarrow> instant \<Rightarrow> dos_per_ip \<Rightarrow> instant list \<Rightarrow> bool" where
  "dos_inv cfg t0 e log \<longleftrightarrow>
     (\<forall>t \<in> set log. t \<le> t0)
     \<and> (case blocked_until e of
          None \<Rightarrow> \<forall>T \<ge> t0. filter (\<lambda>t. T < t + secs 1) log = filter (\<lambda>t. T < t + secs 1) (recent e)
        | Some u \<Rightarrow> \<forall>t \<in> set log. t + secs 1 \<le> u)
     \<and> (\<forall>T. length (filter (in_second T) log) \<le> rate_limit cfg)
     \<and> concurrent e \<le> dos_max_concurrent_per_ip cfg"

lemma dos_inv_fresh: "dos_inv cfg t0 fresh_dos []"
  by (simp add: dos_inv_def fresh_dos_def)

lemma dos_inv_release: "dos_inv cfg t0 e log \<Longrightarrow> dos_inv cfg t0 (e\<lparr>concurrent := concurrent e - 1\<rparr>) log"
  by (auto simp: dos_inv_def split: option.splits)

lemma dos_inv_later: "dos_inv cfg t0 e log \<Longrightarrow> t0 \<le> now \<Longrightarrow> dos_inv cfg now e log"
  by (fastforce simp: dos_inv_def split: option.splits)

text \<open>The entry after an expired block and the entries of the t0 second have been dealt with.\<close>

definition dos_clean :: "instant \<Rightarrow> dos_per_ip \<Rightarrow> dos_per_ip" where
  "dos_clean now entry =
     (let e1 = (case blocked_until entry of
                  Some _ \<Rightarrow> entry\<lparr>recent := [], concurrent := 0, blocked_until := None\<rparr>
                | None \<Rightarrow> entry)
      in e1\<lparr>recent := filter (\<lambda>t. now < t + secs 1) (recent e1)\<rparr>)"

definition is_blocked :: "instant \<Rightarrow> dos_per_ip \<Rightarrow> bool" where
  "is_blocked now e \<longleftrightarrow> (case blocked_until e of Some u \<Rightarrow> now < u | None \<Rightarrow> False)"

lemma dos_check_cases:
  assumes "dos_check_entry cfg now e = (r, e')"
  obtains
    (blocked) "is_blocked now e" "r \<noteq> Inr ()" "e' = e"
  | (block) "\<not> is_blocked now e" "r \<noteq> Inr ()"
      "e' = (dos_clean now e)\<lparr>blocked_until := Some (now + secs (dos_scan_block_duration_secs cfg))\<rparr>"
  | (busy) "\<not> is_blocked now e" "r \<noteq> Inr ()" "e' = dos_clean now e"
  | (admit) "\<not> is_blocked now e" "r = Inr ()" "length (recent (dos_clean now e)) < rate_limit cfg"
      "concurrent (dos_clean now e) < dos_max_concurrent_per_ip cfg"
      "e' = (dos_clean now e)\<lparr>recent := recent (dos_clean now e) @ [now], concurrent := concurrent (dos_clean now e) + 1\<rparr>"
proof (cases "is_blocked now e")
  case True
  with assms show thesis by (intro blocked) (auto simp: dos_check_entry_def is_blocked_def)
next
  case False
  with assms show thesis
    using block busy admit
    by (simp add: dos_check_entry_def is_blocked_def dos_clean_def rate_limit_def Let_def split: if_splits) blast+
qed

lemma dos_inv_clean:
  assumes "dos_inv cfg now e log" "\<not> is_blocked now e"
  shows "dos_inv cfg now (dos_clean now e) log"
    and "recent (dos_clean now e) = filter (\<lambda>t. now < t + secs 1) log"
    and "blocked_until (dos_clean now e) = None"
proof -
  show rec: "recent (dos_clean now e) = filter (\<lambda>t. now < t + secs 1) log"
  proof (cases "blocked_until e")
    case None
    with assms(1) show ?thesis by (simp add: dos_inv_def dos_clean_def)
  next
    case (Some u)
    with assms have "\<forall>t \<in> set log. t + secs 1 \<le> now" by (fastforce simp: dos_inv_def is_blocked_def)
    then have "filter (\<lambda>t. now < t + secs 1) log = []" by (auto simp: filter_empty_conv)
    with Some show ?thesis by (simp add: dos_clean_def)
  qed
  show nb: "blocked_until (dos_clean now e) = None" by (simp add: dos_clean_def Let_def split: option.splits)
  have "filter (\<lambda>t. T < t + secs 1) log = filter (\<lambda>t. T < t + secs 1) (recent (dos_clean now e))" if "now \<le> T" for T
    unfolding rec using that by (auto intro: filter_cong)
  moreover have "concurrent (dos_clean now e) \<le> dos_max_concurrent_per_ip cfg"
    using assms(1) by (simp add: dos_inv_def dos_clean_def Let_def split: option.splits)
  ultimately show "dos_inv cfg now (dos_clean now e) log"
    using assms(1) nb by (auto simp: dos_inv_def)
qed

lemma dos_inv_admit:
  assumes "dos_inv cfg now e log" "blocked_until e = None" "recent e = filter (\<lambda>t. now < t + secs 1) log"
    and "length (recent e) < rate_limit cfg" "concurrent e < dos_max_concurrent_per_ip cfg"
  shows "dos_inv cfg now (e\<lparr>recent := recent e @ [now], concurrent := concurrent e + 1\<rparr>) (log @ [now])"
proof -
  have "length (filter (in_second T) (log @ [now])) \<le> rate_limit cfg" for T
  proof (cases "T < now")
    case True
    then show ?thesis using assms(1) by (simp add: dos_inv_def in_second_def)
  next
    case False
    then have "length (filter (in_second T) log) \<le> length (filter (\<lambda>t. now < t + secs 1) log)"
      by (intro length_filter_mono) (auto simp: in_second_def)
    then show ?thesis using assms(3,4) by simp
  qed
  moreover have "filter (\<lambda>t. T < t + secs 1) (log @ [now]) = filter (\<lambda>t. T < t + secs 1) (recent e @ [now])" if "now \<le> T" for T
    using assms(1,2) that by (simp add: dos_inv_def)
  ultimately show ?thesis using assms(1,2,5) by (simp add: dos_inv_def)
qed

lemma dos_inv_check:
  assumes "dos_inv cfg t0 e log" "t0 \<le> now" "1 \<le> dos_scan_block_duration_secs cfg"
    and "dos_check_entry cfg now e = (r, e')"
  shows "dos_inv cfg now e' (if r = Inr () then log @ [now] else log)"
proof -
  note inv = dos_inv_later [OF assms(1,2)]
  show ?thesis
    using assms(4)
  proof (cases rule: dos_check_cases)
    case block
    have "t + secs 1 \<le> now + secs (dos_scan_block_duration_secs cfg)" if "t \<in> set log" for t
    proof -
      have "t \<le> now" using inv that by (simp add: dos_inv_def)
      moreover have "secs 1 \<le> secs (dos_scan_block_duration_secs cfg)" using assms(3) by simp
      ultimately show ?thesis by (rule add_mono)
    qed
    with block dos_inv_clean(1) [OF inv block(1)] show ?thesis by (simp add: dos_inv_def)
  next
    case admit
    with dos_inv_admit dos_inv_clean [OF inv admit(1)] show ?thesis by simp
  qed (use inv dos_inv_clean(1) in auto)
qed


definition flood_inv :: "instant \<Rightarrow> 'p acl_module \<Rightarrow> (ip_addr \<times> instant) list \<Rightarrow> bool" where
  "flood_inv t0 m log \<longleftrightarrow>
     (\<forall>ip. dos_inv (acl_config m) t0 (case dos_data m ip of Some e \<Rightarrow> e | None \<Rightarrow> fresh_dos) (admitted ip log))"

lemma admitted_append: "admitted ip (log @ [(a, t)]) = (if a = ip then admitted ip log @ [t] else admitted ip log)"
  by (simp add: admitted_def)

lemma flood_inv_arrival:
  assumes "flood_inv t0 m log" "t0 \<le> now" "1 \<le> dos_scan_block_duration_secs (acl_config m)"
    and "dos_check_and_track now ip m = (r, m')"
  shows "flood_inv now m' (if r = Inr () then log @ [(ip, now)] else log)" and "acl_config m' = acl_config m"
proof -
  let ?e = "case dos_data m ip of Some e \<Rightarrow> e | None \<Rightarrow> fresh_dos"
  obtain e' where e: "dos_check_entry (acl_config m) now ?e = (r, e')" "m' = m\<lparr>dos_data := (dos_data m)(ip \<mapsto> e')\<rparr>"
    using assms(4) by (auto simp: dos_check_and_track_def Let_def split: prod.splits)
  have "dos_inv (acl_config m) t0 ?e (admitted ip log)" using assms(1) by (simp add: flood_inv_def)
  from dos_inv_check [OF this assms(2,3) e(1)] assms(1) e(2) dos_inv_later [OF _ assms(2)]
  show "flood_inv now m' (if r = Inr () then log @ [(ip, now)] else log)"
    by (auto simp: flood_inv_def admitted_append)
  show "acl_config m' = acl_config m" using e(2) by simp
qed

lemma flood_inv_departure:
  assumes "flood_inv t0 m log"
  shows "flood_inv t0 (dos_release ip m) log" and "acl_config (dos_release ip m) = acl_config m"
proof -
  show "flood_inv t0 (dos_release ip m) log"
  proof (cases "dos_data m ip")
    case (Some e)
    with assms have "dos_inv (acl_config m) t0 e (admitted ip log)" by (auto simp: flood_inv_def dest: spec [of _ ip])
    from dos_inv_release [OF this] assms Some show ?thesis by (simp add: flood_inv_def dos_release_def)
  qed (use assms in \<open>simp add: dos_release_def\<close>)
  show "acl_config (dos_release ip m) = acl_config m" by (simp add: dos_release_def split: option.splits)
qed

lemma flood_inv_run:
  "flood_inv t0 m log \<Longrightarrow> sorted (t0 # arrivals es) \<Longrightarrow> 1 \<le> dos_scan_block_duration_secs (acl_config m) \<Longrightarrow>
   flood_run es (m, log) = (m', log') \<Longrightarrow> \<exists>t1. flood_inv t1 m' log' \<and> acl_config m' = acl_config m"
proof (induction es arbitrary: t0 m log)
  case (Cons ev es)
  show ?case
  proof (cases ev)
    case (Arrival now ip)
    obtain r m1 where c: "dos_check_and_track now ip m = (r, m1)" by fastforce
    have "flood_run es (m1, if r = Inr () then log @ [(ip, now)] else log) = (m', log')"
      using Cons.prems(4) Arrival c by (auto split: sum.splits)
    with Cons.IH [of now m1] flood_inv_arrival [OF Cons.prems(1) _ Cons.prems(3) c] Cons.prems(2,3) Arrival
    show ?thesis by auto
  next
    case (Departure ip)
    with Cons.IH [of t0 "dos_release ip m"] flood_inv_departure [OF Cons.prems(1), of ip] Cons.prems(2-4)
    show ?thesis by auto
  qed
qed auto

text \<open>C2: a flood from one address is limited.  Whatever the order in which transactions of any addresses
  arrive and depart, in every period of one second no more transactions of one address are admitted than the
  smaller of the rate limit and the probe threshold, and the count of its open transactions stays within its limit, provided
  that a block lasts at least a second.\<close>

theorem flood_limited:
  assumes "dos_data m = Map.empty" and "sorted (arrivals es)" and "1 \<le> dos_scan_block_duration_secs (acl_config m)"
    and "flood_run es (m, []) = (m', log)"
  shows "(\<forall>ip T. length (filter (in_second T) (admitted ip log)) \<le> rate_limit (acl_config m))
    \<and> (\<forall>ip e. dos_data m' ip = Some e \<longrightarrow> concurrent e \<le> dos_max_concurrent_per_ip (acl_config m))"
proof -
  have "flood_inv 0 m []" using assms(1) by (simp add: flood_inv_def dos_inv_fresh admitted_def)
  from flood_inv_run [OF this _ assms(3,4)] assms(2) obtain t1 where t1: "flood_inv t1 m' log" "acl_config m' = acl_config m"
    by auto
  then have inv: "dos_inv (acl_config m) t1 (case dos_data m' ip of Some e \<Rightarrow> e | None \<Rightarrow> fresh_dos) (admitted ip log)" for ip
    by (simp add: flood_inv_def)
  show ?thesis
  proof (intro conjI allI impI)
    fix ip T show "length (filter (in_second T) (admitted ip log)) \<le> rate_limit (acl_config m)"
      using inv [of ip] by (simp add: dos_inv_def)
  next
    fix ip e assume "dos_data m' ip = Some e"
    then show "concurrent e \<le> dos_max_concurrent_per_ip (acl_config m)"
      using inv [of ip] by (simp add: dos_inv_def)
  qed
qed


definition demo_dos :: dos_config where
  "demo_dos = \<lparr>dos_enabled = True, dos_max_cps_per_ip = 1, dos_max_concurrent_per_ip = 1, dos_scan_probe_threshold = 5,
     dos_scan_block_duration_secs = 60, uri_max_length = 256, uri_reject_malformed = False\<rparr>"

definition demo_acl :: "unit acl_module" where
  "demo_acl = with_server demo_dos None None None [] None"

lemma flood_limited_witness:
  "let m = demo_acl; r = flood_run [Arrival 0 (V4 1), Departure (V4 1), Arrival 5 (V4 1), Arrival 6 (V4 2)] (m, [])
   in snd r = [(V4 1, 0), (V4 2, 6)] \<and> length (filter (in_second 5) (admitted (V4 1) (snd r))) \<le> 1"
proof -
  let ?es = "[Arrival 0 (V4 1), Departure (V4 1), Arrival 5 (V4 1), Arrival 6 (V4 2)]"
  obtain m' log where r: "flood_run ?es (demo_acl, []) = (m', log)" by fastforce
  have h: "dos_data demo_acl = Map.empty" "sorted (arrivals ?es)" "1 \<le> dos_scan_block_duration_secs (acl_config demo_acl)"
    "rate_limit (acl_config demo_acl) = 1"
    by (simp_all add: demo_acl_def with_server_def demo_dos_def rate_limit_def)
  have "log = [(V4 1, 0), (V4 2, 6)]"
    using r by (simp add: demo_acl_def with_server_def demo_dos_def dos_check_and_track_def dos_check_entry_def
        fresh_dos_def dos_release_def secs_def)
  with flood_limited [OF h(1-3) r] h(4) r show ?thesis by (auto simp: Let_def)
qed

section \<open>Transactions\<close>

lemma dos_check_frame:
  assumes "dos_check_and_track now ip m = (r, m1)"
  shows "is_from_trunk_context lib m1 addr = is_from_trunk_context lib m addr" "is_ip_allowed m1 addr = is_ip_allowed m addr"
proof -
  obtain D where D: "m1 = m\<lparr>dos_data := D\<rparr>"
    using assms by (auto simp: dos_check_and_track_def Let_def split: prod.splits)
  show "is_from_trunk_context lib m1 addr = is_from_trunk_context lib m addr" "is_ip_allowed m1 addr = is_ip_allowed m addr"
    unfolding D by (simp_all add: is_from_trunk_context_def is_ip_allowed_def load_rules_def cong: option.case_cong)
qed

text \<open>the verdict on a transaction.  The module lets a transaction pass exactly when its user agent is
  acceptable, its From URI passes the normalisation check, its source address can be read, the address is not over
  its flood limits (when these are on), and the address belongs to a trunk or the rules allow it.\<close>

theorem transaction_passes_iff:
  "fst (on_transaction_begin lib now t (c, m)) = Inr Continue \<longleftrightarrow>
     ua_check m t = None \<and> is_ok (check_uri_normalization (acl_config m) t)
     \<and> (\<exists>addr. tx_source t = Inr addr
          \<and> (\<not> dos_enabled (acl_config m) \<or> fst (dos_check_and_track now addr m) = Inr ())
          \<and> (is_from_trunk_context lib m addr \<noteq> None \<or> is_ip_allowed m addr))"
proof (cases "tx_source t")
  case (Inl e)
  then show ?thesis by (auto simp: on_transaction_begin_def extract_ip_def split: option.splits)
next
  case (Inr addr)
  obtain r m1 where d: "dos_check_and_track now addr m = (r, m1)" by fastforce
  have ok: "is_ok r \<longleftrightarrow> r = Inr ()" by (cases r) auto
  from Inr ok d dos_check_frame [OF d] show ?thesis
    by (auto simp: on_transaction_begin_def extract_ip_def Let_def split: option.splits)
qed

text \<open>The access-control module as one of the server's modules.\<close>

definition acl_handlers :: "net_lib \<Rightarrow> instant \<Rightarrow> tx \<Rightarrow> (cookie \<times> 'p acl_module) proxy_module" where
  "acl_handlers lib now t = (on_transaction_begin lib now t, on_transaction_end t)"

text \<open>A refused transaction gives back a place it never took.  When an address has used up its open
  transactions, the next one is refused, but the server then runs the closing handlers of all modules, and the count
  of the address is one lower than the number of its open transactions.\<close>

theorem refused_transaction_releases:
  assumes "ua_check m t = None" "is_ok (check_uri_normalization (acl_config m) t)" "tx_source t = Inr ip"
    and "dos_enabled (acl_config m)" "dos_data m ip = Some e" "blocked_until e = None" "recent e = []"
    and "concurrent e = dos_max_concurrent_per_ip (acl_config m)" "0 < dos_max_cps_per_ip (acl_config m)"
  shows "fst (on_transaction_begin lib now t (c, m)) = Inr Abort
    \<and> process_transaction [acl_handlers lib now t] (c, m)
        = (True, c, m\<lparr>dos_data := (dos_data m)(ip \<mapsto> e\<lparr>concurrent := dos_max_concurrent_per_ip (acl_config m) - 1\<rparr>)\<rparr>)"
proof -
  have d: "dos_check_and_track now ip m = (Inl ''Concurrent limit exceeded'', m\<lparr>dos_data := (dos_data m)(ip \<mapsto> e)\<rparr>)"
    using assms(5-9) by (cases e) (simp add: dos_check_and_track_def dos_check_entry_def Let_def)
  have b: "on_transaction_begin lib now t (c, m) = (Inr Abort, c, m\<lparr>dos_data := (dos_data m)(ip \<mapsto> e)\<rparr>)"
    using assms(1-4) d by (simp add: on_transaction_begin_def extract_ip_def)
  with assms(3,4,8) show ?thesis
    by (simp add: process_transaction_def acl_handlers_def on_transaction_end_def extract_ip_def dos_release_def)
qed

definition demo_net :: net_lib where
  "demo_net = \<lparr>cidr = \<lambda>_. None, resolve = \<lambda>_. None, regex_new = \<lambda>_. Inl [], uri_host = \<lambda>_. None\<rparr>"

definition demo_tx :: tx where
  "demo_tx = \<lparr>tx_user_agent = None, tx_from_uri = Inr (Inr ''sip:a@b''), tx_source = Inr (V4 1)\<rparr>"

lemma transaction_passes_iff_witness:
  "fst (on_transaction_begin demo_net 9 demo_tx (\<lparr>spam = None, from_trunk = None\<rparr>, demo_acl)) = Inr Continue"
proof -
  have "ua_check demo_acl demo_tx = None" by (simp add: ua_check_def demo_tx_def demo_acl_def with_server_def)
  moreover have "is_ok (check_uri_normalization (acl_config demo_acl) demo_tx)" by code_simp
  moreover have "fst (dos_check_and_track 9 (V4 1) demo_acl) = Inr ()"
    by (simp add: dos_check_and_track_def dos_check_entry_def fresh_dos_def demo_acl_def with_server_def demo_dos_def)
  moreover have "is_ip_allowed demo_acl (V4 1)" by code_simp
  ultimately show ?thesis unfolding transaction_passes_iff by (simp add: demo_tx_def)
qed

lemma refused_transaction_releases_witness:
  "let m = demo_acl\<lparr>dos_data := [V4 1 \<mapsto> \<lparr>recent = [], concurrent = 1, blocked_until = None\<rparr>]\<rparr>;
       c = \<lparr>spam = None, from_trunk = None\<rparr>
   in \<exists>m'. process_transaction [acl_handlers demo_net 9 demo_tx] (c, m) = (True, c, m') \<and>
        map_option concurrent (dos_data m' (V4 1)) = Some 0"
proof -
  let ?e = "\<lparr>recent = [], concurrent = 1, blocked_until = None\<rparr>"
  let ?m = "demo_acl\<lparr>dos_data := [V4 1 \<mapsto> ?e]\<rparr>"
  have "ua_check ?m demo_tx = None" "is_ok (check_uri_normalization (acl_config ?m) demo_tx)" "tx_source demo_tx = Inr (V4 1)"
    "dos_enabled (acl_config ?m)" "dos_data ?m (V4 1) = Some ?e" "blocked_until ?e = None" "recent ?e = []"
    "concurrent ?e = dos_max_concurrent_per_ip (acl_config ?m)" "0 < dos_max_cps_per_ip (acl_config ?m)"
    by (simp_all add: demo_tx_def demo_acl_def with_server_def demo_dos_def ua_check_def check_uri_normalization_def)
  from refused_transaction_releases [OF this, of demo_net 9 "\<lparr>spam = None, from_trunk = None\<rparr>"] show ?thesis
    by (simp add: Let_def demo_acl_def with_server_def demo_dos_def)
qed

text \<open>A transaction that fails with an error in a later module keeps its place for ever: the server returns
  without running the closing handlers, and the count of the address stays one higher.\<close>

theorem failed_transaction_leaks:
  assumes "on_transaction_begin lib now t (c, m) = (Inr Continue, c', m1)" "tx_source t = Inr ip"
    and "dos_enabled (acl_config m)" "fst next (c', m1) = (Inl err, c', m1)"
  shows "process_transaction [acl_handlers lib now t, next] (c, m) = (False, c', m1)
    \<and> (\<exists>e. dos_data m1 ip = Some e \<and> 0 < concurrent e)"
proof -
  obtain r m2 where d: "dos_check_and_track now ip m = (r, m2)" by fastforce
  from assms(1-3) d have m1: "r = Inr ()" "m1 = m2"
    by (auto simp: on_transaction_begin_def extract_ip_def split: option.splits if_splits; cases r; auto)+
  with d have "\<exists>e. dos_data m1 ip = Some e \<and> 0 < concurrent e"
    by (auto simp: dos_check_and_track_def dos_check_entry_def Let_def split: prod.splits if_splits)
  with assms(1,4) show ?thesis by (simp add: process_transaction_def acl_handlers_def)
qed


lemma failed_transaction_leaks_witness:
  "let c = \<lparr>spam = None, from_trunk = None\<rparr>;
       r = process_transaction [acl_handlers demo_net 9 demo_tx, (\<lambda>s. (Inl ''no route'', s), \<lambda>s. (Inr (), s))] (c, demo_acl)
   in \<not> fst r \<and> (\<exists>e. dos_data (snd (snd r)) (V4 1) = Some e \<and> 0 < concurrent e)"
proof -
  let ?c = "\<lparr>spam = None, from_trunk = None\<rparr>"
  let ?n = "(\<lambda>s. (Inl ''no route'', s), \<lambda>s. (Inr (), s)) :: (cookie \<times> unit acl_module) proxy_module"
  have rules: "load_rules (demo_acl\<lparr>dos_data := D\<rparr>) = [\<lparr>rule_action = Allow, rule_network = None\<rparr>, \<lparr>rule_action = Deny, rule_network = None\<rparr>]" for D
  proof -
    have "parse_rules [''allow all'', ''deny all''] =
        [\<lparr>rule_action = Allow, rule_network = None\<rparr>, \<lparr>rule_action = Deny, rule_network = None\<rparr>]" by code_simp
    then show ?thesis by (simp add: load_rules_def demo_acl_def with_server_def resolve_base_rules_def)
  qed
  let ?e = "\<lparr>recent = [9], concurrent = 1, blocked_until = None\<rparr>"
  have d: "dos_check_and_track 9 (V4 1) demo_acl = (Inr (), demo_acl\<lparr>dos_data := [V4 1 \<mapsto> ?e]\<rparr>)"
    by (simp add: demo_acl_def with_server_def demo_dos_def dos_check_and_track_def dos_check_entry_def fresh_dos_def)
  have cfg: "dos_enabled (acl_config demo_acl)" "server demo_acl = None" "config_trunks demo_acl = []" "ua_white_list demo_acl = {}"
    "\<not> uri_reject_malformed (acl_config demo_acl)"
    by (simp_all add: demo_acl_def with_server_def demo_dos_def)
  have b: "on_transaction_begin demo_net 9 demo_tx (?c, demo_acl) = (Inr Continue, ?c, demo_acl\<lparr>dos_data := [V4 1 \<mapsto> ?e]\<rparr>)"
    using cfg rules [of "[V4 1 \<mapsto> ?e]"]
    by (simp add: on_transaction_begin_def demo_tx_def ua_check_def check_uri_normalization_def extract_ip_def d
        is_from_trunk_context_def trunk_of_def is_ip_allowed_def)
  have "tx_source demo_tx = Inr (V4 1)" by (simp add: demo_tx_def)
  from failed_transaction_leaks [OF b this cfg(1), of ?n "''no route''"] show ?thesis by (simp add: Let_def)
qed

text \<open>C5: the first rule that covers an address decides, and no rule means no.  On well-formed addresses
  \<open>is_ip_allowed\<close> agrees with the reference reading of the rule texts: a rule with a network covers the addresses that
  share with the written address its first bits, as many as the prefix length says (all of them when there is none), whatever the
  other bits of the written address are; texts that are not rules are skipped.\<close>

theorem acl_first_match:
  assumes "ip_wf addr"
  shows "is_ip_allowed m addr \<longleftrightarrow>
    spec_allowed (case server m of Some s \<Rightarrow> acl_rules_snapshot s | None \<Rightarrow> fallback_rules m) addr"
  using rules_allow_spec [OF assms] by (simp add: is_ip_allowed_def load_rules_def split: option.splits)

lemma acl_first_match_witness:
  "let m = demo_acl\<lparr>fallback_rules := [''deny 10.0.0.9/8'', ''allow all'']\<rparr>
   in ip_wf (V4 0x0A010203) \<and> \<not> is_ip_allowed m (V4 0x0A010203)
      \<and> \<not> spec_allowed [''deny 10.0.0.9/8'', ''allow all''] (V4 0x0A010203) \<and> is_ip_allowed m (V4 0x0B010203)"
proof -
  let ?m = "demo_acl\<lparr>fallback_rules := [''deny 10.0.0.9/8'', ''allow all'']\<rparr>"
  have r: "parse_rules [''deny 10.0.0.9/8'', ''allow all''] =
      [\<lparr>rule_action = Deny, rule_network = Some \<lparr>network = V4 0x0A000000, prefix_len = 8\<rparr>\<rparr>,
       \<lparr>rule_action = Allow, rule_network = None\<rparr>]" by code_simp
  have c: "contains \<lparr>network = V4 0x0A000000, prefix_len = 8\<rparr> (V4 0x0A010203)"
    "\<not> contains \<lparr>network = V4 0x0A000000, prefix_len = 8\<rparr> (V4 0x0B010203)" by code_simp+
  have s: "server ?m = None" by (simp add: demo_acl_def with_server_def)
  have "\<not> is_ip_allowed ?m (V4 0x0A010203)" "is_ip_allowed ?m (V4 0x0B010203)"
    by (simp_all add: is_ip_allowed_def load_rules_def s r c)
  with acl_first_match [of "V4 0x0A010203" ?m] s show ?thesis by (simp add: Let_def)
qed

end
