(* ===== verification/Auth.thy ===== *)
theory Auth
  imports Users Acl
begin

text \<open>
  Authentication of requests: the cache of authenticated dialogs (\<open>src/src/proxy/dialog_auth_cache.rs\<close>), the user of a
  request (\<open>src/src/call/user.rs\<close>), the realms of the server (\<open>src/src/proxy/server.rs\<close>, \<open>src/src/config.rs\<close>) and the
  module that challenges and checks callers (\<open>src/src/proxy/auth.rs\<close>).  Reading header fields, checking a digest and
  random numbers are the stack's: a request has the fields as the stack reads them, and a record carries the rest.
\<close>

section \<open>Errors\<close>

fun show_auth_error :: "auth_error \<Rightarrow> string" where
  "show_auth_error UserNotFound = ''User not found''"
| "show_auth_error InvalidCredentials = ''Invalid credentials''"
| "show_auth_error SpamDetected = ''Spam detected''"
| "show_auth_error PaymentRequired = ''Payment required''"
| "show_auth_error UserDisabled = ''User is disabled''"
| "show_auth_error (AuthOther e) = e"

section \<open>Authenticated dialogs\<close>

type_synonym auth_cache_key = "string \<times> string"

record auth_cache_entry =
  ace_source_addr :: string
  ace_authenticated_at :: instant
  ace_ttl :: duration

definition cache_entry_expired :: "instant \<Rightarrow> auth_cache_entry \<Rightarrow> bool" where
  "cache_entry_expired now e \<longleftrightarrow> ace_ttl e < now - ace_authenticated_at e"

record auth_cache_config =
  acc_enabled :: bool
  acc_cache_size :: nat
  acc_ttl_seconds :: nat

record 'c dialog_auth_cache =
  dac_inner :: 'c
  dac_ttl :: duration

type_synonym 'c auth_lru = "(auth_cache_key, auth_cache_entry, 'c) lru_lib"

definition dac_new :: "'c auth_lru \<Rightarrow> auth_cache_config \<Rightarrow> 'c dialog_auth_cache" where
  "dac_new lru cfg =
     \<lparr>dac_inner = lru_new lru (if acc_cache_size cfg = 0 then 10000 else acc_cache_size cfg), dac_ttl = secs (acc_ttl_seconds cfg)\<rparr>"

definition dac_put :: "'c auth_lru \<Rightarrow> instant \<Rightarrow> auth_cache_key \<Rightarrow> string \<Rightarrow> 'c dialog_auth_cache \<Rightarrow> 'c dialog_auth_cache" where
  "dac_put lru now key source_addr d =
     d\<lparr>dac_inner := lru_put lru key \<lparr>ace_source_addr = source_addr, ace_authenticated_at = now, ace_ttl = dac_ttl d\<rparr> (dac_inner d)\<rparr>"

definition is_authenticated ::
  "'c auth_lru \<Rightarrow> instant \<Rightarrow> auth_cache_key \<Rightarrow> string \<Rightarrow> 'c dialog_auth_cache \<Rightarrow> bool \<times> 'c dialog_auth_cache" where
  "is_authenticated lru now key source_addr d =
     (let (hit, inner) = lru_get lru key (dac_inner d); d1 = d\<lparr>dac_inner := inner\<rparr>
      in case hit of
           Some e \<Rightarrow> if cache_entry_expired now e then (False, d1) else (ace_source_addr e = source_addr, d1)
         | None \<Rightarrow> (False, d1))"

definition dac_remove :: "'c auth_lru \<Rightarrow> auth_cache_key \<Rightarrow> 'c dialog_auth_cache \<Rightarrow> 'c dialog_auth_cache" where
  "dac_remove lru key d = d\<lparr>dac_inner := lru_pop lru key (dac_inner d)\<rparr>"

definition dac_len :: "'c auth_lru \<Rightarrow> 'c dialog_auth_cache \<Rightarrow> nat" where
  "dac_len lru d = lru_len lru (dac_inner d)"

section \<open>Requests\<close>

datatype sip_method = MInvite | MRegister | MOther string

record authorization =
  au_username :: string
  au_realm :: string
  au_digest :: string

record from_header =
  fh_uri :: "uri result"
  fh_display_name :: "string option"
  fh_tag :: "string option"

record to_header =
  th_uri :: "uri result"
  th_has_tag :: bool

text \<open>A transaction: the request as the stack reads it, with where the answer goes to and where it came from.\<close>

record sip_tx =
  rq_method :: sip_method
  rq_uri :: uri
  rq_headers :: headers
  rq_from :: "from_header result"
  rq_to :: "to_header result"
  rq_call_id :: "string result"
  rq_contact :: "sip_contact option"
  rq_via_target :: "(transport \<times> host_port) result"
  rq_source :: "sip_addr option"

record auth_lib =
  auth_parse :: "string \<Rightarrow> authorization option"
  verify_digest :: "authorization \<Rightarrow> string \<Rightarrow> sip_method \<Rightarrow> string \<Rightarrow> bool"
  sip_scheme :: "transport \<Rightarrow> string"
  addr_show :: "sip_addr \<Rightarrow> string"
  random_text :: "nat \<Rightarrow> string"

text \<open>The user named in the credentials: the first \<open>Authorization\<close> field, or else the first
  \<open>Proxy-Authorization\<close> field.  A field that cannot be read is an error.\<close>

fun first_header :: "header_tag \<Rightarrow> headers \<Rightarrow> string option" where
  "first_header t [] = None"
| "first_header t (Std t' v # hs) = (if t' = t then Some v else first_header t hs)"
| "first_header t (Other n v # hs) = first_header t hs"

definition check_authorization_headers :: "auth_lib \<Rightarrow> headers \<Rightarrow> (sip_user \<times> authorization) option option" where
  "check_authorization_headers lib hs =
     (case (case first_header HAuthorization hs of Some v \<Rightarrow> Some v | None \<Rightarrow> first_header HProxyAuthorization hs) of
        None \<Rightarrow> Some None
      | Some v \<Rightarrow>
          (case auth_parse lib v of
             None \<Rightarrow> None
           | Some au \<Rightarrow> Some (Some (default_user\<lparr>su_username := au_username au, su_realm := Some (au_realm au)\<rparr>, au))))"

definition build_contact :: "auth_lib \<Rightarrow> sip_addr list \<Rightarrow> sip_user \<Rightarrow> sip_user" where
  "build_contact lib addrs u =
     (case addrs of
        [] \<Rightarrow> u
      | addr # _ \<Rightarrow>
          u\<lparr>su_contact := Some \<lparr>ct_display_name = None,
               ct_uri = default_uri\<lparr>u_scheme := (case a_type addr of Some t \<Rightarrow> sip_scheme lib t | None \<Rightarrow> []),
                          u_user := Some (get_contact_username u), u_host := fst (a_addr addr), u_port := snd (a_addr addr)\<rparr>,
               ct_transport = (case a_type addr of Some Udp \<Rightarrow> None | t \<Rightarrow> t)\<rparr>\<rparr>)"

definition user_of_tx :: "auth_lib \<Rightarrow> sip_addr list \<Rightarrow> sip_tx \<Rightarrow> sip_user result" where
  "user_of_tx lib addrs tx =
     (case rq_from tx of
        Inl e \<Rightarrow> Inl e
      | Inr from \<Rightarrow>
          (case fh_uri from of
             Inl e \<Rightarrow> Inl e
           | Inr from_uri \<Rightarrow>
               (let (username, realm) =
                      (case check_authorization_headers lib (rq_headers tx) of
                         Some (Some (u, _)) \<Rightarrow> (su_username u, su_realm u)
                       | _ \<Rightarrow> (user_or_default from_uri,
                               Some (case u_port from_uri of
                                       Some p \<Rightarrow> u_host from_uri @ '':'' @ string_of_nat p
                                     | None \<Rightarrow> u_host from_uri)))
                in case rq_via_target tx of
                     Inl e \<Rightarrow> Inl e
                   | Inr (tr, addr) \<Rightarrow>
                       Inr (build_contact lib addrs (default_user\<lparr>su_username := username, su_realm := realm,
                              su_origin_contact := rq_contact tx, su_from := Some from_uri,
                              su_destination := Some \<lparr>a_type = Some tr, a_addr = addr\<rparr>,
                              su_is_support_webrtc := (tr = Wss \<or> tr = Ws), su_display_name := fh_display_name from\<rparr>)))))"

section \<open>The server\<close>

record server_config =
  sc_realms :: "string list option"
  sc_ports :: "nat set"
  sc_external_ip :: "string option"
  sc_addrs :: "sip_addr list"
  sc_ensure_user :: bool
  sc_cluster_peer_ips :: "ip_addr list"

text \<open>The ports are those of the configuration: UDP, TCP, TLS and web sockets.\<close>

fun realm_listed :: "nat set \<Rightarrow> string \<Rightarrow> string \<Rightarrow> nat option \<Rightarrow> string list \<Rightarrow> bool option" where
  "realm_listed ports callee_realm host port [] = None"
| "realm_listed ports callee_realm host port (item # rest) =
     (if item = callee_realm then Some True
      else if item = host then Some (case port of Some p \<Rightarrow> p \<in> ports | None \<Rightarrow> True)
      else realm_listed ports callee_realm host port rest)"

definition is_same_realm :: "server_config \<Rightarrow> user_backend \<Rightarrow> string \<Rightarrow> bool" where
  "is_same_realm cfg backend callee_realm =
     (let (host, port) = (case find_char (CHR '':'') callee_realm of
                            Some pos \<Rightarrow> (take pos callee_realm, parse_unsigned 65535 (drop (pos + 1) callee_realm))
                          | None \<Rightarrow> (callee_realm, None));
          my_port = (case port of Some p \<Rightarrow> p \<in> sc_ports cfg | None \<Rightarrow> True)
      in if host = ''localhost'' \<or> host = ''127.0.0.1'' \<or> host = ''::1'' then my_port
         else if sc_external_ip cfg = Some host then my_port
         else case (case sc_realms cfg of Some rs \<Rightarrow> realm_listed (sc_ports cfg) callee_realm host port rs | None \<Rightarrow> None) of
                Some b \<Rightarrow> b
              | None \<Rightarrow>
                  if list_ex (\<lambda>a. fst (a_addr a) = host \<and> (case port of Some p \<Rightarrow> snd (a_addr a) = Some p | None \<Rightarrow> True)) (sc_addrs cfg)
                  then True else ub_is_same_realm backend callee_realm)"

definition select_realm :: "server_config \<Rightarrow> string \<Rightarrow> string" where
  "select_realm cfg request_host =
     (let requested = trim request_host; normalized = normalize_realm requested;
          fallback = (if requested = [] then normalized else requested)
      in case sc_realms cfg of
           Some realms \<Rightarrow>
             (case List.find (\<lambda>r. r = requested \<or> r = normalized) realms of
                Some existing \<Rightarrow> existing
              | None \<Rightarrow> (case realms of r # _ \<Rightarrow> if r \<noteq> [] then r else fallback | [] \<Rightarrow> fallback))
         | None \<Rightarrow> fallback)"

section \<open>The module\<close>

record auth_cookie = cookie +
  ck_user :: "sip_user option"
  ck_callee_display_name :: "string option"

type_synonym auth_backend = "sip_tx \<Rightarrow> auth_cookie \<Rightarrow> auth_error + sip_user option"

record auth_module =
  am_lib :: auth_lib
  am_config :: server_config
  am_users :: user_backend
  am_backends :: "auth_backend list"

text \<open>What a transaction changes: its cookie, the cache, the answers that are sent, and the random texts used.\<close>

record 'c auth_state =
  as_cookie :: auth_cookie
  as_cache :: "'c dialog_auth_cache option"
  as_replies :: "(nat \<times> headers) list"
  as_randoms :: nat

definition module_cache :: "'c auth_lru \<Rightarrow> auth_cache_config option \<Rightarrow> 'c dialog_auth_cache option" where
  "module_cache lru config =
     (case config of Some c \<Rightarrow> if acc_enabled c then Some (dac_new lru c) else None | None \<Rightarrow> None)"

fun request_credentials :: "auth_lib \<Rightarrow> headers \<Rightarrow> (authorization \<times> string) option" where
  "request_credentials lib [] = None"
| "request_credentials lib (Std HAuthorization v # hs) = map_option (\<lambda>au. (au, v)) (auth_parse lib v)"
| "request_credentials lib (Std HProxyAuthorization v # hs) = map_option (\<lambda>au. (au, v)) (auth_parse lib v)"
| "request_credentials lib (_ # hs) = request_credentials lib hs"

definition verify_credentials :: "auth_lib \<Rightarrow> sip_user \<Rightarrow> sip_method \<Rightarrow> authorization \<Rightarrow> string \<Rightarrow> bool" where
  "verify_credentials lib u meth au raw = verify_digest lib au (text_or_empty (su_password u)) meth raw"

definition authenticate_request :: "auth_module \<Rightarrow> sip_tx \<Rightarrow> auth_error + sip_user option" where
  "authenticate_request m tx =
     (case request_credentials (am_lib m) (rq_headers tx) of
        None \<Rightarrow> Inr None
      | Some (au, raw) \<Rightarrow>
          (case user_of_tx (am_lib m) (sc_addrs (am_config m)) tx of
             Inl e \<Rightarrow> Inl (AuthOther e)
           | Inr u \<Rightarrow>
               (case ub_get_user (am_users m) (su_username u) (su_realm u) of
                  Inl e \<Rightarrow> Inl e
                | Inr None \<Rightarrow> Inr None
                | Inr (Some stored) \<Rightarrow>
                    if \<not> su_enabled stored then Inr None
                    else if (case su_realm u of Some r \<Rightarrow> \<not> is_same_realm (am_config m) (am_users m) r | None \<Rightarrow> False) then Inr None
                    else (let merged = merge_with u stored
                          in if verify_credentials (am_lib m) merged (rq_method tx) au raw then Inr (Some merged) else Inr None))))"

definition is_in_dialog_request :: "sip_tx \<Rightarrow> bool" where
  "is_in_dialog_request tx = (case rq_to tx of Inr h \<Rightarrow> th_has_tag h | Inl _ \<Rightarrow> False)"

definition extract_auth_cache_key :: "sip_tx \<Rightarrow> auth_cache_key option" where
  "extract_auth_cache_key tx =
     (case (rq_call_id tx, rq_from tx) of
        (Inr call_id, Inr from) \<Rightarrow> map_option (\<lambda>tag. (call_id, tag)) (fh_tag from)
      | _ \<Rightarrow> None)"

definition is_cluster_peer_source :: "auth_module \<Rightarrow> sip_tx \<Rightarrow> bool" where
  "is_cluster_peer_source m tx =
     (case rq_source tx of
        None \<Rightarrow> False
      | Some source \<Rightarrow>
          (case ip_from_str (fst (a_addr source)) of
             None \<Rightarrow> False
           | Some ip \<Rightarrow> if ip = V4 0 then False else ip \<in> set (sc_cluster_peer_ips (am_config m))))"

definition quote :: string where "quote = [CHR 0x22]"

definition challenge_text :: "string \<Rightarrow> string \<Rightarrow> string" where
  "challenge_text realm nonce =
     ''Digest realm='' @ quote @ realm @ quote @ '', nonce='' @ quote @ nonce @ quote @ '', algorithm=MD5''"

definition set_cookie_user :: "sip_user \<Rightarrow> 'c auth_state \<Rightarrow> 'c auth_state" where
  "set_cookie_user u s = s\<lparr>as_cookie := (as_cookie s)\<lparr>ck_user := Some u\<rparr>\<rparr>"

definition mark_spam :: "'c auth_state \<Rightarrow> 'c auth_state" where
  "mark_spam s = s\<lparr>as_cookie := (as_cookie s)\<lparr>spam := Some Spam\<rparr>\<rparr>"

text \<open>An authenticated dialog is remembered with the address it came from.\<close>

definition remember :: "'c auth_lru \<Rightarrow> auth_lib \<Rightarrow> instant \<Rightarrow> sip_tx \<Rightarrow> 'c auth_state \<Rightarrow> 'c auth_state" where
  "remember lru lib now tx s =
     (case (as_cache s, rq_source tx) of
        (Some cache, Some source) \<Rightarrow>
          (case extract_auth_cache_key tx of
             Some key \<Rightarrow> s\<lparr>as_cache := Some (dac_put lru now key (addr_show lib source) cache)\<rparr>
           | None \<Rightarrow> s)
      | _ \<Rightarrow> s)"

text \<open>Whether the dialog of the request is in the cache.\<close>

definition skip_by_cache :: "'c auth_lru \<Rightarrow> auth_lib \<Rightarrow> instant \<Rightarrow> sip_tx \<Rightarrow> 'c auth_state \<Rightarrow> bool \<times> 'c auth_state" where
  "skip_by_cache lru lib now tx s =
     (case as_cache s of
        None \<Rightarrow> (False, s)
      | Some cache \<Rightarrow>
          if is_in_dialog_request tx then
            (case (extract_auth_cache_key tx, rq_source tx) of
               (Some key, Some source) \<Rightarrow>
                 (let (hit, cache1) = is_authenticated lru now key (addr_show lib source) cache
                  in (hit, s\<lparr>as_cache := Some cache1\<rparr>))
             | _ \<Rightarrow> (False, s))
          else (False, s))"

fun try_backends :: "auth_backend list \<Rightarrow> sip_tx \<Rightarrow> 'c auth_state \<Rightarrow> sip_user option \<times> 'c auth_state" where
  "try_backends [] tx s = (None, s)"
| "try_backends (b # bs) tx s =
     (case b tx (as_cookie s) of
        Inr (Some u) \<Rightarrow> (Some u, s)
      | Inl e \<Rightarrow> try_backends bs tx (if e = SpamDetected then mark_spam s else s)
      | Inr None \<Rightarrow> try_backends bs tx s)"

text \<open>The end of a request that is not authenticated: a call to a user who accepts guests goes on, an unknown caller is
  dropped when only known users are challenged, and everybody else is sent a challenge.\<close>

definition guest_callee :: "auth_module \<Rightarrow> sip_tx \<Rightarrow> uri \<Rightarrow> sip_user option" where
  "guest_callee m tx to_uri =
     (if rq_method tx = MInvite then
        (case ub_get_user (am_users m) (user_or_default to_uri) (Some (u_host to_uri)) of
           Inr (Some callee) \<Rightarrow> if su_allow_guest_calls callee then Some callee else None
         | _ \<Rightarrow> None)
      else None)"

definition send_challenge :: "auth_module \<Rightarrow> sip_tx \<Rightarrow> string \<Rightarrow> 'c auth_state \<Rightarrow> 'c auth_state" where
  "send_challenge m tx realm s =
     (let text = (\<lambda>i. challenge_text realm (random_text (am_lib m) (as_randoms s + i)))
      in if rq_method tx = MRegister
         then s\<lparr>as_replies := as_replies s @ [(401, [Std HWwwAuthenticate (text 0)])], as_randoms := as_randoms s + 1\<rparr>
         else s\<lparr>as_replies := as_replies s @ [(407, [Std HWwwAuthenticate (text 0), Std HProxyAuthenticate (text 1)])],
                as_randoms := as_randoms s + 2\<rparr>)"

definition refuse :: "auth_module \<Rightarrow> sip_tx \<Rightarrow> sip_user \<Rightarrow> 'c auth_state \<Rightarrow> proxy_action result \<times> 'c auth_state" where
  "refuse m tx tx_user s =
     (case rq_to tx of
        Inl e \<Rightarrow> (Inl e, s)
      | Inr th \<Rightarrow>
          (case th_uri th of
             Inl e \<Rightarrow> (Inl e, s)
           | Inr to_uri \<Rightarrow>
               (case guest_callee m tx to_uri of
                  Some callee \<Rightarrow>
                    (let s1 = set_cookie_user tx_user s
                     in (Inr Continue, (case su_display_name callee of
                           Some n \<Rightarrow> s1\<lparr>as_cookie := (as_cookie s1)\<lparr>ck_callee_display_name := Some n\<rparr>\<rparr>
                         | None \<Rightarrow> s1)))
                | None \<Rightarrow>
                    (case rq_from tx of
                       Inl e \<Rightarrow> (Inl e, s)
                     | Inr fh \<Rightarrow>
                         (case fh_uri fh of
                            Inl e \<Rightarrow> (Inl e, s)
                          | Inr from_uri \<Rightarrow>
                              (let realm = select_realm (am_config m) (u_host (rq_uri tx))
                               in if sc_ensure_user (am_config m)
                                     \<and> (case ub_get_user (am_users m) (user_or_default from_uri) (Some realm) of
                                          Inr (Some _) \<Rightarrow> False | _ \<Rightarrow> True)
                                  then (Inr Abort, mark_spam s)
                                  else (Inr Abort, send_challenge m tx realm s)))))))"

definition auth_on_transaction_begin ::
  "'c auth_lru \<Rightarrow> instant \<Rightarrow> auth_module \<Rightarrow> sip_tx \<Rightarrow> 'c auth_state \<Rightarrow> proxy_action result \<times> 'c auth_state" where
  "auth_on_transaction_begin lru now m tx s =
     (case user_of_tx (am_lib m) (sc_addrs (am_config m)) tx of
        Inl e \<Rightarrow> (Inl e, s)
      | Inr tx_user \<Rightarrow>
          (let (hit, s0) = skip_by_cache lru (am_lib m) now tx s
           in if hit then (Inr Continue, set_cookie_user tx_user s0)
              else if rq_method tx \<noteq> MInvite \<and> rq_method tx \<noteq> MRegister then (Inr Continue, s0)
              else
                (case try_backends (am_backends m) tx s0 of
                   (Some u, s1) \<Rightarrow> (Inr Continue, remember lru (am_lib m) now tx (set_cookie_user (merge_with tx_user u) s1))
                 | (None, s1) \<Rightarrow>
                     if spam (as_cookie s1) \<noteq> None then (Inr Abort, s1)
                     else if from_trunk (as_cookie s1) \<noteq> None then (Inr Continue, set_cookie_user tx_user s1)
                     else if is_cluster_peer_source m tx \<and> is_same_realm (am_config m) (am_users m) (u_host (rq_uri tx))
                       then (Inr Continue, set_cookie_user tx_user s1)
                     else
                       (case authenticate_request m tx of
                          Inl e \<Rightarrow> (Inl (''Authentication error: '' @ show_auth_error e), if e = SpamDetected then mark_spam s1 else s1)
                        | Inr (Some u) \<Rightarrow> (Inr Continue, remember lru (am_lib m) now tx (set_cookie_user u s1))
                        | Inr None \<Rightarrow> refuse m tx tx_user s1))))"

section \<open>Who gets in\<close>

text \<open>The digest of the request is that of an enabled user of a realm of the server.\<close>

definition digest_accepted :: "auth_module \<Rightarrow> sip_tx \<Rightarrow> sip_user \<Rightarrow> sip_user \<Rightarrow> bool" where
  "digest_accepted m tx tx_user u \<longleftrightarrow>
     (\<exists>au raw stored. request_credentials (am_lib m) (rq_headers tx) = Some (au, raw)
        \<and> ub_get_user (am_users m) (su_username tx_user) (su_realm tx_user) = Inr (Some stored) \<and> su_enabled stored
        \<and> (\<forall>r. su_realm tx_user = Some r \<longrightarrow> is_same_realm (am_config m) (am_users m) r)
        \<and> u = merge_with tx_user stored
        \<and> verify_digest (am_lib m) au (text_or_empty (su_password u)) (rq_method tx) raw)"

lemma authenticate_request_iff:
  assumes "user_of_tx (am_lib m) (sc_addrs (am_config m)) tx = Inr tx_user"
  shows "authenticate_request m tx = Inr (Some u) \<longleftrightarrow> digest_accepted m tx tx_user u"
proof (cases "ub_get_user (am_users m) (su_username tx_user) (su_realm tx_user)")
  case (Inl e)
  then show ?thesis using assms by (auto simp: authenticate_request_def digest_accepted_def split: option.splits)
next
  case (Inr o')
  then show ?thesis using assms
    by (cases o'; cases "request_credentials (am_lib m) (rq_headers tx)")
      (auto simp: authenticate_request_def digest_accepted_def verify_credentials_def Let_def split: option.splits if_splits)
qed

lemma skip_by_cache_frame:
  "snd (skip_by_cache lru lib now tx s) = s\<lparr>as_cache := as_cache (snd (skip_by_cache lru lib now tx s))\<rparr>"
  by (cases s) (auto simp: skip_by_cache_def Let_def split: option.splits prod.splits)

lemma refuse_continues:
  "fst (refuse m tx u s) = Inr Continue \<longleftrightarrow>
     (\<exists>th to_uri callee. rq_to tx = Inr th \<and> th_uri th = Inr to_uri \<and> guest_callee m tx to_uri = Some callee)"
  by (auto simp: refuse_def Let_def split: sum.splits option.splits)



section \<open>Users without a password\<close>

text \<open>A user without a password can be impersonated by everyone.  The digest of such a user is checked against the
  empty password, which is known to all.\<close>

theorem no_password_admits_anyone:
  assumes "user_of_tx (am_lib m) (sc_addrs (am_config m)) tx = Inr tx_user"
    and "request_credentials (am_lib m) (rq_headers tx) = Some (au, raw)"
    and "ub_get_user (am_users m) (su_username tx_user) (su_realm tx_user) = Inr (Some stored)" and "su_enabled stored"
    and "su_password stored = None" and "\<forall>r. su_realm tx_user = Some r \<longrightarrow> is_same_realm (am_config m) (am_users m) r"
    and "verify_digest (am_lib m) au [] (rq_method tx) raw"
  shows "\<exists>u. authenticate_request m tx = Inr (Some u) \<and> su_username u = su_username stored"
proof -
  have "su_password tx_user = None"
    using assms(1) by (auto simp: user_of_tx_def build_contact_def default_user_def Let_def split: sum.splits prod.splits list.splits)
  then have "text_or_empty (su_password (merge_with tx_user stored)) = []"
    using assms(5) by (simp add: merge_with_def or_else_def text_or_empty_def)
  then have "digest_accepted m tx tx_user (merge_with tx_user stored)"
    using assms unfolding digest_accepted_def by auto
  then show ?thesis using authenticate_request_iff [OF assms(1)] merge_with_frame(1) by blast
qed

section \<open>The cache of dialogs\<close>

datatype cache_op = CachePut instant auth_cache_key string | CacheAsk instant auth_cache_key string | CacheRemove auth_cache_key

fun cache_step :: "'c auth_lru \<Rightarrow> cache_op \<Rightarrow> 'c dialog_auth_cache \<Rightarrow> 'c dialog_auth_cache" where
  "cache_step lru (CachePut t k a) d = dac_put lru t k a d"
| "cache_step lru (CacheAsk t k a) d = snd (is_authenticated lru t k a d)"
| "cache_step lru (CacheRemove k) d = dac_remove lru k d"

definition cached_from :: "'c auth_lru \<Rightarrow> duration \<Rightarrow> cache_op list \<Rightarrow> 'c dialog_auth_cache \<Rightarrow> bool" where
  "cached_from lru ttl ops d \<longleftrightarrow> dac_ttl d = ttl
     \<and> (\<forall>k e. lru_find lru k (dac_inner d) = Some e \<longrightarrow>
          CachePut (ace_authenticated_at e) k (ace_source_addr e) \<in> set ops \<and> ace_ttl e = ttl)"

lemma is_authenticated_inner: "dac_inner (snd (is_authenticated lru t k a d)) = snd (lru_get lru k (dac_inner d))"
  "dac_ttl (snd (is_authenticated lru t k a d)) = dac_ttl d"
  by (auto simp: is_authenticated_def Let_def split: prod.split option.split)

lemma cached_fromD:
  "cached_from lru ttl ops d \<Longrightarrow> lru_find lru k (dac_inner d) = Some e \<Longrightarrow>
     CachePut (ace_authenticated_at e) k (ace_source_addr e) \<in> set ops \<and> ace_ttl e = ttl"
  unfolding cached_from_def by blast

lemma cached_fromI:
  "dac_ttl d = ttl \<Longrightarrow> (\<And>k e. lru_find lru k (dac_inner d) = Some e \<Longrightarrow>
     CachePut (ace_authenticated_at e) k (ace_source_addr e) \<in> set ops \<and> ace_ttl e = ttl) \<Longrightarrow> cached_from lru ttl ops d"
  unfolding cached_from_def by blast

lemma cache_step_from:
  assumes "lru_laws lru" "cached_from lru ttl ops d"
  shows "cached_from lru ttl (ops @ [op]) (cache_step lru op d)"
proof (rule cached_fromI)
  have ttl: "dac_ttl d = ttl" using assms(2) by (simp add: cached_from_def)
  then show "dac_ttl (cache_step lru op d) = ttl"
    by (cases op) (simp_all add: dac_put_def dac_remove_def is_authenticated_inner)
  fix k' e assume found: "lru_find lru k' (dac_inner (cache_step lru op d)) = Some e"
  show "CachePut (ace_authenticated_at e) k' (ace_source_addr e) \<in> set (ops @ [op]) \<and> ace_ttl e = ttl"
  proof (cases "lru_find lru k' (dac_inner d) = Some e")
    case True
    then show ?thesis using cached_fromD [OF assms(2) True] by simp
  next
    case False
    show ?thesis
    proof (cases op)
      case (CachePut t k a)
      have "k' = k" using False found lru_put_other [OF assms(1), of k' k] by (auto simp: CachePut dac_put_def)
      then have "e = \<lparr>ace_source_addr = a, ace_authenticated_at = t, ace_ttl = ttl\<rparr>"
        using found lru_put_same [OF assms(1), of k] by (simp add: CachePut dac_put_def ttl)
      then show ?thesis using \<open>k' = k\<close> by (simp add: CachePut)
    next
      case (CacheAsk t k a)
      then show ?thesis using False found by (simp add: is_authenticated_inner lru_get_frame [OF assms(1)])
    next
      case (CacheRemove k)
      then show ?thesis using False found by (simp add: dac_remove_def lru_popped [OF assms(1)] split: if_splits)
    qed
  qed
qed

lemma cache_run_from:
  assumes "lru_laws lru"
  shows "cached_from lru (secs (acc_ttl_seconds cfg)) ops (fold (cache_step lru) ops (dac_new lru cfg))"
proof (induction ops rule: rev_induct)
  case Nil
  then show ?case by (auto simp: dac_new_def lru_empty [OF assms] intro: cached_fromI)
next
  case (snoc op ops)
  then show ?case using cache_step_from [OF assms] by simp
qed

text \<open>C28: The cache lets in only what was put in.  Whatever has been asked, put in and taken out before, the cache says of a
  dialog and an address that they are authenticated only if that dialog was authenticated from that very address, not
  longer ago than the cache keeps its entries.\<close>

theorem cache_hit_was_authenticated:
  assumes "lru_laws lru" and "fst (is_authenticated lru now key addr (fold (cache_step lru) ops (dac_new lru cfg)))"
  shows "\<exists>t. CachePut t key addr \<in> set ops \<and> now - t \<le> secs (acc_ttl_seconds cfg)"
proof -
  let ?d = "fold (cache_step lru) ops (dac_new lru cfg)"
  obtain e where e: "lru_find lru key (dac_inner ?d) = Some e" "ace_source_addr e = addr" "\<not> cache_entry_expired now e"
    using assms(2) by (auto simp: is_authenticated_def lru_find_def Let_def split: prod.splits option.splits if_splits)
  from cached_fromD [OF cache_run_from [OF assms(1)] e(1)] show ?thesis using e(2,3) by (auto simp: cache_entry_expired_def)
qed

text \<open>An authenticated dialog may be used under any name.  After a request of one user is authenticated, a request of any
  kind that repeats the call identifier and the tag of the caller and has a tag of the callee is let through from the
  same address with no credentials, under whatever name its \<open>From\<close> field has.\<close>

lemma cached_dialog_lets_in:
  assumes "lru_laws lru" and "as_cache s = Some cache" and "rq_source tx1 = Some src" and "extract_auth_cache_key tx1 = Some key"
    and "rq_source tx2 = Some src" and "extract_auth_cache_key tx2 = Some key" and "is_in_dialog_request tx2"
    and "user_of_tx (am_lib m) (sc_addrs (am_config m)) tx2 = Inr u2" and "now - t \<le> dac_ttl cache"
  shows "\<exists>s2. auth_on_transaction_begin lru now m tx2 (remember lru (am_lib m) t tx1 s) = (Inr Continue, s2)
     \<and> ck_user (as_cookie s2) = Some u2"
proof -
  let ?src = "addr_show (am_lib m) src"
  let ?d = "dac_put lru t key ?src cache"
  let ?e = "\<lparr>ace_source_addr = ?src, ace_authenticated_at = t, ace_ttl = dac_ttl cache\<rparr>"
  have "lru_find lru key (dac_inner ?d) = Some ?e" using lru_put_same [OF assms(1)] by (simp add: dac_put_def)
  then have hit: "fst (is_authenticated lru now key ?src ?d)"
    using assms(9) by (cases "lru_get lru key (dac_inner ?d)") (simp add: is_authenticated_def lru_find_def cache_entry_expired_def)
  have "remember lru (am_lib m) t tx1 s = s\<lparr>as_cache := Some ?d\<rparr>" using assms(2-4) by (simp add: remember_def)
  then have "fst (skip_by_cache lru (am_lib m) now tx2 (remember lru (am_lib m) t tx1 s))"
    using assms(5-7) hit by (cases "is_authenticated lru now key ?src ?d") (simp add: skip_by_cache_def)
  then show ?thesis using assms(8)
    by (cases "skip_by_cache lru (am_lib m) now tx2 (remember lru (am_lib m) t tx1 s)")
      (simp add: auth_on_transaction_begin_def set_cookie_user_def)
qed

end
