(* ===== verification/Locator.thy ===== *)
theory Locator
  imports Dialplan Ip_Addr
begin

text \<open>
  The location service, \<open>src/src/proxy/locator.rs\<close>: the identifiers of users, the locator in memory
  (registration, removal, lookup with pruning of expired bindings) and the locator of dialog targets
  on top of it.  The comparison and printing of URIs and the address of a URI are functions of the stack.
\<close>

section \<open>Realms\<close>

definition host_without_port :: "string \<Rightarrow> string" where
  "host_without_port value =
     (let t = trim value
      in case (if starts_with ''['' t then find_char (CHR '']'') t else None) of
           Some e \<Rightarrow> drop 1 (take e t)
         | None \<Rightarrow>
             if 1 < length (filter (\<lambda>c. c = CHR '':'') t) then t
             else hd (split_on (CHR '':'') t))"

definition v4_octet :: "32 word \<Rightarrow> nat \<Rightarrow> nat" where
  "v4_octet w i = octets w ! i"

definition v4_is_private :: "32 word \<Rightarrow> bool" where
  "v4_is_private w \<longleftrightarrow>
     v4_octet w 0 = 10
     \<or> (v4_octet w 0 = 172 \<and> 16 \<le> v4_octet w 1 \<and> v4_octet w 1 \<le> 31)
     \<or> (v4_octet w 0 = 192 \<and> v4_octet w 1 = 168)"

fun ip_is_loopback :: "ip_addr \<Rightarrow> bool" where
  "ip_is_loopback (V4 w) = (v4_octet w 0 = 127)"
| "ip_is_loopback (V6 ss) = (ss = replicate 7 0 @ [1])"

fun ip_is_unspecified :: "ip_addr \<Rightarrow> bool" where
  "ip_is_unspecified (V4 w) = (w = 0)"
| "ip_is_unspecified (V6 ss) = (ss = replicate 8 0)"

definition is_local_realm :: "string \<Rightarrow> bool" where
  "is_local_realm realm =
     (if trim realm = [] then False
      else let host = host_without_port realm
           in if to_ascii_lowercase host \<in> {''localhost'', ''127.0.0.1'', ''0.0.0.0'', ''::1''} then True
              else case ip_from_str host of
                     None \<Rightarrow> False
                   | Some ip \<Rightarrow>
                       if ip_is_loopback ip \<or> ip_is_unspecified ip then True
                       else (case ip of V4 w \<Rightarrow> v4_is_private w | V6 _ \<Rightarrow> False))"

definition uri_matches :: "sip_lib \<Rightarrow> uri \<Rightarrow> uri \<Rightarrow> bool" where
  "uri_matches lib a b =
     (if uri_eq lib a b then True
      else if u_user a = u_user b \<and> is_local_realm (u_host a) \<and> is_local_realm (u_host b) then True
      else if u_user a = u_user b \<and> (ends_with ''.invalid'' (u_host a) \<or> ends_with ''.invalid'' (u_host b))
              \<and> eq_ignore_ascii_case (u_host a) (u_host b) then True
      else eq_ignore_ascii_case (uri_show lib a) (uri_show lib b))"

section \<open>Order of locations\<close>

text \<open>The comparison of the sources puts the newest location first and those without a time last; the key below
  is ascending in this order.\<close>

definition recency_key :: "location \<Rightarrow> int" where
  "recency_key l = (case last_modified l of Some t \<Rightarrow> - int t | None \<Rightarrow> 1)"

fun retain_first :: "('a \<Rightarrow> 'k) \<Rightarrow> 'k set \<Rightarrow> 'a list \<Rightarrow> 'a list" where
  "retain_first f seen [] = []"
| "retain_first f seen (x # xs) =
     (if f x \<in> seen then retain_first f seen xs else x # retain_first f (insert (f x) seen) xs)"

definition sort_locations_by_recency :: "sip_lib \<Rightarrow> location list \<Rightarrow> location list" where
  "sort_locations_by_recency lib ls = retain_first (binding_key lib) {} (sort_key recency_key ls)"

section \<open>The locator in memory\<close>

record memory_locator =
  locations :: "(string, (string, location) hmap) hmap"
  realm_checker :: "(string \<Rightarrow> bool) option"

definition loc_is_local_realm :: "memory_locator \<Rightarrow> string \<Rightarrow> bool" where
  "loc_is_local_realm m realm =
     (case realm_checker m of Some f \<Rightarrow> f realm | None \<Rightarrow> is_local_realm realm)"

definition set_realm_checker :: "(string \<Rightarrow> bool) \<Rightarrow> memory_locator \<Rightarrow> memory_locator" where
  "set_realm_checker f m = m\<lparr>realm_checker := Some f\<rparr>"

definition get_identifier :: "memory_locator \<Rightarrow> string \<Rightarrow> string option \<Rightarrow> string" where
  "get_identifier m user realm =
     (let username = to_ascii_lowercase (trim user);
          r = (case realm of
                 Some r \<Rightarrow>
                   if trim r = [] then None
                   else if loc_is_local_realm m (trim r) then Some ''localhost''
                   else Some (to_ascii_lowercase (trim r))
               | None \<Rightarrow> None)
      in if username = [] then []
         else case r of Some r \<Rightarrow> username @ ''@'' @ r | None \<Rightarrow> username)"

definition register ::
    "sip_lib \<Rightarrow> instant \<Rightarrow> string \<Rightarrow> string option \<Rightarrow> location \<Rightarrow> memory_locator \<Rightarrow> memory_locator" where
  "register lib now username realm loc m =
     (let i = get_identifier m username realm
      in if i = [] then m
         else
           let key = binding_key lib loc;
               entry = (case hm_get (locations m) i of Some e \<Rightarrow> e | None \<Rightarrow> [])
           in if expires loc = 0 then
                (let entry' = hm_remove key entry
                 in if entry' = [] then m\<lparr>locations := hm_remove i (locations m)\<rparr>
                    else m\<lparr>locations := hm_insert i entry' (locations m)\<rparr>)
              else
                (let loc' = (if last_modified loc = None then loc\<lparr>last_modified := Some now\<rparr> else loc)
                 in m\<lparr>locations := hm_insert i (hm_insert key loc' entry) (locations m)\<rparr>))"

definition unregister :: "string \<Rightarrow> string option \<Rightarrow> memory_locator \<Rightarrow> memory_locator" where
  "unregister username realm m =
     m\<lparr>locations := hm_remove (get_identifier m username realm) (locations m)\<rparr>"

definition unregister_with_address :: "sip_addr \<Rightarrow> memory_locator \<Rightarrow> location list option \<times> memory_locator" where
  "unregister_with_address addr m =
     (let at_addr = (\<lambda>l. destination l = Some addr);
          removed = concat (map (\<lambda>(i, e). filter at_addr (hm_values e)) (locations m));
          kept = map (\<lambda>(i, e). (i, hm_retain (\<lambda>_ l. \<not> at_addr l) e)) (locations m);
          m' = m\<lparr>locations := filter (\<lambda>(i, e). e \<noteq> []) kept\<rparr>
      in (if removed = [] then None else Some removed, m'))"

definition all_locations :: "(string, (string, location) hmap) hmap \<Rightarrow> location list" where
  "all_locations ls = concat (map (\<lambda>(i, e). hm_values e) ls)"

definition prune :: "instant \<Rightarrow> (string, (string, location) hmap) hmap \<Rightarrow> (string, (string, location) hmap) hmap" where
  "prune now ls =
     filter (\<lambda>(i, e). e \<noteq> []) (map (\<lambda>(i, e). (i, hm_retain (\<lambda>_ l. \<not> is_expired_at now l) e)) ls)"

definition is_direct_hit :: "sip_lib \<Rightarrow> uri \<Rightarrow> location \<Rightarrow> bool" where
  "is_direct_hit lib u loc \<longleftrightarrow>
     uri_eq lib (aor loc) u \<or> uri_matches lib (aor loc) u
     \<or> (case registered_aor loc of Some r \<Rightarrow> uri_eq lib r u \<or> uri_matches lib r u | None \<Rightarrow> False)
     \<or> (case gruu loc of Some g \<Rightarrow> g = uri_show lib u \<or> eq_ignore_ascii_case g (uri_show lib u) | None \<Rightarrow> False)"

definition realm_matches :: "memory_locator \<Rightarrow> string \<Rightarrow> string \<Rightarrow> bool" where
  "realm_matches m requested_realm candidate_realm =
     (let requested = trim requested_realm; candidate = trim candidate_realm
      in if requested = [] then True
         else if loc_is_local_realm m requested \<and> loc_is_local_realm m candidate then True
         else to_ascii_lowercase (host_without_port requested) = to_ascii_lowercase (host_without_port candidate))"

definition user_at :: "memory_locator \<Rightarrow> string \<Rightarrow> string \<Rightarrow> uri \<Rightarrow> bool" where
  "user_at m username_lower realm u \<longleftrightarrow>
     (case u_user u of Some x \<Rightarrow> eq_ignore_ascii_case (trim x) username_lower | None \<Rightarrow> False)
     \<and> realm_matches m realm (trim (u_host u))"

definition is_fallback_hit :: "memory_locator \<Rightarrow> string \<Rightarrow> string \<Rightarrow> location \<Rightarrow> bool" where
  "is_fallback_hit m username_lower realm loc \<longleftrightarrow>
     (case registered_aor loc of Some r \<Rightarrow> user_at m username_lower realm r | None \<Rightarrow> False)
     \<or> user_at m username_lower realm (aor loc)"

definition lookup_identifiers :: "memory_locator \<Rightarrow> string \<Rightarrow> string \<Rightarrow> string list" where
  "lookup_identifiers m username realm =
     (if username = [] then []
      else (if realm = [] then [] else [get_identifier m username (Some realm)]) @
           [get_identifier m username (Some ''localhost''), get_identifier m username None])"

fun first_entry :: "(string, (string, location) hmap) hmap \<Rightarrow> string list \<Rightarrow> location list option" where
  "first_entry ls [] = None"
| "first_entry ls (i # is) =
     (case hm_get ls i of
        Some (p # ps) \<Rightarrow> Some (hm_values (p # ps))
      | _ \<Rightarrow> first_entry ls is)"

definition lookup :: "sip_lib \<Rightarrow> instant \<Rightarrow> uri \<Rightarrow> memory_locator \<Rightarrow> location list \<times> memory_locator" where
  "lookup lib now u m =
     (let ls = prune now (locations m);
          m' = m\<lparr>locations := ls\<rparr>;
          direct_hits = filter (is_direct_hit lib u) (all_locations ls);
          username = trim (user_or_default u);
          realm = trim (u_host u)
      in if direct_hits \<noteq> [] then (sort_locations_by_recency lib direct_hits, m')
         else case first_entry ls (lookup_identifiers m' username realm) of
                Some results \<Rightarrow> (sort_locations_by_recency lib results, m')
              | None \<Rightarrow>
                  (let fallback_hits = (if username = [] then []
                          else filter (is_fallback_hit m' (to_ascii_lowercase username) realm) (all_locations ls))
                   in (if fallback_hits \<noteq> [] then sort_locations_by_recency lib fallback_hits else [], m')))"

section \<open>Targets of dialogs\<close>

record target_locator =
  local_addrs :: "sip_addr list"
  cluster_enabled :: bool

definition is_local_home_proxy :: "(host_port \<Rightarrow> string) \<Rightarrow> target_locator \<Rightarrow> sip_addr \<Rightarrow> bool" where
  "is_local_home_proxy show_addr t home \<longleftrightarrow>
     (\<exists>a \<in> set (local_addrs t). show_addr (a_addr a) = show_addr (a_addr home))"

definition is_cluster_hit :: "sip_lib \<Rightarrow> target_locator \<Rightarrow> uri \<Rightarrow> location \<Rightarrow> bool" where
  "is_cluster_hit lib t u loc \<longleftrightarrow>
     cluster_enabled t
     \<and> (case home_proxy loc of
          None \<Rightarrow> False
        | Some home \<Rightarrow>
            (case registered_aor loc of
               None \<Rightarrow> False
             | Some r \<Rightarrow> uri_eq lib r u \<or> (u_user r = u_user u \<and> host_with_port u = a_addr home)))"

definition locate ::
    "sip_lib \<Rightarrow> (host_port \<Rightarrow> string) \<Rightarrow> (uri \<Rightarrow> err + sip_addr) \<Rightarrow> target_locator \<Rightarrow> uri
       \<Rightarrow> location list result \<Rightarrow> err + sip_addr" where
  "locate lib show_addr addr_of_uri t u looked_up =
     (case looked_up of
        Inr (l # ls) \<Rightarrow>
          (let first = (case destination l of Some d \<Rightarrow> Inr d | None \<Rightarrow> addr_of_uri u)
           in case List.find (is_cluster_hit lib t u) (l # ls) of
                Some loc \<Rightarrow>
                  (case home_proxy loc of
                     Some home \<Rightarrow>
                       (case destination loc of
                          Some d \<Rightarrow> if is_local_home_proxy show_addr t home then Inr d else Inr home
                        | None \<Rightarrow> Inr home)
                   | None \<Rightarrow> first)
              | None \<Rightarrow> first)
      | _ \<Rightarrow> addr_of_uri u)"

text \<open>The handler of a closed connection: the locations that went offline, for the event channel.\<close>

definition on_connection_closed :: "sip_addr \<Rightarrow> memory_locator \<Rightarrow> location list option \<times> memory_locator" where
  "on_connection_closed addr m =
     (case unregister_with_address addr m of
        (Some removed, m') \<Rightarrow> (if removed \<noteq> [] then Some removed else None, m')
      | (None, m') \<Rightarrow> (None, m'))"

section \<open>The invariant\<close>

definition bindings :: "memory_locator \<Rightarrow> location set" where
  "bindings m = set (all_locations (locations m))"

definition entry_ok :: "sip_lib \<Rightarrow> string \<Rightarrow> (string, location) hmap \<Rightarrow> bool" where
  "entry_ok lib i e \<longleftrightarrow>
     i \<noteq> [] \<and> e \<noteq> [] \<and> hm_wf e
     \<and> list_all (\<lambda>(k, l). k = binding_key lib l \<and> 0 < expires l \<and> last_modified l \<noteq> None) e"

definition locator_ok :: "sip_lib \<Rightarrow> memory_locator \<Rightarrow> bool" where
  "locator_ok lib m \<longleftrightarrow> hm_wf (locations m) \<and> list_all (\<lambda>(i, e). entry_ok lib i e) (locations m)"

lemma locator_okD:
  assumes "locator_ok lib m" and "(i, e) \<in> set (locations m)"
  shows "entry_ok lib i e"
  using assms by (auto simp: locator_ok_def list_all_iff)

lemma in_bindings: "l \<in> bindings m \<longleftrightarrow> (\<exists>i e k. (i, e) \<in> set (locations m) \<and> (k, l) \<in> set e)"
  by (force simp: bindings_def all_locations_def)

lemma hm_set_insert:
  "hm_wf m \<Longrightarrow> set (hm_insert k v m) = insert (k, v) {p \<in> set m. fst p \<noteq> k}"
  by (induction m) (auto simp: hm_wf_def image_iff)

lemma hm_set_remove: "set (hm_remove k m) = {p \<in> set m. fst p \<noteq> k}"
  by (auto simp: AList.delete_eq)

lemma binding_key_stamp [simp]: "binding_key lib (l\<lparr>last_modified := t\<rparr>) = binding_key lib l"
  by (simp add: binding_key_def cong: option.case_cong)

lemma entry_ok_insert:
  assumes "e = [] \<or> entry_ok lib i e" and "i \<noteq> []" and "0 < expires l" and "last_modified l \<noteq> None"
  shows "entry_ok lib i (hm_insert (binding_key lib l) l e)"
proof -
  have wf: "hm_wf e" using assms(1) by (auto simp: entry_ok_def)
  have "hm_insert (binding_key lib l) l e \<noteq> []" by (cases e) (auto split: if_splits)
  with assms wf show ?thesis
    by (auto simp: entry_ok_def list_all_iff hm_set_insert)
qed

lemma entry_ok_hm_wf: "entry_ok lib i e \<Longrightarrow> hm_wf e"
  by (simp add: entry_ok_def)

lemma entry_ok_subset:
  assumes "entry_ok lib i e" and "set e' \<subseteq> set e" and "hm_wf e'" and "e' \<noteq> []"
  shows "entry_ok lib i e'"
  using assms by (auto simp: entry_ok_def list_all_iff)

lemma locator_ok_insert:
  assumes "locator_ok lib m" and "entry_ok lib i e"
  shows "locator_ok lib (m\<lparr>locations := hm_insert i e (locations m)\<rparr>)"
  using assms by (auto simp: locator_ok_def list_all_iff hm_set_insert)

lemma locator_ok_remove:
  assumes "locator_ok lib m"
  shows "locator_ok lib (m\<lparr>locations := hm_remove i (locations m)\<rparr>)"
  using assms by (auto simp: locator_ok_def list_all_iff hm_set_remove)

lemma stored_entry_ok:
  assumes "locator_ok lib m"
  shows "(case hm_get (locations m) i of Some e \<Rightarrow> e | None \<Rightarrow> []) = []
         \<or> entry_ok lib i (case hm_get (locations m) i of Some e \<Rightarrow> e | None \<Rightarrow> [])"
  using assms by (auto split: option.split dest!: map_of_SomeD intro: locator_okD)

text \<open>A registration stores the location with the time of its registration.\<close>

definition stamp :: "instant \<Rightarrow> location \<Rightarrow> location" where
  "stamp now loc = (if last_modified loc = None then loc\<lparr>last_modified := Some now\<rparr> else loc)"

lemma stamp_simps [simp]:
  "binding_key lib (stamp now loc) = binding_key lib loc"
  "expires (stamp now loc) = expires loc"
  "aor (stamp now loc) = aor loc"
  "registered_aor (stamp now loc) = registered_aor loc"
  "destination (stamp now loc) = destination loc"
  by (simp_all add: stamp_def)

lemma stamp_time [simp]: "last_modified (stamp now loc) \<noteq> None"
  by (simp add: stamp_def)

lemma register_cases:
  fixes m username realm
  defines "i \<equiv> get_identifier m username realm"
  defines "e \<equiv> (case hm_get (locations m) i of Some e \<Rightarrow> e | None \<Rightarrow> [])"
  shows "register lib now username realm loc m =
     (if i = [] then m
      else if expires loc = 0 then
        (if hm_remove (binding_key lib loc) e = [] then m\<lparr>locations := hm_remove i (locations m)\<rparr>
         else m\<lparr>locations := hm_insert i (hm_remove (binding_key lib loc) e) (locations m)\<rparr>)
      else m\<lparr>locations := hm_insert i (hm_insert (binding_key lib loc) (stamp now loc) e) (locations m)\<rparr>)"
  by (simp add: register_def Let_def i_def e_def stamp_def)

lemma register_ok [inv_intros]:
  assumes ok: "locator_ok lib m"
  shows "locator_ok lib (register lib now username realm loc m)"
proof -
  define i where "i = get_identifier m username realm"
  define e where "e = (case hm_get (locations m) i of Some e \<Rightarrow> e | None \<Rightarrow> [])"
  have e: "e = [] \<or> entry_ok lib i e" using stored_entry_ok [OF ok] by (simp add: e_def)
  have sub: "entry_ok lib i (hm_remove k e)" if "hm_remove k e \<noteq> []" for k
    using e that by (cases "e = []") (auto intro!: entry_ok_subset [of lib i e] simp: hm_set_remove entry_ok_hm_wf)
  have new: "entry_ok lib i (hm_insert (binding_key lib loc) (stamp now loc) e)" if "i \<noteq> []" "0 < expires loc"
    using entry_ok_insert [OF e that(1), of "stamp now loc"] that(2) by simp
  show ?thesis
    using ok sub new unfolding register_cases i_def [symmetric] e_def [symmetric]
    by (simp add: locator_ok_insert locator_ok_remove)
qed

lemma unregister_ok [inv_intros]:
  "locator_ok lib m \<Longrightarrow> locator_ok lib (unregister username realm m)"
  by (simp add: unregister_def locator_ok_remove)

text \<open>Both the pruning of a lookup and the removal of an address retain some bindings of every entry and
  drop the entries that become empty.\<close>

definition retain_all ::
    "(location \<Rightarrow> bool) \<Rightarrow> (string, (string, location) hmap) hmap \<Rightarrow> (string, (string, location) hmap) hmap" where
  "retain_all P ls = filter (\<lambda>(i, e). e \<noteq> []) (map (\<lambda>(i, e). (i, hm_retain (\<lambda>_ l. P l) e)) ls)"

lemma prune_retain: "prune now ls = retain_all (\<lambda>l. \<not> is_expired_at now l) ls"
  by (simp add: prune_def retain_all_def)

lemma unregister_with_address_retain:
  "snd (unregister_with_address addr m) = m\<lparr>locations := retain_all (\<lambda>l. destination l \<noteq> Some addr) (locations m)\<rparr>"
  by (simp add: unregister_with_address_def retain_all_def Let_def)

lemma hm_wf_retain_all: "hm_wf ls \<Longrightarrow> hm_wf (retain_all P ls)"
  by (simp add: hm_wf_def retain_all_def) (rule distinct_map_filter, simp add: comp_def case_prod_unfold)

lemma locator_ok_retain_all:
  assumes "locator_ok lib m"
  shows "locator_ok lib (m\<lparr>locations := retain_all P (locations m)\<rparr>)"
proof -
  have "entry_ok lib i (hm_retain (\<lambda>_ l. P l) e)"
    if "(i, e) \<in> set (locations m)" "hm_retain (\<lambda>_ l. P l) e \<noteq> []" for i e
  proof (rule entry_ok_subset [OF locator_okD [OF assms that(1)] _ _ that(2)])
    show "set (hm_retain (\<lambda>_. P) e) \<subseteq> set e" by (auto simp: hm_retain_def)
    show "hm_wf (hm_retain (\<lambda>_. P) e)" using locator_okD [OF assms that(1)] by (simp add: entry_ok_hm_wf)
  qed
  then show ?thesis
    using assms hm_wf_retain_all by (auto simp: locator_ok_def list_all_iff retain_all_def)
qed

lemma bindings_retain_all:
  "bindings (m\<lparr>locations := retain_all P (locations m)\<rparr>) = {l \<in> bindings m. P l}"
proof -
  have "(i, e') \<in> set (retain_all P ls) \<and> (k, l) \<in> set e' \<longleftrightarrow>
          (\<exists>e. (i, e) \<in> set ls \<and> e' = hm_retain (\<lambda>_ l. P l) e \<and> (k, l) \<in> set e \<and> P l)" for i e' k l ls
    by (auto simp: retain_all_def hm_retain_def filter_empty_conv)
  then show ?thesis by (simp add: set_eq_iff in_bindings) blast
qed

section \<open>Sorting\<close>

lemma retain_first_subset: "x \<in> set (retain_first f seen xs) \<Longrightarrow> x \<in> set xs"
  by (induction xs arbitrary: seen) (auto split: if_splits)

lemma retain_first_fresh: "x \<in> set (retain_first f seen xs) \<Longrightarrow> f x \<notin> seen"
  by (induction xs arbitrary: seen) (auto split: if_splits)

lemma retain_first_keeps:
  "x \<in> set xs \<Longrightarrow> f x \<notin> seen \<Longrightarrow> \<exists>y \<in> set (retain_first f seen xs). f y = f x"
proof (induction xs arbitrary: seen)
  case (Cons a xs)
  then show ?case by (cases "f x = f a"; cases "f a \<in> seen") auto
qed simp

lemma retain_first_distinct: "distinct (map f (retain_first f seen xs))"
  by (induction xs arbitrary: seen) (auto dest: retain_first_fresh)

lemma retain_first_sorted:
  "sorted (map k xs) \<Longrightarrow> sorted (map k (retain_first f seen xs))"
  by (induction xs arbitrary: seen) (auto dest: retain_first_subset)

lemma retain_first_hd: "xs \<noteq> [] \<Longrightarrow> hd (retain_first f {} xs) = hd xs \<and> retain_first f {} xs \<noteq> []"
  by (cases xs) auto

lemma sort_key_hd:
  assumes "x \<in> set xs" and "\<And>y. y \<in> set xs \<Longrightarrow> y = x \<or> k x < k y"
  shows "hd (sort_key k xs) = x"
proof (cases "sort_key k xs")
  case Nil
  with assms(1) show ?thesis by (metis empty_iff empty_set set_sort)
next
  case (Cons y ys)
  have mem: "y \<in> set xs" "x \<in> set (y # ys)" using Cons assms(1) by (metis list.set_intros(1) set_sort)+
  have "sorted (map k (y # ys))" by (metis Cons sorted_sort_key)
  then have "k y \<le> k x" using mem(2) by auto
  with assms(2) [OF mem(1)] Cons show ?thesis by auto
qed

lemma sort_locations_set: "set (sort_locations_by_recency lib ls) \<subseteq> set ls"
  by (auto simp: sort_locations_by_recency_def dest: retain_first_subset)

lemma sort_locations_distinct: "distinct (map (binding_key lib) (sort_locations_by_recency lib ls))"
  by (simp add: sort_locations_by_recency_def retain_first_distinct)

lemma sort_locations_sorted: "sorted (map recency_key (sort_locations_by_recency lib ls))"
  by (simp add: sort_locations_by_recency_def retain_first_sorted)

lemma sort_locations_keeps:
  "l \<in> set ls \<Longrightarrow> \<exists>l' \<in> set (sort_locations_by_recency lib ls). binding_key lib l' = binding_key lib l"
  using retain_first_keeps [of l "sort_key recency_key ls" "binding_key lib" "{}"]
  by (simp add: sort_locations_by_recency_def)

section \<open>Lookup\<close>

lemma lookup_state: "snd (lookup lib now u m) = m\<lparr>locations := prune now (locations m)\<rparr>"
  by (simp add: lookup_def Let_def split: option.split)

lemma first_entry_in:
  "first_entry ls is = Some r \<Longrightarrow> r \<noteq> [] \<and> (\<exists>i e. (i, e) \<in> set ls \<and> r = hm_values e)"
  by (induction ls "is" rule: first_entry.induct) (force split: option.splits list.splits dest: map_of_SomeD)+

text \<open>A lookup sorts some of the bindings that are left after the pruning.\<close>

lemma lookup_sorts:
  "\<exists>hits. fst (lookup lib now u m) = sort_locations_by_recency lib hits
          \<and> set hits \<subseteq> bindings (snd (lookup lib now u m))"
proof -
  let ?ls = "prune now (locations m)"
  define P where "P xs \<longleftrightarrow> (\<exists>hits. xs = sort_locations_by_recency lib hits \<and> set hits \<subseteq> set (all_locations ?ls))"
    for xs
  have sorted: "P (sort_locations_by_recency lib hits)" if "set hits \<subseteq> set (all_locations ?ls)" for hits
    using that by (auto simp: P_def)
  have nil: "P []" using sorted [of "[]"] by (simp add: sort_locations_by_recency_def)
  have entry: "P (sort_locations_by_recency lib r)" if "first_entry ?ls ids = Some r" for r ids
    using first_entry_in [OF that] by (intro sorted) (auto simp: all_locations_def)
  have "P (fst (lookup lib now u m))"
    using entry nil by (auto simp: lookup_def Let_def intro!: sorted split: option.split)
  then show ?thesis by (simp add: P_def lookup_state bindings_def)
qed

lemma lookup_ok [inv_intros]: "locator_ok lib m \<Longrightarrow> locator_ok lib (snd (lookup lib now u m))"
  by (simp add: lookup_state prune_retain locator_ok_retain_all)

lemma lookup_bindings: "bindings (snd (lookup lib now u m)) = {l \<in> bindings m. \<not> is_expired_at now l}"
  by (simp add: lookup_state prune_retain bindings_retain_all)

lemma lookup_live: "l \<in> set (fst (lookup lib now u m)) \<Longrightarrow> l \<in> bindings m \<and> \<not> is_expired_at now l"
  using lookup_sorts [of lib now u m] lookup_bindings [of lib now u m] sort_locations_set by fastforce

lemma lookup_direct:
  assumes "l \<in> bindings m" and "\<not> is_expired_at now l" and "is_direct_hit lib u l"
  shows "\<exists>hits. fst (lookup lib now u m) = sort_locations_by_recency lib hits \<and> l \<in> set hits
            \<and> set hits \<subseteq> bindings m"
proof -
  let ?hits = "filter (is_direct_hit lib u) (all_locations (prune now (locations m)))"
  have ls: "set (all_locations (prune now (locations m))) = {l \<in> bindings m. \<not> is_expired_at now l}"
    using lookup_bindings [of lib now u m] by (simp add: lookup_state bindings_def)
  with assms have "l \<in> set ?hits" by simp
  moreover from this have "?hits \<noteq> []" by (metis empty_iff empty_set)
  then have "fst (lookup lib now u m) = sort_locations_by_recency lib ?hits"
    by (simp add: lookup_def Let_def)
  moreover have "set ?hits \<subseteq> bindings m" using ls by auto
  ultimately show ?thesis by blast
qed

section \<open>Registration\<close>

lemma register_bindings:
  assumes ok: "locator_ok lib m" and i: "get_identifier m username realm \<noteq> []" and x: "0 < expires loc"
  shows "stamp now loc \<in> bindings (register lib now username realm loc m)"
    and "bindings (register lib now username realm loc m) \<subseteq> insert (stamp now loc) (bindings m)"
proof -
  define i where "i = get_identifier m username realm"
  define e where "e = (case hm_get (locations m) i of Some e \<Rightarrow> e | None \<Rightarrow> [])"
  have reg: "locations (register lib now username realm loc m) =
      hm_insert i (hm_insert (binding_key lib loc) (stamp now loc) e) (locations m)"
    using i x by (simp add: register_cases i_def e_def)
  have e: "e = [] \<or> (i, e) \<in> set (locations m)"
    by (auto simp: e_def split: option.split dest: map_of_SomeD)
  have wf: "hm_wf e" "hm_wf (locations m)"
    using e ok by (auto simp: locator_ok_def list_all_iff entry_ok_def)
  show "stamp now loc \<in> bindings (register lib now username realm loc m)"
    unfolding in_bindings reg hm_set_insert [OF wf(2)]
    by (rule exI [of _ i], rule exI [of _ "hm_insert (binding_key lib loc) (stamp now loc) e"])
      (auto simp: hm_set_insert wf)
  show "bindings (register lib now username realm loc m) \<subseteq> insert (stamp now loc) (bindings m)"
    using e by (auto simp: in_bindings reg hm_set_insert wf)
qed

text \<open>A phone that has registered is found.  After a registration, and until it expires, a call to the
  registered address of record finds the binding: the lookup returns a location with its key (the same contact and
  instance), whatever else is registered.\<close>

theorem registered_is_found:
  assumes "locator_ok lib m" and "get_identifier m username realm \<noteq> []" and "0 < expires loc"
    and "last_modified loc = None" and "registered_aor loc = Some u" and "uri_eq lib u u"
    and "now \<le> later" and "later < now + secs (expires loc)"
  shows "\<exists>l \<in> set (fst (lookup lib later u (register lib now username realm loc m))).
           binding_key lib l = binding_key lib loc"
proof -
  have live: "\<not> is_expired_at later (stamp now loc)"
    using assms(3,4,7,8) by (simp add: is_expired_at_def stamp_def)
  have "is_direct_hit lib u (stamp now loc)" using assms(5,6) by (simp add: is_direct_hit_def)
  from lookup_direct [OF register_bindings(1) [OF assms(1-3)] live this]
  show ?thesis by (metis sort_locations_keeps stamp_simps(1))
qed

text \<open>The contact a phone registers can capture the calls of another user.  The URI of the contact is chosen by
  the phone, and the lookup compares it with the called URI: when its user part is the called one and both hosts are
  addresses of private networks, the binding of whoever registered last is the first location the call is sent
  to, though the called address of record has bindings of its own.\<close>

theorem contact_captures_calls:
  assumes "locator_ok lib m" and "get_identifier m attacker realm \<noteq> []" and "0 < expires loc"
    and "last_modified loc = Some now" and "\<forall>l \<in> bindings m. \<exists>t < now. last_modified l = Some t"
    and "u_user (aor loc) = u_user u" and "is_local_realm (u_host (aor loc))" and "is_local_realm (u_host u)"
  shows "fst (lookup lib now u (register lib now attacker realm loc m)) \<noteq> []
         \<and> hd (fst (lookup lib now u (register lib now attacker realm loc m))) = loc"
proof -
  let ?m = "register lib now attacker realm loc m"
  have st: "stamp now loc = loc" using assms(4) by (simp add: stamp_def)
  have live: "\<not> is_expired_at now loc" using assms(3,4) by (simp add: is_expired_at_def secs_def)
  have hit: "is_direct_hit lib u loc" using assms(6-8) by (simp add: is_direct_hit_def uri_matches_def)
  obtain hits where h: "fst (lookup lib now u ?m) = sort_locations_by_recency lib hits" "loc \<in> set hits"
      "set hits \<subseteq> bindings ?m"
    using lookup_direct [OF register_bindings(1) [OF assms(1-3), of now, unfolded st] live hit] by blast
  have "recency_key loc < recency_key y" if "y \<in> bindings m" for y
    using assms(5) that by (force simp: recency_key_def assms(4))
  then have "y = loc \<or> recency_key loc < recency_key y" if "y \<in> set hits" for y
    using that h(3) register_bindings(2) [OF assms(1-3), of now, unfolded st] by auto
  then have "hd (sort_key recency_key hits) = loc" by (rule sort_key_hd [OF h(2)])
  moreover have "sort_key recency_key hits \<noteq> []" using h(2) by (metis empty_iff empty_set set_sort)
  ultimately show ?thesis
    using retain_first_hd h(1) by (metis sort_locations_by_recency_def)
qed

section \<open>The contract of a location service\<close>

text \<open>What a client of the location service relies on: a lookup keeps the state of the service in order, returns
  live bindings without duplicates, the newest first, and forgets nothing but expired bindings.\<close>

locale location_service =
  fixes ok :: "'s \<Rightarrow> bool"
    and contents :: "'s \<Rightarrow> location set"
    and key :: "location \<Rightarrow> string"
    and look :: "instant \<Rightarrow> uri \<Rightarrow> 's \<Rightarrow> location list \<times> 's"
    and drop_addr :: "sip_addr \<Rightarrow> 's \<Rightarrow> 's"
  assumes look_ok: "ok s \<Longrightarrow> ok (snd (look now u s))"
    and look_contents: "contents (snd (look now u s)) = {l \<in> contents s. \<not> is_expired_at now l}"
    and look_live: "l \<in> set (fst (look now u s)) \<Longrightarrow> l \<in> contents s \<and> \<not> is_expired_at now l"
    and look_order: "sorted (map recency_key (fst (look now u s)))"
    and look_distinct: "distinct (map key (fst (look now u s)))"
    and drop_addr_ok: "ok s \<Longrightarrow> ok (drop_addr addr s)"
    and drop_addr_contents: "contents (drop_addr addr s) = {l \<in> contents s. destination l \<noteq> Some addr}"
begin

text \<open>The target of a dialog comes from a live binding, or is the address of the URI itself.\<close>

lemma locate_from_binding:
  assumes "locate lib show_addr addr_of_uri t u (Inr (fst (look now u s))) = Inr a"
  shows "(\<exists>l \<in> contents s. \<not> is_expired_at now l \<and> destination l = Some a)
         \<or> (cluster_enabled t \<and> (\<exists>l \<in> contents s. \<not> is_expired_at now l \<and> home_proxy l = Some a))
         \<or> addr_of_uri u = Inr a"
proof (cases "fst (look now u s)")
  case (Cons l ls)
  have live: "x \<in> set (l # ls) \<Longrightarrow> x \<in> contents s \<and> \<not> is_expired_at now x" for x
    using look_live Cons by metis
  have hit: "x \<in> set (l # ls) \<and> cluster_enabled t" if "List.find (is_cluster_hit lib t u) (l # ls) = Some x" for x
    using that unfolding find_Some_iff by (metis nth_mem is_cluster_hit_def)
  show ?thesis
    using assms live hit unfolding locate_def Cons Let_def
    by (simp split: option.splits if_splits) (metis list.set_intros(1))+
qed (use assms in \<open>simp add: locate_def\<close>)

text \<open>A connection that closed is not dialled again: no later lookup returns its address.\<close>

lemma closed_not_found:
  assumes "l \<in> set (fst (look now u (drop_addr addr s)))"
  shows "destination l \<noteq> Some addr"
  using look_live [OF assms] by (simp add: drop_addr_contents)

end

interpretation mem_loc: location_service "locator_ok lib" bindings "binding_key lib" "lookup lib"
    "\<lambda>addr m. snd (on_connection_closed addr m)" for lib
proof
  fix s now u l addr
  have closed: "snd (on_connection_closed addr s) =
      s\<lparr>locations := retain_all (\<lambda>l. destination l \<noteq> Some addr) (locations s)\<rparr>"
    by (simp add: on_connection_closed_def case_prod_unfold unregister_with_address_retain split: option.split)
  show "locator_ok lib s \<Longrightarrow> locator_ok lib (snd (lookup lib now u s))" by (rule lookup_ok)
  show "bindings (snd (lookup lib now u s)) = {l \<in> bindings s. \<not> is_expired_at now l}" by (rule lookup_bindings)
  show "l \<in> set (fst (lookup lib now u s)) \<Longrightarrow> l \<in> bindings s \<and> \<not> is_expired_at now l" by (rule lookup_live)
  show "sorted (map recency_key (fst (lookup lib now u s)))"
    using lookup_sorts [of lib now u s] sort_locations_sorted by metis
  show "distinct (map (binding_key lib) (fst (lookup lib now u s)))"
    using lookup_sorts [of lib now u s] sort_locations_distinct by metis
  show "locator_ok lib s \<Longrightarrow> locator_ok lib (snd (on_connection_closed addr s))"
    by (simp add: closed locator_ok_retain_all)
  show "bindings (snd (on_connection_closed addr s)) = {l \<in> bindings s. destination l \<noteq> Some addr}"
    by (simp add: closed bindings_retain_all)
qed

text \<open>C6: What a lookup of the locator in memory does, in a state built by its operations.  It returns registered
  bindings only, none of them expired, no two with the same key, the newest first; it removes the expired bindings from
  the state and no other, and keeps the invariant (entries under non-empty identifiers, every binding under its own
  key, with a positive expiry and a time).\<close>

theorem lookup_contract:
  assumes "locator_ok lib m" and "lookup lib now u m = (ls, m')"
  shows "locator_ok lib m' \<and> bindings m' = {l \<in> bindings m. \<not> is_expired_at now l} \<and> set ls \<subseteq> bindings m'
         \<and> sorted (map recency_key ls) \<and> distinct (map (binding_key lib) ls)"
  using mem_loc.look_ok [OF assms(1), of now u] mem_loc.look_contents [of lib now u m] mem_loc.look_live [of _ lib now u m]
    mem_loc.look_order [of lib now u m] mem_loc.look_distinct [of lib now u m] assms(2)
  by auto

text \<open>The target of a dialog.  The address the dialog layer sends to is the destination of a binding that is
  registered and live, or, only in a cluster, the home proxy of one; otherwise it is the address of the URI itself.\<close>

theorem dialog_target_live:
  assumes "locate lib show_addr addr_of_uri t u (Inr (fst (lookup lib now u m))) = Inr a"
  shows "(\<exists>l \<in> bindings m. \<not> is_expired_at now l \<and> destination l = Some a)
         \<or> (cluster_enabled t \<and> (\<exists>l \<in> bindings m. \<not> is_expired_at now l \<and> home_proxy l = Some a))
         \<or> addr_of_uri u = Inr a"
  by (rule mem_loc.locate_from_binding [OF assms])

lemma on_connection_closed_removed:
  "set (case fst (on_connection_closed addr m) of Some ls \<Rightarrow> ls | None \<Rightarrow> [])
     = {l \<in> bindings m. destination l = Some addr}"
proof -
  have all: "concat (map (\<lambda>(i, e). filter P (hm_values e)) ls) = filter P (all_locations ls)" for P ls
    by (induction ls) (auto simp: all_locations_def)
  have "(case fst (on_connection_closed addr m) of Some ls \<Rightarrow> ls | None \<Rightarrow> [])
      = filter (\<lambda>l. destination l = Some addr) (all_locations (locations m))"
    by (simp only: on_connection_closed_def unregister_with_address_def Let_def all) simp
  then show ?thesis by (auto simp: bindings_def)
qed

text \<open>When a connection closes, the locator forgets exactly the bindings that used its address and reports them:
  the removed locations are those with the address, all others stay, the invariant is kept, and no later lookup
  returns the address.\<close>

theorem closed_connection_forgotten:
  assumes "locator_ok lib m" and "on_connection_closed addr m = (offline, m')"
  shows "locator_ok lib m' \<and> bindings m' = {l \<in> bindings m. destination l \<noteq> Some addr}
         \<and> set (case offline of Some ls \<Rightarrow> ls | None \<Rightarrow> []) = {l \<in> bindings m. destination l = Some addr}
         \<and> Some addr \<notin> destination ` set (fst (lookup lib now u m'))"
proof -
  have "Some addr \<notin> destination ` set (fst (lookup lib now u m'))"
    using mem_loc.closed_not_found [of _ lib now u addr m] assms(2) by (force simp: image_iff)
  then show ?thesis
    using mem_loc.drop_addr_ok [OF assms(1), of addr] mem_loc.drop_addr_contents [of addr m]
      on_connection_closed_removed [of addr m] assms(2)
    by simp
qed

section \<open>Evaluation\<close>

definition demo_phone :: "string \<Rightarrow> string \<Rightarrow> uri" where
  "demo_phone user host = \<lparr>u_scheme = ''sip'', u_user = Some user, u_password = None, u_host = host,
     u_port = None, u_rest = []\<rparr>"

definition demo_loc_lib :: sip_lib where
  "demo_loc_lib = \<lparr>uri_show = (\<lambda>u. user_or_default u @ ''@'' @ u_host u), uri_parse = (\<lambda>_. None),
     uri_eq = (\<lambda>a b. a = b), host_port_parse = (\<lambda>_. None)\<rparr>"

definition demo_addr :: "string \<Rightarrow> sip_addr" where
  "demo_addr h = \<lparr>a_type = Some Udp, a_addr = (h, None)\<rparr>"

definition demo_binding :: "string \<Rightarrow> string \<Rightarrow> instant option \<Rightarrow> string \<Rightarrow> location" where
  "demo_binding user host t aor_user =
     default_location\<lparr>aor := demo_phone user host, expires := 60, last_modified := t,
       destination := Some (demo_addr host), registered_aor := Some (demo_phone aor_user ''pbx.example'')\<rparr>"

definition demo_locator :: memory_locator where
  "demo_locator = \<lparr>locations = [(''a@pbx.example'', [(''a@10.0.0.1'', demo_binding ''a'' ''10.0.0.1'' (Some 5) ''a'')])],
     realm_checker = None\<rparr>"

lemmas demo_locator_defs = demo_locator_def demo_binding_def demo_addr_def demo_loc_lib_def demo_phone_def
  default_location_def default_uri_def

lemma demo_locator_ok: "locator_ok demo_loc_lib demo_locator"
  by (simp add: locator_ok_def entry_ok_def demo_locator_defs hm_wf_def binding_key_def user_or_default_def)

lemma demo_bindings: "bindings demo_locator = {demo_binding ''a'' ''10.0.0.1'' (Some 5) ''a''}"
  by (simp add: bindings_def all_locations_def demo_locator_def)

lemma demo_identifier: "get_identifier demo_locator ''b'' None \<noteq> []"
  by code_simp

theorem registered_is_found_witness:
  "\<exists>l \<in> set (fst (lookup demo_loc_lib 8 (demo_phone ''b'' ''pbx.example'')
        (register demo_loc_lib 7 ''b'' None (demo_binding ''b'' ''10.0.0.2'' None ''b'') demo_locator))).
     binding_key demo_loc_lib l = ''b@10.0.0.2''"
proof -
  have k: "binding_key demo_loc_lib (demo_binding ''b'' ''10.0.0.2'' None ''b'') = ''b@10.0.0.2''" by code_simp
  show ?thesis
    by (rule registered_is_found [OF demo_locator_ok demo_identifier, of "demo_binding ''b'' ''10.0.0.2'' None ''b''", unfolded k])
      (simp_all add: demo_locator_defs secs_def)
qed

theorem contact_captures_calls_witness:
  "hd (fst (lookup demo_loc_lib 9 (demo_phone ''a'' ''192.168.1.1'')
        (register demo_loc_lib 9 ''b'' None (demo_binding ''a'' ''10.0.0.66'' (Some 9) ''b'') demo_locator)))
     = demo_binding ''a'' ''10.0.0.66'' (Some 9) ''b''"
proof -
  let ?loc = "demo_binding ''a'' ''10.0.0.66'' (Some 9) ''b''" and ?u = "demo_phone ''a'' ''192.168.1.1''"
  have realms: "is_local_realm (u_host (aor ?loc))" "is_local_realm (u_host ?u)" by code_simp+
  have older: "\<forall>l \<in> bindings demo_locator. \<exists>t < 9. last_modified l = Some t"
    unfolding demo_bindings by (simp add: demo_locator_defs)
  have "0 < expires ?loc" "last_modified ?loc = Some 9" "u_user (aor ?loc) = u_user ?u"
    by (simp_all add: demo_locator_defs)
  with contact_captures_calls [OF demo_locator_ok demo_identifier _ _ older _ realms] show ?thesis by blast
qed

theorem lookup_contract_witness:
  "locator_ok demo_loc_lib (snd (lookup demo_loc_lib 8 (demo_phone ''a'' ''pbx.example'') demo_locator))"
  using lookup_contract [OF demo_locator_ok prod.collapse [symmetric]] by blast

theorem dialog_target_live_witness:
  "\<exists>l \<in> bindings demo_locator. \<not> is_expired_at 8 l \<and> destination l = Some (demo_addr ''10.0.0.1'')"
proof -
  have "locate demo_loc_lib fst (\<lambda>_. Inl ''x'') \<lparr>local_addrs = [], cluster_enabled = False\<rparr>
      (demo_phone ''a'' ''pbx.example'')
      (Inr (fst (lookup demo_loc_lib 8 (demo_phone ''a'' ''pbx.example'') demo_locator)))
      = Inr (demo_addr ''10.0.0.1'')"
    by (simp add: locate_def is_cluster_hit_def lookup_def prune_def hm_retain_def is_expired_at_def secs_def
        all_locations_def is_direct_hit_def sort_locations_by_recency_def demo_locator_defs)
  from dialog_target_live [OF this] show ?thesis by simp
qed

theorem closed_connection_forgotten_witness:
  "bindings (snd (on_connection_closed (demo_addr ''10.0.0.1'') demo_locator)) = {}"
proof -
  let ?m = "snd (on_connection_closed (demo_addr ''10.0.0.1'') demo_locator)"
  have "bindings ?m = {l \<in> bindings demo_locator. destination l \<noteq> Some (demo_addr ''10.0.0.1'')}"
    using closed_connection_forgotten [OF demo_locator_ok prod.collapse [symmetric], of "demo_addr ''10.0.0.1''"]
    by blast
  then show ?thesis unfolding demo_bindings by (auto simp: demo_locator_defs)
qed

end
