(* ===== verification/Inspectors.thy ===== *)
theory Inspectors
  imports Auth Locator "HOL-Library.Char_ord" "HOL-Library.List_Lexorder"
begin

text \<open>
  What looks at a call or a message from the side: the plan of a call (\<open>Dialplan\<close> of \<open>src/src/call/mod.rs\<close>) and the two
  inspectors that may change it, the pool of numbers (\<open>src/src/proxy/number_pool.rs\<close>) and the emergency numbers
  (\<open>src/src/proxy/emergency.rs\<close>); the repair of contacts behind address translation (\<open>src/src/proxy/nat.rs\<close>); and the probes of
  trunks (\<open>src/src/proxy/trunk_health.rs\<close>).  Shown: the numbers of a pool take turns, which calls count as emergencies,
  which contacts are repaired, and that the health of a trunk is decided by its latest probes.
\<close>

section \<open>The plan of a call\<close>

record recorder_option =
  recorder_file :: string
  rec_samplerate :: nat
  rec_ptime :: nat

record recording_config =
  rec_enabled :: bool
  rec_option :: "recorder_option option"
  rec_auto_start :: bool

record media_config =
  mc_proxy_mode :: string
  mc_ice_servers :: "string list option"

text \<open>The fields of a plan that the call module and the inspectors read or write.  Of the extensions only the mark of a called
  party that is offline matters here.\<close>

record dialplan =
  dp_direction :: dial_direction
  dp_session_id :: "string option"
  dp_caller_contact :: "uri option"
  dp_caller :: "uri option"
  dp_flow :: flow
  dp_original :: sip_tx
  dp_recording :: recording_config
  dp_media :: media_config
  dp_call_forwarding :: "call_forwarding_config option"
  dp_voicemail_enabled :: bool
  dp_callee_offline :: bool
  dp_allow_codecs :: "string list"
  dp_passthrough_failure :: bool

type_synonym 's inspector = "dialplan \<Rightarrow> auth_cookie \<Rightarrow> sip_tx \<Rightarrow> 's \<Rightarrow> dialplan \<times> 's"

section \<open>The pool of numbers\<close>

text \<open>How often each number was given to a call, for all trunks.\<close>

type_synonym usage = "(string, nat) hmap"

definition times_used :: "usage \<Rightarrow> string \<Rightarrow> nat" where
  "times_used usage d = (case hm_get usage d of Some n \<Rightarrow> n | None \<Rightarrow> 0)"

text \<open>\<open>Iterator::min_by_key\<close>: the first of the elements whose key is least.\<close>

fun min_by_key :: "('a \<Rightarrow> nat) \<Rightarrow> 'a list \<Rightarrow> 'a option" where
  "min_by_key k [] = None"
| "min_by_key k (x # xs) =
     (case min_by_key k xs of None \<Rightarrow> Some x | Some y \<Rightarrow> Some (if k y < k x then y else x))"

definition choose_did :: "string list \<Rightarrow> usage \<Rightarrow> string option" where
  "choose_did ds usage = min_by_key (times_used usage) ds"

definition count_did :: "string \<Rightarrow> usage \<Rightarrow> usage" where
  "count_did d usage = hm_insert d (times_used usage d + 1) usage"

definition number_pool_inspect :: "sip_lib \<Rightarrow> usage inspector" where
  "number_pool_inspect lib plan cookie tx usage =
     (case from_trunk cookie of
        None \<Rightarrow> (plan, usage)
      | Some ctx \<Rightarrow>
          (case choose_did (tc_did_numbers ctx) usage of
             None \<Rightarrow> (plan, usage)
           | Some d \<Rightarrow>
               (case uri_parse lib (''sip:'' @ d) of Some uri \<Rightarrow> plan\<lparr>dp_caller := Some uri\<rparr> | None \<Rightarrow> plan, count_did d usage)))"

section \<open>Emergency calls\<close>

record emergency_config =
  em_enabled :: bool
  em_numbers :: "string list"
  em_trunk :: string

definition default_emergency_numbers :: "string list" where
  "default_emergency_numbers = [''110'', ''119'', ''120'', ''122'', ''911'', ''999'']"

definition is_emergency :: "emergency_config \<Rightarrow> string \<Rightarrow> bool" where
  "is_emergency cfg callee \<longleftrightarrow> (\<exists>n \<in> set (em_numbers cfg). contains_str n callee)"

definition emergency_inspect :: "sip_lib \<Rightarrow> emergency_config option \<Rightarrow> 's inspector" where
  "emergency_inspect lib config plan cookie tx s =
     (case config of
        None \<Rightarrow> (plan, s)
      | Some cfg \<Rightarrow>
          if \<not> em_enabled cfg then (plan, s)
          else if rq_method tx \<noteq> MInvite then (plan, s)
          else case rq_to tx of
                 Inl _ \<Rightarrow> (plan, s)
               | Inr to \<Rightarrow>
                   (case th_uri to of
                      Inl _ \<Rightarrow> (plan, s)
                    | Inr uri \<Rightarrow>
                        if is_emergency cfg (user_or_default uri)
                        then (case uri_parse lib (em_trunk cfg) of
                                Some trunk_uri \<Rightarrow>
                                  (plan\<lparr>dp_flow := Targets (Sequential [default_location\<lparr>aor := trunk_uri\<rparr>])\<rparr>, s)
                              | None \<Rightarrow> (plan, s))
                        else (plan, s)))"

section \<open>Contacts behind address translation\<close>

definition v4_is_link_local :: "32 word \<Rightarrow> bool" where
  "v4_is_link_local w \<longleftrightarrow> v4_octet w 0 = 169 \<and> v4_octet w 1 = 254"

fun is_private_ip :: "ip_addr \<Rightarrow> bool" where
  "is_private_ip (V4 w) \<longleftrightarrow> v4_is_private w \<or> ip_is_loopback (V4 w) \<or> v4_is_link_local w \<or> ip_is_unspecified (V4 w)"
| "is_private_ip (V6 ss) \<longleftrightarrow> ip_is_loopback (V6 ss) \<or> ip_is_unspecified (V6 ss)"

definition contact_uri_start :: "string \<Rightarrow> nat option" where
  "contact_uri_start v = (case find_char (CHR ''<'') v of Some i \<Rightarrow> Some (i + 1) | None \<Rightarrow> find_str ''sip:'' v)"

definition contact_uri_end :: "string \<Rightarrow> nat \<Rightarrow> nat" where
  "contact_uri_end v start =
     (case find_char (CHR ''>'') (drop start v) of
        Some i \<Rightarrow> start + i
      | None \<Rightarrow> (case find_char (CHR '';'') (drop start v) of Some i \<Rightarrow> start + i | None \<Rightarrow> length v))"

text \<open>The part of a host with a port before the first colon.\<close>

definition host_only :: "string \<Rightarrow> string" where
  "host_only host_part = (case find_char (CHR '':'') host_part of Some i \<Rightarrow> take i host_part | None \<Rightarrow> host_part)"

definition new_host_part :: "host_port \<Rightarrow> string \<Rightarrow> string" where
  "new_host_part from host_part =
     fst from @
     (case snd from of
        Some port \<Rightarrow> '':'' @ string_of_nat port
      | None \<Rightarrow> (case find_char (CHR '':'') host_part of Some i \<Rightarrow> drop i host_part | None \<Rightarrow> []))"

text \<open>Whether the host of a contact is to be replaced; a contact without a user is also replaced when the source is private itself.\<close>

definition needs_fix :: "bool \<Rightarrow> host_port \<Rightarrow> string \<Rightarrow> bool" where
  "needs_fix with_user from host_part =
     (case ip_from_str (host_only host_part) of
        None \<Rightarrow> False
      | Some ip \<Rightarrow>
          is_private_ip ip
          \<and> (case ip_from_str (fst from) of
               Some from_ip \<Rightarrow> \<not> (from_ip = ip \<or> (with_user \<and> is_private_ip from_ip))
             | None \<Rightarrow> True))"

definition fix_contact_header :: "host_port \<Rightarrow> string \<Rightarrow> string" where
  "fix_contact_header from v =
     (case contact_uri_start v of
        None \<Rightarrow> v
      | Some start \<Rightarrow>
          (let uri_end = contact_uri_end v start; uri = take (uri_end - start) (drop start v)
           in case find_char (CHR ''@'') uri of
                Some at_idx \<Rightarrow>
                  (let host_part = drop (at_idx + 1) uri
                   in if needs_fix True from host_part
                      then take (start + at_idx + 1) v @ new_host_part from host_part @ drop uri_end v else v)
              | None \<Rightarrow>
                  (case strip_prefix ''sip:'' uri of
                     None \<Rightarrow> v
                   | Some host_part \<Rightarrow>
                       if needs_fix False from host_part
                       then take (start + 4) v @ new_host_part from host_part @ drop uri_end v else v)))"

fun fix_header :: "host_port \<Rightarrow> header \<Rightarrow> header" where
  "fix_header from (Std t v) = (if t = HContact then Std t (fix_contact_header from v) else Std t v)"
| "fix_header from (Other n v) = Other n v"

datatype sip_message = RequestMsg headers | ResponseMsg nat headers

fun after_received :: "sip_message \<Rightarrow> host_port \<Rightarrow> sip_message" where
  "after_received (RequestMsg hs) from = RequestMsg hs"
| "after_received (ResponseMsg code hs) from =
     (if 100 \<le> code \<and> code < 300 then ResponseMsg code (map (fix_header from) hs) else ResponseMsg code hs)"

section \<open>Probes of trunks\<close>

record 'p probed_trunk = "'p trunk_config" +
  health_check_enabled :: "bool option"
  health_check_interval_secs :: "nat option"
  health_check_probe_count :: "nat option"
  health_check_fallback_trunk :: "string option"

record trunk_health_state =
  th_trunk_name :: string
  th_healthy :: bool
  th_consecutive_failures :: nat
  th_rtt_ms :: "nat option"
  th_last_checked :: "string option"
  th_last_error :: "string option"
  th_dest :: string
  th_fallback_trunk :: "string option"

type_synonym health_states = "(string, trunk_health_state) hmap"

text \<open>What the transaction of a probe brings: a response with its code after some milliseconds, another message, the end
  of the transaction, nothing within 10 seconds, or an error of the stack.\<close>

datatype probe_reply = ProbeResponse nat nat | ProbeOther nat | ProbeClosed | ProbeTimeout | ProbeError string

definition probe_trunk :: "sip_lib \<Rightarrow> string \<Rightarrow> probe_reply \<Rightarrow> nat result" where
  "probe_trunk lib target reply =
     (case uri_parse lib (''sip:health@'' @ target) of
        None \<Rightarrow> Inl (''invalid dest URI '' @ target)
      | Some _ \<Rightarrow>
          (case reply of
             ProbeResponse code elapsed \<Rightarrow> if code < 300 then Inr elapsed else Inl (''SIP '' @ string_of_nat code)
           | ProbeOther elapsed \<Rightarrow> Inl (''non-response reply in '' @ string_of_nat elapsed @ ''ms'')
           | ProbeClosed \<Rightarrow> Inl ''no response (transaction closed)''
           | ProbeTimeout \<Rightarrow> Inl ''timeout (10s)''
           | ProbeError e \<Rightarrow> Inl e))"

definition dest_name :: "string \<Rightarrow> string" where
  "dest_name target = (case strip_prefix ''sip:'' (trim target) of Some r \<Rightarrow> r | None \<Rightarrow> trim target)"

definition record_probe :: "string \<Rightarrow> string \<Rightarrow> 'p probed_trunk \<Rightarrow> nat result \<Rightarrow> health_states \<Rightarrow> health_states" where
  "record_probe now name cfg outcome states =
     hm_insert name
       (case outcome of
          Inr rtt \<Rightarrow>
            \<lparr>th_trunk_name = name, th_healthy = True, th_consecutive_failures = 0, th_rtt_ms = Some rtt,
             th_last_checked = Some now, th_last_error = None, th_dest = dest cfg,
             th_fallback_trunk = health_check_fallback_trunk cfg\<rparr>
        | Inl e \<Rightarrow>
            (let failures = (case hm_get states name of Some prev \<Rightarrow> th_consecutive_failures prev | None \<Rightarrow> 0) + 1;
                 threshold = (case health_check_probe_count cfg of Some n \<Rightarrow> n | None \<Rightarrow> 3)
             in \<lparr>th_trunk_name = name, th_healthy = (failures < threshold), th_consecutive_failures = failures,
                 th_rtt_ms = None, th_last_checked = Some now, th_last_error = Some (''OPTIONS failed: '' @ e),
                 th_dest = dest cfg, th_fallback_trunk = health_check_fallback_trunk cfg\<rparr>))
       states"

text \<open>One round over all trunks: the states after it and the seconds until the next round.  The replies and the texts of the
  clock are those of the probes by name.\<close>

fun health_round ::
  "sip_lib \<Rightarrow> nat \<Rightarrow> (string \<Rightarrow> probe_reply) \<Rightarrow> (string \<Rightarrow> string) \<Rightarrow> (string \<times> 'p probed_trunk) list
     \<Rightarrow> nat \<times> health_states \<Rightarrow> nat \<times> health_states" where
  "health_round lib default_interval replies clock [] (tick, states) = (tick, states)"
| "health_round lib default_interval replies clock ((name, cfg) # trunks) (tick, states) =
     (if health_check_enabled cfg \<noteq> Some True
      then health_round lib default_interval replies clock trunks (tick, states)
      else health_round lib default_interval replies clock trunks
             (min tick (case health_check_interval_secs cfg of Some n \<Rightarrow> n | None \<Rightarrow> default_interval),
              record_probe (clock name) name cfg (probe_trunk lib (dest_name (dest cfg)) (replies name)) states))"

definition health_tick ::
  "sip_lib \<Rightarrow> nat \<Rightarrow> (string \<Rightarrow> probe_reply) \<Rightarrow> (string \<Rightarrow> string) \<Rightarrow> (string, 'p probed_trunk) hmap
     \<Rightarrow> health_states \<Rightarrow> nat \<times> health_states" where
  "health_tick lib default_interval replies clock trunks states =
     health_round lib default_interval replies clock trunks (default_interval, states)"

definition health_snapshot :: "health_states \<Rightarrow> trunk_health_state list" where
  "health_snapshot states = sort_key th_trunk_name (hm_values states)"

section \<open>The numbers of a pool take turns\<close>

lemma min_by_key_None: "min_by_key k xs = None \<longleftrightarrow> xs = []"
  by (cases xs) (auto split: option.splits)

lemma min_by_key_first:
  "i < length xs \<Longrightarrow> \<forall>j < i. k (xs ! i) < k (xs ! j) \<Longrightarrow> \<forall>j < length xs. k (xs ! i) \<le> k (xs ! j)
     \<Longrightarrow> min_by_key k xs = Some (xs ! i)"
proof (induction xs arbitrary: i)
  case (Cons x xs)
  show ?case
  proof (cases i)
    case 0
    have "k x \<le> k y" if "min_by_key k xs = Some y" for y
    proof -
      have "y \<in> set xs" using that by (induction xs arbitrary: y) (auto split: option.splits if_splits)
      then obtain j where "j < length xs" "xs ! j = y" by (auto simp: in_set_conv_nth)
      then show ?thesis using Cons.prems(3) 0 by (metis Suc_less_eq length_Cons nth_Cons_0 nth_Cons_Suc)
    qed
    then show ?thesis using 0 by (auto split: option.splits simp: not_less)
  next
    case (Suc i')
    have "min_by_key k xs = Some (xs ! i')"
      using Cons.prems Suc by (intro Cons.IH) auto
    moreover have "k (xs ! i') < k x" using Cons.prems(2) Suc by (metis nth_Cons_0 nth_Cons_Suc zero_less_Suc)
    ultimately show ?thesis using Suc by simp
  qed
qed simp

lemma times_used_count [simp]:
  "times_used (count_did d usage) e = (if e = d then times_used usage d + 1 else times_used usage e)"
  by (simp add: times_used_def count_did_def)

text \<open>After \<open>n\<close> calls the first \<open>n mod k\<close> of the \<open>k\<close> numbers are one ahead of the others.\<close>

definition turns :: "string list \<Rightarrow> nat \<Rightarrow> nat \<Rightarrow> usage \<Rightarrow> bool" where
  "turns ds c n usage \<longleftrightarrow>
     (\<forall>j < length ds. times_used usage (ds ! j) = c + n div length ds + (if j < n mod length ds then 1 else 0))"

lemma turns_choose:
  assumes "turns ds c n usage" "ds \<noteq> []"
  shows "choose_did ds usage = Some (ds ! (n mod length ds))"
proof -
  let ?r = "n mod length ds"
  have r: "?r < length ds" using assms(2) by simp
  have used: "times_used usage (ds ! j) = c + n div length ds + (if j < ?r then 1 else 0)" if "j < length ds" for j
    using assms(1) that by (simp add: turns_def)
  have "times_used usage (ds ! ?r) < times_used usage (ds ! j)" if "j < ?r" for j
    using used [of j] used [OF r] that r by simp
  then show ?thesis using r used unfolding choose_did_def by (intro min_by_key_first) simp_all
qed

lemma div_mod_Suc:
  "0 < k \<Longrightarrow> Suc n div k = (if Suc (n mod k) = k then Suc (n div k) else n div k)
     \<and> Suc n mod k = (if Suc (n mod k) = k then 0 else Suc (n mod k))"
  by (simp add: div_Suc mod_Suc)

lemma turns_count:
  assumes "turns ds c n usage" "ds \<noteq> []" "distinct ds"
  shows "turns ds c (Suc n) (count_did (ds ! (n mod length ds)) usage)"
proof -
  let ?k = "length ds"
  have r: "n mod ?k < ?k" using assms(2) by simp
  have "times_used (count_did (ds ! (n mod ?k)) usage) (ds ! j)
          = c + Suc n div ?k + (if j < Suc n mod ?k then 1 else 0)" if j: "j < ?k" for j
  proof -
    have "ds ! j = ds ! (n mod ?k) \<longleftrightarrow> j = n mod ?k" using assms(3) j r by (simp add: nth_eq_iff_index_eq)
    then show ?thesis using assms(1) j r div_mod_Suc [of ?k n] assms(2) unfolding turns_def by auto
  qed
  then show ?thesis by (simp add: turns_def)
qed

text \<open>Calls from one trunk, one after the other.\<close>

fun inspect_all :: "'s inspector \<Rightarrow> auth_cookie \<Rightarrow> (dialplan \<times> sip_tx) list \<Rightarrow> 's \<Rightarrow> dialplan list \<times> 's" where
  "inspect_all f cookie [] s = ([], s)"
| "inspect_all f cookie ((plan, tx) # calls) s =
     (let (plan', s') = f plan cookie tx s; (plans, s'') = inspect_all f cookie calls s' in (plan' # plans, s''))"

lemma inspect_all_length [simp]: "length (fst (inspect_all f cookie calls s)) = length calls"
  by (induction f cookie calls s rule: inspect_all.induct) (auto simp: Let_def split: prod.splits)

lemma pool_step:
  assumes "from_trunk cookie = Some ctx" "tc_did_numbers ctx = ds" "ds \<noteq> []" "turns ds c n usage"
    "uri_parse lib (''sip:'' @ ds ! (n mod length ds)) = Some uri"
  shows "number_pool_inspect lib plan cookie tx usage = (plan\<lparr>dp_caller := Some uri\<rparr>, count_did (ds ! (n mod length ds)) usage)"
  using assms turns_choose [OF assms(4,3)] by (simp add: number_pool_inspect_def)

lemma pool_turns:
  assumes "from_trunk cookie = Some ctx" "tc_did_numbers ctx = ds" "ds \<noteq> []" "distinct ds" "turns ds c n usage"
    "\<forall>d \<in> set ds. uri_parse lib (''sip:'' @ d) = Some (u d)" "i < length calls"
  shows "dp_caller (fst (inspect_all (number_pool_inspect lib) cookie calls usage) ! i)
           = Some (u (ds ! ((n + i) mod length ds)))"
  using assms(5,7)
proof (induction calls arbitrary: i n usage)
  case (Cons call calls)
  obtain plan tx where [simp]: "call = (plan, tx)" by (rule prod.exhaust)
  let ?d = "ds ! (n mod length ds)"
  have "?d \<in> set ds" using assms(3) by simp
  then have step: "number_pool_inspect lib plan cookie tx usage = (plan\<lparr>dp_caller := Some (u ?d)\<rparr>, count_did ?d usage)"
    using pool_step [OF assms(1-3) Cons.prems(1)] assms(6) by blast
  have next_turns: "turns ds c (Suc n) (count_did ?d usage)"
    by (rule turns_count [OF Cons.prems(1) assms(3,4)])
  show ?case
  proof (cases i)
    case (Suc i')
    then show ?thesis using Cons.IH [OF next_turns, of i'] Cons.prems(2) by (simp add: step split_beta)
  qed (simp add: step split_beta)
qed simp


section \<open>Emergency calls\<close>

text \<open>A call is an emergency when the number of the called party has an emergency number anywhere inside.\<close>

theorem emergency_takes_the_call:
  assumes "em_enabled cfg" "rq_method tx = MInvite" "rq_to tx = Inr to" "th_uri to = Inr uri"
    "u_user uri = Some (a @ n @ b)" "n \<in> set (em_numbers cfg)" "uri_parse lib (em_trunk cfg) = Some trunk"
  shows "find_targets (dp_flow (fst (emergency_inspect lib (Some cfg) plan cookie tx s))) = Some [default_location\<lparr>aor := trunk\<rparr>]"
proof -
  have "is_emergency cfg (user_or_default uri)"
    using assms(5,6) by (auto simp: is_emergency_def user_or_default_def contains_str_iff)
  then show ?thesis using assms by (simp add: emergency_inspect_def)
qed

theorem other_calls_keep_their_plan:
  assumes "\<And>to uri n. rq_to tx = Inr to \<Longrightarrow> th_uri to = Inr uri \<Longrightarrow> n \<in> set (em_numbers cfg)
             \<Longrightarrow> \<not> contains_str n (user_or_default uri)"
  shows "emergency_inspect lib (Some cfg) plan cookie tx s = (plan, s)"
  using assms by (auto simp: emergency_inspect_def is_emergency_def split: sum.splits)

definition demo_uri_lib :: sip_lib where
  "demo_uri_lib = \<lparr>uri_show = (\<lambda>u. user_or_default u),
     uri_parse = (\<lambda>t. map_option (\<lambda>r. default_uri\<lparr>u_scheme := ''sip'', u_user := Some r\<rparr>) (strip_prefix ''sip:'' t)),
     uri_eq = (=), host_port_parse = (\<lambda>t. Some (t, None))\<rparr>"

definition demo_cookie :: auth_cookie where
  "demo_cookie = \<lparr>spam = None, from_trunk = Some \<lparr>tc_id = None, tc_name = ''t'', tc_did_numbers = [''100'', ''200'']\<rparr>,
     ck_user = None, ck_callee_display_name = None\<rparr>"

definition demo_request :: "string \<Rightarrow> sip_tx" where
  "demo_request user = \<lparr>rq_method = MInvite, rq_uri = default_uri, rq_headers = [],
     rq_from = Inl ''none'', rq_to = Inr \<lparr>th_uri = Inr (default_uri\<lparr>u_user := Some user\<rparr>), th_has_tag = False\<rparr>,
     rq_call_id = Inr ''c1'', rq_contact = None, rq_via_target = Inl ''none'', rq_source = None\<rparr>"

definition demo_plan :: "string \<Rightarrow> dialplan" where
  "demo_plan user = \<lparr>dp_direction = DirInbound, dp_session_id = Some ''c1'', dp_caller_contact = None, dp_caller = None,
     dp_flow = Targets (Sequential []), dp_original = demo_request user,
     dp_recording = \<lparr>rec_enabled = False, rec_option = None, rec_auto_start = False\<rparr>,
     dp_media = \<lparr>mc_proxy_mode = ''auto'', mc_ice_servers = None\<rparr>, dp_call_forwarding = None, dp_voicemail_enabled = False,
     dp_callee_offline = False, dp_allow_codecs = [], dp_passthrough_failure = False\<rparr>"


lemma emergency_takes_the_call_witness:
  "find_targets (dp_flow (fst (emergency_inspect demo_uri_lib
       (Some \<lparr>em_enabled = True, em_numbers = default_emergency_numbers, em_trunk = ''sip:emergency''\<rparr>)
       (demo_plan ''51105'') demo_cookie (demo_request ''51105'') ())))
     = Some [default_location\<lparr>aor := default_uri\<lparr>u_scheme := ''sip'', u_user := Some ''emergency''\<rparr>\<rparr>]"
  by (rule emergency_takes_the_call [where a = "''5''" and n = "''110''" and b = "''5''"
        and uri = "default_uri\<lparr>u_user := Some ''51105''\<rparr>" and to = "\<lparr>th_uri = Inr (default_uri\<lparr>u_user := Some ''51105''\<rparr>), th_has_tag = False\<rparr>"])
     (simp_all add: demo_request_def default_emergency_numbers_def demo_uri_lib_def)

lemma other_calls_keep_their_plan_witness:
  "emergency_inspect demo_uri_lib
     (Some \<lparr>em_enabled = True, em_numbers = default_emergency_numbers, em_trunk = ''sip:emergency''\<rparr>)
     (demo_plan ''2000'') demo_cookie (demo_request ''2000'') () = (demo_plan ''2000'', ())"
  by (rule other_calls_keep_their_plan)
     (auto simp: demo_request_def default_emergency_numbers_def user_or_default_def starts_with_def)

section \<open>Which contacts are repaired\<close>

lemma find_char_append: "d \<notin> set a \<Longrightarrow> find_char d (a @ d # b) = Some (length a)"
  by (induction a) auto

text \<open>The address in a contact, up to the first colon after the host, and what follows the colon.\<close>

definition port_part :: "string \<Rightarrow> bool" where
  "port_part tail \<longleftrightarrow> tail = [] \<or> (hd tail = CHR '':'' \<and> CHR ''>'' \<notin> set tail)"

lemma host_only_tail: "CHR '':'' \<notin> set host \<Longrightarrow> port_part tail \<Longrightarrow> host_only (host @ tail) = host"
  by (cases tail) (auto simp: host_only_def port_part_def find_char_append dest: find_char_None_iff [THEN iffD2])

text \<open>In a contact in angle brackets with a user, a private address is replaced by the address the response came from when that
  is not private, together with everything up to the closing bracket: the port, but also the parameters after it.\<close>

theorem nat_contact_repaired:
  assumes "CHR ''<'' \<notin> set pre" "CHR ''@'' \<notin> set user" "CHR ''>'' \<notin> set user"
    "is_private_ip (V4 w)" "port_part tail" "ip_from_str host = Some from_ip" "\<not> is_private_ip from_ip"
  shows "fix_contact_header (host, Some port) (pre @ ''<'' @ user @ ''@'' @ show_v4 w @ tail @ ''>'' @ post)
           = pre @ ''<'' @ user @ ''@'' @ host @ '':'' @ string_of_nat port @ ''>'' @ post"
proof -
  let ?v = "pre @ ''<'' @ user @ ''@'' @ show_v4 w @ tail @ ''>'' @ post"
  let ?uri = "user @ ''@'' @ show_v4 w @ tail"
  let ?start = "length pre + 1"
  have start: "contact_uri_start ?v = Some ?start"
    using assms(1) by (simp add: contact_uri_start_def find_char_append)
  have clean: "CHR ''>'' \<notin> set (show_v4 w)" "CHR '':'' \<notin> set (show_v4 w)"
    using show_v4_clean by fastforce+
  have "CHR ''>'' \<notin> set ?uri" using clean(1) assms(3,5) by (auto simp: port_part_def)
  then have "find_char (CHR ''>'') (?uri @ CHR ''>'' # post) = Some (length ?uri)" by (rule find_char_append)
  moreover have dropped: "drop ?start ?v = ?uri @ CHR ''>'' # post" by simp
  ultimately have fin: "contact_uri_end ?v ?start = ?start + length ?uri"
    unfolding contact_uri_end_def by simp
  have at: "find_char (CHR ''@'') ?uri = Some (length user)" using assms(2) by (simp add: find_char_append)
  have "from_ip \<noteq> V4 w" using assms(4,7) by blast
  then have "needs_fix True (host, Some port) (show_v4 w @ tail)"
    using assms(4,6,7) by (simp add: needs_fix_def host_only_tail [OF clean(2) assms(5)] ip_from_str_show)
  moreover have "take (?start + length ?uri - ?start) (drop ?start ?v) = ?uri" by simp
  moreover have "drop (length user + 1) ?uri = show_v4 w @ tail" by simp
  moreover have "take (?start + length user + 1) ?v = pre @ ''<'' @ user @ ''@''" by simp
  moreover have "drop (?start + length ?uri) ?v = CHR ''>'' # post" by simp
  ultimately show ?thesis
    unfolding fix_contact_header_def start option.case fin Let_def
    using at by (simp add: new_host_part_def)
qed

lemma nat_contact_repaired_witness:
  "fix_contact_header (''198.51.100.24'', Some 7) ''<sip:4@10.1.1.1:5060;ob>;q=1'' = ''<sip:4@198.51.100.24:7>;q=1''"
proof -
  have "show_v4 0x0A010101 = ''10.1.1.1''" by code_simp
  moreover have "is_private_ip (V4 0x0A010101)" by code_simp
  moreover have "ip_from_str ''198.51.100.24'' = Some (V4 0xC6336418)" by code_simp
  moreover have "\<not> is_private_ip (V4 0xC6336418)" by code_simp
  moreover have "string_of_nat 7 = ''7''" by code_simp
  ultimately show ?thesis
    using nat_contact_repaired [of "[]" "''sip:4''" "0x0A010101" "'':5060;ob''" "''198.51.100.24''" "V4 0xC6336418" 7 "'';q=1''"]
    by (simp add: port_part_def)
qed

text \<open>Without a port, a parameter hides the address: the contact stays as it is.\<close>

lemma nat_parameter_hides_address:
  "fix_contact_header (''198.51.100.24'', Some 15060) ''<sip:4@10.1.1.1;ob>'' = ''<sip:4@10.1.1.1;ob>''"
  by code_simp

section \<open>The health of a trunk\<close>

lemma record_probe_get [simp]:
  "name' \<noteq> name \<Longrightarrow> hm_get (record_probe now name cfg r states) name' = hm_get states name'"
  by (simp add: record_probe_def)

lemma health_round_other:
  "name \<notin> fst ` set trunks \<Longrightarrow> hm_get (snd (health_round lib d replies clock trunks (tick, states))) name = hm_get states name"
proof (induction lib d replies clock trunks "(tick, states)" arbitrary: tick states rule: health_round.induct)
  case (2 lib d replies clock n cfg trunks tick states)
  have ne: "name \<noteq> n" "name \<notin> fst ` set trunks" using "2.prems" by auto
  show ?case
  proof (cases "health_check_enabled cfg \<noteq> Some True")
    case True
    then show ?thesis using "2.hyps"(1) [OF True ne(2)] by simp
  next
    case False
    then show ?thesis using "2.hyps"(2) [OF False ne(2)] ne(1) by simp
  qed
qed simp

lemma health_round_own:
  "distinct (map fst trunks) \<Longrightarrow> (name, cfg) \<in> set trunks \<Longrightarrow> health_check_enabled cfg = Some True \<Longrightarrow>
     \<exists>s. hm_get s name = hm_get states name
       \<and> hm_get (snd (health_round lib d replies clock trunks (tick, states))) name
         = hm_get (record_probe (clock name) name cfg (probe_trunk lib (dest_name (dest cfg)) (replies name)) s) name"
proof (induction trunks arbitrary: tick states)
  case (Cons t trunks)
  obtain n c where t [simp]: "t = (n, c)" by (rule prod.exhaust)
  show ?case
  proof (cases "n = name")
    case True
    with Cons.prems have "c = cfg" "name \<notin> fst ` set trunks" by (auto simp: rev_image_eqI)
    with True Cons.prems(3) show ?thesis
      by (intro exI [of _ states]) (simp add: health_round_other)
  next
    case False
    with Cons.prems have "(name, cfg) \<in> set trunks" by auto
    then have IH: "\<exists>s. hm_get s name = hm_get st name
        \<and> hm_get (snd (health_round lib d replies clock trunks (tk, st))) name
          = hm_get (record_probe (clock name) name cfg (probe_trunk lib (dest_name (dest cfg)) (replies name)) s) name" for tk st
      using Cons.IH Cons.prems(1,3) by simp
    show ?thesis
    proof (cases "health_check_enabled c = Some True")
      case True
      let ?st = "record_probe (clock n) n c (probe_trunk lib (dest_name (dest c)) (replies n)) states"
      have "hm_get ?st name = hm_get states name" using False by simp
      with IH [of ?st] True show ?thesis by simp
    qed (use IH in simp)
  qed
qed simp

fun health_rounds ::
  "sip_lib \<Rightarrow> nat \<Rightarrow> (string \<Rightarrow> string) \<Rightarrow> (string, 'p probed_trunk) hmap \<Rightarrow> (string \<Rightarrow> probe_reply) list
     \<Rightarrow> health_states \<Rightarrow> health_states" where
  "health_rounds lib d clock trunks [] states = states"
| "health_rounds lib d clock trunks (replies # rounds) states =
     health_rounds lib d clock trunks rounds (snd (health_tick lib d replies clock trunks states))"

lemma health_rounds_snoc:
  "health_rounds lib d clock trunks (rounds @ [replies]) states
     = snd (health_tick lib d replies clock trunks (health_rounds lib d clock trunks rounds states))"
  by (induction rounds arbitrary: states) simp_all

text \<open>How many of the latest probes failed in a row.\<close>

definition failures_in_a_row :: "(nat result) list \<Rightarrow> nat" where
  "failures_in_a_row outcomes = length (takeWhile (\<lambda>r. \<not> is_ok r) (rev outcomes))"

lemma failures_snoc:
  "failures_in_a_row (outcomes @ [r]) = (if is_ok r then 0 else Suc (failures_in_a_row outcomes))"
  by (simp add: failures_in_a_row_def)

definition threshold_of :: "'p probed_trunk \<Rightarrow> nat" where
  "threshold_of cfg = (case health_check_probe_count cfg of Some n \<Rightarrow> n | None \<Rightarrow> 3)"

text \<open>A trunk is unhealthy exactly when its latest probes failed at least as often as its threshold says, and one
  answered probe heals it; no other trunk matters.\<close>

theorem health_of_latest_probes:
  assumes "distinct (map fst trunks)" "(name, cfg) \<in> set trunks" "health_check_enabled cfg = Some True" "rounds \<noteq> []"
    and "n = failures_in_a_row (map (\<lambda>replies. probe_trunk lib (dest_name (dest cfg)) (replies name)) rounds)"
  shows "map_option (\<lambda>st. (th_consecutive_failures st, th_healthy st)) (hm_get (health_rounds lib d clock trunks rounds []) name)
           = Some (n, n = 0 \<or> n < threshold_of cfg)"
  using assms(4,5)
proof (induction rounds arbitrary: n rule: rev_induct)
  case (snoc replies rounds)
  let ?states = "health_rounds lib d clock trunks rounds []"
  let ?outcome = "probe_trunk lib (dest_name (dest cfg)) (replies name)"
  obtain s where s: "hm_get s name = hm_get ?states name"
      "hm_get (snd (health_tick lib d replies clock trunks ?states)) name
         = hm_get (record_probe (clock name) name cfg ?outcome s) name"
    using health_round_own [OF assms(1-3)] unfolding health_tick_def by blast
  have prev: "(case hm_get ?states name of Some prev \<Rightarrow> th_consecutive_failures prev | None \<Rightarrow> 0)
      = failures_in_a_row (map (\<lambda>replies. probe_trunk lib (dest_name (dest cfg)) (replies name)) rounds)"
    using snoc.IH by (cases "rounds = []") (auto simp: failures_in_a_row_def)
  show ?case
    using snoc.prems(2) s prev
    by (cases ?outcome) (auto simp: health_rounds_snoc record_probe_def failures_snoc threshold_of_def Let_def)
qed simp

definition demo_probed :: "unit probed_trunk" where
  "demo_probed = \<lparr>dest = ''sip:b.example'', backup_dest = None, username = None, password = None, codec = [], trunk_disabled = None,
     weight = None, trunk_transport = None, trunk_id = None, trunk_dir = None, inbound_hosts = [], incoming_from_user_prefix = None,
     incoming_to_user_prefix = None, country = None, trunk_policy = None, rewrite_hostport = False, did_numbers = [],
     health_check_enabled = Some True, health_check_interval_secs = None, health_check_probe_count = Some 2,
     health_check_fallback_trunk = Some ''spare''\<rparr>"

lemma health_of_latest_probes_witness:
  "map_option (\<lambda>st. (th_consecutive_failures st, th_healthy st))
     (hm_get (health_rounds demo_uri_lib 30 (\<lambda>_. ''now'') [(''t'', demo_probed)]
        [\<lambda>_. ProbeResponse 200 5, \<lambda>_. ProbeTimeout, \<lambda>_. ProbeResponse 503 7] []) ''t'') = Some (2, False)"
proof -
  have probe: "probe_trunk demo_uri_lib t r = (case r of ProbeResponse code ms \<Rightarrow> if code < 300 then Inr ms else Inl (''SIP '' @ string_of_nat code)
      | ProbeOther ms \<Rightarrow> Inl (''non-response reply in '' @ string_of_nat ms @ ''ms'')
      | ProbeClosed \<Rightarrow> Inl ''no response (transaction closed)'' | ProbeTimeout \<Rightarrow> Inl ''timeout (10s)'' | ProbeError e \<Rightarrow> Inl e)" for t r
    by (simp add: probe_trunk_def demo_uri_lib_def)
  have cfg: "health_check_enabled demo_probed = Some True" "threshold_of demo_probed = 2"
    by (simp_all add: demo_probed_def threshold_of_def)
  show ?thesis
    using health_of_latest_probes [of "[(''t'', demo_probed)]" "''t''" demo_probed
        "[\<lambda>_. ProbeResponse 200 5, \<lambda>_. ProbeTimeout, \<lambda>_. ProbeResponse 503 7]" 2 demo_uri_lib 30 "\<lambda>_. ''now''"]
    by (simp add: probe cfg failures_in_a_row_def del: health_rounds.simps)
qed

text \<open>The time to the next round is at most the default and at most the interval of each probed trunk: a trunk with a longer
  interval of its own is probed as often as the others.\<close>

lemma health_tick_bound: "fst (health_tick lib d replies clock trunks states) \<le> d"
proof -
  have "fst (health_round lib d replies clock trunks (tick, states)) \<le> tick" for tick
    by (induction lib d replies clock trunks "(tick, states)" arbitrary: tick states rule: health_round.induct)
       (auto intro: min.coboundedI1)
  then show ?thesis by (simp add: health_tick_def)
qed

lemma health_snapshot_all: "sorted (map th_trunk_name (health_snapshot states)) \<and> set (health_snapshot states) = set (hm_values states)"
  by (simp add: health_snapshot_def)

end
