(* ===== verification/Freq_Policy.thy ===== *)
theory Freq_Policy
  imports Prelude
begin

text \<open>
  Call policies, \<open>src/src/call/policy.rs\<close> and \<open>src/src/models/policy.rs\<close>: the trait of the
  frequency limiters, its implementations (none, in memory, in the database), and the guard that
  checks a call against a policy.

  Times are \<open>int\<close>: the current time \<open>now\<close> in nanoseconds since the epoch, as \<open>Utc::now()\<close> has it; the
  limiter in memory reads it in whole seconds, the one in the database as it is.  Outside the repository are
  the \<open>phonenumber\<close> and \<open>chrono\<close> crates (the fields of a \<open>policy_lib\<close> record) and the database, of which the
  sources use single-row queries on one table: the table is a list of rows, a query returns the first
  row that passes its filters.
\<close>

section \<open>Policies\<close>

record time_window =
  tw_start :: string
  tw_end :: string
  tw_timezone :: string

record frequency_limit =
  fl_count :: nat
  fl_window_hours :: nat

record policy_spec =
  called_prefix :: "string option"
  trunk_country :: "string option"
  allowed_destination_countries :: "string list"
  p_time_window :: "time_window option"
  deny_regions :: "string list"
  allow_landline :: "bool option"
  p_frequency_limit :: "frequency_limit option"
  daily_limit :: "nat option"
  p_concurrency :: "nat option"

datatype policy_rejection =
    DestinationNotAllowed string | LandlineNotAllowed string | TimeWindowDenied string | RegionDenied string
  | FrequencyLimitExceeded string | DailyLimitExceeded string | ConcurrencyLimitExceeded string | InvalidNumber string

fun rejection_display :: "policy_rejection \<Rightarrow> string" where
  "rejection_display (DestinationNotAllowed msg) = msg"
| "rejection_display (LandlineNotAllowed msg) = msg"
| "rejection_display (TimeWindowDenied msg) = msg"
| "rejection_display (RegionDenied msg) = msg"
| "rejection_display (FrequencyLimitExceeded msg) = msg"
| "rejection_display (DailyLimitExceeded msg) = msg"
| "rejection_display (ConcurrencyLimitExceeded msg) = msg"
| "rejection_display (InvalidNumber msg) = msg"

datatype policy_check_status = Allowed | Rejected policy_rejection

text \<open>The trait \<open>FrequencyLimiter\<close>: its operations on a state \<open>'s\<close>.\<close>

record 's limiter =
  check_and_increment :: "int \<Rightarrow> string \<Rightarrow> string \<Rightarrow> string \<Rightarrow> nat \<Rightarrow> nat \<Rightarrow> 's \<Rightarrow> bool result \<times> 's"
  check_daily_limit :: "int \<Rightarrow> string \<Rightarrow> string \<Rightarrow> string \<Rightarrow> nat \<Rightarrow> 's \<Rightarrow> bool result \<times> 's"
  check_concurrency :: "int \<Rightarrow> string \<Rightarrow> string \<Rightarrow> string \<Rightarrow> nat \<Rightarrow> 's \<Rightarrow> bool result \<times> 's"
  release_concurrency :: "int \<Rightarrow> string \<Rightarrow> string \<Rightarrow> string \<Rightarrow> 's \<Rightarrow> unit result \<times> 's"

record 'n policy_lib =
  phone_parse :: "string \<Rightarrow> 'n option"
  phone_country :: "'n \<Rightarrow> string option"
  phone_is_fixed :: "'n \<Rightarrow> bool"
  parse_hm :: "string \<Rightarrow> err + nat"
  local_time :: nat
  zone_time :: "string \<Rightarrow> err + nat"

section \<open>The guard\<close>

text \<open>The static checks in the order of the source; \<open>None\<close> lets the call go on to the limits.\<close>

definition policy_applies :: "policy_spec \<Rightarrow> string \<Rightarrow> string option \<Rightarrow> bool" where
  "policy_applies policy callee origin_country \<longleftrightarrow>
     \<not> (case called_prefix policy of Some p \<Rightarrow> \<not> starts_with p callee | None \<Rightarrow> False)
     \<and> \<not> (case (trunk_country policy, origin_country) of (Some tc, Some oc) \<Rightarrow> tc \<noteq> oc | _ \<Rightarrow> False)"

definition region_listed :: "string list \<Rightarrow> string \<Rightarrow> bool" where
  "region_listed regions r \<longleftrightarrow> (\<exists>c \<in> set regions. eq_ignore_ascii_case c r)"

definition check_destination :: "'n policy_lib \<Rightarrow> policy_spec \<Rightarrow> string \<Rightarrow> policy_rejection option" where
  "check_destination lib policy callee =
     (case phone_parse lib callee of
        Some number \<Rightarrow>
          if allowed_destination_countries policy = [] then None
          else (case phone_country lib number of
                  Some r \<Rightarrow>
                    if \<not> region_listed (allowed_destination_countries policy) r
                    then Some (DestinationNotAllowed
                           (''Destination country '' @ r @ '' not allowed for callee '' @ callee))
                    else None
                | None \<Rightarrow> Some (InvalidNumber (''No country ID found for callee '' @ callee)))
      | None \<Rightarrow> None)"

definition check_landline :: "'n policy_lib \<Rightarrow> policy_spec \<Rightarrow> string \<Rightarrow> policy_rejection option" where
  "check_landline lib policy callee =
     (case (allow_landline policy, phone_parse lib callee) of
        (Some allow, Some number) \<Rightarrow>
          if \<not> allow \<and> phone_is_fixed lib number
          then Some (LandlineNotAllowed (''Landline calls are not allowed: '' @ callee)) else None
      | _ \<Rightarrow> None)"

definition check_time_window :: "'n policy_lib \<Rightarrow> policy_spec \<Rightarrow> err + policy_rejection option" where
  "check_time_window lib policy =
     (case p_time_window policy of
        None \<Rightarrow> Inr None
      | Some w \<Rightarrow>
          (case parse_hm lib (tw_start w) of
             Inl e \<Rightarrow> Inl (''Invalid start time: '' @ e)
           | Inr start \<Rightarrow>
               (case parse_hm lib (tw_end w) of
                  Inl e \<Rightarrow> Inl (''Invalid end time: '' @ e)
                | Inr end_time \<Rightarrow>
                    (case (if tw_timezone w = ''Local'' then Inr (local_time lib)
                           else zone_time lib (tw_timezone w)) of
                       Inl e \<Rightarrow> Inl (''Invalid timezone: '' @ e)
                     | Inr now_time \<Rightarrow>
                         (let denied = Some (TimeWindowDenied
                                (''Call outside allowed time window: '' @ tw_start w @ '' - '' @ tw_end w))
                          in Inr (if start \<le> end_time
                                  then (if now_time < start \<or> end_time < now_time then denied else None)
                                  else (if now_time < start \<and> end_time < now_time then denied else None)))))))"

definition check_deny_regions ::
    "'n policy_lib \<Rightarrow> policy_spec \<Rightarrow> string \<Rightarrow> string \<Rightarrow> string option \<Rightarrow> policy_rejection option" where
  "check_deny_regions lib policy caller callee origin_country =
     (let denied = region_listed (deny_regions policy);
          origin = (case origin_country of
                      Some oc \<Rightarrow> if denied oc then Some (RegionDenied (''Origin country '' @ oc @ '' is denied'')) else None
                    | None \<Rightarrow> None);
          source = (case Option.bind (phone_parse lib caller) (phone_country lib) of
                      Some r \<Rightarrow> if denied r
                                then Some (RegionDenied (''Source country '' @ r @ '' is denied for caller '' @ caller))
                                else origin
                    | None \<Rightarrow> origin)
      in if deny_regions policy = [] then None
         else case Option.bind (phone_parse lib callee) (phone_country lib) of
                Some r \<Rightarrow> if denied r
                          then Some (RegionDenied (''Destination country '' @ r @ '' is denied for callee '' @ callee))
                          else source
              | None \<Rightarrow> source)"

definition static_checks ::
    "'n policy_lib \<Rightarrow> policy_spec \<Rightarrow> string \<Rightarrow> string \<Rightarrow> string option \<Rightarrow> err + policy_rejection option" where
  "static_checks lib policy caller callee origin_country =
     (case check_destination lib policy callee of
        Some r \<Rightarrow> Inr (Some r)
      | None \<Rightarrow>
          (case check_landline lib policy callee of
             Some r \<Rightarrow> Inr (Some r)
           | None \<Rightarrow>
               (case check_time_window lib policy of
                  Inl e \<Rightarrow> Inl e
                | Inr (Some r) \<Rightarrow> Inr (Some r)
                | Inr None \<Rightarrow> Inr (check_deny_regions lib policy caller callee origin_country))))"

text \<open>One limit of a policy: \<open>check\<close> is the call of the limiter, absent when the policy has no such limit.\<close>

definition apply_limit ::
    "('s \<Rightarrow> bool result \<times> 's) option \<Rightarrow> policy_rejection \<Rightarrow> ('s \<Rightarrow> policy_check_status result \<times> 's)
       \<Rightarrow> 's \<Rightarrow> policy_check_status result \<times> 's" where
  "apply_limit check rejection rest s =
     (case check of
        None \<Rightarrow> rest s
      | Some c \<Rightarrow>
          (case c s of
             (Inl e, s') \<Rightarrow> (Inl e, s')
           | (Inr True, s') \<Rightarrow> rest s'
           | (Inr False, s') \<Rightarrow> (Inr (Rejected rejection), s')))"

definition check_policy ::
    "'s limiter \<Rightarrow> 'n policy_lib \<Rightarrow> int \<Rightarrow> string \<Rightarrow> policy_spec \<Rightarrow> string \<Rightarrow> string \<Rightarrow> string option
       \<Rightarrow> 's \<Rightarrow> policy_check_status result \<times> 's" where
  "check_policy L lib now policy_id policy caller callee origin_country s =
     (if \<not> policy_applies policy callee origin_country then (Inr Allowed, s)
      else case static_checks lib policy caller callee origin_country of
             Inl e \<Rightarrow> (Inl e, s)
           | Inr (Some r) \<Rightarrow> (Inr (Rejected r), s)
           | Inr None \<Rightarrow>
               apply_limit
                 (map_option (\<lambda>l. check_and_increment L now policy_id ''caller'' caller (fl_count l) (fl_window_hours l))
                    (p_frequency_limit policy))
                 (FrequencyLimitExceeded (''Frequency limit reached for caller '' @ caller))
                 (apply_limit
                   (map_option (\<lambda>n. check_daily_limit L now policy_id ''caller'' caller n) (daily_limit policy))
                   (DailyLimitExceeded (''Daily limit reached for caller '' @ caller))
                   (apply_limit
                     (map_option (\<lambda>n. check_concurrency L now policy_id ''caller'' caller n) (p_concurrency policy))
                     (ConcurrencyLimitExceeded (''Concurrency limit reached for caller '' @ caller))
                     (\<lambda>s. (Inr Allowed, s)))) s)"

section \<open>No limiter\<close>

definition mock_limiter :: "unit limiter" where
  "mock_limiter =
     \<lparr>check_and_increment = (\<lambda>_ _ _ _ _ _ s. (Inr True, s)), check_daily_limit = (\<lambda>_ _ _ _ _ s. (Inr True, s)),
      check_concurrency = (\<lambda>_ _ _ _ _ s. (Inr True, s)), release_concurrency = (\<lambda>_ _ _ _ s. (Inr (), s))\<rparr>"

section \<open>Time\<close>

definition ns_per_sec :: int where "ns_per_sec = 1000000000"

definition timestamp :: "int \<Rightarrow> int" where
  "timestamp now = now div ns_per_sec"

text \<open>The second 23:59:59 of the day of a time given in seconds.\<close>

definition day_end :: "int \<Rightarrow> int" where
  "day_end t = t - t mod 86400 + 86399"

definition i64_max :: int where "i64_max = 2 ^ 63 - 1"

section \<open>The limiter in memory\<close>

type_synonym counts = "(string, nat \<times> int) hmap"

definition get_key :: "string \<Rightarrow> string \<Rightarrow> string \<Rightarrow> string \<Rightarrow> string" where
  "get_key policy_id scope scope_value limit_type =
     policy_id @ '':'' @ scope @ '':'' @ scope_value @ '':'' @ limit_type"

definition mem_window_check :: "string \<Rightarrow> int \<Rightarrow> int \<Rightarrow> nat \<Rightarrow> counts \<Rightarrow> bool result \<times> counts" where
  "mem_window_check key now new_end limit counts =
     (let (count, window_end) = (case hm_get counts key of Some c \<Rightarrow> c | None \<Rightarrow> (0, 0))
      in if window_end < now then (Inr True, hm_insert key (1, new_end) counts)
         else if limit \<le> count then (Inr False, hm_insert key (count, window_end) counts)
         else (Inr True, hm_insert key (count + 1, window_end) counts))"

definition mem_check_and_increment ::
    "int \<Rightarrow> string \<Rightarrow> string \<Rightarrow> string \<Rightarrow> nat \<Rightarrow> nat \<Rightarrow> counts \<Rightarrow> bool result \<times> counts" where
  "mem_check_and_increment now policy_id scope scope_value limit window_hours =
     mem_window_check (get_key policy_id scope scope_value ''frequency'') (timestamp now)
       (timestamp now + int window_hours * 3600) limit"

definition mem_check_daily_limit ::
    "int \<Rightarrow> string \<Rightarrow> string \<Rightarrow> string \<Rightarrow> nat \<Rightarrow> counts \<Rightarrow> bool result \<times> counts" where
  "mem_check_daily_limit now policy_id scope scope_value limit =
     mem_window_check (get_key policy_id scope scope_value ''daily'') (timestamp now)
       (day_end (timestamp now)) limit"

definition mem_check_concurrency ::
    "int \<Rightarrow> string \<Rightarrow> string \<Rightarrow> string \<Rightarrow> nat \<Rightarrow> counts \<Rightarrow> bool result \<times> counts" where
  "mem_check_concurrency now policy_id scope scope_value max_concurrency counts =
     (let key = get_key policy_id scope scope_value ''concurrency'';
          (count, _) = (case hm_get counts key of Some c \<Rightarrow> c | None \<Rightarrow> (0, i64_max))
      in if max_concurrency \<le> count then (Inr False, hm_insert key (count, i64_max) counts)
         else (Inr True, hm_insert key (count + 1, i64_max) counts))"

definition mem_release_concurrency ::
    "int \<Rightarrow> string \<Rightarrow> string \<Rightarrow> string \<Rightarrow> counts \<Rightarrow> unit result \<times> counts" where
  "mem_release_concurrency now policy_id scope scope_value counts =
     (let key = get_key policy_id scope scope_value ''concurrency''
      in case hm_get counts key of
           Some (count, window_end) \<Rightarrow>
             if 0 < count then (Inr (), hm_insert key (count - 1, window_end) counts) else (Inr (), counts)
         | None \<Rightarrow> (Inr (), counts))"

definition mem_limiter :: "counts limiter" where
  "mem_limiter =
     \<lparr>check_and_increment = mem_check_and_increment, check_daily_limit = mem_check_daily_limit,
      check_concurrency = mem_check_concurrency, release_concurrency = mem_release_concurrency\<rparr>"

definition mem_cleanup :: "int \<Rightarrow> counts \<Rightarrow> counts" where
  "mem_cleanup now counts = hm_retain (\<lambda>_ (_, window_end). timestamp now < window_end) counts"

record limit_row =
  r_policy_id :: string
  r_scope :: string
  r_scope_value :: string
  r_limit_type :: string
  r_count :: nat
  r_window_end :: "int option"

definition opt_matches :: "string option \<Rightarrow> string \<Rightarrow> bool" where
  "opt_matches f v \<longleftrightarrow> (case f of Some x \<Rightarrow> x = v | None \<Rightarrow> True)"

definition key_selected ::
    "string option \<Rightarrow> string option \<Rightarrow> string option \<Rightarrow> string option \<Rightarrow> string \<Rightarrow> bool" where
  "key_selected policy_id scope scope_value limit_type key =
     (case split_on (CHR '':'') key of
        [p, s, v, l] \<Rightarrow> opt_matches policy_id p \<and> opt_matches scope s \<and> opt_matches scope_value v
                        \<and> opt_matches limit_type l
      | _ \<Rightarrow> False)"

definition mem_list_limits ::
    "string option \<Rightarrow> string option \<Rightarrow> string option \<Rightarrow> string option \<Rightarrow> counts \<Rightarrow> limit_row list" where
  "mem_list_limits policy_id scope scope_value limit_type counts =
     List.map_filter (\<lambda>(key, count, window_end).
       (case split_on (CHR '':'') key of
          [p, s, v, l] \<Rightarrow>
            if key_selected policy_id scope scope_value limit_type key
            then Some \<lparr>r_policy_id = p, r_scope = s, r_scope_value = v, r_limit_type = l, r_count = count,
                       r_window_end = (if window_end = i64_max then None else Some window_end)\<rparr>
            else None
        | _ \<Rightarrow> None)) counts"

definition mem_clear_limits ::
    "string option \<Rightarrow> string option \<Rightarrow> string option \<Rightarrow> string option \<Rightarrow> counts \<Rightarrow> nat \<times> counts" where
  "mem_clear_limits policy_id scope scope_value limit_type counts =
     (let kept = hm_retain (\<lambda>key _. \<not> key_selected policy_id scope scope_value limit_type key) counts
      in (length counts - length kept, kept))"

section \<open>The limiter in the database\<close>

type_synonym table = "limit_row list"

definition row_is :: "string \<Rightarrow> string \<Rightarrow> string \<Rightarrow> string \<Rightarrow> limit_row \<Rightarrow> bool" where
  "row_is p s v l r \<longleftrightarrow> r_policy_id r = p \<and> r_scope r = s \<and> r_scope_value r = v \<and> r_limit_type r = l"

text \<open>\<open>ActiveModel::update\<close> on the row a query found, and \<open>insert\<close>.\<close>

definition db_find :: "string \<Rightarrow> string \<Rightarrow> string \<Rightarrow> string \<Rightarrow> table \<Rightarrow> nat option" where
  "db_find p s v l rows = position (row_is p s v l) rows"

definition db_set :: "nat \<Rightarrow> nat \<Rightarrow> int option \<Rightarrow> table \<Rightarrow> table" where
  "db_set i count window_end rows = rows[i := (rows ! i)\<lparr>r_count := count, r_window_end := window_end\<rparr>]"

definition db_insert :: "string \<Rightarrow> string \<Rightarrow> string \<Rightarrow> string \<Rightarrow> int option \<Rightarrow> table \<Rightarrow> table" where
  "db_insert p s v l window_end rows =
     rows @ [\<lparr>r_policy_id = p, r_scope = s, r_scope_value = v, r_limit_type = l, r_count = 1, r_window_end = window_end\<rparr>]"

definition db_window_check ::
    "string \<Rightarrow> string \<Rightarrow> string \<Rightarrow> string \<Rightarrow> int \<Rightarrow> int \<Rightarrow> nat \<Rightarrow> table \<Rightarrow> bool result \<times> table" where
  "db_window_check p s v l now new_end limit rows =
     (case db_find p s v l rows of
        Some i \<Rightarrow>
          (case r_window_end (rows ! i) of
             Some window_end \<Rightarrow>
               if window_end < now then (Inr True, db_set i 1 (Some new_end) rows)
               else if limit \<le> r_count (rows ! i) then (Inr False, rows)
               else (Inr True, db_set i (r_count (rows ! i) + 1) (Some window_end) rows)
           | None \<Rightarrow> (Inr True, db_set i 1 (Some new_end) rows))
      | None \<Rightarrow> (Inr True, db_insert p s v l (Some new_end) rows))"

definition db_check_and_increment ::
    "int \<Rightarrow> string \<Rightarrow> string \<Rightarrow> string \<Rightarrow> nat \<Rightarrow> nat \<Rightarrow> table \<Rightarrow> bool result \<times> table" where
  "db_check_and_increment now policy_id scope scope_value limit window_hours =
     db_window_check policy_id scope scope_value ''frequency'' now (now + int window_hours * 3600 * ns_per_sec) limit"

definition db_check_daily_limit ::
    "int \<Rightarrow> string \<Rightarrow> string \<Rightarrow> string \<Rightarrow> nat \<Rightarrow> table \<Rightarrow> bool result \<times> table" where
  "db_check_daily_limit now policy_id scope scope_value limit =
     db_window_check policy_id scope scope_value ''daily'' now (day_end (timestamp now) * ns_per_sec) limit"

text \<open>The check of the concurrency is two statements, a query and a write, outside of a transaction.\<close>

definition db_concurrency_read :: "string \<Rightarrow> string \<Rightarrow> string \<Rightarrow> table \<Rightarrow> (nat \<times> nat) option" where
  "db_concurrency_read p s v rows =
     map_option (\<lambda>i. (i, r_count (rows ! i))) (db_find p s v ''concurrency'' rows)"

definition db_concurrency_write ::
    "string \<Rightarrow> string \<Rightarrow> string \<Rightarrow> nat \<Rightarrow> (nat \<times> nat) option \<Rightarrow> table \<Rightarrow> bool result \<times> table" where
  "db_concurrency_write p s v max_concurrency record rows =
     (case record of
        Some (i, count) \<Rightarrow>
          if max_concurrency \<le> count then (Inr False, rows)
          else (Inr True, db_set i (count + 1) (r_window_end (rows ! i)) rows)
      | None \<Rightarrow> (Inr True, db_insert p s v ''concurrency'' None rows))"

definition db_check_concurrency ::
    "int \<Rightarrow> string \<Rightarrow> string \<Rightarrow> string \<Rightarrow> nat \<Rightarrow> table \<Rightarrow> bool result \<times> table" where
  "db_check_concurrency now policy_id scope scope_value max_concurrency rows =
     db_concurrency_write policy_id scope scope_value max_concurrency
       (db_concurrency_read policy_id scope scope_value rows) rows"

definition db_release_concurrency ::
    "int \<Rightarrow> string \<Rightarrow> string \<Rightarrow> string \<Rightarrow> table \<Rightarrow> unit result \<times> table" where
  "db_release_concurrency now policy_id scope scope_value rows =
     (case db_find policy_id scope scope_value ''concurrency'' rows of
        Some i \<Rightarrow>
          if 0 < r_count (rows ! i)
          then (Inr (), db_set i (r_count (rows ! i) - 1) (r_window_end (rows ! i)) rows) else (Inr (), rows)
      | None \<Rightarrow> (Inr (), rows))"

definition db_limiter :: "table limiter" where
  "db_limiter =
     \<lparr>check_and_increment = db_check_and_increment, check_daily_limit = db_check_daily_limit,
      check_concurrency = db_check_concurrency, release_concurrency = db_release_concurrency\<rparr>"

definition db_cleanup :: "int \<Rightarrow> table \<Rightarrow> table" where
  "db_cleanup now rows =
     filter (\<lambda>r. \<not> (case r_window_end r of Some e \<Rightarrow> e < now | None \<Rightarrow> False)) rows"

definition row_selected ::
    "string option \<Rightarrow> string option \<Rightarrow> string option \<Rightarrow> string option \<Rightarrow> limit_row \<Rightarrow> bool" where
  "row_selected policy_id scope scope_value limit_type r \<longleftrightarrow>
     opt_matches policy_id (r_policy_id r) \<and> opt_matches scope (r_scope r)
     \<and> opt_matches scope_value (r_scope_value r) \<and> opt_matches limit_type (r_limit_type r)"

definition db_list_limits ::
    "string option \<Rightarrow> string option \<Rightarrow> string option \<Rightarrow> string option \<Rightarrow> table \<Rightarrow> limit_row list" where
  "db_list_limits policy_id scope scope_value limit_type rows =
     filter (row_selected policy_id scope scope_value limit_type) rows"

definition db_clear_limits ::
    "string option \<Rightarrow> string option \<Rightarrow> string option \<Rightarrow> string option \<Rightarrow> table \<Rightarrow> nat \<times> table" where
  "db_clear_limits policy_id scope scope_value limit_type rows =
     (let kept = filter (\<lambda>r. \<not> row_selected policy_id scope scope_value limit_type r) rows
      in (length rows - length kept, kept))"

section \<open>The contract of a limiter\<close>

text \<open>A counter is a count and the end of its window, if it has one.  The contract describes each operation
  by what it does to the counters that a view shows; \<open>clock\<close>, \<open>hour\<close> and \<open>last_of_day\<close> are the time scale of the
  limiter, \<open>valid\<close> are the counters it keeps apart, \<open>ok\<close> is its invariant.\<close>

type_synonym counter = "nat \<times> int option"
type_synonym counter_id = "string \<times> string \<times> string \<times> string"
type_synonym counters = "counter_id \<Rightarrow> counter option"

definition window_step :: "nat \<Rightarrow> int \<Rightarrow> int \<Rightarrow> counter option \<Rightarrow> bool \<times> counter option" where
  "window_step limit t new_end c =
     (case c of
        Some (n, Some e) \<Rightarrow>
          if e < t then (True, Some (1, Some new_end))
          else if limit \<le> n then (False, c) else (True, Some (n + 1, Some e))
      | _ \<Rightarrow> (True, Some (1, Some new_end)))"

definition open_calls :: "counter option \<Rightarrow> nat" where
  "open_calls c = (case c of Some (n, _) \<Rightarrow> n | None \<Rightarrow> 0)"

definition conc_step :: "nat \<Rightarrow> counter option \<Rightarrow> bool \<times> counter option" where
  "conc_step limit c = (if open_calls c < limit then (True, Some (open_calls c + 1, None)) else (False, c))"

definition release_step :: "counter option \<Rightarrow> counter option" where
  "release_step c = map_option (\<lambda>(n, w). (n - 1, w)) c"

text \<open>The operation on the state \<open>s\<close> gave the answer and the counter of \<open>step\<close>, and left every other counter.\<close>

definition steps_counter ::
    "('s \<Rightarrow> counters) \<Rightarrow> (counter_id \<Rightarrow> bool) \<Rightarrow> ('s \<Rightarrow> bool) \<Rightarrow> counter_id \<Rightarrow> (counter option \<Rightarrow> 'b \<times> counter option)
       \<Rightarrow> 's \<Rightarrow> 'b result \<times> 's \<Rightarrow> bool" where
  "steps_counter view valid ok x step s out \<longleftrightarrow>
     fst out = Inr (fst (step (view s x))) \<and> ok (snd out)
     \<and> (\<forall>y. valid y \<longrightarrow> view (snd out) y = (if y = x then snd (step (view s x)) else view s y))"

locale frequency_limiter =
  fixes L :: "'s limiter"
    and view :: "'s \<Rightarrow> counters"
    and clock :: "int \<Rightarrow> int"
    and hour :: int
    and last_of_day :: "int \<Rightarrow> int"
    and valid :: "counter_id \<Rightarrow> bool"
    and ok :: "'s \<Rightarrow> bool"
  assumes freq: "ok s \<Longrightarrow> valid (p, sc, v, ''frequency'') \<Longrightarrow> 0 < clock now \<Longrightarrow>
      steps_counter view valid ok (p, sc, v, ''frequency'') (window_step limit (clock now) (clock now + int h * hour)) s
        (check_and_increment L now p sc v limit h s)"
    and daily: "ok s \<Longrightarrow> valid (p, sc, v, ''daily'') \<Longrightarrow> 0 < clock now \<Longrightarrow>
      steps_counter view valid ok (p, sc, v, ''daily'') (window_step limit (clock now) (last_of_day now)) s
        (check_daily_limit L now p sc v limit s)"
    and conc: "ok s \<Longrightarrow> valid (p, sc, v, ''concurrency'') \<Longrightarrow> 0 < limit \<Longrightarrow>
      steps_counter view valid ok (p, sc, v, ''concurrency'') (conc_step limit) s
        (check_concurrency L now p sc v limit s)"
    and release: "ok s \<Longrightarrow> valid (p, sc, v, ''concurrency'') \<Longrightarrow>
      steps_counter view valid ok (p, sc, v, ''concurrency'') (\<lambda>c. ((), release_step c)) s
        (release_concurrency L now p sc v s)"

section \<open>Both limiters keep the contract\<close>

definition mem_view :: "counts \<Rightarrow> counters" where
  "mem_view s x =
     (case x of (p, sc, v, l) \<Rightarrow>
        map_option (\<lambda>(n, e). (n, if l = ''concurrency'' then None else Some e)) (hm_get s (get_key p sc v l)))"

definition colon_free :: "counter_id \<Rightarrow> bool" where
  "colon_free x \<longleftrightarrow> (case x of (p, sc, v, l) \<Rightarrow> \<forall>part \<in> {p, sc, v, l}. CHR '':'' \<notin> set part)"

lemma split_get_key: "colon_free (p, sc, v, l) \<Longrightarrow> split_on (CHR '':'') (get_key p sc v l) = [p, sc, v, l]"
  by (simp add: colon_free_def get_key_def split_on_append split_on_absent)

lemma get_key_inj:
  assumes "colon_free (p, sc, v, l)" and "colon_free (p', sc', v', l')"
  shows "get_key p sc v l = get_key p' sc' v' l' \<longleftrightarrow> (p, sc, v, l) = (p', sc', v', l')"
proof
  assume "get_key p sc v l = get_key p' sc' v' l'"
  then have "[p, sc, v, l] = [p', sc', v', l']"
    using split_get_key [OF assms(1)] split_get_key [OF assms(2)] by argo
  then show "(p, sc, v, l) = (p', sc', v', l')" by simp
qed simp

lemma mem_view_insert:
  assumes "colon_free (p, sc, v, l)" and "colon_free y"
  shows "mem_view (hm_insert (get_key p sc v l) (n, e) s) y =
    (if y = (p, sc, v, l) then Some (n, if l = ''concurrency'' then None else Some e) else mem_view s y)"
proof -
  obtain p' sc' v' l' where y: "y = (p', sc', v', l')" by (metis prod_cases4)
  with get_key_inj [of p' sc' v' l' p sc v l] assms show ?thesis by (auto simp: mem_view_def)
qed

lemma mem_view_get:
  "mem_view s (p, sc, v, l) = map_option (\<lambda>(n, e). (n, if l = ''concurrency'' then None else Some e)) (hm_get s (get_key p sc v l))"
  by (simp add: mem_view_def)

lemma mem_window_check_steps:
  assumes "colon_free (p, sc, v, l)" and "0 < t" and "l \<noteq> ''concurrency''"
  shows "steps_counter mem_view colon_free (\<lambda>_. True) (p, sc, v, l) (window_step limit t e) s
    (mem_window_check (get_key p sc v l) t e limit s)"
  using assms
  by (cases "hm_get s (get_key p sc v l)")
    (auto simp: steps_counter_def mem_view_get [of s p sc v l] mem_view_insert mem_window_check_def window_step_def)

lemma timestamp_pos_iff: "0 < timestamp now \<longleftrightarrow> ns_per_sec \<le> now"
  by (simp add: timestamp_def ns_per_sec_def pos_imp_zdiv_pos_iff)

interpretation mem: frequency_limiter mem_limiter mem_view timestamp 3600 "\<lambda>now. day_end (timestamp now)"
  colon_free "\<lambda>_. True"
proof
  fix s p sc v now limit h
  assume c: "colon_free (p, sc, v, ''frequency'')" and "0 < timestamp now"
  then show "steps_counter mem_view colon_free (\<lambda>_. True) (p, sc, v, ''frequency'')
      (window_step limit (timestamp now) (timestamp now + int h * 3600)) s
      (check_and_increment mem_limiter now p sc v limit h s)"
    using mem_window_check_steps [OF c] by (simp add: mem_limiter_def mem_check_and_increment_def)
next
  fix s p sc v now limit
  assume c: "colon_free (p, sc, v, ''daily'')" and "0 < timestamp now"
  then show "steps_counter mem_view colon_free (\<lambda>_. True) (p, sc, v, ''daily'')
      (window_step limit (timestamp now) (day_end (timestamp now))) s (check_daily_limit mem_limiter now p sc v limit s)"
    using mem_window_check_steps [OF c] by (simp add: mem_limiter_def mem_check_daily_limit_def)
next
  fix s p sc v limit now
  assume c: "colon_free (p, sc, v, ''concurrency'')" and "0 < (limit :: nat)"
  then show "steps_counter mem_view colon_free (\<lambda>_. True) (p, sc, v, ''concurrency'') (conc_step limit) s
      (check_concurrency mem_limiter now p sc v limit s)"
    by (cases "hm_get s (get_key p sc v ''concurrency'')")
      (auto simp: steps_counter_def mem_limiter_def mem_view_get [of s p sc v] mem_view_insert mem_check_concurrency_def conc_step_def
        open_calls_def)
next
  fix s p sc v now
  assume c: "colon_free (p, sc, v, ''concurrency'')"
  then show "steps_counter mem_view colon_free (\<lambda>_. True) (p, sc, v, ''concurrency'') (\<lambda>c. ((), release_step c)) s
      (release_concurrency mem_limiter now p sc v s)"
    by (cases "hm_get s (get_key p sc v ''concurrency'')")
      (auto simp: steps_counter_def mem_limiter_def mem_view_get [of s p sc v] mem_view_insert mem_release_concurrency_def
        release_step_def Let_def)
qed

definition db_view :: "table \<Rightarrow> counters" where
  "db_view rows x =
     (case x of (p, sc, v, l) \<Rightarrow>
        map_option (\<lambda>i. (r_count (rows ! i), r_window_end (rows ! i))) (db_find p sc v l rows))"

definition db_wf :: "table \<Rightarrow> bool" where
  "db_wf rows \<longleftrightarrow> (\<forall>r \<in> set rows. r_limit_type r = ''concurrency'' \<longrightarrow> r_window_end r = None)"

lemma position_list_update:
  assumes "i < length xs" and "P y = P (xs ! i)"
  shows "position P (xs[i := y]) = position P xs"
  using assms
proof (induction xs arbitrary: i)
  case (Cons x xs)
  then show ?case by (cases i) auto
qed simp

lemma db_set_view:
  assumes "db_find p sc v l rows = Some i"
  shows "db_view (db_set i n w rows) y = (if y = (p, sc, v, l) then Some (n, w) else db_view rows y)"
proof -
  obtain p' sc' v' l' where y: "y = (p', sc', v', l')" by (metis prod_cases4)
  have i: "i < length rows" "row_is p sc v l (rows ! i)"
    using position_Some [of _ rows i] assms by (auto simp: db_find_def)
  have f: "db_find p' sc' v' l' (db_set i n w rows) = db_find p' sc' v' l' rows"
    unfolding db_find_def db_set_def by (rule position_list_update [OF i(1)]) (simp add: row_is_def)
  have "j = i \<Longrightarrow> db_find p' sc' v' l' rows = Some j \<Longrightarrow> y = (p, sc, v, l)" for j
    using i(2) position_Some [of "row_is p' sc' v' l'" rows j] y by (auto simp: db_find_def row_is_def)
  with f assms i(1) y show ?thesis
    by (cases "db_find p' sc' v' l' rows") (auto simp: db_view_def db_set_def nth_list_update)
qed

lemma db_insert_view:
  assumes "db_find p sc v l rows = None"
  shows "db_view (db_insert p sc v l w rows) y = (if y = (p, sc, v, l) then Some (1, w) else db_view rows y)"
proof -
  obtain p' sc' v' l' where y: "y = (p', sc', v', l')" by (metis prod_cases4)
  show ?thesis
  proof (cases "db_find p' sc' v' l' rows")
    case None
    with y show ?thesis by (auto simp: db_view_def db_insert_def db_find_def position_append row_is_def)
  next
    case (Some j)
    then have "j < length rows" using position_Some by (auto simp: db_find_def)
    with Some assms y show ?thesis
      by (auto simp: db_view_def db_insert_def db_find_def position_append nth_append)
  qed
qed

lemma db_wf_set:
  assumes "db_wf rows" "i < length rows" "r_limit_type (rows ! i) \<noteq> ''concurrency'' \<or> w = None"
  shows "db_wf (db_set i n w rows)"
  using assms set_update_subset_insert [of rows i "(rows ! i)\<lparr>r_count := n, r_window_end := w\<rparr>"]
  unfolding db_wf_def db_set_def by force

lemma db_wf_insert: "db_wf rows \<Longrightarrow> l \<noteq> ''concurrency'' \<or> w = None \<Longrightarrow> db_wf (db_insert p sc v l w rows)"
  by (auto simp: db_wf_def db_insert_def)

lemma db_find_row:
  "db_find p sc v l rows = Some i \<Longrightarrow> i < length rows \<and> r_limit_type (rows ! i) = l"
  using position_Some [of "row_is p sc v l" rows i] by (auto simp: db_find_def row_is_def)

lemma db_find_view: "db_find p sc v l rows = Some i \<Longrightarrow> db_view rows (p, sc, v, l) = Some (r_count (rows ! i), r_window_end (rows ! i))"
  by (simp add: db_view_def)

lemma db_find_view_None: "db_find p sc v l rows = None \<Longrightarrow> db_view rows (p, sc, v, l) = None"
  by (simp add: db_view_def)

lemma db_window_check_steps:
  assumes "db_wf rows" and "l \<noteq> ''concurrency''"
  shows "steps_counter db_view (\<lambda>_. True) db_wf (p, sc, v, l) (window_step limit t e) rows
    (db_window_check p sc v l t e limit rows)"
proof (cases "db_find p sc v l rows")
  case None
  with assms show ?thesis
    by (auto simp: steps_counter_def db_window_check_def db_find_view_None window_step_def db_insert_view db_wf_insert)
next
  case (Some i)
  with assms db_find_row [OF Some] show ?thesis
    by (cases "r_window_end (rows ! i)")
      (auto simp: steps_counter_def db_window_check_def db_find_view window_step_def db_set_view db_wf_set)
qed

lemma db_conc_steps:
  assumes "db_wf rows" and "0 < limit"
  shows "steps_counter db_view (\<lambda>_. True) db_wf (p, sc, v, ''concurrency'') (conc_step limit) rows
    (db_check_concurrency now p sc v limit rows)"
proof (cases "db_find p sc v ''concurrency'' rows")
  case None
  with assms show ?thesis
    by (auto simp: steps_counter_def db_check_concurrency_def db_concurrency_write_def db_concurrency_read_def
        db_find_view_None conc_step_def open_calls_def db_insert_view db_wf_insert)
next
  case (Some i)
  with assms(1) db_find_row [OF Some] have "r_window_end (rows ! i) = None" by (auto simp: db_wf_def)
  with assms Some db_find_row [OF Some] show ?thesis
    by (auto simp: steps_counter_def db_check_concurrency_def db_concurrency_write_def db_concurrency_read_def
        db_find_view conc_step_def open_calls_def db_set_view db_wf_set)
qed

lemma db_release_steps:
  assumes "db_wf rows"
  shows "steps_counter db_view (\<lambda>_. True) db_wf (p, sc, v, ''concurrency'') (\<lambda>c. ((), release_step c)) rows
    (db_release_concurrency now p sc v rows)"
proof (cases "db_find p sc v ''concurrency'' rows")
  case None
  with assms show ?thesis
    by (auto simp: steps_counter_def db_release_concurrency_def db_find_view_None release_step_def)
next
  case (Some i)
  with assms(1) db_find_row [OF Some] have "r_window_end (rows ! i) = None" by (auto simp: db_wf_def)
  with assms Some db_find_row [OF Some] show ?thesis
    by (auto simp: steps_counter_def db_release_concurrency_def db_find_view release_step_def db_set_view db_wf_set)
qed

interpretation db: frequency_limiter db_limiter db_view "\<lambda>now. now" "3600 * ns_per_sec"
  "\<lambda>now. day_end (timestamp now) * ns_per_sec" "\<lambda>_. True" db_wf
  by unfold_locales
    (simp_all add: db_limiter_def db_check_and_increment_def db_check_daily_limit_def db_window_check_steps
      db_conc_steps db_release_steps mult.assoc)

section \<open>What the guard does with the counters\<close>

type_synonym limit_check = "counter_id \<times> (counter option \<Rightarrow> bool \<times> counter option) \<times> policy_rejection"

fun run_limits :: "limit_check list \<Rightarrow> counters \<Rightarrow> policy_check_status \<times> counters" where
  "run_limits [] vw = (Allowed, vw)"
| "run_limits ((x, step, rej) # ls) vw =
     (let (admit, c) = step (vw x); vw' = vw(x := c)
      in if admit then run_limits ls vw' else (Rejected rej, vw'))"

text \<open>The limits of a policy in the order in which they are checked, on a time scale.\<close>

definition limits_of :: "int \<Rightarrow> int \<Rightarrow> int \<Rightarrow> string \<Rightarrow> policy_spec \<Rightarrow> string \<Rightarrow> limit_check list" where
  "limits_of t hour_len day_last pid policy caller =
     (case p_frequency_limit policy of None \<Rightarrow> [] | Some l \<Rightarrow>
        [((pid, ''caller'', caller, ''frequency''), window_step (fl_count l) t (t + int (fl_window_hours l) * hour_len),
          FrequencyLimitExceeded (''Frequency limit reached for caller '' @ caller))]) @
     (case daily_limit policy of None \<Rightarrow> [] | Some n \<Rightarrow>
        [((pid, ''caller'', caller, ''daily''), window_step n t day_last,
          DailyLimitExceeded (''Daily limit reached for caller '' @ caller))]) @
     (case p_concurrency policy of None \<Rightarrow> [] | Some n \<Rightarrow>
        [((pid, ''caller'', caller, ''concurrency''), conc_step n,
          ConcurrencyLimitExceeded (''Concurrency limit reached for caller '' @ caller))])"

definition answers ::
    "('s \<Rightarrow> counters) \<Rightarrow> (counter_id \<Rightarrow> bool) \<Rightarrow> ('s \<Rightarrow> bool) \<Rightarrow> policy_check_status \<times> counters
       \<Rightarrow> policy_check_status result \<times> 's \<Rightarrow> bool" where
  "answers view valid ok spec out \<longleftrightarrow>
     fst out = Inr (fst spec) \<and> ok (snd out) \<and> (\<forall>y. valid y \<longrightarrow> view (snd out) y = snd spec y)"

lemma apply_limit_answers:
  assumes "steps_counter view valid ok x step s (check s)" and "valid x" and "\<forall>y. valid y \<longrightarrow> view s y = vw y"
    and "\<And>s1 vw1. ok s1 \<Longrightarrow> \<forall>y. valid y \<longrightarrow> view s1 y = vw1 y \<Longrightarrow> answers view valid ok (run_limits ls vw1) (rest s1)"
  shows "answers view valid ok (run_limits ((x, step, rej) # ls) vw) (apply_limit (Some check) rej rest s)"
proof -
  obtain r s1 where c: "check s = (r, s1)" by fastforce
  obtain b w where w: "step (vw x) = (b, w)" by fastforce
  have "view s x = vw x" using assms(2,3) by blast
  then have r: "r = Inr b" "ok s1" "\<forall>y. valid y \<longrightarrow> view s1 y = (vw(x := w)) y"
    using assms(1,3) c w by (auto simp: steps_counter_def)
  have "answers view valid ok (run_limits ls (vw(x := w))) (rest s1)" using r(2,3) by (rule assms(4))
  with r c w show ?thesis by (cases b) (simp_all add: apply_limit_def answers_def)
qed

datatype call_event = Acquire | Release

fun conc_run :: "'s limiter \<Rightarrow> int \<Rightarrow> string \<Rightarrow> string \<Rightarrow> nat \<Rightarrow> call_event list \<Rightarrow> 's \<Rightarrow> bool list \<times> 's" where
  "conc_run L now pid caller limit [] s = ([], s)"
| "conc_run L now pid caller limit (Acquire # es) s =
     (let (r, s1) = check_concurrency L now pid ''caller'' caller limit s;
          (rs, s2) = conc_run L now pid caller limit es s1
      in ((r = Inr True) # rs, s2))"
| "conc_run L now pid caller limit (Release # es) s =
     conc_run L now pid caller limit es (snd (release_concurrency L now pid ''caller'' caller s))"

fun open_spec :: "nat \<Rightarrow> nat \<Rightarrow> call_event list \<Rightarrow> bool list \<times> nat" where
  "open_spec limit n [] = ([], n)"
| "open_spec limit n (Acquire # es) =
     (let (rs, m) = open_spec limit (if n < limit then n + 1 else n) es in ((n < limit) # rs, m))"
| "open_spec limit n (Release # es) = open_spec limit (n - 1) es"

lemma open_spec_bound: "n \<le> limit \<Longrightarrow> snd (open_spec limit n es) \<le> limit"
proof (induction limit n es rule: open_spec.induct)
  case (2 limit n es)
  then show ?case by (cases "n < limit") (auto split: prod.splits)
qed auto

fun check_times :: "'s limiter \<Rightarrow> string \<Rightarrow> string \<Rightarrow> nat \<Rightarrow> nat \<Rightarrow> int list \<Rightarrow> 's \<Rightarrow> bool list \<times> 's" where
  "check_times L pid caller limit h [] s = ([], s)"
| "check_times L pid caller limit h (now # nows) s =
     (let (r, s1) = check_and_increment L now pid ''caller'' caller limit h s;
          (rs, s2) = check_times L pid caller limit h nows s1
      in ((r = Inr True) # rs, s2))"

definition fresh_at :: "int \<Rightarrow> counter option \<Rightarrow> bool" where
  "fresh_at t c \<longleftrightarrow> (case c of Some (_, Some e) \<Rightarrow> e < t | _ \<Rightarrow> True)"

lemma upt_map_shift: "map (\<lambda>i. n + i < limit) [0..<Suc k] = (n < limit) # map (\<lambda>i. Suc n + i < (limit :: nat)) [0..<k]"
  by (simp add: upt_conv_Cons map_Suc_upt [symmetric] del: upt_Suc)

context frequency_limiter
begin

lemma check_policy_answers:
  assumes "ok s" and "0 < clock now"
    and "\<forall>l \<in> {''frequency'', ''daily'', ''concurrency''}. valid (pid, ''caller'', caller, l)"
    and "p_concurrency policy \<noteq> Some 0"
    and "policy_applies policy callee origin" and "static_checks lib policy caller callee origin = Inr None"
  shows "answers view valid ok (run_limits (limits_of (clock now) hour (last_of_day now) pid policy caller) (view s))
    (check_policy L lib now pid policy caller callee origin s)"
proof -
  let ?conc = "apply_limit (map_option (\<lambda>n. check_concurrency L now pid ''caller'' caller n) (p_concurrency policy))
      (ConcurrencyLimitExceeded (''Concurrency limit reached for caller '' @ caller)) (\<lambda>s. (Inr Allowed, s))"
  let ?daily = "apply_limit (map_option (\<lambda>n. check_daily_limit L now pid ''caller'' caller n) (daily_limit policy))
      (DailyLimitExceeded (''Daily limit reached for caller '' @ caller)) ?conc"
  let ?cs = "case p_concurrency policy of None \<Rightarrow> [] | Some n \<Rightarrow>
        [((pid, ''caller'', caller, ''concurrency''), conc_step n,
          ConcurrencyLimitExceeded (''Concurrency limit reached for caller '' @ caller))]"
  let ?ds = "(case daily_limit policy of None \<Rightarrow> [] | Some n \<Rightarrow>
        [((pid, ''caller'', caller, ''daily''), window_step n (clock now) (last_of_day now),
          DailyLimitExceeded (''Daily limit reached for caller '' @ caller))]) @ ?cs"
  have last: "answers view valid ok (run_limits [] vw) (Inr Allowed, s1)"
    if "ok s1" "\<forall>y. valid y \<longrightarrow> view s1 y = vw y" for s1 vw using that by (simp add: answers_def)
  have c: "answers view valid ok (run_limits ?cs vw) (?conc s1)" if "ok s1" "\<forall>y. valid y \<longrightarrow> view s1 y = vw y" for s1 vw
  proof (cases "p_concurrency policy")
    case None
    with last [OF that] show ?thesis by (simp add: apply_limit_def)
  next
    case (Some n)
    with assms(4) have "0 < n" by simp
    with conc [OF that(1)] assms(3) Some that(2) last show ?thesis by (simp del: run_limits.simps) (rule apply_limit_answers; simp)
  qed
  have d: "answers view valid ok (run_limits ?ds vw) (?daily s1)" if "ok s1" "\<forall>y. valid y \<longrightarrow> view s1 y = vw y" for s1 vw
  proof (cases "daily_limit policy")
    case None
    with c [OF that] show ?thesis by (simp add: apply_limit_def)
  next
    case (Some n)
    with daily [OF that(1)] assms(2,3) that(2) c show ?thesis by (simp del: run_limits.simps) (rule apply_limit_answers; simp)
  qed
  have start: "\<forall>y. valid y \<longrightarrow> view s y = view s y" by simp
  show ?thesis
  proof (cases "p_frequency_limit policy")
    case None
    with d [OF assms(1) start] assms(5,6) show ?thesis by (simp add: check_policy_def limits_of_def apply_limit_def)
  next
    case (Some l)
    with freq [OF assms(1)] assms(2,3,5,6) d show ?thesis
      by (simp add: check_policy_def limits_of_def del: run_limits.simps) (rule apply_limit_answers; simp)
  qed
qed

lemma conc_run_spec:
  assumes "ok s" and "valid (pid, ''caller'', caller, ''concurrency'')" and "0 < limit"
  shows "fst (conc_run L now pid caller limit es s) = fst (open_spec limit (open_calls (view s (pid, ''caller'', caller, ''concurrency''))) es)
    \<and> open_calls (view (snd (conc_run L now pid caller limit es s)) (pid, ''caller'', caller, ''concurrency''))
      = snd (open_spec limit (open_calls (view s (pid, ''caller'', caller, ''concurrency''))) es)"
  using assms(1)
proof (induction es arbitrary: s)
  case (Cons ev es)
  show ?case
  proof (cases ev)
    case Acquire
    obtain r s1 where c: "check_concurrency L now pid ''caller'' caller limit s = (r, s1)" by fastforce
    with conc [OF Cons.prems assms(2,3), of now] assms(2) Cons.IH [of s1] Acquire show ?thesis
      by (auto simp: steps_counter_def conc_step_def open_calls_def split: if_splits prod.splits)
  next
    case Release
    have "open_calls (release_step c) = open_calls c - 1" for c
      by (cases c) (auto simp: release_step_def open_calls_def)
    with release [OF Cons.prems assms(2), of now] assms(2) Cons.IH Release show ?thesis
      by (auto simp: steps_counter_def)
  qed
qed simp

lemma check_times_window:
  assumes "ok s" and "valid (pid, ''caller'', caller, ''frequency'')"
    and "view s (pid, ''caller'', caller, ''frequency'') = Some (n, Some e)"
    and "\<forall>now \<in> set nows. 0 < clock now \<and> clock now \<le> e"
  shows "fst (check_times L pid caller limit h nows s) = map (\<lambda>i. n + i < limit) [0..<length nows]"
  using assms(1,3,4)
proof (induction nows arbitrary: s n)
  case (Cons now nows)
  obtain r s1 where c: "check_and_increment L now pid ''caller'' caller limit h s = (r, s1)" by fastforce
  have f: "r = Inr (n < limit)" "ok s1"
    "view s1 (pid, ''caller'', caller, ''frequency'') = Some (if n < limit then n + 1 else n, Some e)"
    using freq [OF Cons.prems(1) assms(2), of now limit h] assms(2) Cons.prems(2,3) c
    by (auto simp: steps_counter_def window_step_def split: if_splits)
  have "fst (check_times L pid caller limit h (now # nows) s) = (n < limit) # fst (check_times L pid caller limit h nows s1)"
    using c f(1) by (auto split: prod.splits)
  moreover have "fst (check_times L pid caller limit h nows s1) = map (\<lambda>i. Suc n + i < limit) [0..<length nows]"
    using Cons.IH [OF f(2,3)] Cons.prems(3) by (cases "n < limit") auto
  ultimately show ?case by (simp only: list.size(4) add_Suc_right add_0_right upt_map_shift)
qed simp

lemma check_times_fresh:
  assumes "ok s" and "valid (pid, ''caller'', caller, ''frequency'')"
    and "fresh_at (clock t0) (view s (pid, ''caller'', caller, ''frequency''))" and "0 < clock t0"
    and "\<forall>now \<in> set nows. 0 < clock now \<and> clock now \<le> clock t0 + int h * hour"
  shows "fst (check_times L pid caller limit h (t0 # nows) s) = True # map (\<lambda>i. 1 + i < limit) [0..<length nows]"
proof -
  obtain r s1 where c: "check_and_increment L t0 pid ''caller'' caller limit h s = (r, s1)" by fastforce
  have "r = Inr True" "ok s1" "view s1 (pid, ''caller'', caller, ''frequency'') = Some (1, Some (clock t0 + int h * hour))"
    using freq [OF assms(1,2,4), of limit h] assms(2,3) c
    by (auto simp: steps_counter_def window_step_def fresh_at_def split: option.splits if_splits prod.splits)
  with check_times_window [OF this(2) assms(2) this(3) assms(5), of limit h] c show ?thesis by (auto split: prod.splits)
qed

end

section \<open>The limits in memory and in the database\<close>

text \<open>the guard works its way through the limits of a policy.  With the limiter in memory and with the one in
  the database alike, a call that passes the static checks is counted in the frequency limit, the daily limit and
  the concurrency limit in this order, stops at the first limit that refuses it, and is allowed when none does; no
  other counter changes.\<close>

theorem guard_runs_limits:
  assumes "p_concurrency policy \<noteq> Some 0" and "policy_applies policy callee origin"
    and "static_checks lib policy caller callee origin = Inr None" and "ns_per_sec \<le> now"
    and "CHR '':'' \<notin> set pid" and "CHR '':'' \<notin> set caller" and "db_wf rows"
  shows "answers mem_view colon_free (\<lambda>_. True)
      (run_limits (limits_of (timestamp now) 3600 (day_end (timestamp now)) pid policy caller) (mem_view counts))
      (check_policy mem_limiter lib now pid policy caller callee origin counts)
    \<and> answers db_view (\<lambda>_. True) db_wf
      (run_limits (limits_of now (3600 * ns_per_sec) (day_end (timestamp now) * ns_per_sec) pid policy caller) (db_view rows))
      (check_policy db_limiter lib now pid policy caller callee origin rows)"
proof
  have "0 < timestamp now" using assms(4) by (simp add: timestamp_pos_iff)
  moreover have "\<forall>l \<in> {''frequency'', ''daily'', ''concurrency''}. colon_free (pid, ''caller'', caller, l)"
    using assms(5,6) by (simp add: colon_free_def)
  ultimately show "answers mem_view colon_free (\<lambda>_. True)
      (run_limits (limits_of (timestamp now) 3600 (day_end (timestamp now)) pid policy caller) (mem_view counts))
      (check_policy mem_limiter lib now pid policy caller callee origin counts)"
    using mem.check_policy_answers assms(1-3) by blast
  show "answers db_view (\<lambda>_. True) db_wf
      (run_limits (limits_of now (3600 * ns_per_sec) (day_end (timestamp now) * ns_per_sec) pid policy caller) (db_view rows))
      (check_policy db_limiter lib now pid policy caller callee origin rows)"
    using db.check_policy_answers [OF assms(7) _ _ assms(1-3)] assms(4) by (simp add: ns_per_sec_def)
qed

definition demo_policy :: policy_spec where
  "demo_policy = \<lparr>called_prefix = None, trunk_country = None, allowed_destination_countries = [], p_time_window = None,
     deny_regions = [], allow_landline = None, p_frequency_limit = Some \<lparr>fl_count = 1, fl_window_hours = 1\<rparr>,
     daily_limit = None, p_concurrency = Some 1\<rparr>"

definition demo_policy_lib :: "unit policy_lib" where
  "demo_policy_lib = \<lparr>phone_parse = \<lambda>_. None, phone_country = \<lambda>_. None, phone_is_fixed = \<lambda>_. False,
     parse_hm = \<lambda>_. Inl [], local_time = 0, zone_time = \<lambda>_. Inl []\<rparr>"

lemma demo_policy_open:
  "policy_applies demo_policy callee origin" "static_checks demo_policy_lib demo_policy caller callee origin = Inr None"
  by (simp_all add: policy_applies_def demo_policy_def demo_policy_lib_def static_checks_def check_destination_def
      check_landline_def check_time_window_def check_deny_regions_def Let_def)

lemma guard_runs_limits_witness:
  "let now = 1700000000000000000 in
   answers mem_view colon_free (\<lambda>_. True)
     (run_limits (limits_of (timestamp now) 3600 (day_end (timestamp now)) ''r1'' demo_policy ''100'') (mem_view []))
     (check_policy mem_limiter demo_policy_lib now ''r1'' demo_policy ''100'' ''200'' None [])"
proof -
  have "p_concurrency demo_policy \<noteq> Some 0" by (simp add: demo_policy_def)
  from guard_runs_limits [OF this demo_policy_open, of 1700000000000000000 "''r1''" "''100''" "[]" "[]"]
  show ?thesis by (simp add: ns_per_sec_def db_wf_def)
qed



text \<open>the concurrency limit counts open calls.  Over any sequence of admissions and releases of a caller the
  limiter in memory answers as a plain count of open calls would, which never exceeds the limit; a sequence without
  a release therefore admits no more calls than the limit in all.\<close>

theorem concurrency_counts_open:
  assumes "CHR '':'' \<notin> set pid" and "CHR '':'' \<notin> set caller" and "0 < limit"
    and "open_calls (mem_view counts (pid, ''caller'', caller, ''concurrency'')) \<le> limit"
  shows "fst (conc_run mem_limiter now pid caller limit es counts)
      = fst (open_spec limit (open_calls (mem_view counts (pid, ''caller'', caller, ''concurrency''))) es)
    \<and> open_calls (mem_view (snd (conc_run mem_limiter now pid caller limit es counts)) (pid, ''caller'', caller, ''concurrency''))
      \<le> limit"
  using assms mem.conc_run_spec [where s = counts and pid = pid and caller = caller and limit = limit and now = now and es = es] open_spec_bound [OF assms(4), of es]
  by (auto simp: colon_free_def)

lemma concurrency_counts_open_witness:
  "fst (conc_run mem_limiter 0 ''r1'' ''100'' 1 [Acquire, Acquire, Release, Acquire] []) = [True, False, True]"
  using concurrency_counts_open [of "''r1''" "''100''" 1 "[]" 0 "[Acquire, Acquire, Release, Acquire]"]
  by (simp add: mem_view_def open_calls_def)

lemma map_filter_update:
  "(\<And>v. f (k, v) = None) \<Longrightarrow> List.map_filter f (hm_insert k v m) = List.map_filter f m"
  by (induction m) (auto simp: List.map_filter_simps split: option.splits)

lemma trunk_key_parts: "length (split_on (CHR '':'') (get_key (''trunk:'' @ t) sc v l)) \<noteq> 4"
  by (simp add: length_split_on get_key_def)

lemma not_four_parts: "length xs \<noteq> 4 \<Longrightarrow> (case xs of [p, s, v, l] \<Rightarrow> f p s v l | _ \<Rightarrow> d) = d"
  by (auto split: list.splits)

lemma trunk_key_not_selected: "\<not> key_selected a b c d (get_key (''trunk:'' @ t) sc v l)"
  unfolding key_selected_def not_four_parts [OF trunk_key_parts] by simp

text \<open>Counters of trunk policies can be neither listed nor cleared.  The identifier of a trunk's policy has a
  colon, its key in memory falls into more than four parts, and the operations of the management interface pass over it:
  counting a call for a trunk does not change any listing, and no clearing removes the counter.\<close>

theorem trunk_counters_hidden:
  assumes "hm_wf counts"
  shows "mem_list_limits a b c d (snd (mem_check_concurrency now (''trunk:'' @ t) sc v limit counts)) = mem_list_limits a b c d counts
   \<and> hm_get (snd (mem_clear_limits a b c d counts)) (get_key (''trunk:'' @ t) sc v l)
     = hm_get counts (get_key (''trunk:'' @ t) sc v l)"
proof
  have "mem_list_limits a b c d (hm_insert (get_key (''trunk:'' @ t) sc v ''concurrency'') w counts) = mem_list_limits a b c d counts" for w
    unfolding mem_list_limits_def
    by (rule map_filter_update) (use trunk_key_parts [of t sc v "''concurrency''"] in \<open>auto split: prod.splits list.splits\<close>)
  then show "mem_list_limits a b c d (snd (mem_check_concurrency now (''trunk:'' @ t) sc v limit counts)) = mem_list_limits a b c d counts"
    by (simp add: mem_check_concurrency_def Let_def split: prod.splits)
  show "hm_get (snd (mem_clear_limits a b c d counts)) (get_key (''trunk:'' @ t) sc v l)
     = hm_get counts (get_key (''trunk:'' @ t) sc v l)"
    using assms trunk_key_not_selected by (simp add: mem_clear_limits_def hm_get_retain Let_def split: option.splits)
qed

lemma trunk_counters_hidden_witness:
  "mem_list_limits None None None None (snd (mem_check_concurrency 0 ''trunk:a'' ''caller'' ''100'' 1 [])) = []"
  using trunk_counters_hidden [of "[]" None None None None 0 "''a''" "''caller''" "''100''" 1]
  by (simp add: mem_list_limits_def List.map_filter_simps)

lemma mem_cleanup_get:
  "hm_wf counts \<Longrightarrow> hm_get (mem_cleanup now counts) k =
     (case hm_get counts k of None \<Rightarrow> None | Some (n, e) \<Rightarrow> if timestamp now < e then Some (n, e) else None)"
  by (auto simp: mem_cleanup_def hm_get_retain split: option.splits prod.splits)

text \<open>Cleaning up is not observable.  Removing the ended windows changes neither the verdict of a later check nor
  the counters of open calls.\<close>

theorem mem_cleanup_unobservable:
  assumes "hm_wf counts" and "0 \<le> timestamp now" and "timestamp now < timestamp later"
  shows "fst (mem_check_and_increment later pid sc v limit h (mem_cleanup now counts)) = fst (mem_check_and_increment later pid sc v limit h counts)
    \<and> fst (mem_check_daily_limit later pid sc v limit (mem_cleanup now counts)) = fst (mem_check_daily_limit later pid sc v limit counts)"
  using assms
  by (auto simp: mem_check_and_increment_def mem_check_daily_limit_def mem_window_check_def mem_cleanup_get
      split: option.splits prod.splits)

lemma mem_cleanup_unobservable_witness:
  "fst (mem_check_and_increment (5 * ns_per_sec) ''r1'' ''caller'' ''100'' 1 1 (mem_cleanup (4 * ns_per_sec) [(''r1:caller:100:frequency'', (1, 4))]))
   = fst (mem_check_and_increment (5 * ns_per_sec) ''r1'' ''caller'' ''100'' 1 1 [(''r1:caller:100:frequency'', (1, 4))])"
  using mem_cleanup_unobservable [of "[(''r1:caller:100:frequency'', (1, 4))]" "4 * ns_per_sec" "5 * ns_per_sec"]
  by (simp add: hm_wf_def timestamp_def ns_per_sec_def)

text \<open>In the last second of the day the database does not enforce a daily limit.  The window of a day ends
  with the beginning of its last second; during the rest of that second every check starts a new window that
  has already ended, and admits the call.\<close>

theorem last_second_unlimited:
  assumes "day_end (timestamp now) * ns_per_sec < now"
    and "\<forall>r \<in> set rows. \<forall>e. r_window_end r = Some e \<longrightarrow> e \<le> day_end (timestamp now) * ns_per_sec"
  shows "fst (db_check_daily_limit now pid sc v limit rows) = Inr True
    \<and> (\<forall>r \<in> set (snd (db_check_daily_limit now pid sc v limit rows)). \<forall>e. r_window_end r = Some e \<longrightarrow> e \<le> day_end (timestamp now) * ns_per_sec)"
proof -
  have lt: "db_find pid sc v ''daily'' rows = Some i \<Longrightarrow> i < length rows" for i using db_find_row by blast
  then have "r_window_end (rows ! i) = Some e \<Longrightarrow> e < now" if "db_find pid sc v ''daily'' rows = Some i" for i e
    using that assms nth_mem by fastforce
  with lt assms(2) show ?thesis
    by (auto simp: db_check_daily_limit_def db_window_check_def db_set_def db_insert_def
        dest!: subsetD [OF set_update_subset_insert] split: option.splits)
qed

lemma last_second_unlimited_witness:
  "fst (db_check_daily_limit (86399 * ns_per_sec + 1) ''r1'' ''caller'' ''100'' 0
     [\<lparr>r_policy_id = ''r1'', r_scope = ''caller'', r_scope_value = ''100'', r_limit_type = ''daily'', r_count = 9,
       r_window_end = Some (86399 * ns_per_sec)\<rparr>]) = Inr True"
proof -
  have "day_end (timestamp (86399 * ns_per_sec + 1)) = 86399"
    by (simp add: day_end_def timestamp_def ns_per_sec_def)
  then show ?thesis by (intro last_second_unlimited [THEN conjunct1]) simp_all
qed

text \<open>Two checks of the database at the same time can exceed the concurrency limit.  The query and the write of
  a check are separate statements; when two calls query before either writes, with one place left, both are admitted
  and the count rises by one only.\<close>

theorem concurrent_checks_exceed:
  assumes "db_find p sc v ''concurrency'' rows = Some i" and "r_count (rows ! i) + 1 = limit"
  shows "let seen = db_concurrency_read p sc v rows;
             (r1, rows1) = db_concurrency_write p sc v limit seen rows;
             (r2, rows2) = db_concurrency_write p sc v limit seen rows1
         in r1 = Inr True \<and> r2 = Inr True \<and> r_count (rows2 ! i) = limit"
proof -
  have "i < length rows" using db_find_row [OF assms(1)] by simp
  with assms show ?thesis
    by (auto simp: db_concurrency_read_def db_concurrency_write_def db_set_def Let_def)
qed

lemma concurrent_checks_exceed_witness:
  "let rows = [\<lparr>r_policy_id = ''r1'', r_scope = ''caller'', r_scope_value = ''100'', r_limit_type = ''concurrency'', r_count = 1,
                r_window_end = None\<rparr>];
       seen = db_concurrency_read ''r1'' ''caller'' ''100'' rows;
       (r1, rows1) = db_concurrency_write ''r1'' ''caller'' ''100'' 2 seen rows;
       (r2, rows2) = db_concurrency_write ''r1'' ''caller'' ''100'' 2 seen rows1
   in r1 = Inr True \<and> r2 = Inr True \<and> r_count (rows2 ! 0) = 2"
proof -
  let ?rows = "[\<lparr>r_policy_id = ''r1'', r_scope = ''caller'', r_scope_value = ''100'', r_limit_type = ''concurrency'', r_count = 1,
                r_window_end = None\<rparr>]"
  have "db_find ''r1'' ''caller'' ''100'' ''concurrency'' ?rows = Some 0" "r_count (?rows ! 0) + 1 = 2"
    by (simp_all add: db_find_def row_is_def)
  from concurrent_checks_exceed [OF this] show ?thesis by (simp add: Let_def)
qed

end
