(* ===== verification/Route_Rules.thy ===== *)
theory Route_Rules
  imports Trunk Dialplan Freq_Policy "HOL-Library.Multiset"
begin

text \<open>
  The parts of routing, \<open>src/src/proxy/routing/mod.rs\<close> and \<open>src/src/proxy/routing/matcher.rs\<close>: the rules,
  the test of their conditions and the captures of their patterns, the rewriting of an INVITE, the
  choice among several trunks, the effect of a trunk on the INVITE, and the plan of a queue.

  Outside the repository are the \<open>regex\<close> crate, the random generator, the hasher and the functions of the
  protocol stack: the fields of a \<open>route_lib\<close> record.  \<open>rx_new\<close> compiles a pattern to its capture function, or
  returns the text of the error; \<open>random_range n\<close> is a number below \<open>n\<close>.  Where the sources append an error of the
  stack to an error text of their own, the model has the text of their own only.
\<close>

section \<open>Rules\<close>

datatype route_direction = RouteAny | RouteInbound | RouteOutbound

fun route_direction_matches :: "route_direction \<Rightarrow> dial_direction \<Rightarrow> bool" where
  "route_direction_matches RouteAny d = True"
| "route_direction_matches RouteInbound d = (d = DirInbound)"
| "route_direction_matches RouteOutbound d = (d = DirOutbound)"

record match_conditions =
  m_from_user :: "string option"
  m_from_host :: "string option"
  m_to_user :: "string option"
  m_to_host :: "string option"
  m_to_port :: "string option"
  m_request_uri_user :: "string option"
  m_request_uri_host :: "string option"
  m_request_uri_port :: "string option"
  m_headers :: "(string, string) hmap"
  m_from :: "string option"
  m_to :: "string option"
  m_caller :: "string option"
  m_callee :: "string option"

record rewrite_rules =
  w_from_user :: "string option"
  w_from_host :: "string option"
  w_to_user :: "string option"
  w_to_host :: "string option"
  w_to_port :: "string option"
  w_request_uri_user :: "string option"
  w_request_uri_host :: "string option"
  w_request_uri_port :: "string option"
  w_headers :: "(string, string) hmap"

datatype dest_config = Single string | Multiple "string list"

record reject_config =
  rej_code :: nat
  rej_reason :: "string option"

record route_action =
  ra_action :: "string option"
  ra_dest :: "dest_config option"
  ra_select :: string
  ra_hash_key :: "string option"
  ra_reject :: "reject_config option"
  ra_queue :: "string option"
  ra_app :: "string option"
  ra_app_params :: "string option"
  ra_auto_answer :: bool

datatype action_type = ActForward | ActReject | ActBusy | ActQueue | ActApplication

definition get_action_type :: "route_action \<Rightarrow> action_type" where
  "get_action_type a =
     (case ra_action a of
        Some n \<Rightarrow> if n = ''reject'' then ActReject else if n = ''busy'' then ActBusy
                  else if n = ''queue'' then ActQueue else if n = ''application'' then ActApplication
                  else ActForward
      | None \<Rightarrow> if ra_app a \<noteq> None then ActApplication else if ra_queue a \<noteq> None then ActQueue
                else if ra_reject a \<noteq> None then ActReject else ActForward)"

record route_rule =
  rule_name :: string
  rule_direction :: route_direction
  source_trunks :: "string list"
  source_trunk_ids :: "int list"
  conditions :: match_conditions
  rewrite :: "rewrite_rules option"
  action :: route_action
  codecs :: "string list"
  disable_ice_servers :: "bool option"
  rule_disabled :: "bool option"
  rule_policy :: "policy_spec option"

record request =
  req_uri :: uri
  req_headers :: headers

record invite_option =
  caller :: uri
  callee :: uri
  inv_destination :: "sip_addr option"
  inv_credential :: "credential option"
  inv_headers :: "headers option"

record route_lib =
  rx_new :: "string \<Rightarrow> err + (string \<Rightarrow> string option list option)"
  random_range :: "nat \<Rightarrow> nat"
  hash :: "string \<Rightarrow> nat"
  sip :: sip_lib

section \<open>Conditions\<close>

definition pattern_chars :: string where
  "pattern_chars = ''^$*+?[('' @ [CHR 0x5C]"

definition quoted :: "string \<Rightarrow> string" where
  "quoted s = [CHR 0x27] @ s @ [CHR 0x27]"

definition regex_error :: "string \<Rightarrow> err \<Rightarrow> err" where
  "regex_error pattern e = ''Invalid regex pattern '' @ quoted pattern @ '': '' @ e"

definition matches_pattern :: "route_lib \<Rightarrow> string \<Rightarrow> string \<Rightarrow> bool result" where
  "matches_pattern lib pattern value =
     (if \<not> (\<exists>c \<in> set pattern_chars. c \<in> set pattern) then Inr (pattern = value)
      else case rx_new lib pattern of
             Inl e \<Rightarrow> Inl (regex_error pattern e)
           | Inr rx \<Rightarrow> Inr (rx value \<noteq> None))"

fun route_header_value :: "headers \<Rightarrow> string \<Rightarrow> string option" where
  "route_header_value [] name = None"
| "route_header_value (h # hs) name =
     (case h of
        Other n v \<Rightarrow> if to_ascii_lowercase n = to_ascii_lowercase name then Some v else route_header_value hs name
      | Std HUserAgent v \<Rightarrow> if to_ascii_lowercase name = ''user-agent'' then Some v else route_header_value hs name
      | Std HContact v \<Rightarrow> if to_ascii_lowercase name = ''contact'' then Some v else route_header_value hs name
      | _ \<Rightarrow> route_header_value hs name)"

record match_context =
  origin :: request
  caller_user :: string
  caller_host :: string
  callee_user :: string
  callee_host :: string
  request_user :: string
  request_host :: string

definition match_context_of :: "invite_option \<Rightarrow> request \<Rightarrow> match_context" where
  "match_context_of option req =
     \<lparr>origin = req, caller_user = user_or_default (caller option), caller_host = u_host (caller option),
      callee_user = user_or_default (callee option), callee_host = u_host (callee option),
      request_user = user_or_default (req_uri req), request_host = u_host (req_uri req)\<rparr>"

text \<open>A list of conditions, each an optional pattern and the value it is tried on, checked in order up to the
  first that fails or cannot be compiled.\<close>

fun check_patterns :: "route_lib \<Rightarrow> (string option \<times> string) list \<Rightarrow> bool result" where
  "check_patterns lib [] = Inr True"
| "check_patterns lib ((pattern, value) # rest) =
     (case pattern of
        None \<Rightarrow> check_patterns lib rest
      | Some p \<Rightarrow>
          (case matches_pattern lib p value of
             Inl e \<Rightarrow> Inl e
           | Inr False \<Rightarrow> Inr False
           | Inr True \<Rightarrow> check_patterns lib rest))"

fun check_headers :: "route_lib \<Rightarrow> headers \<Rightarrow> (string \<times> string) list \<Rightarrow> bool result" where
  "check_headers lib hs [] = Inr True"
| "check_headers lib hs ((key, pattern) # rest) =
     (case strip_prefix ''header.'' key of
        None \<Rightarrow> check_headers lib hs rest
      | Some name \<Rightarrow>
          (case route_header_value hs name of
             None \<Rightarrow> Inr False
           | Some v \<Rightarrow>
               (case matches_pattern lib pattern v of
                  Inl e \<Rightarrow> Inl e
                | Inr False \<Rightarrow> Inr False
                | Inr True \<Rightarrow> check_headers lib hs rest)))"

definition condition_fields :: "match_conditions \<Rightarrow> match_context \<Rightarrow> (string \<times> string option \<times> string) list" where
  "condition_fields c ctx =
     [(''from.user'', m_from_user c, caller_user ctx), (''from.host'', m_from_host c, caller_host ctx),
      (''to.user'', m_to_user c, callee_user ctx), (''to.host'', m_to_host c, callee_host ctx),
      (''request_uri.user'', m_request_uri_user c, request_user ctx),
      (''request_uri.host'', m_request_uri_host c, request_host ctx),
      (''caller'', m_caller c, caller_user ctx @ ''@'' @ caller_host ctx),
      (''callee'', m_callee c, callee_user ctx @ ''@'' @ callee_host ctx)]"

definition matches_rule :: "route_lib \<Rightarrow> route_rule \<Rightarrow> match_context \<Rightarrow> bool result" where
  "matches_rule lib rule ctx =
     (case check_patterns lib (map snd (condition_fields (conditions rule) ctx)) of
        Inl e \<Rightarrow> Inl e
      | Inr False \<Rightarrow> Inr False
      | Inr True \<Rightarrow> check_headers lib (req_headers (origin ctx)) (m_headers (conditions rule)))"

section \<open>Captures\<close>

type_synonym captures = "string \<rightharpoonup> string list"

definition extract_regex_captures :: "route_lib \<Rightarrow> string \<Rightarrow> string \<Rightarrow> string list option result" where
  "extract_regex_captures lib pattern value =
     (if pattern = [] then Inr None
      else case rx_new lib pattern of
             Inl e \<Rightarrow> Inl (regex_error pattern e)
           | Inr rx \<Rightarrow>
               Inr (map_option (map (\<lambda>g. case g of Some t \<Rightarrow> t | None \<Rightarrow> [])) (rx value)))"

fun collect_fields :: "route_lib \<Rightarrow> (string \<times> string option \<times> string) list \<Rightarrow> captures \<Rightarrow> captures result" where
  "collect_fields lib [] caps = Inr caps"
| "collect_fields lib ((key, pattern, value) # rest) caps =
     (case pattern of
        None \<Rightarrow> collect_fields lib rest caps
      | Some p \<Rightarrow>
          (case extract_regex_captures lib p value of
             Inl e \<Rightarrow> Inl e
           | Inr None \<Rightarrow> collect_fields lib rest caps
           | Inr (Some groups) \<Rightarrow> collect_fields lib rest (caps(key \<mapsto> groups))))"

definition header_fields :: "headers \<Rightarrow> (string, string) hmap \<Rightarrow> (string \<times> string option \<times> string) list" where
  "header_fields hs conds =
     List.map_filter (\<lambda>(key, pattern).
       case Option.bind (strip_prefix ''header.'' key) (route_header_value hs) of
         Some v \<Rightarrow> Some (key, Some pattern, v) | None \<Rightarrow> None) conds"

definition collect_match_captures :: "route_lib \<Rightarrow> route_rule \<Rightarrow> match_context \<Rightarrow> captures result" where
  "collect_match_captures lib rule ctx =
     collect_fields lib (condition_fields (conditions rule) ctx @
       header_fields (req_headers (origin ctx)) (m_headers (conditions rule))) Map.empty"

section \<open>Rewriting\<close>

definition DIGITS_ONLY :: string where
  "DIGITS_ONLY = ''^('' @ [CHR 0x5C] @ ''d+)$''"

definition ONE_DIGIT_RUN :: string where
  "ONE_DIGIT_RUN = ''^[^'' @ [CHR 0x5C] @ ''d]*('' @ [CHR 0x5C] @ ''d+)[^'' @ [CHR 0x5C] @ ''d]*$''"

definition is_ascii_digit :: "char \<Rightarrow> bool" where
  "is_ascii_digit c \<longleftrightarrow> digit_val c \<noteq> None"

text \<open>One of the two patterns of \<open>extract_capture_group\<close>; \<open>leading\<close> says whether it has the fallback to the
  digits at the start of the value.\<close>

definition try_capture_pattern :: "route_lib \<Rightarrow> string \<Rightarrow> bool \<Rightarrow> string \<Rightarrow> nat \<Rightarrow> string option" where
  "try_capture_pattern lib pattern leading original n =
     (case rx_new lib pattern of
        Inl _ \<Rightarrow> None
      | Inr rx \<Rightarrow>
          (case rx original of
             None \<Rightarrow> None
           | Some groups \<Rightarrow>
               (case (if n \<le> length groups \<and> 0 < n \<and> n < length groups then groups ! n else None) of
                  Some g \<Rightarrow> Some g
                | None \<Rightarrow>
                    (let digits = takeWhile is_ascii_digit original
                     in if leading \<and> n = 1 \<and> 0 < length original \<and> digits \<noteq> [] then Some digits else None))))"

definition extract_capture_group :: "route_lib \<Rightarrow> string \<Rightarrow> nat \<Rightarrow> string option" where
  "extract_capture_group lib original n =
     (if n = 0 then Some original
      else case try_capture_pattern lib DIGITS_ONLY True original n of
             Some g \<Rightarrow> Some g
           | None \<Rightarrow> try_capture_pattern lib ONE_DIGIT_RUN False original n)"

definition usize_max :: nat where "usize_max = 18446744073709551615"

text \<open>The text up to the closing brace, and the text after it.\<close>

fun split_placeholder :: "string \<Rightarrow> (string \<times> string) option" where
  "split_placeholder [] = None"
| "split_placeholder (c # cs) =
     (if c = CHR ''}'' then Some ([], cs)
      else map_option (\<lambda>(i, r). (c # i, r)) (split_placeholder cs))"

lemma split_placeholder_length: "split_placeholder s = Some (i, r) \<Longrightarrow> length r < length s"
  by (induction s arbitrary: i) (auto split: if_splits)

definition placeholder_value :: "route_lib \<Rightarrow> string \<Rightarrow> string list option \<Rightarrow> nat \<Rightarrow> string" where
  "placeholder_value lib original groups i =
     (case Option.bind groups (\<lambda>gs. if i < length gs then Some (gs ! i) else None) of
        Some g \<Rightarrow> g
      | None \<Rightarrow>
          (case (if i = 0 then Some original else extract_capture_group lib original i) of
             Some g \<Rightarrow> g
           | None \<Rightarrow> original))"

function expand_pattern :: "route_lib \<Rightarrow> string \<Rightarrow> string \<Rightarrow> string list option \<Rightarrow> string \<Rightarrow> string result" where
  "expand_pattern lib pattern original groups [] = Inr []"
| "expand_pattern lib pattern original groups (c # cs) =
     (if c = CHR ''{'' then
        (case split_placeholder cs of
           None \<Rightarrow> Inl (''Unclosed capture group placeholder in rewrite pattern '' @ quoted pattern)
         | Some (i, r) \<Rightarrow>
             if i = [] then Inl (''Empty capture group placeholder in rewrite pattern '' @ quoted pattern)
             else (case parse_unsigned usize_max i of
                     None \<Rightarrow> Inl (''Invalid capture group index '' @ quoted i @ '' in rewrite pattern '' @ quoted pattern)
                   | Some n \<Rightarrow>
                       (case expand_pattern lib pattern original groups r of
                          Inl e \<Rightarrow> Inl e
                        | Inr t \<Rightarrow> Inr (placeholder_value lib original groups n @ t))))
      else (case expand_pattern lib pattern original groups cs of Inl e \<Rightarrow> Inl e | Inr t \<Rightarrow> Inr (c # t)))"
  by pat_completeness auto
termination
  by (relation "measure (\<lambda>(lib, pattern, original, groups, s). length s)") (auto dest: split_placeholder_length)

definition apply_rewrite_pattern_with_match ::
    "route_lib \<Rightarrow> string \<Rightarrow> string \<Rightarrow> string list option \<Rightarrow> string result" where
  "apply_rewrite_pattern_with_match lib pattern original groups =
     (if CHR ''{'' \<notin> set pattern then Inr pattern else expand_pattern lib pattern original groups pattern)"

text \<open>The rewriting of header fields cuts its pattern at the first opening and the first closing brace, and panics
  when they are in the wrong order.\<close>

definition apply_rewrite_pattern :: "string \<Rightarrow> string \<Rightarrow> string run" where
  "apply_rewrite_pattern pattern original =
     (case (find_char (CHR ''{'') pattern, find_char (CHR ''}'') pattern) of
        (Some s, Some e) \<Rightarrow>
          if e < s + 1 then Panic else Ret (take s pattern @ original @ drop (e + 1) pattern)
      | _ \<Rightarrow> Ret pattern)"

definition update_uri_user :: "uri \<Rightarrow> string \<Rightarrow> uri" where
  "update_uri_user u new_user = u\<lparr>u_user := Some new_user\<rparr>"

definition update_uri_host :: "route_lib \<Rightarrow> uri \<Rightarrow> string \<Rightarrow> uri result" where
  "update_uri_host lib u new_host =
     (case host_port_parse (sip lib) new_host of
        None \<Rightarrow> Inl (''Invalid host '' @ quoted new_host)
      | Some hp \<Rightarrow> Inr (set_host_with_port hp u))"

definition rewrite_user :: "route_lib \<Rightarrow> string option \<Rightarrow> string list option \<Rightarrow> uri \<Rightarrow> uri result" where
  "rewrite_user lib pattern groups u =
     (case pattern of
        None \<Rightarrow> Inr u
      | Some p \<Rightarrow>
          (case apply_rewrite_pattern_with_match lib p (user_or_default u) groups of
             Inl e \<Rightarrow> Inl e
           | Inr new_user \<Rightarrow> Inr (update_uri_user u new_user)))"

definition rewrite_host :: "route_lib \<Rightarrow> string option \<Rightarrow> string list option \<Rightarrow> uri \<Rightarrow> uri result" where
  "rewrite_host lib pattern groups u =
     (case pattern of
        None \<Rightarrow> Inr u
      | Some p \<Rightarrow>
          (case apply_rewrite_pattern_with_match lib p (u_host u) groups of
             Inl e \<Rightarrow> Inl e
           | Inr new_host \<Rightarrow> update_uri_host lib u new_host))"

fun push_headers :: "(string \<times> string) list \<Rightarrow> headers option \<Rightarrow> headers option run" where
  "push_headers [] hs = Ret hs"
| "push_headers ((key, pattern) # rest) hs =
     (case strip_prefix ''header.'' key of
        None \<Rightarrow> push_headers rest hs
      | Some name \<Rightarrow>
          bind_run (apply_rewrite_pattern pattern [])
            (\<lambda>v. push_headers rest (Some ((case hs of Some l \<Rightarrow> l | None \<Rightarrow> []) @ [Other name v]))))"

definition bind_result :: "'a result \<Rightarrow> ('a \<Rightarrow> 'b result run) \<Rightarrow> 'b result run" where
  "bind_result r f = (case r of Inl e \<Rightarrow> Ret (Inl e) | Inr a \<Rightarrow> f a)"

definition apply_rewrite_rules ::
    "route_lib \<Rightarrow> rewrite_rules \<Rightarrow> captures \<Rightarrow> invite_option \<Rightarrow> invite_option result run" where
  "apply_rewrite_rules lib w caps option =
     bind_result (rewrite_user lib (w_from_user w) (caps ''from.user'') (caller option)) (\<lambda>c1.
     bind_result (rewrite_host lib (w_from_host w) (caps ''from.host'') c1) (\<lambda>c2.
     bind_result (rewrite_user lib (w_to_user w) (caps ''to.user'') (callee option)) (\<lambda>d1.
     bind_result (rewrite_host lib (w_to_host w) (caps ''to.host'') d1) (\<lambda>d2.
       map_run (\<lambda>hs. Inr (option\<lparr>caller := c2, callee := d2, inv_headers := hs\<rparr>))
         (push_headers (w_headers w) (inv_headers option))))))"

definition describe_rewrite_ops :: "rewrite_rules \<Rightarrow> string list" where
  "describe_rewrite_ops w =
     List.map_filter (\<lambda>(l, v). case v of Some t \<Rightarrow> if t \<noteq> [] then Some l else None | None \<Rightarrow> None)
       [(''from.user'', w_from_user w), (''from.host'', w_from_host w), (''to.user'', w_to_user w),
        (''to.host'', w_to_host w), (''to.port'', w_to_port w), (''request_uri.user'', w_request_uri_user w),
        (''request_uri.host'', w_request_uri_host w), (''request_uri.port'', w_request_uri_port w)]
     @ hm_keys (w_headers w)"

section \<open>Choosing a trunk\<close>

text \<open>The round-robin counters.  The sources key them by the debug text of the destination, which is different for
  different destinations; here the destination itself is the key.\<close>

type_synonym rr_counters = "dest_config \<Rightarrow> nat"

definition next_round_robin_index :: "dest_config \<Rightarrow> nat \<Rightarrow> rr_counters \<Rightarrow> nat \<times> rr_counters" where
  "next_round_robin_index key trunk_count counters =
     (if trunk_count = 0 then (0, counters)
      else (counters key mod trunk_count, counters(key := counters key + 1)))"

definition sat_add :: "nat \<Rightarrow> nat \<Rightarrow> nat" where
  "sat_add a b = min (a + b) u32_max"

fun pick_weighted :: "nat \<Rightarrow> nat \<Rightarrow> (string \<times> nat) list \<Rightarrow> string option" where
  "pick_weighted v cumulative [] = None"
| "pick_weighted v cumulative ((t, w) # rest) =
     (let c = sat_add cumulative w in if v < c then Some t else pick_weighted v c rest)"

definition trunk_weight :: "(string, 'p trunk_config) hmap option \<Rightarrow> string \<Rightarrow> nat" where
  "trunk_weight configs name =
     (case Option.bind (Option.bind configs (\<lambda>m. hm_get m name)) weight of Some w \<Rightarrow> w | None \<Rightarrow> 100)"

definition select_trunk_weighted ::
    "route_lib \<Rightarrow> string list \<Rightarrow> (string, 'p trunk_config) hmap option \<Rightarrow> string result" where
  "select_trunk_weighted lib trunks configs =
     (if trunks = [] then Inl ''No trunks for weighted selection''
      else if length trunks = 1 then Inr (trunks ! 0)
      else let weights = map (trunk_weight configs) trunks;
               total = fold (\<lambda>w acc. sat_add acc w) weights 0
           in if total = 0 then Inr (trunks ! random_range lib (length trunks))
              else case pick_weighted (random_range lib total) 0 (zip trunks weights) of
                     Some t \<Rightarrow> Inr t
                   | None \<Rightarrow> Inr (trunks ! (length trunks - 1)))"

definition select_trunk ::
    "route_lib \<Rightarrow> dest_config \<Rightarrow> string \<Rightarrow> string option \<Rightarrow> invite_option \<Rightarrow> (string, 'p trunk_config) hmap option
       \<Rightarrow> rr_counters \<Rightarrow> string result \<times> rr_counters" where
  "select_trunk lib dc select_method hash_key option configs counters =
     (let trunks = (case dc of Single t \<Rightarrow> [t] | Multiple ts \<Rightarrow> ts)
      in if trunks = [] then (Inl ''No trunks configured'', counters)
         else if length trunks = 1 then (Inr (trunks ! 0), counters)
         else if select_method = ''random'' then (Inr (trunks ! random_range lib (length trunks)), counters)
         else if select_method = ''hash'' then
           (let value = (case hash_key of
                           Some key \<Rightarrow> if key = ''from.user'' then user_or_default (caller option)
                                       else if key = ''to.user'' then user_or_default (callee option)
                                       else if key = ''call-id'' then ''default'' else key
                         | None \<Rightarrow> uri_show (sip lib) (caller option))
            in (Inr (trunks ! (hash lib value mod length trunks)), counters))
         else if select_method = ''weighted'' then (select_trunk_weighted lib trunks configs, counters)
         else (let (i, counters') = next_round_robin_index dc (length trunks) counters
               in (Inr (trunks ! i), counters')))"

definition transport_of :: "string \<Rightarrow> transport option" where
  "transport_of s =
     (let l = to_ascii_lowercase s
      in if l = ''udp'' then Some Udp else if l = ''tcp'' then Some Tcp else if l = ''tls'' then Some Tls
         else if l = ''ws'' then Some Ws else if l = ''wss'' then Some Wss else None)"

definition apply_trunk_config :: "route_lib \<Rightarrow> 'p trunk_config \<Rightarrow> invite_option \<Rightarrow> invite_option result" where
  "apply_trunk_config lib trunk option =
     (case uri_parse (sip lib) (dest trunk) of
        None \<Rightarrow> Inl (''Invalid trunk destination '' @ quoted (dest trunk))
      | Some d \<Rightarrow>
          (let hp = host_with_port d;
               o1 = option\<lparr>inv_destination := Some \<lparr>a_type = Option.bind (trunk_transport trunk) transport_of, a_addr = hp\<rparr>\<rparr>;
               o2 = (if rewrite_hostport trunk
                     then o1\<lparr>callee := set_host_with_port hp (callee o1), caller := set_host_with_port hp (caller o1)\<rparr>
                     else o1);
               o3 = (case (username trunk, password trunk) of
                       (Some u, Some p) \<Rightarrow>
                         o2\<lparr>inv_credential := Some \<lparr>cr_username = u, cr_password = p, cr_realm = Some (u_host d)\<rparr>\<rparr>
                     | _ \<Rightarrow> o2);
               hs = (case inv_headers o3 of Some l \<Rightarrow> l | None \<Rightarrow> [])
           in Inr (o3\<lparr>inv_headers :=
                     Some (if username trunk \<noteq> None
                           then hs @ [Other ''P-Asserted-Identity'' (''<'' @ uri_show (sip lib) (caller option) @ ''>'')]
                           else hs)\<rparr>)))"

section \<open>Queues\<close>

datatype queue_dial_mode = QSequential | QParallel

record queue_fallback_config =
  fb_redirect :: "string option"
  fb_failure_code :: "nat option"
  fb_failure_reason :: "string option"
  fb_failure_prompt :: "string option"
  fb_queue_ref :: "string option"
  fb_skill_group_ref :: "string option"

record queue_config =
  qc_name :: "string option"
  qc_acd_policy :: "string option"
  qc_accept_immediately :: bool
  qc_passthrough_ringback :: bool
  qc_hold :: "(string option \<times> bool) option"
  qc_fallback :: "queue_fallback_config option"
  qc_mode :: queue_dial_mode
  qc_wait_timeout_secs :: "nat option"
  qc_targets :: "string list"
  qc_voice_prompts :: "voice_prompts option"

definition trimmed_non_empty :: "string option \<Rightarrow> string option" where
  "trimmed_non_empty v = Option.bind v (\<lambda>s. if trim s = [] then None else Some (trim s))"

definition fallback_to_action :: "route_lib \<Rightarrow> queue_fallback_config \<Rightarrow> queue_fallback_action result" where
  "fallback_to_action lib f =
     (case trimmed_non_empty (fb_queue_ref f) of
        Some q \<Rightarrow> Inr (FbQueue q)
      | None \<Rightarrow>
          (case trimmed_non_empty (fb_skill_group_ref f) of
             Some g \<Rightarrow> Inr (FbQueue (''skill-group:'' @ g))
           | None \<Rightarrow>
               (case fb_redirect f of
                  Some target \<Rightarrow>
                    (case uri_parse (sip lib) target of
                       None \<Rightarrow> Inl (''invalid uri '' @ quoted target)
                     | Some u \<Rightarrow> Inr (FbRedirect u))
                | None \<Rightarrow>
                    if fb_failure_code f \<noteq> None \<or> fb_failure_prompt f \<noteq> None then
                      (case fb_failure_code f of
                         Some code \<Rightarrow>
                           if code < 100 \<or> 699 < code
                           then Inl (''invalid failure_code '' @ string_of_nat code @ '': must be 100-699'')
                           else Inr (FbFailure (case fb_failure_prompt f of
                                  Some p \<Rightarrow> PlayThenHangup p False code (fb_failure_reason f)
                                | None \<Rightarrow> Hangup (Some code) (fb_failure_reason f)))
                       | None \<Rightarrow>
                           Inr (FbFailure (case fb_failure_prompt f of
                                  Some p \<Rightarrow> PlayThenHangup p False TemporarilyUnavailable (fb_failure_reason f)
                                | None \<Rightarrow> Hangup (Some TemporarilyUnavailable) (fb_failure_reason f))))
                    else Inl ''Queue fallback must specify redirect or failure action'')))"

fun build_locations :: "route_lib \<Rightarrow> string list \<Rightarrow> location list result" where
  "build_locations lib [] = Inr []"
| "build_locations lib (t # ts) =
     (let text = trim t
      in if text = [] then build_locations lib ts
         else case strip_prefix ''skill-group:'' text of
           Some g \<Rightarrow>
             if trim g = [] then build_locations lib ts
             else (case uri_parse (sip lib) (''skill-group:'' @ trim g) of
                     None \<Rightarrow> Inl (''invalid skill group uri '' @ quoted text)
                   | Some u \<Rightarrow>
                       (case build_locations lib ts of
                          Inl e \<Rightarrow> Inl e
                        | Inr ls \<Rightarrow> Inr (default_location\<lparr>aor := u, contact_raw := Some text\<rparr> # ls)))
         | None \<Rightarrow>
             (case uri_parse (sip lib) text of
                None \<Rightarrow> Inl (''invalid queue target uri '' @ quoted text)
              | Some u \<Rightarrow>
                  (case build_locations lib ts of
                     Inl e \<Rightarrow> Inl e
                   | Inr ls \<Rightarrow> Inr (default_location\<lparr>aor := u, contact_raw := Some (uri_show (sip lib) u)\<rparr> # ls))))"

definition build_dial_strategy :: "route_lib \<Rightarrow> queue_config \<Rightarrow> dial_strategy option result" where
  "build_dial_strategy lib q =
     (case build_locations lib (qc_targets q) of
        Inl e \<Rightarrow> Inl e
      | Inr ls \<Rightarrow> Inr (if ls = [] then None
                       else Some (case qc_mode q of QParallel \<Rightarrow> Parallel ls | QSequential \<Rightarrow> Sequential ls)))"

definition to_queue_plan :: "route_lib \<Rightarrow> queue_config \<Rightarrow> queue_plan result" where
  "to_queue_plan lib q =
     (let plan = default_plan\<lparr>accept_immediately := qc_accept_immediately q,
                   passthrough_ringback := qc_passthrough_ringback q \<and> qc_accept_immediately q,
                   hold := map_option (\<lambda>(file, loop). \<lparr>hold_audio_file = file, hold_loop_playback = loop\<rparr>) (qc_hold q),
                   acd_policy := trimmed_non_empty (qc_acd_policy q),
                   failure_audio := trimmed_non_empty (Option.bind (qc_voice_prompts q) busy_prompt)\<rparr>
      in case (case qc_fallback q of None \<Rightarrow> Inr (fallback plan) | Some f \<Rightarrow> map_sum id Some (fallback_to_action lib f)) of
           Inl e \<Rightarrow> Inl e
         | Inr fb \<Rightarrow>
             (case build_dial_strategy lib q of
                Inl e \<Rightarrow> Inl e
              | Inr strategy \<Rightarrow>
                  Inr (plan\<lparr>fallback := fb, plan_strategy := strategy,
                       ring_timeout := (case qc_wait_timeout_secs q of
                                          Some n \<Rightarrow> if 0 < n then Some (secs n) else None | None \<Rightarrow> None),
                       plan_prompts := qc_voice_prompts q,
                       queue_name := (case qc_name q of Some n \<Rightarrow> n | None \<Rightarrow> [])\<rparr>)))"

section \<open>The choice of a trunk\<close>

text \<open>What the sources rely on of the random generator: a number below a positive bound.\<close>

definition random_ok :: "route_lib \<Rightarrow> bool" where
  "random_ok rl \<longleftrightarrow> (\<forall>n > 0. random_range rl n < n)"

lemma sat_add_mono: "a \<le> u32_max \<Longrightarrow> a \<le> sat_add a b"
  by (simp add: sat_add_def)

lemma sat_sum_le: "acc \<le> u32_max \<Longrightarrow> fold (\<lambda>w acc. sat_add acc w) ws acc \<le> u32_max"
  by (induction ws arbitrary: acc) (auto simp: sat_add_def)

lemma pick_weighted_Some:
  assumes "length ts = length ws" and "cum \<le> v" and "cum \<le> u32_max" and "v < fold (\<lambda>w acc. sat_add acc w) ws cum"
  shows "\<exists>i < length ts. pick_weighted v cum (zip ts ws) = Some (ts ! i) \<and> 0 < ws ! i"
  using assms
proof (induction ts ws arbitrary: cum rule: list_induct2)
  case (Cons t ts w ws)
  show ?case
  proof (cases "v < sat_add cum w")
    case True
    with Cons.prems(1) have "0 < w" by (cases w) (auto simp: sat_add_def)
    with True show ?thesis by auto
  next
    case False
    moreover have "sat_add cum w \<le> u32_max" by (simp add: sat_add_def)
    ultimately obtain i where "i < length ts" "pick_weighted v (sat_add cum w) (zip ts ws) = Some (ts ! i)" "0 < ws ! i"
      using Cons.IH [of "sat_add cum w"] Cons.prems(3) by auto
    with False show ?thesis by (auto intro!: exI [of _ "Suc i"])
  qed
qed simp

lemma sat_sum_pos: "(\<exists>w \<in> set ws. 0 < w) \<or> 0 < acc \<Longrightarrow> 0 < fold (\<lambda>w acc. sat_add acc w) ws acc"
proof (induction ws arbitrary: acc)
  case (Cons w ws)
  have "0 < sat_add acc w \<longleftrightarrow> 0 < acc \<or> 0 < w" by (auto simp: sat_add_def u32_max_def)
  moreover have "(\<exists>x \<in> set ws. 0 < x) \<or> 0 < sat_add acc w" using Cons.prems calculation by auto
  ultimately show ?case using Cons.IH [of "sat_add acc w"] by simp
qed simp

text \<open>C9: the weighted choice respects the weights.  Among several trunks of which one has a positive weight the choice
  is always a configured trunk, and never one of weight zero.\<close>

theorem weighted_choice:
  assumes "random_ok rl" and "2 \<le> length ts" and "\<exists>t \<in> set ts. 0 < trunk_weight configs t"
  shows "\<exists>i < length ts. select_trunk_weighted rl ts configs = Inr (ts ! i) \<and> 0 < trunk_weight configs (ts ! i)"
proof -
  let ?ws = "map (trunk_weight configs) ts"
  let ?total = "fold (\<lambda>w acc. sat_add acc w) ?ws 0"
  have total: "0 < ?total" using sat_sum_pos [of ?ws 0] assms(3) by auto
  then have "random_range rl ?total < ?total" using assms(1) by (simp add: random_ok_def)
  from pick_weighted_Some [of ts ?ws 0, OF _ _ _ this] obtain i where
    "i < length ts" "pick_weighted (random_range rl ?total) 0 (zip ts ?ws) = Some (ts ! i)" "0 < ?ws ! i" by auto
  with assms(2) total show ?thesis by (intro exI [of _ i]) (auto simp: select_trunk_weighted_def Let_def)
qed

definition demo_uri :: "string \<Rightarrow> string \<Rightarrow> uri" where
  "demo_uri user host = default_uri\<lparr>u_scheme := ''sip'', u_user := Some user, u_host := host\<rparr>"

text \<open>A small instance of the libraries: a stack that reads a host name as the URI of this host, no regular
  expressions, the greatest random number.\<close>

definition demo_route_lib :: route_lib where
  "demo_route_lib =
     \<lparr>rx_new = \<lambda>_. Inl ''unsupported'', random_range = \<lambda>n. n - 1, hash = length,
      sip = \<lparr>uri_show = (\<lambda>u. u_scheme u @ '':'' @ user_or_default u @ ''@'' @ u_host u),
             uri_parse = (\<lambda>s. Some (default_uri\<lparr>u_scheme := ''sip'', u_host := s\<rparr>)),
             uri_eq = (\<lambda>a b. a = b), host_port_parse = (\<lambda>s. Some (s, None))\<rparr>\<rparr>"

definition demo_invite :: invite_option where
  "demo_invite = \<lparr>caller = demo_uri ''100'' ''a.example'', callee = demo_uri ''200'' ''b.example'', inv_destination = None,
     inv_credential = None, inv_headers = None\<rparr>"

lemma demo_random_ok: "random_ok demo_route_lib"
  by (simp add: random_ok_def demo_route_lib_def)

lemma weighted_choice_witness:
  "select_trunk_weighted demo_route_lib [''a'', ''b''] (Some [(''b'', demo_trunk\<lparr>weight := Some 0\<rparr>)]) = Inr ''a''"
proof -
  have "2 \<le> length [''a'', ''b'']"
    "\<exists>t \<in> set [''a'', ''b'']. 0 < trunk_weight (Some [(''b'', demo_trunk\<lparr>weight := Some 0\<rparr>)]) t"
    by (simp_all add: trunk_weight_def)
  from weighted_choice [OF demo_random_ok this] show ?thesis by (auto simp: trunk_weight_def less_Suc_eq)
qed

text \<open>Selecting for the same destination several times in a row.\<close>

fun select_times ::
    "nat \<Rightarrow> route_lib \<Rightarrow> dest_config \<Rightarrow> string \<Rightarrow> invite_option \<Rightarrow> rr_counters \<Rightarrow> string result list \<times> rr_counters" where
  "select_times 0 rl dc m opt c = ([], c)"
| "select_times (Suc n) rl dc m opt c =
     (let (r, c1) = select_trunk rl dc m None opt (None :: (string, unit trunk_config) hmap option) c;
          (rs, c2) = select_times n rl dc m opt c1 in (r # rs, c2))"

lemma select_rr:
  assumes "2 \<le> length ts" and "m \<notin> {''random'', ''hash'', ''weighted''}"
  shows "select_trunk rl (Multiple ts) m hk opt cfg c
    = (Inr (ts ! (c (Multiple ts) mod length ts)), c(Multiple ts := c (Multiple ts) + 1))"
  using assms by (auto simp: select_trunk_def next_round_robin_index_def Let_def)

lemma mset_rotate_eq: "mset (rotate n xs) = mset xs"
  by (simp add: rotate_drop_take) (metis append_take_drop_id mset_append union_commute)

text \<open>C10: round robin is fair.  As many consecutive selections as there are trunks pick every trunk of the
  destination in turn, starting where the last selection ended.\<close>

theorem round_robin_fair:
  assumes "2 \<le> length ts" and "m \<notin> {''random'', ''hash'', ''weighted''}"
  shows "fst (select_times (length ts) rl (Multiple ts) m opt c) = map Inr (rotate (c (Multiple ts)) ts)
    \<and> mset (fst (select_times (length ts) rl (Multiple ts) m opt c)) = mset (map Inr ts)"
proof -
  have "fst (select_times n rl (Multiple ts) m opt c) = map (\<lambda>k. Inr (ts ! ((c (Multiple ts) + k) mod length ts))) [0..<n]" for n
  proof (induction n arbitrary: c)
    case (Suc n)
    have "map (\<lambda>k. Inr (ts ! ((c (Multiple ts) + k) mod length ts)) :: string result) [0..<Suc n]
      = Inr (ts ! (c (Multiple ts) mod length ts)) # map (\<lambda>k. Inr (ts ! ((Suc (c (Multiple ts)) + k) mod length ts))) [0..<n]"
      by (simp add: upt_conv_Cons map_Suc_upt [symmetric] del: upt_Suc)
    moreover have "fst (select_times (Suc n) rl (Multiple ts) m opt c) = Inr (ts ! (c (Multiple ts) mod length ts))
        # fst (select_times n rl (Multiple ts) m opt (c(Multiple ts := c (Multiple ts) + 1)))"
      by (simp add: select_rr [OF assms] split: prod.splits)
    moreover have "Suc (c (Multiple ts)) + k = c (Multiple ts) + 1 + k" for k by simp
    ultimately show ?case by (simp only: Suc fun_upd_same)
  qed simp
  then have "fst (select_times (length ts) rl (Multiple ts) m opt c) = map Inr (rotate (c (Multiple ts)) ts)"
    by (intro nth_equalityI) (simp_all add: nth_rotate)
  then show ?thesis by (simp add: mset_rotate_eq)
qed


lemma round_robin_fair_witness:
  "fst (select_times 3 demo_route_lib (Multiple [''a'', ''b'', ''c'']) ''rr'' demo_invite (\<lambda>_. 7)) = map Inr [''b'', ''c'', ''a'']"
  using round_robin_fair [of "[''a'', ''b'', ''c'']" "''rr''" demo_route_lib demo_invite "\<lambda>_. 7"]
  by (simp add: numeral_3_eq_3 [symmetric] rotate_conv_mod [of 7])

section \<open>Templates\<close>

datatype part = Lit string | Ref nat

fun render :: "part list \<Rightarrow> string" where
  "render [] = []"
| "render (Lit s # ps) = s @ render ps"
| "render (Ref n # ps) = ''{'' @ string_of_nat n @ ''}'' @ render ps"

fun part_value :: "route_lib \<Rightarrow> string \<Rightarrow> string list option \<Rightarrow> part \<Rightarrow> string" where
  "part_value rl original groups (Lit s) = s"
| "part_value rl original groups (Ref n) = placeholder_value rl original groups n"

fun part_ok :: "part \<Rightarrow> bool" where
  "part_ok (Lit s) = (CHR ''{'' \<notin> set s)"
| "part_ok (Ref n) = (n \<le> usize_max)"

lemma split_placeholder_append: "CHR ''}'' \<notin> set i \<Longrightarrow> split_placeholder (i @ ''}'' @ r) = Some (i, r)"
  by (induction i) auto

lemma expand_literal:
  "CHR ''{'' \<notin> set s \<Longrightarrow> expand_pattern rl p original groups (s @ r) =
     (case expand_pattern rl p original groups r of Inl e \<Rightarrow> Inl e | Inr t \<Rightarrow> Inr (s @ t))"
  by (induction s) (auto split: sum.splits)

lemma brace_not_in_nat: "CHR ''}'' \<notin> set (string_of_nat n)"
  by (rule not_in_string_of_nat) simp

lemma expand_render:
  "\<forall>x \<in> set parts. part_ok x \<Longrightarrow>
   expand_pattern rl p original groups (render parts) = Inr (concat (map (part_value rl original groups) parts))"
proof (induction parts)
  case (Cons x parts)
  then show ?case
    by (cases x) (simp_all add: expand_literal split_placeholder_append [of _ "render parts", simplified] brace_not_in_nat)
qed simp

text \<open>a rewrite template is filled in.  A pattern made of literal text and numbered placeholders becomes the
  literal text with, for each placeholder, the group that the matching condition captured under this number, or, when there
  is none, the whole value for 0 and a guess from the digits of the value otherwise.\<close>

theorem template_filled:
  assumes "\<forall>x \<in> set parts. part_ok x"
  shows "apply_rewrite_pattern_with_match rl (render parts) original groups
    = Inr (concat (map (part_value rl original groups) parts))"
proof (cases "CHR ''{'' \<in> set (render parts)")
  case True
  with expand_render [OF assms] show ?thesis by (simp add: apply_rewrite_pattern_with_match_def)
next
  case False
  then have "concat (map (part_value rl original groups) parts) = render parts"
  proof (induction parts)
    case (Cons x parts)
    then show ?case by (cases x) auto
  qed simp
  with False show ?thesis by (simp add: apply_rewrite_pattern_with_match_def)
qed

text \<open>A brace in the wrong place of a header rewrite crashes the gateway: when the first closing brace stands before the
  first opening one, the slice between them has its ends reversed.\<close>

theorem header_rewrite_panics:
  assumes "CHR ''{'' \<notin> set a" "CHR ''}'' \<notin> set a" "CHR ''{'' \<notin> set b" "strip_prefix ''header.'' key = Some name"
    and "w_headers w = (key, a @ ''}'' @ b @ ''{'' @ c) # rest"
    and "w_from_user w = None" "w_from_host w = None" "w_to_user w = None" "w_to_host w = None"
  shows "apply_rewrite_rules rl w caps opt = Panic"
proof -
  have f: "find_char d (xs @ d # ys) = Some (length xs)" if "d \<notin> set xs" for d xs ys
    using that by (induction xs) auto
  have "find_char (CHR ''}'') (a @ ''}'' @ b @ ''{'' @ c) = Some (length a)" using f [of "CHR ''}''" a] assms(2) by simp
  moreover have "find_char (CHR ''{'') (a @ ''}'' @ b @ ''{'' @ c) = Some (length (a @ ''}'' @ b))"
    using f [of "CHR ''{''" "a @ ''}'' @ b" c] assms(1,3) by simp
  ultimately have "apply_rewrite_pattern (a @ ''}'' @ b @ ''{'' @ c) [] = Panic"
    by (simp add: apply_rewrite_pattern_def)
  with assms(4-9) show ?thesis
    by (simp add: apply_rewrite_rules_def rewrite_user_def rewrite_host_def bind_result_def)
qed

section \<open>Conditions and rewrites that are never looked at\<close>

text \<open>Four conditions of a rule have no effect.  The fields \<open>from\<close>, \<open>to\<close>, \<open>to.port\<close> and
  \<open>request_uri.port\<close> are read from the configuration, but whether a rule matches does not depend on them: a rule with
  no other condition matches every call.\<close>

theorem ignored_conditions:
  "matches_rule rl (rule\<lparr>conditions := (conditions rule)\<lparr>m_from := a, m_to := b, m_to_port := c, m_request_uri_port := d\<rparr>\<rparr>) ctx
     = matches_rule rl rule ctx"
proof -
  have "condition_fields (c'\<lparr>m_from := a, m_to := b, m_to_port := c, m_request_uri_port := d\<rparr>) ctx = condition_fields c' ctx" for c'
    by (simp add: condition_fields_def)
  then show ?thesis by (simp add: matches_rule_def split: sum.split bool.split)
qed

text \<open>Four rewrites have no effect but are reported.  The rewrites of the request URI and of the port are not applied
  to the INVITE, while the trace of the call lists them among the operations.\<close>

theorem ignored_rewrites:
  "apply_rewrite_rules rl (w\<lparr>w_to_port := a, w_request_uri_user := b, w_request_uri_host := c, w_request_uri_port := d\<rparr>) caps opt
     = apply_rewrite_rules rl w caps opt
   \<and> set (describe_rewrite_ops (w\<lparr>w_to_port := Some (x # xs), w_request_uri_user := Some (y # ys)\<rparr>))
     \<supseteq> {''to.port'', ''request_uri.user''}"
  by (simp add: apply_rewrite_rules_def describe_rewrite_ops_def set_map_filter
      del: List.map_filter_simps)

section \<open>The effect of a trunk\<close>

text \<open>What a trunk does to an INVITE.  The request goes to the host of the trunk's URI with the transport of the
  configuration; the users of caller and callee stay, their hosts are replaced when the trunk says so; credentials are
  set when the trunk has both parts; a trunk with a user name adds one header field, the identity of the caller as
  it was before.\<close>

theorem trunk_effect:
  assumes "uri_parse (sip rl) (dest t) = Some d" and "apply_trunk_config rl t opt = Inr opt'"
  shows "inv_destination opt' = Some \<lparr>a_type = Option.bind (trunk_transport t) transport_of, a_addr = host_with_port d\<rparr>
    \<and> u_user (caller opt') = u_user (caller opt) \<and> u_user (callee opt') = u_user (callee opt)
    \<and> host_with_port (caller opt') = (if rewrite_hostport t then host_with_port d else host_with_port (caller opt))
    \<and> host_with_port (callee opt') = (if rewrite_hostport t then host_with_port d else host_with_port (callee opt))
    \<and> (inv_credential opt' \<noteq> inv_credential opt \<longrightarrow> username t \<noteq> None \<and> password t \<noteq> None)
    \<and> (case inv_headers opt' of None \<Rightarrow> False | Some hs \<Rightarrow>
         hs = (case inv_headers opt of Some l \<Rightarrow> l | None \<Rightarrow> []) @
           (if username t = None then [] else [Other ''P-Asserted-Identity'' (''<'' @ uri_show (sip rl) (caller opt) @ ''>'')]))"
  using assms by (auto simp: apply_trunk_config_def Let_def split: option.splits)

lemma trunk_effect_witness:
  "let opt' = projr (apply_trunk_config demo_route_lib (demo_trunk\<lparr>username := Some ''u''\<rparr>) demo_invite)
   in u_user (caller opt') = Some ''100'' \<and> u_host (callee opt') = ''10.0.0.1''
      \<and> inv_headers opt' = Some [Other ''P-Asserted-Identity'' ''<sip:100@a.example>'']"
proof -
  let ?t = "demo_trunk\<lparr>username := Some ''u''\<rparr>"
  obtain opt' where o: "apply_trunk_config demo_route_lib ?t demo_invite = Inr opt'"
    by (simp add: apply_trunk_config_def demo_route_lib_def Let_def)
  have u: "uri_parse (sip demo_route_lib) (dest ?t) = Some (default_uri\<lparr>u_scheme := ''sip'', u_host := ''10.0.0.1''\<rparr>)"
    by (simp add: demo_route_lib_def demo_trunk_def)
  from trunk_effect [OF u o] o show ?thesis
    by (auto simp: demo_trunk_def demo_invite_def demo_uri_def host_with_port_def default_uri_def demo_route_lib_def
        user_or_default_def Let_def split: option.splits)
qed

lemma template_filled_witness:
  "apply_rewrite_pattern_with_match demo_route_lib ''00{1}'' ''0123'' (Some [''0123'', ''123'']) = Inr ''00123''"
proof -
  have "\<forall>x \<in> set [Lit ''00'', Ref 1]. part_ok x" by (simp add: usize_max_def)
  from template_filled [OF this, of demo_route_lib "''0123''" "Some [''0123'', ''123'']"] show ?thesis
    by (simp add: placeholder_value_def string_of_nat.simps)
qed

lemma header_rewrite_panics_witness:
  "apply_rewrite_rules demo_route_lib
     \<lparr>w_from_user = None, w_from_host = None, w_to_user = None, w_to_host = None, w_to_port = None, w_request_uri_user = None,
      w_request_uri_host = None, w_request_uri_port = None, w_headers = [(''header.X-Note'', ''a}b{c'')]\<rparr> Map.empty demo_invite = Panic"
  by (rule header_rewrite_panics [of "''a''" "''b''" "''header.X-Note''" "''X-Note''" _ "''c''" "[]"]) simp_all

end
