(* ===== verification/Routing.thy ===== *)
theory Routing
  imports Route_Rules
begin

text \<open>
  The routing of an INVITE, \<open>match_invite_impl\<close> of \<open>src/src/proxy/routing/matcher.rs\<close>: the rules in their
  order, and for the first that matches the rewriting, the policies, the choice of the trunk and the
  action.  The routing state is the round-robin counters and the state of the limiter behind the policy guard; the
  trace is written whether or not the caller asked for one.
\<close>

section \<open>State and results\<close>

datatype match_mode = Execute | Inspect

record hints =
  allow_codecs :: "string list option"
  hint_disable_ice :: "bool option"

datatype route_result =
    Forward invite_option "hints option"
  | RouteQueue invite_option queue_plan "hints option"
  | RouteApplication invite_option string "string option" bool
  | NotHandled invite_option
  | RouteAbort nat "string option"

record route_trace =
  matched_rule :: "string option"
  selected_trunk :: "string option"
  rewrite_operations :: "string list"
  abort :: "(nat \<times> string option) option"

record 's routing_state =
  round_robin_counters :: rr_counters
  limiter_state :: 's

record ('s, 'n) route_env =
  lib :: route_lib
  policy_funs :: "'n policy_lib"
  now :: int
  policy_guard :: "'s limiter option"
  trunks :: "(string, policy_spec trunk_config) hmap option"
  resource_lookup :: "(string \<Rightarrow> queue_config option result) option"
  source_trunk :: "source_trunk option"
  direction :: dial_direction
  mode :: match_mode

type_synonym 's routed = "route_result result run \<times> route_trace \<times> 's routing_state"

definition Forbidden :: nat where "Forbidden = 403"
definition BusyHere :: nat where "BusyHere = 486"

section \<open>Which rules come into question\<close>

definition rule_selected :: "('s, 'n) route_env \<Rightarrow> route_rule \<Rightarrow> bool" where
  "rule_selected env rule \<longleftrightarrow>
     rule_disabled rule \<noteq> Some True
     \<and> route_direction_matches (rule_direction rule) (direction env)
     \<and> (source_trunks rule = [] \<or>
          (\<exists>t. source_trunk env = Some t \<and> (\<exists>name \<in> set (source_trunks rule). eq_ignore_ascii_case name (st_name t))))
     \<and> (source_trunk_ids rule = [] \<or>
          (\<exists>i. Option.bind (source_trunk env) st_id = Some i \<and> i \<in> set (source_trunk_ids rule)))"

definition origin_country :: "('s, 'n) route_env \<Rightarrow> string option" where
  "origin_country env =
     Option.bind (source_trunk env) (\<lambda>s.
       Option.bind (Option.bind (trunks env) (\<lambda>m. hm_get m (st_name s))) country)"

section \<open>Policies and trunks\<close>

text \<open>The check of one policy; \<open>Inr (Some reason)\<close> is a rejection.\<close>

definition guard_check ::
    "('s, 'n) route_env \<Rightarrow> string \<Rightarrow> policy_spec option \<Rightarrow> invite_option \<Rightarrow> 's routing_state
       \<Rightarrow> string option result \<times> 's routing_state" where
  "guard_check env policy_id policy option st =
     (case (policy, policy_guard env) of
        (Some p, Some L) \<Rightarrow>
          (case check_policy L (policy_funs env) (now env) policy_id p (user_or_default (caller option))
                  (user_or_default (callee option)) (origin_country env) (limiter_state st) of
             (Inl e, s) \<Rightarrow> (Inl e, st\<lparr>limiter_state := s\<rparr>)
           | (Inr Allowed, s) \<Rightarrow> (Inr None, st\<lparr>limiter_state := s\<rparr>)
           | (Inr (Rejected r), s) \<Rightarrow> (Inr (Some (rejection_display r)), st\<lparr>limiter_state := s\<rparr>))
      | _ \<Rightarrow> (Inr None, st))"

definition abort_with :: "nat \<Rightarrow> string option \<Rightarrow> route_trace \<Rightarrow> 's routing_state \<Rightarrow> 's routed" where
  "abort_with code reason tr st = (Ret (Inr (RouteAbort code reason)), tr\<lparr>abort := Some (code, reason)\<rparr>, st)"

text \<open>Selecting a trunk, checking its policy and applying it; \<open>finish\<close> makes the result from the INVITE.\<close>

definition use_trunk ::
    "('s, 'n) route_env \<Rightarrow> dest_config \<Rightarrow> route_action \<Rightarrow> invite_option \<Rightarrow> (invite_option \<Rightarrow> route_result)
       \<Rightarrow> route_trace \<Rightarrow> 's routing_state \<Rightarrow> 's routed" where
  "use_trunk env dc a option finish tr st =
     (case select_trunk (lib env) dc (ra_select a) (ra_hash_key a) option (trunks env) (round_robin_counters st) of
        (Inl e, c) \<Rightarrow> (Ret (Inl e), tr, st\<lparr>round_robin_counters := c\<rparr>)
      | (Inr name, c) \<Rightarrow>
          (let tr1 = tr\<lparr>selected_trunk := Some name\<rparr>; st1 = st\<lparr>round_robin_counters := c\<rparr>
           in case Option.bind (trunks env) (\<lambda>m. hm_get m name) of
                None \<Rightarrow> (Ret (Inr (finish option)), tr1, st1)
              | Some trunk \<Rightarrow>
                  (case guard_check env (''trunk:'' @ name) (trunk_policy trunk) option st1 of
                     (Inl e, st2) \<Rightarrow> (Ret (Inl e), tr1, st2)
                   | (Inr (Some reason), st2) \<Rightarrow> abort_with Forbidden (Some reason) tr1 st2
                   | (Inr None, st2) \<Rightarrow>
                       (case apply_trunk_config (lib env) trunk option of
                          Inl e \<Rightarrow> (Ret (Inl e), tr1, st2)
                        | Inr option' \<Rightarrow> (Ret (Inr (finish option')), tr1, st2)))))"

section \<open>Actions\<close>

definition rule_hints :: "route_rule \<Rightarrow> hints option" where
  "rule_hints rule =
     (if codecs rule \<noteq> [] \<or> disable_ice_servers rule \<noteq> None
      then Some \<lparr>allow_codecs = (if codecs rule \<noteq> [] then Some (codecs rule) else None),
                 hint_disable_ice = disable_ice_servers rule\<rparr>
      else None)"

definition load_queue_plan :: "('s, 'n) route_env \<Rightarrow> route_action \<Rightarrow> queue_plan result" where
  "load_queue_plan env a =
     (case trimmed_non_empty (ra_queue a) of
        None \<Rightarrow> Inl (''queue action requires a '' @ quoted ''queue'' @ '' reference'')
      | Some queue_ref \<Rightarrow>
          (case resource_lookup env of
             None \<Rightarrow> Inl (''queue action cannot resolve '' @ quoted queue_ref @ '' without resource lookup'')
           | Some lookup \<Rightarrow>
               (case lookup (if \<forall>c \<in> set queue_ref. is_ascii_digit c then ''db-'' @ queue_ref else queue_ref) of
                  Inl e \<Rightarrow> Inl e
                | Inr None \<Rightarrow> Inl (''queue '' @ quoted queue_ref @ '' not found'')
                | Inr (Some cfg) \<Rightarrow>
                    (case to_queue_plan (lib env) cfg of
                       Inl e \<Rightarrow> Inl e
                     | Inr plan \<Rightarrow>
                         Inr (if label plan = None then plan\<lparr>label := Some queue_ref\<rparr> else plan)))))"

definition do_action ::
    "('s, 'n) route_env \<Rightarrow> route_rule \<Rightarrow> invite_option \<Rightarrow> route_trace \<Rightarrow> 's routing_state \<Rightarrow> 's routed" where
  "do_action env rule option tr st =
     (let a = action rule
      in case get_action_type a of
           ActReject \<Rightarrow>
             (case ra_reject a of
                Some r \<Rightarrow> abort_with (rej_code r) (rej_reason r) tr st
              | None \<Rightarrow> abort_with Forbidden None tr st)
         | ActBusy \<Rightarrow> abort_with BusyHere None tr st
         | ActForward \<Rightarrow>
             (case ra_dest a of
                Some dc \<Rightarrow>
                  if mode env = Execute
                  then use_trunk env dc a option (\<lambda>x. Forward x (rule_hints rule)) tr st
                  else (Ret (Inr (Forward option (rule_hints rule))), tr, st)
              | None \<Rightarrow> (Ret (Inr (Forward option (rule_hints rule))), tr, st))
         | ActQueue \<Rightarrow>
             (case load_queue_plan env a of
                Inl e \<Rightarrow> (Ret (Inl e), tr, st)
              | Inr plan \<Rightarrow>
                  if plan_strategy plan = None then
                    (case ra_dest a of
                       None \<Rightarrow> (Ret (Inl (''queue action requires '' @ quoted ''dest'' @ '' or inline queue targets'')), tr, st)
                     | Some dc \<Rightarrow>
                         if mode env = Execute
                         then use_trunk env dc a option (\<lambda>x. RouteQueue x plan (rule_hints rule)) tr st
                         else (Ret (Inr (RouteQueue option plan (rule_hints rule))), tr, st))
                  else (Ret (Inr (RouteQueue option plan (rule_hints rule))), tr, st))
         | ActApplication \<Rightarrow>
             (case ra_app a of
                None \<Rightarrow> (Ret (Inl (''application action requires '' @ quoted ''app'' @ '' field'')), tr, st)
              | Some app \<Rightarrow> (Ret (Inr (RouteApplication option app (ra_app_params a) (ra_auto_answer a))), tr, st)))"

section \<open>The rules\<close>

text \<open>What happens with the first rule that matches.\<close>

definition take_rule ::
    "('s, 'n) route_env \<Rightarrow> route_rule \<Rightarrow> match_context \<Rightarrow> invite_option \<Rightarrow> route_trace \<Rightarrow> 's routing_state \<Rightarrow> 's routed" where
  "take_rule env rule ctx option tr st =
     (case collect_match_captures (lib env) rule ctx of
        Inl e \<Rightarrow> (Ret (Inl e), tr, st)
      | Inr caps \<Rightarrow>
          (let tr1 = tr\<lparr>matched_rule := Some (rule_name rule)\<rparr>;
               tr2 = (case rewrite rule of
                        Some w \<Rightarrow> tr1\<lparr>rewrite_operations := rewrite_operations tr1 @ describe_rewrite_ops w\<rparr>
                      | None \<Rightarrow> tr1)
           in case (case rewrite rule of
                      Some w \<Rightarrow> apply_rewrite_rules (lib env) w caps option
                    | None \<Rightarrow> Ret (Inr option)) of
                Panic \<Rightarrow> (Panic, tr2, st)
              | Ret (Inl e) \<Rightarrow> (Ret (Inl e), tr2, st)
              | Ret (Inr option') \<Rightarrow>
                  (case guard_check env (rule_name rule) (rule_policy rule) option' st of
                     (Inl e, st1) \<Rightarrow> (Ret (Inl e), tr2, st1)
                   | (Inr (Some reason), st1) \<Rightarrow> abort_with Forbidden (Some reason) tr2 st1
                   | (Inr None, st1) \<Rightarrow> do_action env rule option' tr2 st1)))"

fun match_rules ::
    "('s, 'n) route_env \<Rightarrow> match_context \<Rightarrow> invite_option \<Rightarrow> route_rule list \<Rightarrow> route_trace \<Rightarrow> 's routing_state \<Rightarrow> 's routed" where
  "match_rules env ctx option [] tr st = (Ret (Inr (NotHandled option)), tr, st)"
| "match_rules env ctx option (rule # rules) tr st =
     (if \<not> rule_selected env rule then match_rules env ctx option rules tr st
      else case matches_rule (lib env) rule ctx of
             Inl e \<Rightarrow> (Ret (Inl e), tr, st)
           | Inr False \<Rightarrow> match_rules env ctx option rules tr st
           | Inr True \<Rightarrow> take_rule env rule ctx option tr st)"

definition empty_trace :: route_trace where
  "empty_trace = \<lparr>matched_rule = None, selected_trunk = None, rewrite_operations = [], abort = None\<rparr>"

definition match_invite_impl ::
    "('s, 'n) route_env \<Rightarrow> route_rule list option \<Rightarrow> invite_option \<Rightarrow> request \<Rightarrow> 's routing_state \<Rightarrow> 's routed" where
  "match_invite_impl env routes option req st =
     (case routes of
        None \<Rightarrow> (Ret (Inr (NotHandled option)), empty_trace, st)
      | Some rules \<Rightarrow> match_rules env (match_context_of option req) option rules empty_trace st)"

definition match_invite ::
    "('s, 'n) route_env \<Rightarrow> route_rule list option \<Rightarrow> invite_option \<Rightarrow> request \<Rightarrow> 's routing_state \<Rightarrow> 's routed" where
  "match_invite env = match_invite_impl (env\<lparr>mode := Execute\<rparr>)"

definition inspect_invite ::
    "('s, 'n) route_env \<Rightarrow> route_rule list option \<Rightarrow> invite_option \<Rightarrow> request \<Rightarrow> 's routing_state \<Rightarrow> 's routed" where
  "inspect_invite env = match_invite_impl (env\<lparr>mode := Inspect\<rparr>)"

section \<open>The first matching rule decides\<close>

definition passes_over :: "('s, 'n) route_env \<Rightarrow> match_context \<Rightarrow> route_rule \<Rightarrow> bool" where
  "passes_over env ctx rule \<longleftrightarrow> \<not> rule_selected env rule \<or> matches_rule (lib env) rule ctx = Inr False"

lemma match_rules_skip:
  "\<forall>r \<in> set pre. passes_over env ctx r \<Longrightarrow>
   match_rules env ctx opt (pre @ rules) tr st = match_rules env ctx opt rules tr st"
  by (induction pre) (auto simp: passes_over_def)

definition handled :: "'s routed \<Rightarrow> bool" where
  "handled r \<longleftrightarrow> (\<forall>opt. fst r \<noteq> Ret (Inr (NotHandled opt)))"

lemma abort_handled: "handled (abort_with code reason tr st)"
  by (simp add: handled_def abort_with_def)

lemma use_trunk_handled:
  "(\<And>x y. finish x \<noteq> NotHandled y) \<Longrightarrow> handled (use_trunk env dc a opt finish tr st)"
  by (auto simp: handled_def use_trunk_def abort_with_def Let_def split: prod.splits sum.splits option.splits)

lemma do_action_handled: "handled (do_action env rule opt tr st)"
  by (cases "get_action_type (action rule)")
    (auto simp: do_action_def Let_def abort_handled intro: use_trunk_handled split: option.splits sum.splits,
     auto simp: handled_def)

lemma take_rule_handled: "handled (take_rule env rule ctx opt tr st)"
  using do_action_handled [of env rule] abort_handled
  by (auto simp: take_rule_def Let_def split: sum.splits run.splits prod.splits option.splits)
    (auto simp: handled_def abort_with_def)

lemma match_rules_not_handled:
  "fst (match_rules env ctx opt rules tr st) = Ret (Inr (NotHandled opt')) \<Longrightarrow> \<forall>r \<in> set rules. passes_over env ctx r"
proof (induction rules)
  case (Cons r rules)
  then show ?case
    using take_rule_handled [of env r ctx opt tr st]
    by (auto simp: passes_over_def handled_def split: if_splits sum.splits bool.splits)
qed simp



section \<open>Previews\<close>

lemma guard_keeps_rr: "guard_check env i p opt st = (r, st') \<Longrightarrow> round_robin_counters st' = round_robin_counters st"
  by (auto simp: guard_check_def split: option.splits prod.splits sum.splits policy_check_status.splits)

lemma do_action_inspect: "mode env = Inspect \<Longrightarrow> snd (snd (do_action env rule opt tr st)) = st"
  by (cases "get_action_type (action rule)")
    (auto simp: do_action_def abort_with_def Let_def split: option.splits sum.splits)

lemma take_rule_inspect:
  assumes "mode env = Inspect"
  shows "round_robin_counters (snd (snd (take_rule env rule ctx opt tr st))) = round_robin_counters st"
  using do_action_inspect [OF assms]
  by (auto simp: take_rule_def Let_def abort_with_def dest!: guard_keeps_rr
      split: sum.splits run.splits prod.splits option.splits)

lemma match_rules_inspect:
  "mode env = Inspect \<Longrightarrow> round_robin_counters (snd (snd (match_rules env ctx opt rules tr st))) = round_robin_counters st"
  by (induction rules) (auto simp: take_rule_inspect split: sum.splits bool.splits)

text \<open>A preview does not move the round robin: inspecting an INVITE leaves all counters of the trunk selection.\<close>

theorem inspect_keeps_round_robin:
  "round_robin_counters (snd (snd (inspect_invite env routes opt req st))) = round_robin_counters st"
  by (auto simp: inspect_invite_def match_invite_impl_def match_rules_inspect split: option.splits)

text \<open>A preview uses up the limits of the caller.  Inspecting an INVITE whose first matching rule has a policy leaves
  the limiter as a real call would after the check of this policy.\<close>

theorem inspect_consumes_limits:
  assumes "rule_selected (env\<lparr>mode := Inspect\<rparr>) rule" and "matches_rule (lib env) rule (match_context_of opt req) = Inr True"
    and "collect_match_captures (lib env) rule (match_context_of opt req) = Inr caps"
    and "rewrite rule = None" and "rule_policy rule = Some p" and "policy_guard env = Some L"
  shows "limiter_state (snd (snd (inspect_invite env (Some (rule # rules)) opt req st))) =
    snd (check_policy L (policy_funs env) (now env) (rule_name rule) p (user_or_default (caller opt))
      (user_or_default (callee opt)) (origin_country env) (limiter_state st))"
proof -
  let ?env = "env\<lparr>mode := Inspect\<rparr>"
  obtain r s where c: "check_policy L (policy_funs env) (now env) (rule_name rule) p (user_or_default (caller opt))
      (user_or_default (callee opt)) (origin_country env) (limiter_state st) = (r, s)" by fastforce
  have g: "snd (guard_check ?env (rule_name rule) (rule_policy rule) opt st) = st\<lparr>limiter_state := s\<rparr>"
    using c assms(5,6) by (auto simp: guard_check_def origin_country_def split: sum.splits policy_check_status.splits)
  obtain x st1 where x: "guard_check ?env (rule_name rule) (rule_policy rule) opt st = (x, st1)" by fastforce
  have "snd (snd (inspect_invite env (Some (rule # rules)) opt req st)) = st1"
    using assms(1-4) x do_action_inspect [of ?env rule]
    by (auto simp: inspect_invite_def match_invite_impl_def take_rule_def Let_def abort_with_def
        split: sum.splits option.splits)
  with g x c show ?thesis by simp
qed

section \<open>Aborted calls\<close>

definition abort_traced :: "'s routed \<Rightarrow> bool" where
  "abort_traced r \<longleftrightarrow>
     (\<forall>code reason. fst r = Ret (Inr (RouteAbort code reason)) \<longleftrightarrow> abort (fst (snd r)) = Some (code, reason))"

lemma use_trunk_traced:
  "abort tr = None \<Longrightarrow> (\<And>x c r. finish x \<noteq> RouteAbort c r) \<Longrightarrow> abort_traced (use_trunk env dc a opt finish tr st)"
  by (auto simp: abort_traced_def use_trunk_def abort_with_def Let_def split: prod.splits sum.splits option.splits)

lemma do_action_traced: "abort tr = None \<Longrightarrow> abort_traced (do_action env rule opt tr st)"
  by (cases "get_action_type (action rule)")
    (auto simp: do_action_def Let_def intro!: use_trunk_traced split: option.splits sum.splits,
     auto simp: abort_traced_def abort_with_def)

lemma take_rule_traced: "abort tr = None \<Longrightarrow> abort_traced (take_rule env rule ctx opt tr st)"
  by (auto simp: take_rule_def Let_def intro!: do_action_traced
      split: sum.splits run.splits prod.splits option.splits) (auto simp: abort_traced_def abort_with_def)

lemma match_rules_traced: "abort tr = None \<Longrightarrow> abort_traced (match_rules env ctx opt rules tr st)"
  by (induction rules) (auto intro!: take_rule_traced split: sum.splits bool.splits, auto simp: abort_traced_def)

text \<open>The trace tells why a call was refused.  A call is aborted with a status and a reason exactly when the trace has this
  status and reason.\<close>

theorem abort_is_traced: "abort_traced (match_invite_impl env routes opt req st)"
  by (auto simp: match_invite_impl_def empty_trace_def intro!: match_rules_traced split: option.splits)
    (auto simp: abort_traced_def)

section \<open>A concrete run\<close>

definition no_conditions :: match_conditions where
  "no_conditions = \<lparr>m_from_user = None, m_from_host = None, m_to_user = None, m_to_host = None, m_to_port = None,
     m_request_uri_user = None, m_request_uri_host = None, m_request_uri_port = None, m_headers = [], m_from = None,
     m_to = None, m_caller = None, m_callee = None\<rparr>"

definition demo_rule :: route_rule where
  "demo_rule = \<lparr>rule_name = ''r1'', rule_direction = RouteAny, source_trunks = [], source_trunk_ids = [],
     conditions = no_conditions, rewrite = None,
     action = \<lparr>ra_action = Some ''busy'', ra_dest = None, ra_select = ''rr'', ra_hash_key = None, ra_reject = None, ra_queue = None,
               ra_app = None, ra_app_params = None, ra_auto_answer = True\<rparr>,
     codecs = [], disable_ice_servers = None, rule_disabled = None, rule_policy = Some demo_policy\<rparr>"

definition demo_env :: "(counts, unit) route_env" where
  "demo_env = \<lparr>lib = demo_route_lib, policy_funs = demo_policy_lib, now = ns_per_sec, policy_guard = Some mem_limiter,
     trunks = None, resource_lookup = None, source_trunk = None, direction = DirInbound, mode = Execute\<rparr>"

definition demo_req :: request where
  "demo_req = \<lparr>req_uri = demo_uri ''200'' ''b.example'', req_headers = []\<rparr>"

definition demo_state :: "counts routing_state" where
  "demo_state = \<lparr>round_robin_counters = (\<lambda>_. 0), limiter_state = []\<rparr>"

lemma demo_rule_matches:
  "rule_selected (demo_env\<lparr>mode := m\<rparr>) demo_rule" "matches_rule demo_route_lib demo_rule ctx = Inr True"
  "collect_match_captures demo_route_lib demo_rule ctx = Inr Map.empty"
  by (simp_all add: rule_selected_def demo_rule_def demo_env_def matches_rule_def condition_fields_def no_conditions_def
      collect_match_captures_def header_fields_def List.map_filter_simps)


lemma inspect_consumes_limits_witness:
  "limiter_state (snd (snd (inspect_invite demo_env (Some [demo_rule]) demo_invite demo_req demo_state))) \<noteq> []"
proof -
  let ?ctx = "match_context_of demo_invite demo_req"
  have h: "rule_selected (demo_env\<lparr>mode := Inspect\<rparr>) demo_rule" "matches_rule (lib demo_env) demo_rule ?ctx = Inr True"
    "collect_match_captures (lib demo_env) demo_rule ?ctx = Inr Map.empty" "rewrite demo_rule = None"
    "rule_policy demo_rule = Some demo_policy" "policy_guard demo_env = Some mem_limiter"
    using demo_rule_matches by (simp_all add: demo_env_def demo_rule_def)
  have e: "policy_funs demo_env = demo_policy_lib" "now demo_env = ns_per_sec" "limiter_state demo_state = []"
    by (simp_all add: demo_env_def demo_state_def)
  have p: "p_frequency_limit demo_policy = Some \<lparr>fl_count = 1, fl_window_hours = 1\<rparr>" "daily_limit demo_policy = None"
    "p_concurrency demo_policy = Some 1" by (simp_all add: demo_policy_def)
  have "snd (check_policy mem_limiter demo_policy_lib ns_per_sec i demo_policy c d oc []) \<noteq> []" for i c d oc
    by (simp add: check_policy_def demo_policy_open apply_limit_def mem_limiter_def p mem_check_and_increment_def
        mem_window_check_def timestamp_def ns_per_sec_def mem_check_concurrency_def Let_def AList.update_nonempty
        split: option.splits prod.splits)
  then show ?thesis
    using inspect_consumes_limits [OF h, of "[]" demo_state] e by simp
qed

end
