(* ===== verification/Registrar.thy ===== *)
theory Registrar
  imports Auth Locator
begin

text \<open>
  The registrar, \<open>src/src/proxy/registrar.rs\<close>: reading the contacts of a REGISTER request and storing them in the
  location service under the user of the request.  Parsing of URIs is the stack's.  The location service is a record of
  two operations, which the locator in memory provides.
\<close>

section \<open>Contacts\<close>

record contact_param =
  cp_name :: string
  cp_value :: "string option"
  cp_quoted :: bool

definition param_matches :: "string \<Rightarrow> contact_param \<Rightarrow> bool" where
  "param_matches needle p = eq_ignore_ascii_case (cp_name p) needle"

definition rendered :: "contact_param \<Rightarrow> string" where
  "rendered p =
     (case cp_value p of
        Some value \<Rightarrow>
          if cp_quoted p \<or> (\<exists>c \<in> set value. c \<in> {CHR '' '', CHR '';'', CHR '',''})
          then cp_name p @ ''='' @ quote @ value @ quote
          else cp_name p @ ''='' @ value
      | None \<Rightarrow> cp_name p)"

record parsed_contact =
  pc_display_name :: "string option"
  pc_uri :: uri
  pc_uri_string :: string
  pc_params :: "contact_param list"
  pc_wildcard :: bool
  pc_has_angle_brackets :: bool

definition wildcard_contact :: parsed_contact where
  "wildcard_contact =
     \<lparr>pc_display_name = None, pc_uri = default_uri, pc_uri_string = [], pc_params = [], pc_wildcard = True,
      pc_has_angle_brackets = False\<rparr>"

definition contact_param_value :: "string \<Rightarrow> parsed_contact \<Rightarrow> string option" where
  "contact_param_value needle c = Option.bind (List.find (param_matches needle) (pc_params c)) cp_value"

definition contact_expires :: "parsed_contact \<Rightarrow> nat option" where
  "contact_expires c = Option.bind (contact_param_value ''expires'' c) (parse_unsigned u32_max)"

definition contact_instance_id :: "parsed_contact \<Rightarrow> string option" where
  "contact_instance_id = contact_param_value ''+sip.instance''"

definition contact_gruu :: "parsed_contact \<Rightarrow> string option" where
  "contact_gruu = contact_param_value ''pub-gruu''"

definition contact_temp_gruu :: "parsed_contact \<Rightarrow> string option" where
  "contact_temp_gruu = contact_param_value ''temp-gruu''"

definition contact_reg_id :: "parsed_contact \<Rightarrow> string option" where
  "contact_reg_id = contact_param_value ''reg-id''"

definition parse_transport_token :: "string \<Rightarrow> transport option" where
  "parse_transport_token value =
     (let t = to_ascii_lowercase value
      in if t = ''udp'' then Some Udp else if t = ''tcp'' then Some Tcp else if t = ''tls'' then Some Tls
         else if t = ''ws'' then Some Ws else if t = ''wss'' then Some Wss else None)"

text \<open>The transport parameter inside of a URI is read by the stack.\<close>

definition contact_transport :: "(uri \<Rightarrow> transport option) \<Rightarrow> parsed_contact \<Rightarrow> transport option" where
  "contact_transport uri_transport c =
     (case Option.bind (contact_param_value ''transport'' c) parse_transport_token of
        Some t \<Rightarrow> Some t
      | None \<Rightarrow> uri_transport (pc_uri c))"

definition destination_from_uri :: "(uri \<Rightarrow> transport option) \<Rightarrow> parsed_contact \<Rightarrow> sip_addr" where
  "destination_from_uri uri_transport c =
     \<lparr>a_type = contact_transport uri_transport c, a_addr = host_with_port (pc_uri c)\<rparr>"

definition escape_char :: "char \<Rightarrow> string" where
  "escape_char c = (if c = CHR 0x5C then [CHR 0x5C, CHR 0x5C] else if c = CHR 0x22 then [CHR 0x5C, CHR 0x22] else [c])"

definition escape_display_name :: "string \<Rightarrow> string" where
  "escape_display_name input = concat (map escape_char input)"

definition own_params :: "parsed_contact \<Rightarrow> contact_param list" where
  "own_params c = filter (\<lambda>p. \<not> param_matches ''expires'' p) (pc_params c)"

definition contact_value :: "parsed_contact \<Rightarrow> nat \<Rightarrow> string" where
  "contact_value c e =
     (if pc_wildcard c then ''*''
      else (case pc_display_name c of Some d \<Rightarrow> quote @ escape_display_name d @ quote @ '' '' | None \<Rightarrow> [])
        @ (if pc_has_angle_brackets c then ''<'' @ pc_uri_string c @ ''>'' else pc_uri_string c)
        @ concat (map (\<lambda>p. '';'' @ rendered p) (own_params c))
        @ '';expires='' @ string_of_nat e)"

definition param_map :: "parsed_contact \<Rightarrow> (string, string) hmap" where
  "param_map c = fold (\<lambda>p. hm_insert (to_ascii_lowercase (cp_name p)) (text_or_empty (cp_value p))) (own_params c) []"

section \<open>Parsing\<close>

definition collect_header_values :: "headers \<Rightarrow> string \<Rightarrow> string list" where
  "collect_header_values hs name =
     map (\<lambda>h. trim (header_value h)) (filter (\<lambda>h. to_ascii_lowercase (trim (header_name h)) = to_ascii_lowercase name) hs)"

text \<open>The entries of a field: commas separate them, but not between quotes or angle brackets.  The segment since the last
  comma is kept in reverse.\<close>

definition flush_entry :: "string \<Rightarrow> string list" where
  "flush_entry seg = (let t = trim (rev seg) in if t = [] then [] else [t])"

fun split_entries :: "bool \<Rightarrow> nat \<Rightarrow> string \<Rightarrow> string \<Rightarrow> string list" where
  "split_entries in_quotes depth seg [] = flush_entry seg"
| "split_entries in_quotes depth seg (ch # rest) =
     (if ch = CHR 0x22 then split_entries (\<not> in_quotes) depth (ch # seg) rest
      else if ch = CHR ''<'' \<and> \<not> in_quotes then split_entries in_quotes (depth + 1) (ch # seg) rest
      else if ch = CHR ''>'' \<and> \<not> in_quotes \<and> 0 < depth then split_entries in_quotes (depth - 1) (ch # seg) rest
      else if ch = CHR '','' \<and> \<not> in_quotes \<and> depth = 0 then flush_entry seg @ split_entries in_quotes depth [] rest
      else split_entries in_quotes depth (ch # seg) rest)"

definition split_contact_entries :: "string \<Rightarrow> string list" where
  "split_contact_entries value = split_entries False 0 [] value"

fun trim_start_char :: "char \<Rightarrow> string \<Rightarrow> string" where
  "trim_start_char d [] = []"
| "trim_start_char d (c # cs) = (if c = d then trim_start_char d cs else c # cs)"

definition trim_end_char :: "char \<Rightarrow> string \<Rightarrow> string" where
  "trim_end_char d s = rev (trim_start_char d (rev s))"

definition build_contact_param :: "string \<Rightarrow> contact_param option" where
  "build_contact_param value =
     (let cleaned = trim (trim_start_char (CHR '';'') (trim value))
      in if cleaned = [] then None
         else case split_once (CHR ''='') cleaned of
                Some (name, raw) \<Rightarrow>
                  (let raw_value = trim raw
                   in Some (if starts_with quote raw_value \<and> ends_with quote raw_value \<and> 2 \<le> length raw_value
                            then \<lparr>cp_name = trim name, cp_value = Some (butlast (tl raw_value)), cp_quoted = True\<rparr>
                            else \<lparr>cp_name = trim name, cp_value = Some raw_value, cp_quoted = False\<rparr>))
              | None \<Rightarrow> Some \<lparr>cp_name = cleaned, cp_value = None, cp_quoted = False\<rparr>)"

definition flush_param :: "string \<Rightarrow> contact_param list" where
  "flush_param cur =
     (let t = trim (rev cur) in if t = [] then [] else (case build_contact_param t of Some p \<Rightarrow> [p] | None \<Rightarrow> []))"

fun split_params :: "bool \<Rightarrow> string \<Rightarrow> string \<Rightarrow> contact_param list" where
  "split_params in_quotes cur [] = flush_param cur"
| "split_params in_quotes cur (ch # rest) =
     (if ch = CHR 0x22 then split_params (\<not> in_quotes) (ch # cur) rest
      else if ch = CHR '';'' \<and> \<not> in_quotes then flush_param cur @ split_params in_quotes [] rest
      else split_params in_quotes (ch # cur) rest)"

definition parse_contact_params :: "string \<Rightarrow> contact_param list" where
  "parse_contact_params segment = split_params False [] (trim segment)"

text \<open>The name before the address, and what remains.\<close>

definition contact_name :: "string \<Rightarrow> string option \<times> string" where
  "contact_name trimmed =
     (if starts_with quote trimmed then
        (case find_char (CHR 0x22) (tl trimmed) of
           Some e \<Rightarrow> (Some (take e (tl trimmed)), trim (drop (e + 1) (tl trimmed)))
         | None \<Rightarrow> (None, trimmed))
      else case find_char (CHR ''<'') trimmed of
             Some pos \<Rightarrow>
               (let maybe_name = trim (take pos trimmed)
                in (if maybe_name = [] then None else Some (trim_end_char (CHR 0x22) (trim_start_char (CHR 0x22) maybe_name)),
                    trim (drop pos trimmed)))
           | None \<Rightarrow> (None, trimmed))"

text \<open>The address and the text of the parameters.\<close>

definition contact_address :: "string \<Rightarrow> (string \<times> string \<times> bool) result" where
  "contact_address remainder =
     (if starts_with ''<'' remainder then
        (case find_char (CHR ''>'') remainder of
           None \<Rightarrow> Inl (''contact header missing '' @ [CHR 0x27, CHR ''>'', CHR 0x27])
         | Some e \<Rightarrow> Inr (trim (drop 1 (take e remainder)), trim (drop (e + 1) remainder), True))
      else case split_once (CHR '';'') remainder of
             Some (a, b) \<Rightarrow> Inr (trim a, b, False)
           | None \<Rightarrow> Inr (trim remainder, [], False))"

definition parse_contact_entry :: "sip_lib \<Rightarrow> string \<Rightarrow> parsed_contact result" where
  "parse_contact_entry lib entry =
     (let trimmed = trim entry
      in if trimmed = ''*'' then Inr wildcard_contact
         else let (display_name, remainder) = contact_name trimmed
              in case contact_address remainder of
                   Inl e \<Rightarrow> Inl e
                 | Inr (uri_part, param_part, brackets) \<Rightarrow>
                     if uri_part = ''*'' then Inr wildcard_contact
                     else case uri_parse lib uri_part of
                            None \<Rightarrow> Inl (''failed to parse contact uri '' @ uri_part)
                          | Some u \<Rightarrow>
                              Inr \<lparr>pc_display_name = display_name, pc_uri = u, pc_uri_string = uri_part,
                                   pc_params = parse_contact_params param_part, pc_wildcard = False,
                                   pc_has_angle_brackets = brackets\<rparr>)"

fun parse_all :: "('a \<Rightarrow> 'b result) \<Rightarrow> 'a list \<Rightarrow> 'b list result" where
  "parse_all f [] = Inr []"
| "parse_all f (x # xs) =
     (case f x of Inl e \<Rightarrow> Inl e | Inr y \<Rightarrow> (case parse_all f xs of Inl e \<Rightarrow> Inl e | Inr ys \<Rightarrow> Inr (y # ys)))"

definition parse_contact_headers :: "sip_lib \<Rightarrow> headers \<Rightarrow> parsed_contact list result" where
  "parse_contact_headers lib hs =
     parse_all (parse_contact_entry lib) (concat (map split_contact_entries (collect_header_values hs ''Contact'')))"

definition parse_route_header :: "sip_lib \<Rightarrow> headers \<Rightarrow> string \<Rightarrow> uri list" where
  "parse_route_header lib hs name =
     List.map_filter (\<lambda>entry. uri_parse lib (trim (trim_end_char (CHR ''>'') (trim_start_char (CHR ''<'') (trim entry)))))
       (concat (map split_contact_entries (collect_header_values hs name)))"

section \<open>The module\<close>

record 'l locator_ops =
  lo_register :: "string \<Rightarrow> string option \<Rightarrow> location \<Rightarrow> 'l \<Rightarrow> unit result \<times> 'l"
  lo_unregister :: "string \<Rightarrow> string option \<Rightarrow> 'l \<Rightarrow> unit result \<times> 'l"

definition memory_ops :: "sip_lib \<Rightarrow> instant \<Rightarrow> memory_locator locator_ops" where
  "memory_ops lib now =
     \<lparr>lo_register = \<lambda>user realm loc l. (Inr (), register lib now user realm loc l),
      lo_unregister = \<lambda>user realm l. (Inr (), unregister user realm l)\<rparr>"

text \<open>The fields of a location that no other component reads.\<close>

record binding_extra =
  be_contact_params :: "(string, string) hmap"
  be_path :: "uri list option"
  be_service_route :: "uri list option"
  be_temp_gruu :: "string option"
  be_reg_id :: "string option"
  be_user_agent :: "string option"

datatype registrar_event = EvRegistered location binding_extra | EvUnregistered location

record registrar_module =
  rg_lib :: sip_lib
  rg_auth_lib :: auth_lib
  rg_uri_transport :: "uri \<Rightarrow> transport option"
  rg_addrs :: "sip_addr list"
  rg_home_proxy :: "sip_addr option"
  rg_registrar_expires :: "nat option"
  rg_allows :: "string list"

record 'l registrar_state =
  rs_locator :: 'l
  rs_events :: "registrar_event list"
  rs_replies :: "(nat \<times> headers) list"

definition reply :: "nat \<Rightarrow> headers \<Rightarrow> 'l registrar_state \<Rightarrow> proxy_action result \<times> 'l registrar_state" where
  "reply status hs s = (Inr Abort, s\<lparr>rs_replies := rs_replies s @ [(status, hs)]\<rparr>)"

definition kept_header :: "header \<Rightarrow> bool" where
  "kept_header h = (case h of Std t _ \<Rightarrow> t \<notin> {HFrom, HTo, HCallId, HCSeq, HVia} | Other _ _ \<Rightarrow> True)"

definition binding_location ::
  "registrar_module \<Rightarrow> instant \<Rightarrow> sip_tx \<Rightarrow> sip_user \<Rightarrow> uri \<Rightarrow> nat \<Rightarrow> parsed_contact \<Rightarrow> location \<times> binding_extra" where
  "binding_location m now tx user to_uri e entry =
     (let dest = (case su_destination user of Some d \<Rightarrow> d | None \<Rightarrow> destination_from_uri (rg_uri_transport m) entry);
          tr = contact_transport (rg_uri_transport m) entry;
          path_uris = parse_route_header (rg_lib m) (rq_headers tx) ''Path'';
          service_routes = parse_route_header (rg_lib m) (rq_headers tx) ''Service-Route''
      in (\<lparr>aor = pc_uri entry, expires = e, destination = Some dest, last_modified = Some now,
           supports_webrtc = ((tr = Some Ws \<or> tr = Some Wss) \<and> contains_str ''.invalid'' (u_host (pc_uri entry)))
             \<or> su_is_support_webrtc user,
           loc_credential = None, loc_headers = Some (filter kept_header (rq_headers tx)), registered_aor = Some to_uri,
           contact_raw = Some (contact_value entry e), instance_id = contact_instance_id entry, gruu = contact_gruu entry,
           loc_transport = (case tr of Some t \<Rightarrow> Some t | None \<Rightarrow> a_type dest), home_proxy = rg_home_proxy m\<rparr>,
          \<lparr>be_contact_params = param_map entry, be_path = (if path_uris = [] then None else Some path_uris),
           be_service_route = (if service_routes = [] then None else Some service_routes),
           be_temp_gruu = contact_temp_gruu entry, be_reg_id = contact_reg_id entry,
           be_user_agent = first_header HUserAgent (rq_headers tx)\<rparr>))"

definition entry_expires :: "registrar_module \<Rightarrow> nat option \<Rightarrow> parsed_contact \<Rightarrow> nat" where
  "entry_expires m global_expires entry =
     (case or_else (contact_expires entry) global_expires of
        Some e \<Rightarrow> e
      | None \<Rightarrow> (case rg_registrar_expires m of Some e \<Rightarrow> e | None \<Rightarrow> 60))"

text \<open>The loop over the contacts: the header fields of the answer, or nothing when the location service fails.\<close>

fun register_contacts ::
  "registrar_module \<Rightarrow> 'l locator_ops \<Rightarrow> instant \<Rightarrow> sip_tx \<Rightarrow> sip_user \<Rightarrow> uri \<Rightarrow> nat option \<Rightarrow> parsed_contact list
     \<Rightarrow> headers \<Rightarrow> 'l registrar_state \<Rightarrow> headers option \<times> 'l registrar_state" where
  "register_contacts m ops now tx user to_uri global_expires [] hs s = (Some hs, s)"
| "register_contacts m ops now tx user to_uri global_expires (entry # rest) hs s =
     (let e = entry_expires m global_expires entry;
          (loc, extra) = binding_location m now tx user to_uri e entry
      in case lo_register ops (su_username user) (su_realm user) loc (rs_locator s) of
           (Inl _, l) \<Rightarrow> (None, s\<lparr>rs_locator := l\<rparr>)
         | (Inr _, l) \<Rightarrow>
             register_contacts m ops now tx user to_uri global_expires rest
               (hs @ [Other ''Contact'' (contact_value entry e)])
               (s\<lparr>rs_locator := l, rs_events := rs_events s @ [EvRegistered loc extra]\<rparr>))"

definition unregister_all ::
  "'l locator_ops \<Rightarrow> sip_user \<Rightarrow> uri \<Rightarrow> 'l registrar_state \<Rightarrow> proxy_action result \<times> 'l registrar_state" where
  "unregister_all ops user to_uri s =
     (let (_, l) = lo_unregister ops (su_username user) (su_realm user) (rs_locator s)
      in reply 200 [] (s\<lparr>rs_locator := l,
           rs_events := rs_events s @ [EvUnregistered (default_location\<lparr>aor := to_uri, registered_aor := Some to_uri\<rparr>)]\<rparr>))"

fun join_with :: "string \<Rightarrow> string list \<Rightarrow> string" where
  "join_with sep [] = []"
| "join_with sep [x] = x"
| "join_with sep (x # y # ys) = x @ sep @ join_with sep (y # ys)"

definition success_headers :: "registrar_module \<Rightarrow> nat option \<Rightarrow> headers \<Rightarrow> headers" where
  "success_headers m global_expires hs =
     hs @ (if rg_allows m = [] then [] else [Std HAllow (join_with '','' (rg_allows m))])
     @ [Std (HTyped ''Expires'') (string_of_nat (case global_expires of Some e \<Rightarrow> e
          | None \<Rightarrow> (case rg_registrar_expires m of Some e \<Rightarrow> e | None \<Rightarrow> 60)))]"

definition to_uri_of :: "sip_tx \<Rightarrow> uri option" where
  "to_uri_of tx = (case rq_to tx of Inr th \<Rightarrow> (case th_uri th of Inr u \<Rightarrow> Some u | Inl _ \<Rightarrow> None) | Inl _ \<Rightarrow> None)"

definition registrar_on_transaction_begin ::
  "registrar_module \<Rightarrow> 'l locator_ops \<Rightarrow> instant \<Rightarrow> sip_tx \<Rightarrow> 'l registrar_state \<Rightarrow> proxy_action result \<times> 'l registrar_state" where
  "registrar_on_transaction_begin m ops now tx s =
     (if rq_method tx \<noteq> MRegister then (Inr Continue, s)
      else case user_of_tx (rg_auth_lib m) (rg_addrs m) tx of
             Inl _ \<Rightarrow> reply 400 [] s
           | Inr user \<Rightarrow>
               (case to_uri_of tx of
                  None \<Rightarrow> reply 400 [] s
                | Some to_uri \<Rightarrow>
                    (let global_expires = Option.bind (first_header (HTyped ''Expires'') (rq_headers tx)) (parse_unsigned u32_max)
                     in case parse_contact_headers (rg_lib m) (rq_headers tx) of
                          Inl _ \<Rightarrow> reply 400 [] s
                        | Inr [] \<Rightarrow> reply 400 [] s
                        | Inr (entry # entries) \<Rightarrow>
                            let wildcards = length (filter pc_wildcard (entry # entries))
                            in if 0 < wildcards then
                                 (if 1 < wildcards \<or> entries \<noteq> [] then reply 400 [] s
                                  else if (case or_else (contact_expires entry) global_expires of Some e \<Rightarrow> e | None \<Rightarrow> 0) \<noteq> 0
                                  then reply 400 [] s
                                  else unregister_all ops user to_uri s)
                               else
                                 case register_contacts m ops now tx user to_uri global_expires (entry # entries) [] s of
                                   (None, s1) \<Rightarrow> reply 503 [] s1
                                 | (Some hs, s1) \<Rightarrow> reply 200 (success_headers m global_expires hs) s1)))"

section \<open>Contacts can be read back\<close>

definition no_specials :: "string \<Rightarrow> bool" where
  "no_specials s \<longleftrightarrow> (\<forall>c \<in> set s. c \<noteq> CHR 0x22 \<and> c \<noteq> CHR '';'' \<and> c \<noteq> CHR ''='')"

text \<open>A parameter as the parser produces it from a well-formed text.\<close>

definition plain_param :: "contact_param \<Rightarrow> bool" where
  "plain_param p \<longleftrightarrow> cp_name p \<noteq> [] \<and> no_specials (cp_name p) \<and> trim (cp_name p) = cp_name p
     \<and> (case cp_value p of
          None \<Rightarrow> \<not> cp_quoted p
        | Some v \<Rightarrow> CHR 0x22 \<notin> set v \<and> (cp_quoted p \<or> (trim v = v \<and> (\<forall>c \<in> set v. c \<notin> {CHR '' '', CHR '';'', CHR '',''}))))"

lemma split_params_plain:
  "(\<forall>c \<in> set s. c \<noteq> CHR 0x22 \<and> c \<noteq> CHR '';'') \<Longrightarrow> split_params q cur (s @ rest) = split_params q (rev s @ cur) rest"
  by (induction s arbitrary: cur) auto

lemma split_params_quoted:
  "(\<forall>c \<in> set s. c \<noteq> CHR 0x22) \<Longrightarrow> split_params True cur (s @ rest) = split_params True (rev s @ cur) rest"
  by (induction s arbitrary: cur) auto

lemma rendered_cases:
  assumes "plain_param p"
  obtains "cp_value p = None" "rendered p = cp_name p"
  | v where "cp_value p = Some v" "cp_quoted p" "rendered p = cp_name p @ ''='' @ quote @ v @ quote" "CHR 0x22 \<notin> set v"
  | v where "cp_value p = Some v" "\<not> cp_quoted p" "rendered p = cp_name p @ ''='' @ v" "CHR 0x22 \<notin> set v" "CHR '';'' \<notin> set v" "trim v = v"
  using assms by (cases "cp_value p"; cases "cp_quoted p") (auto simp: plain_param_def rendered_def)

lemma split_params_rendered:
  assumes "plain_param p"
  shows "split_params False cur (rendered p @ rest) = split_params False (rev (rendered p) @ cur) rest"
proof -
  have name: "\<forall>c \<in> set (cp_name p). c \<noteq> CHR 0x22 \<and> c \<noteq> CHR '';''" using assms by (auto simp: plain_param_def no_specials_def)
  show ?thesis
  proof (cases rule: rendered_cases [OF assms])
    case 1
    then show ?thesis using split_params_plain [OF name] by simp
  next
    case (2 v)
    have v: "\<forall>c \<in> set v. c \<noteq> CHR 0x22" using 2(4) by auto
    show ?thesis using split_params_plain [OF name, of False cur "''='' @ quote @ v @ quote @ rest"] split_params_quoted [OF v]
      by (simp add: 2(3) quote_def)
  next
    case (3 v)
    have "\<forall>c \<in> set (cp_name p @ ''='' @ v). c \<noteq> CHR 0x22 \<and> c \<noteq> CHR '';''" using name 3(4,5) by auto
    then show ?thesis using split_params_plain [of "cp_name p @ ''='' @ v" False cur rest] by (simp add: 3(3))
  qed
qed

lemma rendered_edges:
  assumes "plain_param p"
  shows "rendered p \<noteq> []" "\<not> is_whitespace (hd (rendered p))" "\<not> is_whitespace (last (rendered p))" "hd (rendered p) \<noteq> CHR '';''"
proof -
  have n: "cp_name p \<noteq> []" "\<not> is_whitespace (hd (cp_name p))" "\<not> is_whitespace (last (cp_name p))" "hd (cp_name p) \<noteq> CHR '';''"
    using assms trim_fixed [of "cp_name p"] by (auto simp: plain_param_def no_specials_def)
  have ws: "\<not> is_whitespace (CHR ''='')" "\<not> is_whitespace (CHR 0x22)" by (simp_all add: is_whitespace_def)
  show "rendered p \<noteq> []" "\<not> is_whitespace (hd (rendered p))" "hd (rendered p) \<noteq> CHR '';''"
    by (cases rule: rendered_cases [OF assms]; use n in \<open>simp add: quote_def\<close>)+
  show "\<not> is_whitespace (last (rendered p))"
  proof (cases rule: rendered_cases [OF assms])
    case (3 v)
    then show ?thesis using ws trim_fixed [of v] by (cases "v = []") simp_all
  qed (use n ws in \<open>simp_all add: quote_def\<close>)
qed

lemma flush_param_rendered:
  assumes "plain_param p"
  shows "flush_param (rev (rendered p)) = [p]"
proof -
  note e = rendered_edges [OF assms]
  have t: "trim (rendered p) = rendered p" using e by (intro trim_no_edges)
  have s: "trim_start_char (CHR '';'') (rendered p) = rendered p" using e(1,4) by (cases "rendered p") auto
  have name: "CHR ''='' \<notin> set (cp_name p)" "trim (cp_name p) = cp_name p" using assms by (auto simp: plain_param_def no_specials_def)
  have unq: "\<not> (starts_with quote v \<and> ends_with quote v \<and> 2 \<le> length v)" if "CHR 0x22 \<notin> set v" for v
    using that by (cases v) (auto simp: starts_with_iff quote_def)
  have "build_contact_param (rendered p) = Some p"
  proof (cases rule: rendered_cases [OF assms])
    case 1
    then show ?thesis using e(1) t s split_once_absent [OF name(1)] assms
      by (cases p) (simp add: build_contact_param_def plain_param_def)
  next
    case (2 v)
    have q: "trim (quote @ v @ quote) = quote @ v @ quote"
      by (rule trim_no_edges) (simp_all add: quote_def is_whitespace_def)
    have "starts_with quote (quote @ v @ quote)" "ends_with quote (quote @ v @ quote)"
      by (simp_all add: starts_with_def ends_with_def quote_def)
    moreover have "butlast (tl (quote @ v @ quote)) = v" "2 \<le> length (quote @ v @ quote)" by (simp_all add: quote_def)
    moreover have "split_once (CHR ''='') (rendered p) = Some (cp_name p, quote @ v @ quote)"
      using split_once_append [OF name(1), of "quote @ v @ quote"] by (simp add: 2(3))
    moreover have "p = \<lparr>cp_name = cp_name p, cp_value = Some v, cp_quoted = True\<rparr>" using 2(1,2) by (cases p) simp
    moreover have "length quote = 1" by (simp add: quote_def)
    ultimately show ?thesis using e(1) by (simp add: build_contact_param_def Let_def t s q name(2))
  next
    case (3 v)
    then show ?thesis using e(1) t s split_once_append [OF name(1), of v] unq [OF 3(4)] name(2)
      by (cases p) (simp add: build_contact_param_def Let_def)
  qed
  then show ?thesis using e(1) t by (simp add: flush_param_def)
qed

lemma flush_param_Nil [simp]: "flush_param [] = []"
  by (simp add: flush_param_def trim_def trim_start_def)

lemma split_params_all:
  "\<forall>p \<in> set ps. plain_param p \<Longrightarrow> split_params False cur (concat (map (\<lambda>p. '';'' @ rendered p) ps)) = flush_param cur @ ps"
proof (induction ps arbitrary: cur)
  case (Cons p ps)
  then have p: "plain_param p" by simp
  show ?case using Cons split_params_rendered [OF p, of "[]"] flush_param_rendered [OF p] by simp
qed simp

definition expires_param :: "nat \<Rightarrow> contact_param" where
  "expires_param e = \<lparr>cp_name = ''expires'', cp_value = Some (string_of_nat e), cp_quoted = False\<rparr>"

lemma expires_param_plain: "plain_param (expires_param e)" "rendered (expires_param e) = ''expires='' @ string_of_nat e"
proof -
  have "c \<notin> {CHR '' '', CHR '';'', CHR '','', CHR 0x22}" if "c \<in> set (string_of_nat e)" for c
    using string_of_nat_digit_code [OF that] by auto
  moreover have "trim ''expires'' = ''expires''" by (rule trim_no_edges) (simp_all add: is_whitespace_def)
  ultimately show "plain_param (expires_param e)" "rendered (expires_param e) = ''expires='' @ string_of_nat e"
    by (auto simp: plain_param_def expires_param_def no_specials_def rendered_def)
qed

lemma contact_tail:
  assumes "\<forall>p \<in> set ps. plain_param p"
  shows "parse_contact_params (concat (map (\<lambda>p. '';'' @ rendered p) ps) @ '';expires='' @ string_of_nat e) = ps @ [expires_param e]"
    "trim (concat (map (\<lambda>p. '';'' @ rendered p) ps) @ '';expires='' @ string_of_nat e)
       = concat (map (\<lambda>p. '';'' @ rendered p) ps) @ '';expires='' @ string_of_nat e"
proof -
  let ?ps = "ps @ [expires_param e]"
  let ?t = "concat (map (\<lambda>p. '';'' @ rendered p) ?ps)"
  have eq: "concat (map (\<lambda>p. '';'' @ rendered p) ps) @ '';expires='' @ string_of_nat e = ?t"
    by (simp add: expires_param_plain(2))
  have "hd ?t = CHR '';''" by (cases ps) auto
  moreover have "last ?t = last (string_of_nat e)" by (simp add: expires_param_plain(2))
  moreover have "\<not> is_whitespace (last (string_of_nat e))" by (meson digit_not_whitespace last_in_set string_of_nat_not_Nil)
  ultimately have t: "trim ?t = ?t" by (intro trim_no_edges) (simp_all add: is_whitespace_def)
  then show "trim (concat (map (\<lambda>p. '';'' @ rendered p) ps) @ '';expires='' @ string_of_nat e)
       = concat (map (\<lambda>p. '';'' @ rendered p) ps) @ '';expires='' @ string_of_nat e" unfolding eq .
  have "\<forall>p \<in> set ?ps. plain_param p" using assms expires_param_plain(1) by auto
  then show "parse_contact_params (concat (map (\<lambda>p. '';'' @ rendered p) ps) @ '';expires='' @ string_of_nat e) = ?ps"
    unfolding eq parse_contact_params_def t using split_params_all [of ?ps "[]"] by simp
qed


lemma find_char_absent: "d \<notin> set a \<Longrightarrow> find_char d (a @ d # b) = Some (length a)"
  by (induction a) auto

text \<open>A contact as the parser produces it from a well-formed text with angle brackets.\<close>

definition wellformed_contact :: "sip_lib \<Rightarrow> parsed_contact \<Rightarrow> bool" where
  "wellformed_contact lib c \<longleftrightarrow> \<not> pc_wildcard c \<and> pc_has_angle_brackets c
     \<and> uri_parse lib (pc_uri_string c) = Some (pc_uri c) \<and> trim (pc_uri_string c) = pc_uri_string c
     \<and> pc_uri_string c \<noteq> ''*'' \<and> CHR ''>'' \<notin> set (pc_uri_string c)
     \<and> (\<forall>p \<in> set (own_params c). plain_param p)
     \<and> (case pc_display_name c of None \<Rightarrow> True | Some d \<Rightarrow> CHR 0x22 \<notin> set d \<and> CHR 0x5C \<notin> set d)"

lemma escape_plain: "CHR 0x22 \<notin> set d \<Longrightarrow> CHR 0x5C \<notin> set d \<Longrightarrow> escape_display_name d = d"
  by (induction d) (auto simp: escape_display_name_def escape_char_def)

lemma contact_address_brackets:
  assumes "CHR ''>'' \<notin> set u" "trim u = u" "trim params = params"
  shows "contact_address (''<'' @ u @ ''>'' @ params) = Inr (u, params, True)"
proof -
  have "find_char (CHR ''>'') (''<'' @ u @ ''>'' @ params) = Some (length (''<'' @ u))"
    using assms(1) find_char_absent [of "CHR ''>''" "''<'' @ u" params] by simp
  then show ?thesis using assms(2,3) by (simp add: contact_address_def starts_with_def)
qed

text \<open>C31: The answer to a registration can be read back.  The contact that the registrar writes for a well-formed contact, with
  its own parameters and the time it is valid, is read as the same contact with exactly these parameters, and with that
  time.\<close>

theorem contact_roundtrip:
  assumes "wellformed_contact lib c"
  shows "parse_contact_entry lib (contact_value c e) = Inr (c\<lparr>pc_params := own_params c @ [expires_param e]\<rparr>)"
proof -
  let ?ps = "concat (map (\<lambda>p. '';'' @ rendered p) (own_params c)) @ '';expires='' @ string_of_nat e"
  let ?rem = "''<'' @ pc_uri_string c @ ''>'' @ ?ps"
  note c = assms [unfolded wellformed_contact_def]
  have plain: "\<forall>p \<in> set (own_params c). plain_param p" using c by blast
  note tail = contact_tail [OF plain, of e]
  have lst: "last ?rem = last (string_of_nat e)" "\<not> is_whitespace (last (string_of_nat e))"
    by simp (meson digit_not_whitespace last_in_set string_of_nat_not_Nil)
  have rem: "trim ?rem = ?rem" using lst by (intro trim_no_edges) (simp_all add: is_whitespace_def)
  have addr: "contact_address ?rem = Inr (pc_uri_string c, ?ps, True)" using c tail(2) by (intro contact_address_brackets) auto
  have name: "contact_name (trim (contact_value c e)) = (pc_display_name c, ?rem) \<and> trim (contact_value c e) \<noteq> ''*''"
  proof (cases "pc_display_name c")
    case None
    then have "contact_value c e = ?rem" using c by (simp add: contact_value_def)
    moreover have "contact_name ?rem = (None, ?rem)" "?rem \<noteq> ''*''"
    proof -
      have "\<not> starts_with quote ?rem" "find_char (CHR ''<'') ?rem = Some 0" by (simp_all add: starts_with_def quote_def)
      then show "contact_name ?rem = (None, ?rem)"
        using rem by (simp only: contact_name_def if_False option.case) (simp add: trim_def trim_start_def)
    qed simp
    ultimately show ?thesis using None rem by metis
  next
    case (Some d)
    then have d: "CHR 0x22 \<notin> set d" "CHR 0x5C \<notin> set d" using c by auto
    let ?v = "quote @ d @ quote @ '' '' @ ?rem"
    have v: "contact_value c e = ?v" using Some c by (simp add: contact_value_def escape_plain [OF d])
    have t: "trim ?v = ?v" using lst by (intro trim_no_edges) (simp_all add: quote_def is_whitespace_def)
    have f: "find_char (CHR 0x22) (tl ?v) = Some (length d)" using find_char_absent [OF d(1)] by (simp add: quote_def)
    have "starts_with quote ?v" by (simp add: starts_with_def)
    moreover have "take (length d) (tl ?v) = d" "drop (length d + 1) (tl ?v) = '' '' @ ?rem" by (simp_all add: quote_def)
    moreover have "trim ('' '' @ ?rem) = ?rem" using rem by (simp add: trim_def trim_start_def is_whitespace_def)
    ultimately have "contact_name ?v = (Some d, ?rem)" using f by (simp only: contact_name_def if_True option.case)
    moreover have "?v \<noteq> ''*''" by (simp add: quote_def)
    ultimately show ?thesis using Some v t by metis
  qed
  then have "parse_contact_entry lib (contact_value c e) = Inr \<lparr>pc_display_name = pc_display_name c, pc_uri = pc_uri c,
      pc_uri_string = pc_uri_string c, pc_params = own_params c @ [expires_param e], pc_wildcard = False, pc_has_angle_brackets = True\<rparr>"
    using c by (simp add: parse_contact_entry_def Let_def addr tail(1) del: append.simps)
  also have "\<dots> = Inr (c\<lparr>pc_params := own_params c @ [expires_param e]\<rparr>)" using c by (cases c) simp
  finally show ?thesis .
qed

text \<open>The time of the answer is the one that is read back.\<close>

lemma contact_roundtrip_expires:
  assumes "e \<le> u32_max"
  shows "contact_expires (c\<lparr>pc_params := own_params c @ [expires_param e]\<rparr>) = Some e"
proof -
  have "List.find (param_matches ''expires'') (own_params c @ [expires_param e]) = Some (expires_param e)"
  proof -
    have "List.find (param_matches ''expires'') (filter (\<lambda>p. \<not> param_matches ''expires'' p) ps @ [expires_param e]) = Some (expires_param e)" for ps
      by (induction ps) (simp_all add: param_matches_def expires_param_def)
    then show ?thesis by (simp add: own_params_def)
  qed
  then show ?thesis using assms by (simp add: contact_expires_def contact_param_value_def expires_param_def)
qed

section \<open>Registrations\<close>

text \<open>A request for which one contact is registered: the user, the address it registers and how long.\<close>

definition registers_one ::
  "registrar_module \<Rightarrow> sip_tx \<Rightarrow> sip_user \<Rightarrow> uri \<Rightarrow> nat option \<Rightarrow> parsed_contact \<Rightarrow> bool" where
  "registers_one m tx user to_uri global_expires entry \<longleftrightarrow>
     rq_method tx = MRegister \<and> user_of_tx (rg_auth_lib m) (rg_addrs m) tx = Inr user \<and> to_uri_of tx = Some to_uri
     \<and> global_expires = Option.bind (first_header (HTyped ''Expires'') (rq_headers tx)) (parse_unsigned u32_max)
     \<and> parse_contact_headers (rg_lib m) (rq_headers tx) = Inr [entry] \<and> \<not> pc_wildcard entry"

lemma registers_one_result:
  assumes "registers_one m tx user to_uri ge entry"
    "loc = fst (binding_location m now tx user to_uri (entry_expires m ge entry) entry)"
  shows "\<exists>s' hs. registrar_on_transaction_begin m (memory_ops (rg_lib m) now) now tx s = (Inr Abort, s')
     \<and> rs_replies s' = rs_replies s @ [(200, hs)]
     \<and> rs_locator s' = register (rg_lib m) now (su_username user) (su_realm user) loc (rs_locator s)"
  using assms
  by (simp add: registers_one_def registrar_on_transaction_begin_def memory_ops_def reply_def Let_def split: prod.split)

lemma binding_location_fields:
  assumes "loc = fst (binding_location m now tx user to_uri e entry)"
  shows "aor loc = pc_uri entry" "expires loc = e" "last_modified loc = Some now" "registered_aor loc = Some to_uri"
    "stamp t loc = loc" "su_destination user = Some d \<Longrightarrow> destination loc = Some d"
  by (simp_all add: assms binding_location_def Let_def stamp_def)

text \<open>C29: A registered phone can be called.  A request that registers one contact for some seconds is answered with 200,
  and until that time is over a lookup of the address in its \<open>To\<close> field finds the contact.  Which user registers does not
  matter for that.\<close>

theorem registered_phone_is_found:
  assumes "registers_one m tx user to_uri ge entry" and "locator_ok (rg_lib m) (rs_locator s)"
    and "get_identifier (rs_locator s) (su_username user) (su_realm user) \<noteq> []" and "uri_eq (rg_lib m) to_uri to_uri"
    and "now \<le> later" and "later < now + secs (entry_expires m ge entry)"
    and "loc = fst (binding_location m now tx user to_uri (entry_expires m ge entry) entry)"
  shows "\<exists>s' hs. registrar_on_transaction_begin m (memory_ops (rg_lib m) now) now tx s = (Inr Abort, s')
     \<and> rs_replies s' = rs_replies s @ [(200, hs)]
     \<and> (\<exists>l \<in> set (fst (lookup (rg_lib m) later to_uri (rs_locator s'))). binding_key (rg_lib m) l = binding_key (rg_lib m) loc)"
proof -
  note f = binding_location_fields [OF assms(7)]
  have pos: "0 < expires loc" using assms(5,6) by (cases "entry_expires m ge entry") (simp_all add: f(2) secs_def)
  let ?l = "register (rg_lib m) now (su_username user) (su_realm user) loc (rs_locator s)"
  have "loc \<in> bindings ?l" using register_bindings(1) [OF assms(2,3) pos, of now] by (simp add: f(5))
  moreover have "\<not> is_expired_at later loc" using pos assms(5,6) by (simp add: is_expired_at_def f(2,3))
  moreover have "is_direct_hit (rg_lib m) to_uri loc" using assms(4) by (simp add: is_direct_hit_def f(4))
  ultimately have "\<exists>l \<in> set (fst (lookup (rg_lib m) later to_uri ?l)). binding_key (rg_lib m) l = binding_key (rg_lib m) loc"
    using lookup_direct [of loc ?l later "rg_lib m" to_uri] by (metis sort_locations_keeps)
  then show ?thesis using registers_one_result [OF assms(1,7), of s] by metis
qed

text \<open>A request that is refused as malformed changes no binding.\<close>

theorem refused_register_changes_nothing:
  assumes "registrar_on_transaction_begin m ops now tx s = (r, s')" and "rs_replies s' = rs_replies s @ [(400, hs)]"
  shows "rs_locator s' = rs_locator s \<and> rs_events s' = rs_events s"
proof -
  have reg: "rs_replies (snd (register_contacts m ops now tx user to_uri ge es hs0 s)) = rs_replies s" for user to_uri ge es hs0 s
    by (induction es arbitrary: hs0 s) (auto simp: Let_def split: prod.split sum.split)
  have "(\<exists>s0. s' = s0\<lparr>rs_replies := rs_replies s0 @ [(400, [])]\<rparr> \<and> s0 = s) \<or> rs_replies s' \<noteq> rs_replies s @ [(400, hs)]"
    using assms(1) reg
    by (auto simp: registrar_on_transaction_begin_def reply_def unregister_all_def Let_def
        split: if_splits sum.splits option.splits list.splits prod.splits)
  then show ?thesis using assms(2) by auto
qed

text \<open>A star as the only contact, valid for no time, takes all bindings of the user away.\<close>

theorem star_unregisters_all:
  assumes "rq_method tx = MRegister" and "user_of_tx (rg_auth_lib m) (rg_addrs m) tx = Inr user" and "to_uri_of tx = Some to_uri"
    and "parse_contact_headers (rg_lib m) (rq_headers tx) = Inr [wildcard_contact]"
    and "first_header (HTyped ''Expires'') (rq_headers tx) = Some ''0''"
  shows "\<exists>s'. registrar_on_transaction_begin m (memory_ops (rg_lib m) now) now tx s = (Inr Abort, s')
     \<and> hm_get (locations (rs_locator s')) (get_identifier (rs_locator s) (su_username user) (su_realm user)) = None"
proof -
  have z: "parse_unsigned u32_max ''0'' = Some 0" by (simp add: parse_unsigned_def digit_val_def)
  show ?thesis using assms
    by (simp add: registrar_on_transaction_begin_def z wildcard_contact_def contact_expires_def contact_param_value_def or_else_def
        unregister_all_def memory_ops_def reply_def unregister_def)
qed

section \<open>Authentication and registration together\<close>

text \<open>The two modules of the server, one after the other.\<close>

definition auth_then_register ::
  "'c auth_lru \<Rightarrow> instant \<Rightarrow> auth_module \<Rightarrow> registrar_module \<Rightarrow> 'l locator_ops \<Rightarrow> sip_tx
     \<Rightarrow> 'c auth_state \<times> 'l registrar_state \<Rightarrow> proxy_action result \<times> 'c auth_state \<times> 'l registrar_state" where
  "auth_then_register lru now am m ops tx = (\<lambda>(s, rs).
     case auth_on_transaction_begin lru now am tx s of
       (Inr Continue, s1) \<Rightarrow> (let (r, rs1) = registrar_on_transaction_begin m ops now tx rs in (r, s1, rs1))
     | (r, s1) \<Rightarrow> (r, s1, rs))"


section \<open>Evaluation of the registrar\<close>

definition demo_reg_lib :: sip_lib where
  "demo_reg_lib = demo_loc_lib\<lparr>uri_parse := (\<lambda>s. Some (demo_phone ''b'' s))\<rparr>"

definition demo_auth_lib :: auth_lib where
  "demo_auth_lib = \<lparr>auth_parse = \<lambda>v. None, verify_digest = \<lambda>au pw meth raw. False, sip_scheme = \<lambda>t. ''sip'',
     addr_show = \<lambda>a. fst (a_addr a), random_text = string_of_nat\<rparr>"

definition demo_register :: "string \<Rightarrow> bool \<Rightarrow> sip_tx" where
  "demo_register from_user tagged =
     \<lparr>rq_method = MRegister, rq_uri = demo_phone [] ''pbx.example'', rq_headers = [Std HContact ''<10.0.0.66>''],
      rq_from = Inr \<lparr>fh_uri = Inr (demo_phone from_user ''pbx.example''), fh_display_name = None, fh_tag = Some ''t''\<rparr>,
      rq_to = Inr \<lparr>th_uri = Inr (demo_phone from_user ''pbx.example''), th_has_tag = tagged\<rparr>,
      rq_call_id = Inr ''c'', rq_contact = None, rq_via_target = Inr (Udp, (''10.0.0.66'', None)),
      rq_source = Some (demo_addr ''10.0.0.66'')\<rparr>"

definition demo_auth_module :: auth_module where
  "demo_auth_module = \<lparr>am_lib = demo_auth_lib,
     am_config = \<lparr>sc_realms = None, sc_ports = {5060}, sc_external_ip = None, sc_addrs = [], sc_ensure_user = False, sc_cluster_peer_ips = []\<rparr>,
     am_users = mem_backend [], am_backends = []\<rparr>"

definition demo_registrar :: registrar_module where
  "demo_registrar = \<lparr>rg_lib = demo_reg_lib, rg_auth_lib = demo_auth_lib, rg_uri_transport = \<lambda>u. None, rg_addrs = [],
     rg_home_proxy = None, rg_registrar_expires = None, rg_allows = []\<rparr>"

definition demo_entry :: parsed_contact where
  "demo_entry = \<lparr>pc_display_name = None, pc_uri = demo_phone ''b'' ''10.0.0.66'', pc_uri_string = ''10.0.0.66'', pc_params = [],
     pc_wildcard = False, pc_has_angle_brackets = True\<rparr>"

definition demo_user :: "string \<Rightarrow> sip_user" where
  "demo_user name = default_user\<lparr>su_username := name, su_realm := Some ''pbx.example'',
     su_from := Some (demo_phone name ''pbx.example''), su_destination := Some (demo_addr ''10.0.0.66'')\<rparr>"

lemma demo_user_of_tx: "user_of_tx demo_auth_lib [] (demo_register name tagged) = Inr (demo_user name)"
  by (simp add: user_of_tx_def demo_register_def check_authorization_headers_def demo_phone_def user_or_default_def
      build_contact_def demo_user_def demo_addr_def default_user_def)

lemma demo_parse: "parse_contact_entry demo_reg_lib ''<10.0.0.66>'' = Inr demo_entry"
proof -
  have "trim ''<10.0.0.66>'' = ''<10.0.0.66>''" "trim ''10.0.0.66'' = ''10.0.0.66''" "trim [] = []"
    by (simp_all add: trim_def trim_start_def trim_end_def is_whitespace_def)
  then show ?thesis
    by (simp add: parse_contact_entry_def contact_name_def contact_address_def starts_with_def quote_def demo_reg_lib_def
        parse_contact_params_def demo_entry_def trim_def trim_start_def trim_end_def is_whitespace_def)
qed

lemma demo_registers: "registers_one demo_registrar (demo_register name tagged) (demo_user name) (demo_phone name ''pbx.example'') None demo_entry"
proof -
  have "trim ''<10.0.0.66>'' = ''<10.0.0.66>''" "trim ''Contact'' = ''Contact''"
    by (simp_all add: trim_def trim_start_def trim_end_def is_whitespace_def)
  then have "parse_contact_headers demo_reg_lib [Std HContact ''<10.0.0.66>''] = Inr [demo_entry]"
    by (simp add: parse_contact_headers_def collect_header_values_def split_contact_entries_def flush_entry_def demo_parse)
  then show ?thesis using demo_user_of_tx [of name tagged]
    by (simp add: registers_one_def demo_registrar_def demo_register_def to_uri_of_def demo_entry_def)
qed

lemma demo_expires: "entry_expires demo_registrar None demo_entry = 60"
  by (simp add: entry_expires_def demo_registrar_def contact_expires_def contact_param_value_def demo_entry_def or_else_def)

lemma demo_reg_locator_ok: "locator_ok demo_reg_lib demo_locator"
  by (simp add: locator_ok_def entry_ok_def demo_locator_defs demo_reg_lib_def hm_wf_def binding_key_def user_or_default_def)

definition demo_reg_state :: "memory_locator registrar_state" where
  "demo_reg_state = \<lparr>rs_locator = demo_locator, rs_events = [], rs_replies = []\<rparr>"

lemma demo_user_known: "get_identifier demo_locator (su_username (demo_user ''b'')) (su_realm (demo_user ''b'')) \<noteq> []"
  by (simp add: get_identifier_def Let_def demo_user_def default_user_def trim_def trim_start_def trim_end_def is_whitespace_def
      to_ascii_lowercase_def split: option.split)

theorem contact_roundtrip_witness:
  "parse_contact_entry demo_reg_lib (contact_value demo_entry 60) = Inr (demo_entry\<lparr>pc_params := [expires_param 60]\<rparr>)"
proof -
  have "trim ''10.0.0.66'' = ''10.0.0.66''" by (simp add: trim_def trim_start_def trim_end_def is_whitespace_def)
  then have "wellformed_contact demo_reg_lib demo_entry"
    by (simp add: wellformed_contact_def demo_entry_def own_params_def demo_reg_lib_def)
  from contact_roundtrip [OF this, of 60] show ?thesis by (simp add: own_params_def demo_entry_def)
qed

theorem registered_phone_is_found_witness:
  "\<exists>s' hs. registrar_on_transaction_begin demo_registrar (memory_ops (rg_lib demo_registrar) 7) 7 (demo_register ''b'' False) demo_reg_state = (Inr Abort, s')
     \<and> rs_replies s' = [(200, hs)]
     \<and> fst (lookup (rg_lib demo_registrar) 8 (demo_phone ''b'' ''pbx.example'') (rs_locator s')) \<noteq> []"
proof -
  have lib: "rg_lib demo_registrar = demo_reg_lib" by (simp add: demo_registrar_def)
  have st: "rs_locator demo_reg_state = demo_locator" "rs_replies demo_reg_state = []" by (simp_all add: demo_reg_state_def)
  have "uri_eq demo_reg_lib u u" for u by (simp add: demo_reg_lib_def demo_loc_lib_def)
  then show ?thesis
    using registered_phone_is_found [OF demo_registers [of "''b''" False], of demo_reg_state 7 8]
      demo_reg_locator_ok demo_user_known by (auto simp: lib st demo_expires secs_def)
qed


theorem cache_hit_was_authenticated_witness:
  "\<exists>t. CachePut t (''c'', ''t'') ''10.0.0.66'' \<in> {CachePut 3 (''c'', ''t'') ''10.0.0.66''} \<and> 5 - t \<le> secs 10"
proof -
  let ?cfg = "\<lparr>acc_enabled = True, acc_cache_size = 2, acc_ttl_seconds = 10\<rparr>"
  have "fst (is_authenticated list_lru 5 (''c'', ''t'') ''10.0.0.66''
      (fold (cache_step list_lru) [CachePut 3 (''c'', ''t'') ''10.0.0.66''] (dac_new list_lru ?cfg)))"
    by (simp add: is_authenticated_def dac_put_def dac_new_def list_lru_def cache_entry_expired_def secs_def)
  from cache_hit_was_authenticated [OF list_lru_laws this] show ?thesis by simp
qed


end
