(* ===== verification/Call_Module.thy ===== *)
theory Call_Module
  imports Inspectors Routing Registrar
begin

text \<open>
  The call module, \<open>src/src/proxy/call.rs\<close>: from an INVITE to the plan of its call and to the answer when there is none.  The
  module decides the direction of the call by the realms of both parties, asks the forwarding of the called user, the location service and
  the routing rules, lets the inspectors look at the plan, and applies the recording policy.  The state has what a call changes:
  the state of the routing, the location service in memory, the cookie of the transaction, the usage of the pool of
  numbers, and the log of replies, reports and sessions.
\<close>

section \<open>Reasons\<close>

definition q850_cause_from_status :: "nat \<Rightarrow> nat" where
  "q850_cause_from_status code =
     (if code \<in> {400, 401, 402, 403, 405, 406, 407, 421, 603} then 21
      else if code \<in> {404, 484, 604} then 1
      else if code = 410 then 22
      else if code \<in> {413, 414, 416, 420} then 127
      else if code \<in> {480, 408} then 18
      else if code \<in> {486, 600} then 17
      else if code = 487 then 31
      else if code \<in> {488, 606} then 79
      else if code \<in> {502, 503} then 38
      else if code \<in> {500, 580} then 41
      else if code = 504 then 34
      else if 500 \<le> code \<and> code \<le> 599 then 41
      else 16)"

definition replace_char :: "char \<Rightarrow> string \<Rightarrow> string \<Rightarrow> string" where
  "replace_char c r s = concat (map (\<lambda>d. if d = c then r else [d]) s)"

definition backslash :: char where "backslash = CHR 0x5C"

definition escape_reason_text :: "string \<Rightarrow> string" where
  "escape_reason_text text = replace_char (CHR 0x22) [backslash, CHR 0x22] (replace_char backslash [backslash, backslash] text)"

definition q850_reason_value :: "nat \<Rightarrow> string option \<Rightarrow> string" where
  "q850_reason_value code detail =
     (let text = (case trimmed_non_empty detail of Some t \<Rightarrow> t | None \<Rightarrow> ''SIP '' @ string_of_nat code)
      in ''Q.850;cause='' @ string_of_nat (q850_cause_from_status code) @ '';text='' @ quote @ escape_reason_text text @ quote)"

record route_error =
  re_error :: string
  re_status :: "nat option"

section \<open>The module and its state\<close>

record recording_policy =
  rp_enabled :: bool
  rp_directions :: "dial_direction list"
  rp_caller_allow :: "string list"
  rp_caller_deny :: "string list"
  rp_callee_allow :: "string list"
  rp_callee_deny :: "string list"
  rp_auto_start :: "bool option"
  rp_filename_pattern :: "string option"
  rp_samplerate :: "nat option"
  rp_ptime :: "nat option"
  rp_path :: "string option"

record 's call_state =
  cs_routing :: "'s routing_state"
  cs_locator :: memory_locator
  cs_cookie :: auth_cookie
  cs_usage :: usage
  cs_replies :: "(nat \<times> headers) list"
  cs_reports :: "(nat \<times> string option) list"
  cs_sessions :: "(dialplan \<times> nat) list"

type_synonym ('a, 's) resolved = "(route_error + 'a) run \<times> 's call_state"

text \<open>What the module is built from.  Parameters are the stack, the network, regular expressions (in \<open>cm_env\<close>), file name
  patterns (\<open>Pattern::new\<close>), the names of codecs, the text of a JSON object with the
  one field \<open>file\<close>, and the queues of the configuration.  \<open>cm_router\<close> and \<open>cm_inspectors\<close>
  are the router and the inspectors that were registered with the server.\<close>

record ('s, 'n) call_module =
  cm_sip :: sip_lib
  cm_net :: net_lib
  cm_server :: server_config
  cm_users :: user_backend
  cm_env :: "('s, 'n) route_env"
  cm_trunks :: "(string, policy_spec trunk_config) hmap"
  cm_routes :: "route_rule list"
  cm_queues :: "string \<Rightarrow> queue_config option result"
  cm_now :: instant
  cm_recording :: "recording_policy option"
  cm_sip_flow :: bool
  cm_codecs :: "string list option"
  cm_codec_of :: "string \<Rightarrow> string option"
  cm_opus :: bool
  cm_media :: media_config
  cm_passthrough_failure :: bool
  cm_glob :: "string \<Rightarrow> (string \<Rightarrow> bool) option"
  cm_timestamp :: string
  cm_uuid :: string
  cm_json_file :: "string \<Rightarrow> string"
  cm_default_contact :: "uri option"
  cm_router :: "(sip_tx \<Rightarrow> sip_user \<Rightarrow> auth_cookie \<Rightarrow> route_error + dialplan) option"
  cm_inspectors :: "(dialplan \<Rightarrow> auth_cookie \<Rightarrow> sip_tx \<Rightarrow> usage \<Rightarrow> (route_error + dialplan) \<times> usage) list"

definition same_realm :: "('s, 'n) call_module \<Rightarrow> string \<Rightarrow> bool" where
  "same_realm m = is_same_realm (cm_server m) (cm_users m)"

fun and_then :: "('a, 's) resolved \<Rightarrow> ('a \<Rightarrow> 's call_state \<Rightarrow> ('b, 's) resolved) \<Rightarrow> ('b, 's) resolved" where
  "and_then (Ret (Inr x), s) f = f x s"
| "and_then (Ret (Inl e), s) f = (Ret (Inl e), s)"
| "and_then (Panic, s) f = (Panic, s)"

section \<open>Parties of a request\<close>

definition extract_from_user :: "sip_tx \<Rightarrow> string option" where
  "extract_from_user tx = (case rq_from tx of Inr h \<Rightarrow> (case fh_uri h of Inr u \<Rightarrow> u_user u | Inl _ \<Rightarrow> None) | Inl _ \<Rightarrow> None)"

definition extract_to_user :: "sip_tx \<Rightarrow> string option" where
  "extract_to_user tx = (case rq_to tx of Inr h \<Rightarrow> (case th_uri h of Inr u \<Rightarrow> u_user u | Inl _ \<Rightarrow> None) | Inl _ \<Rightarrow> None)"

definition resolve_callee_uri :: "sip_tx \<Rightarrow> uri result" where
  "resolve_callee_uri tx =
     (if (case u_user (rq_uri tx) of Some u \<Rightarrow> trim u \<noteq> [] | None \<Rightarrow> False) then Inr (rq_uri tx)
      else case rq_to tx of Inl e \<Rightarrow> Inl e | Inr h \<Rightarrow> th_uri h)"

text \<open>The called user, when the realm is the server's; \<open>Inl\<close> is an error of the back end or of the request.\<close>

definition resolve_callee_user :: "('s, 'n) call_module \<Rightarrow> sip_tx \<Rightarrow> sip_user option result" where
  "resolve_callee_user m tx =
     (case resolve_callee_uri tx of
        Inl e \<Rightarrow> Inl e
      | Inr uri \<Rightarrow>
          if \<not> same_realm m (u_host uri) then Inr None
          else let name = trim (user_or_default uri)
               in if name = [] then Inr None
                  else map_sum show_auth_error id (ub_get_user (cm_users m) name (Some (u_host uri))))"

section \<open>The default routing\<close>

definition request_of :: "sip_tx \<Rightarrow> request" where
  "request_of tx = \<lparr>req_uri = rq_uri tx, req_headers = rq_headers tx\<rparr>"

definition find_trunk_by_ip :: "('s, 'n) call_module \<Rightarrow> ip_addr \<Rightarrow> string option" where
  "find_trunk_by_ip m ip = map_option fst (List.find (\<lambda>(name, t). matches_inbound_ip (cm_net m) t ip) (cm_trunks m))"

definition resolve_source_trunk :: "('s, 'n) call_module \<Rightarrow> string option \<Rightarrow> sip_tx \<Rightarrow> dial_direction \<Rightarrow> source_trunk option" where
  "resolve_source_trunk m hint tx d =
     (if d \<noteq> DirInbound then None
      else case Option.bind hint (\<lambda>name. map_option (Pair name) (hm_get (cm_trunks m) name)) of
             Some (name, config) \<Rightarrow> build_source_trunk name config d
           | None \<Rightarrow>
               (case rq_via_target tx of
                  Inl _ \<Rightarrow> None
                | Inr (_, target) \<Rightarrow>
                    Option.bind (ip_from_str (fst target)) (\<lambda>ip.
                      Option.bind (find_trunk_by_ip m ip) (\<lambda>name.
                        Option.bind (hm_get (cm_trunks m) name) (\<lambda>config. build_source_trunk name config d)))))"

definition routing_env :: "('s, 'n) call_module \<Rightarrow> string option \<Rightarrow> sip_tx \<Rightarrow> dial_direction \<Rightarrow> ('s, 'n) route_env" where
  "routing_env m hint tx d =
     (cm_env m)\<lparr>trunks := (if cm_trunks m = [] then None else Some (cm_trunks m)), resource_lookup := Some (cm_queues m),
                source_trunk := resolve_source_trunk m hint tx d, direction := d\<rparr>"

definition preview_route ::
  "('s, 'n) call_module \<Rightarrow> string option \<Rightarrow> invite_option \<Rightarrow> sip_tx \<Rightarrow> dial_direction \<Rightarrow> 's routing_state \<Rightarrow> 's routed" where
  "preview_route m hint opt tx d st =
     match_invite (routing_env m hint tx d) (if cm_routes m = [] then None else Some (cm_routes m)) opt (request_of tx) st"

definition show_mismatch :: "prefix_mismatch \<Rightarrow> string" where
  "show_mismatch e = ''prefix mismatch: '' @ pm_field e @ '' expected '' @ quoted (pm_expected e) @ '', got '' @ quoted (pm_actual e)"

definition prefix_refusal :: "('s, 'n) call_module \<Rightarrow> string option \<Rightarrow> sip_tx \<Rightarrow> dial_direction \<Rightarrow> string option" where
  "prefix_refusal m hint tx d =
     (if d \<noteq> DirInbound then None
      else Option.bind (resolve_source_trunk m hint tx d) (\<lambda>source.
        Option.bind (hm_get (cm_trunks m) (st_name source)) (\<lambda>config.
          case matches_incoming_user_prefixes (cm_net m) config (extract_from_user tx) (extract_to_user tx) of
            Inr True \<Rightarrow> None
          | Inr False \<Rightarrow>
              Some (q850_reason_value Forbidden
                (Some (''caller='' @ quoted (text_or_empty (extract_from_user tx)) @ '', callee=''
                       @ quoted (text_or_empty (extract_to_user tx)) @ '' rejected by prefix policy'')))
          | Inl mismatch \<Rightarrow> Some (q850_reason_value Forbidden (Some (show_mismatch mismatch))))))"

definition route_invite ::
  "('s, 'n) call_module \<Rightarrow> string option \<Rightarrow> invite_option \<Rightarrow> sip_tx \<Rightarrow> dial_direction \<Rightarrow> 's routing_state \<Rightarrow> 's routed" where
  "route_invite m hint opt tx d st =
     (case prefix_refusal m hint tx d of
        Some reason \<Rightarrow> (Ret (Inr (RouteAbort Forbidden (Some reason))), empty_trace, st)
      | None \<Rightarrow>
          match_invite (routing_env m hint tx d) (if cm_routes m = [] then None else Some (cm_routes m)) opt (request_of tx) st)"

section \<open>Where a call goes\<close>

definition ServerInternalError :: nat where "ServerInternalError = 500"

definition route_err :: "string \<Rightarrow> nat option \<Rightarrow> route_error" where
  "route_err text status = \<lparr>re_error = text, re_status = status\<rparr>"

definition call_direction :: "('s, 'n) call_module \<Rightarrow> sip_user \<Rightarrow> uri \<Rightarrow> 's call_state \<Rightarrow> (dial_direction, 's) resolved" where
  "call_direction m who callee_uri s =
     (let caller_same = same_realm m (text_or_empty (su_realm who)); callee_same = same_realm m (u_host callee_uri);
          is_from_trunk = (from_trunk (cs_cookie s) \<noteq> None)
      in if caller_same \<and> callee_same \<and> \<not> is_from_trunk then
           (case ub_get_user (cm_users m) (user_or_default callee_uri) (Some (u_host callee_uri)) of
              Inr None \<Rightarrow>
                (let (locs, l) = lookup (cm_sip m) (cm_now m) callee_uri (cs_locator s)
                 in (Ret (Inr (if locs \<noteq> [] then DirInternal else DirOutbound)), s\<lparr>cs_locator := l\<rparr>))
            | Inr (Some user) \<Rightarrow>
                (Ret (Inr DirInternal),
                 case su_display_name user of
                   Some name \<Rightarrow> s\<lparr>cs_cookie := (cs_cookie s)\<lparr>ck_callee_display_name := Some name\<rparr>\<rparr>
                 | None \<Rightarrow> s)
            | Inl _ \<Rightarrow> (Ret (Inr DirInternal), s))
         else if caller_same \<and> callee_same then (Ret (Inr DirOutbound), s)
         else if caller_same \<and> \<not> callee_same then (Ret (Inr DirOutbound), s)
         else if \<not> caller_same \<and> callee_same then (Ret (Inr DirInbound), s)
         else if is_from_trunk then (Ret (Inr DirInbound), s)
         else (Ret (Inl (route_err ''Both caller and callee are external realm'' (Some Forbidden))), s))"

text \<open>What the routing or the forwarding of the called user has decided.\<close>

datatype pending =
    PendNothing
  | PendForward invite_option
  | PendQueue queue_plan
  | PendApp string "string option" bool

definition forward_option :: "uri \<Rightarrow> invite_option" where
  "forward_option uri = \<lparr>caller = default_uri, callee = uri, inv_destination = None, inv_credential = None, inv_headers = None\<rparr>"

definition always_forward_queue :: "('s, 'n) call_module \<Rightarrow> string \<Rightarrow> route_error + pending" where
  "always_forward_queue m queue_ref =
     (let reference = trim queue_ref; failed = (\<lambda>what. what @ quoted reference)
      in if reference = [] then Inl (route_err ''always-forwarding queue reference is empty'' (Some ServerInternalError))
         else case cm_queues m (if \<forall>c \<in> set reference. is_ascii_digit c then ''db-'' @ reference else reference) of
                Inl e \<Rightarrow> Inl (route_err (failed ''failed to resolve always-forwarding queue '' @ '': '' @ e) (Some ServerInternalError))
              | Inr None \<Rightarrow>
                  Inl (route_err (''always-forwarding queue '' @ quoted reference @ '' not found'') (Some TemporarilyUnavailable))
              | Inr (Some cfg) \<Rightarrow>
                  (case to_queue_plan (Routing.lib (cm_env m)) cfg of
                     Inl e \<Rightarrow> Inl (route_err (failed ''failed to build always-forwarding queue plan '' @ '': '' @ e) (Some ServerInternalError))
                   | Inr plan \<Rightarrow> Inr (PendQueue (if label plan = None then plan\<lparr>label := Some reference\<rparr> else plan))))"

fun forced_route :: "('s, 'n) call_module \<Rightarrow> transfer_endpoint \<Rightarrow> route_error + pending" where
  "forced_route m (EpUri uri) =
     (case uri_parse (cm_sip m) uri of
        Some forwarded \<Rightarrow> Inr (PendForward (forward_option forwarded))
      | None \<Rightarrow> Inl (route_err (''invalid always-forwarding target '' @ quoted uri) (Some ServerInternalError)))"
| "forced_route m (EpQueue queue_ref) = always_forward_queue m queue_ref"
| "forced_route m (EpIvr ivr_name) =
     (let name = trim ivr_name
      in if name = [] then Inl (route_err ''always-forwarding IVR name is empty'' (Some ServerInternalError))
         else Inr (PendApp ''ivr'' (Some (cm_json_file m (''config/ivr/'' @ name @ ''.toml''))) True))"

text \<open>The outcome of the routing rules: what is pending, with the hints of the rule.\<close>

fun routed_pending :: "route_result result run \<Rightarrow> (route_error + pending \<times> hints option) run" where
  "routed_pending Panic = Panic"
| "routed_pending (Ret (Inl e)) = Ret (Inl (route_err e (Some ServerInternalError)))"
| "routed_pending (Ret (Inr (RouteQueue opt queue h))) = Ret (Inr (PendQueue queue, h))"
| "routed_pending (Ret (Inr (Forward opt h))) = Ret (Inr (PendForward opt, h))"
| "routed_pending (Ret (Inr (NotHandled opt))) = Ret (Inr (PendNothing, None))"
| "routed_pending (Ret (Inr (RouteAbort code reason))) =
     Ret (Inl (route_err (case reason of Some r \<Rightarrow> r | None \<Rightarrow> ''route aborted during preview'') (Some code)))"
| "routed_pending (Ret (Inr (RouteApplication opt name params auto))) = Ret (Inr (PendApp name params auto, None))"

definition resolve_unhandled_targets :: "bool \<Rightarrow> bool \<Rightarrow> location list \<Rightarrow> dial_strategy" where
  "resolve_unhandled_targets callee_same lookup_empty locs =
     (if callee_same \<and> lookup_empty then Sequential [] else Sequential (take 1 locs))"

definition forward_target :: "sip_lib \<Rightarrow> invite_option \<Rightarrow> location" where
  "forward_target sl opt =
     default_location\<lparr>aor := callee opt, destination := inv_destination opt, loc_credential := inv_credential opt,
                      loc_headers := inv_headers opt, contact_raw := Some (uri_show sl (callee opt))\<rparr>"

definition pending_flow :: "sip_lib \<Rightarrow> pending \<Rightarrow> dial_strategy \<Rightarrow> flow \<Rightarrow> flow" where
  "pending_flow sl p unhandled f =
     (case p of
        PendApp name params auto \<Rightarrow> with_application name params auto f
      | PendQueue q \<Rightarrow> with_queue q f
      | PendForward opt \<Rightarrow> with_targets (Sequential [forward_target sl opt]) f
      | PendNothing \<Rightarrow> with_targets unhandled f)"

section \<open>The plan\<close>

definition default_codecs :: "bool \<Rightarrow> string list" where
  "default_codecs opus = [''G729'', ''G722'', ''PCMU'', ''PCMA''] @ (if opus then [''Opus''] else []) @ [''TelephoneEvent'']"

definition dialplan_new :: "bool \<Rightarrow> string \<Rightarrow> sip_tx \<Rightarrow> dial_direction \<Rightarrow> dialplan" where
  "dialplan_new opus session_id tx d =
     \<lparr>dp_direction = d, dp_session_id = Some session_id, dp_caller_contact = None, dp_caller = None,
      dp_flow = Targets (Sequential []), dp_original = tx,
      dp_recording = \<lparr>rec_enabled = False, rec_option = None, rec_auto_start = False\<rparr>,
      dp_media = \<lparr>mc_proxy_mode = ''auto'', mc_ice_servers = None\<rparr>, dp_call_forwarding = None,
      dp_voicemail_enabled = False, dp_callee_offline = False, dp_allow_codecs = default_codecs opus,
      dp_passthrough_failure = False\<rparr>"

definition new_recording_config :: "recording_policy \<Rightarrow> recording_config" where
  "new_recording_config p =
     \<lparr>rec_enabled = rp_enabled p, rec_option = None,
      rec_auto_start = (case rp_auto_start p of Some b \<Rightarrow> b | None \<Rightarrow> True)\<rparr>"

definition restrict_codecs :: "('s, 'n) call_module \<Rightarrow> string list option \<Rightarrow> dialplan \<Rightarrow> dialplan" where
  "restrict_codecs m names plan =
     (case names of
        None \<Rightarrow> plan
      | Some ns \<Rightarrow> (let cs = List.map_filter (cm_codec_of m) ns in if cs = [] then plan else plan\<lparr>dp_allow_codecs := cs\<rparr>))"

definition apply_hints :: "('s, 'n) call_module \<Rightarrow> hints option \<Rightarrow> dialplan \<Rightarrow> dialplan" where
  "apply_hints m h plan =
     (case h of
        None \<Rightarrow> restrict_codecs m (cm_codecs m) plan
      | Some hi \<Rightarrow>
          (let plan1 = (if hint_disable_ice hi = Some True then plan\<lparr>dp_media := (dp_media plan)\<lparr>mc_ice_servers := None\<rparr>\<rparr> else plan)
           in restrict_codecs m (case allow_codecs hi of Some cs \<Rightarrow> Some cs | None \<Rightarrow> cm_codecs m) plan1))"

text \<open>The forwarding of the called user; an error in finding the user counts as none.\<close>

definition callee_forwarding :: "('s, 'n) call_module \<Rightarrow> sip_tx \<Rightarrow> call_forwarding_config option run" where
  "callee_forwarding m tx = (case resolve_callee_user m tx of Inr (Some u) \<Rightarrow> forwarding_config u | _ \<Rightarrow> Ret None)"

definition caller_uri_of :: "sip_user \<Rightarrow> sip_tx \<Rightarrow> route_error + uri" where
  "caller_uri_of who tx =
     (case su_from who of
        Some u \<Rightarrow> Inr u
      | None \<Rightarrow> map_sum (\<lambda>e. route_err e None) id (case rq_from tx of Inl e \<Rightarrow> Inl e | Inr h \<Rightarrow> fh_uri h))"

text \<open>The bindings of a called party of this server: whether there are none, and the locations to try.\<close>

definition callee_locations ::
  "('s, 'n) call_module \<Rightarrow> bool \<Rightarrow> uri \<Rightarrow> 's call_state \<Rightarrow> (bool \<times> location list) \<times> 's call_state" where
  "callee_locations m forwarded callee_uri s =
     (let own = [default_location\<lparr>aor := callee_uri\<rparr>]
      in if same_realm m (u_host callee_uri) \<and> \<not> forwarded
         then let (locs, l) = lookup (cm_sip m) (cm_now m) callee_uri (cs_locator s)
              in ((locs = [], if locs = [] then own else locs), s\<lparr>cs_locator := l\<rparr>)
         else ((False, own), s))"

definition run_preview ::
  "('s, 'n) call_module \<Rightarrow> string option \<Rightarrow> uri \<Rightarrow> uri \<Rightarrow> sip_tx \<Rightarrow> dial_direction \<Rightarrow> 's call_state
     \<Rightarrow> (pending \<times> hints option, 's) resolved" where
  "run_preview m hint callee_uri caller_uri tx d s =
     (let (r, tr, st) = preview_route m hint (forward_option callee_uri\<lparr>caller := caller_uri\<rparr>) tx d (cs_routing s)
      in (routed_pending r, s\<lparr>cs_routing := st\<rparr>))"

definition make_plan ::
  "('s, 'n) call_module \<Rightarrow> string \<Rightarrow> uri \<Rightarrow> uri \<Rightarrow> sip_tx \<Rightarrow> dial_direction \<Rightarrow> bool \<Rightarrow> location list \<Rightarrow> pending \<Rightarrow> hints option
     \<Rightarrow> dialplan" where
  "make_plan m session_id callee_uri caller_uri tx d lookup_empty locs p h =
     (let callee_same = same_realm m (u_host callee_uri);
          plan = (dialplan_new (cm_opus m) session_id tx d)\<lparr>
                    dp_caller := Some caller_uri, dp_media := cm_media m,
                    dp_recording := (case cm_recording m of Some p \<Rightarrow> new_recording_config p
                                     | None \<Rightarrow> \<lparr>rec_enabled = False, rec_option = None, rec_auto_start = False\<rparr>),
                    dp_passthrough_failure := cm_passthrough_failure m\<rparr>;
          plan1 = plan\<lparr>dp_flow := pending_flow (cm_sip m) p (resolve_unhandled_targets callee_same lookup_empty locs) (dp_flow plan)\<rparr>;
          plan2 = apply_hints m h plan1
      in if callee_same \<and> lookup_empty then plan2\<lparr>dp_callee_offline := True\<rparr> else plan2)"

text \<open>What goes on after the direction is known and the forwarding of the called user is read.\<close>

definition resolve_in ::
  "('s, 'n) call_module \<Rightarrow> string option \<Rightarrow> sip_tx \<Rightarrow> sip_user \<Rightarrow> uri \<Rightarrow> string \<Rightarrow> dial_direction \<Rightarrow> call_forwarding_config option
     \<Rightarrow> 's call_state \<Rightarrow> (dialplan, 's) resolved" where
  "resolve_in m hint tx who callee_uri session_id d fwd s =
     (let always = (map_option cf_mode fwd = Some FwdAlways)
      in and_then (Ret (case fwd of Some c \<Rightarrow> if always then forced_route m (cf_endpoint c) else Inr PendNothing | None \<Rightarrow> Inr PendNothing), s)
           (\<lambda>forced s1.
              let ((lookup_empty, locs), s2) = callee_locations m always callee_uri s1
              in and_then (Ret (caller_uri_of who tx), s2)
                   (\<lambda>caller_uri s3.
                      and_then (if always then (Ret (Inr (forced, None)), s3) else run_preview m hint callee_uri caller_uri tx d s3)
                        (\<lambda>(p, h) s4. (Ret (Inr (make_plan m session_id callee_uri caller_uri tx d lookup_empty locs p h)), s4)))))"

definition default_resolve ::
  "('s, 'n) call_module \<Rightarrow> string option \<Rightarrow> sip_tx \<Rightarrow> sip_user \<Rightarrow> 's call_state \<Rightarrow> (dialplan, 's) resolved" where
  "default_resolve m hint tx who s =
     (case (resolve_callee_uri tx, rq_call_id tx) of
        (Inl e, _) \<Rightarrow> (Ret (Inl (route_err e None)), s)
      | (_, Inl e) \<Rightarrow> (Ret (Inl (route_err e None)), s)
      | (Inr callee_uri, Inr session_id) \<Rightarrow>
          and_then (call_direction m who callee_uri s)
            (\<lambda>d s1. case callee_forwarding m tx of
                      Panic \<Rightarrow> (Panic, s1)
                    | Ret fwd \<Rightarrow> resolve_in m hint tx who callee_uri session_id d fwd s1))"

section \<open>Recording\<close>

definition match_pattern :: "('s, 'n) call_module \<Rightarrow> string \<Rightarrow> string \<Rightarrow> bool" where
  "match_pattern m pattern value =
     (if pattern = ''*'' then True
      else case cm_glob m pattern of Some matches \<Rightarrow> matches value | None \<Rightarrow> eq_ignore_ascii_case pattern value)"

definition matches_any_pattern :: "('s, 'n) call_module \<Rightarrow> string \<Rightarrow> string list \<Rightarrow> bool" where
  "matches_any_pattern m value patterns \<longleftrightarrow> list_ex (\<lambda>p. match_pattern m p value) patterns"

definition identity_from_uri :: "uri \<Rightarrow> string" where
  "identity_from_uri uri = (if user_or_default uri = [] then u_host uri else user_or_default uri @ ''@'' @ u_host uri)"

definition callee_identity :: "dialplan \<Rightarrow> string option" where
  "callee_identity plan =
     (case rq_to (dp_original plan) of
        Inr h \<Rightarrow> (case th_uri h of Inr u \<Rightarrow> Some (identity_from_uri u) | Inl _ \<Rightarrow> None)
      | Inl _ \<Rightarrow> None)"

text \<open>\<open>str::replace\<close> with a non-empty pattern.\<close>

function replace_str :: "string \<Rightarrow> string \<Rightarrow> string \<Rightarrow> string" where
  "replace_str p r [] = []"
| "replace_str p r (c # cs) =
     (if p = [] then c # cs
      else case strip_prefix p (c # cs) of
             Some rest \<Rightarrow> r @ replace_str p r rest
           | None \<Rightarrow> c # replace_str p r cs)"
  by pat_completeness auto
termination
proof (relation "measure (\<lambda>(p, r, s). length s)")
  fix p r :: string and c cs rest
  assume "p \<noteq> []" "strip_prefix p (c # cs) = Some rest"
  then have "length (c # cs) = length p + length rest" "0 < length p" by (simp_all add: strip_prefix_Some_iff)
  then show "((p, r, rest), (p, r, c # cs)) \<in> measure (\<lambda>(p, r, s). length s)" by simp
qed auto

definition render_filename :: "string \<Rightarrow> string \<Rightarrow> string \<Rightarrow> string \<Rightarrow> string \<Rightarrow> string \<Rightarrow> string" where
  "render_filename pattern session_id from to dir time_text =
     fold (\<lambda>(token, value) text. replace_str token value text)
       [(''{session_id}'', session_id), (''{caller}'', from), (''{callee}'', to), (''{direction}'', dir), (''{timestamp}'', time_text)]
       pattern"

definition allowed_in_filename :: "char \<Rightarrow> bool" where
  "allowed_in_filename c \<longleftrightarrow>
     is_ascii_digit c \<or> (65 \<le> (of_char c :: nat) \<and> (of_char c :: nat) \<le> 90)
     \<or> (97 \<le> (of_char c :: nat) \<and> (of_char c :: nat) \<le> 122) \<or> c \<in> set ''-_.''"

text \<open>The loop of \<open>sanitize_filename_component\<close>: the characters kept so far and whether the last of them stands for others.\<close>

fun sanitize_chars :: "string \<Rightarrow> bool \<Rightarrow> string \<Rightarrow> string" where
  "sanitize_chars done last_was_sep [] = done"
| "sanitize_chars done last_was_sep (c # cs) =
     (let (done', sep) = (if allowed_in_filename c then (done @ [c], False)
                          else if \<not> last_was_sep then (done @ ''_'', True) else (done, last_was_sep))
      in if 120 \<le> length done' then done' else sanitize_chars done' sep cs)"

definition sanitize_filename_component :: "string \<Rightarrow> string \<Rightarrow> string" where
  "sanitize_filename_component value alternative =
     (let trimmed = trim_matches_by (\<lambda>c. c = CHR ''.'') (trim_matches_by (\<lambda>c. c = CHR ''_'') (sanitize_chars [] False value))
      in if trimmed = [] then alternative else trimmed)"

definition default_config_recorder_path :: string where
  "default_config_recorder_path = ''./config/recorders''"

definition recorder_path :: "recording_policy \<Rightarrow> string" where
  "recorder_path p = (case trimmed_non_empty (rp_path p) of Some t \<Rightarrow> t | None \<Rightarrow> default_config_recorder_path)"

text \<open>\<open>PathBuf::push\<close> and \<open>PathBuf::set_extension\<close>, on paths with slashes.\<close>

definition path_push :: "string \<Rightarrow> string \<Rightarrow> string" where
  "path_push root name =
     (if starts_with ''/'' name \<or> root = [] then name else if ends_with ''/'' root then root @ name else root @ ''/'' @ name)"

definition file_stem :: "string \<Rightarrow> string" where
  "file_stem name =
     (case find_char (CHR ''.'') (rev name) of
        None \<Rightarrow> name
      | Some i \<Rightarrow> (let stem = take (length name - i - 1) name in if stem = [] then name else stem))"

definition set_extension :: "string \<Rightarrow> string \<Rightarrow> string" where
  "set_extension ext path =
     (case dropWhile (\<lambda>c. c = [] \<or> c = ''.'') (rev (split_on (CHR ''/'') path)) of
        [] \<Rightarrow> path
      | name # rest \<Rightarrow>
          if name = ''..'' then path else join_with ''/'' (rev (file_stem name # rest)) @ ''.'' @ ext)"

fun show_direction :: "dial_direction \<Rightarrow> string" where
  "show_direction DirOutbound = ''outbound''"
| "show_direction DirInbound = ''inbound''"
| "show_direction DirInternal = ''internal''"

definition build_recorder_option ::
  "('s, 'n) call_module \<Rightarrow> dialplan \<Rightarrow> recording_policy \<Rightarrow> string \<Rightarrow> string \<Rightarrow> recorder_option option" where
  "build_recorder_option m plan p from to =
     (let session_id = (case dp_session_id plan of Some i \<Rightarrow> i | None \<Rightarrow> cm_uuid m);
          pattern = (case rp_filename_pattern p of Some t \<Rightarrow> t | None \<Rightarrow> ''{session_id}'');
          rendered = render_filename pattern session_id from to (show_direction (dp_direction plan)) (cm_timestamp m);
          sanitized = sanitize_filename_component rendered session_id
      in if sanitized = [] then None
         else Some \<lparr>recorder_file = set_extension ''wav'' (path_push (recorder_path p) sanitized),
                    rec_samplerate = (case rp_samplerate p of Some r \<Rightarrow> r | None \<Rightarrow> 16000),
                    rec_ptime = (case rp_ptime p of Some t \<Rightarrow> t | None \<Rightarrow> 200)\<rparr>)"

definition policy_excludes :: "('s, 'n) call_module \<Rightarrow> recording_policy \<Rightarrow> dialplan \<Rightarrow> sip_user \<Rightarrow> bool" where
  "policy_excludes m p plan who =
     (let from = show_user who; to = text_or_empty (callee_identity plan)
      in (rp_directions p \<noteq> [] \<and> dp_direction plan \<notin> set (rp_directions p))
         \<or> matches_any_pattern m from (rp_caller_deny p)
         \<or> (rp_caller_allow p \<noteq> [] \<and> \<not> matches_any_pattern m from (rp_caller_allow p))
         \<or> matches_any_pattern m to (rp_callee_deny p)
         \<or> (rp_callee_allow p \<noteq> [] \<and> \<not> matches_any_pattern m to (rp_callee_allow p)))"

definition merge_recorder :: "recording_policy \<Rightarrow> recorder_option \<Rightarrow> recorder_option option \<Rightarrow> recorder_option" where
  "merge_recorder p fresh existing =
     (case existing of
        None \<Rightarrow> fresh
      | Some e \<Rightarrow>
          e\<lparr>recorder_file := (if recorder_file e = [] then recorder_file fresh else recorder_file e),
            rec_samplerate := (case rp_samplerate p of Some r \<Rightarrow> r | None \<Rightarrow> rec_samplerate e),
            rec_ptime := (case rp_ptime p of Some t \<Rightarrow> t | None \<Rightarrow> rec_ptime e)\<rparr>)"

definition apply_recording_policy :: "('s, 'n) call_module \<Rightarrow> sip_user \<Rightarrow> dialplan \<Rightarrow> dialplan" where
  "apply_recording_policy m who plan =
     (case cm_recording m of
        None \<Rightarrow> plan
      | Some p \<Rightarrow>
          if \<not> rp_enabled p then plan
          else if cm_sip_flow m then plan\<lparr>dp_recording := (dp_recording plan)\<lparr>rec_enabled := False, rec_option := None\<rparr>\<rparr>
          else if rec_enabled (dp_recording plan) \<and> rec_option (dp_recording plan) \<noteq> None then plan
          else if \<not> rec_enabled (dp_recording plan) \<and> policy_excludes m p plan who then plan
          else case build_recorder_option m plan p (show_user who) (text_or_empty (callee_identity plan)) of
                 None \<Rightarrow> plan
               | Some fresh \<Rightarrow>
                   plan\<lparr>dp_recording := \<lparr>rec_enabled = True, rec_option = Some (merge_recorder p fresh (rec_option (dp_recording plan))),
                                         rec_auto_start = (case rp_auto_start p of Some b \<Rightarrow> b | None \<Rightarrow> True)\<rparr>\<rparr>)"

section \<open>Building the plan\<close>

fun run_inspectors ::
  "(dialplan \<Rightarrow> auth_cookie \<Rightarrow> sip_tx \<Rightarrow> usage \<Rightarrow> (route_error + dialplan) \<times> usage) list \<Rightarrow> sip_tx \<Rightarrow> dialplan
     \<Rightarrow> 's call_state \<Rightarrow> (dialplan, 's) resolved" where
  "run_inspectors [] tx plan s = (Ret (Inr plan), s)"
| "run_inspectors (f # fs) tx plan s =
     (let (r, usage) = f plan (cs_cookie s) tx (cs_usage s)
      in and_then (Ret r, s\<lparr>cs_usage := usage\<rparr>) (run_inspectors fs tx))"

text \<open>An inspector of the repository as one that may fail.\<close>

definition never_fails :: "usage inspector \<Rightarrow> dialplan \<Rightarrow> auth_cookie \<Rightarrow> sip_tx \<Rightarrow> usage \<Rightarrow> (route_error + dialplan) \<times> usage" where
  "never_fails f plan cookie tx usage = (let (plan', usage') = f plan cookie tx usage in (Inr plan', usage'))"

text \<open>The inspectors that the application registers: emergency numbers when they are configured, then the pool of numbers.\<close>

definition app_inspectors ::
  "sip_lib \<Rightarrow> emergency_config option \<Rightarrow> (dialplan \<Rightarrow> auth_cookie \<Rightarrow> sip_tx \<Rightarrow> usage \<Rightarrow> (route_error + dialplan) \<times> usage) list" where
  "app_inspectors sl emergency =
     (case emergency of None \<Rightarrow> [] | Some cfg \<Rightarrow> [never_fails (emergency_inspect sl (Some cfg))]) @ [never_fails (number_pool_inspect sl)]"

definition callee_settings :: "('s, 'n) call_module \<Rightarrow> sip_tx \<Rightarrow> dialplan \<Rightarrow> dialplan run" where
  "callee_settings m tx plan =
     (case resolve_callee_user m tx of
        Inr (Some u) \<Rightarrow>
          bind_run (if dp_call_forwarding plan = None then forwarding_config u else Ret None)
            (\<lambda>fwd. Ret ((case fwd of Some c \<Rightarrow> plan\<lparr>dp_call_forwarding := Some c\<rparr> | None \<Rightarrow> plan)
                          \<lparr>dp_voicemail_enabled := \<not> su_voicemail_disabled u\<rparr>))
      | _ \<Rightarrow> Ret plan)"

text \<open>The context of a trunk that the access control gives to a call has no tenant, so the called user is always looked up.\<close>

definition build_dialplan :: "('s, 'n) call_module \<Rightarrow> sip_tx \<Rightarrow> sip_user \<Rightarrow> 's call_state \<Rightarrow> (dialplan, 's) resolved" where
  "build_dialplan m tx who s =
     (let hint = map_option tc_name (from_trunk (cs_cookie s))
      in and_then (case cm_router m of
                     Some router \<Rightarrow> (Ret (router tx who (cs_cookie s)), s)
                   | None \<Rightarrow> default_resolve m hint tx who s)
           (\<lambda>plan s1.
              let plan1 = (if dp_caller_contact plan = None then plan\<lparr>dp_caller_contact := cm_default_contact m\<rparr> else plan)
              in and_then (run_inspectors (cm_inspectors m) tx plan1 s1)
                   (\<lambda>plan2 s2.
                      if dp_callee_offline plan2 \<and> flow_is_empty (dp_flow plan2)
                      then (Ret (Inl (route_err ''target user is offline'' (Some TemporarilyUnavailable))), s2)
                      else (map_run (\<lambda>plan3. Inr (apply_recording_policy m who plan3)) (callee_settings m tx plan2), s2))))"

section \<open>An INVITE\<close>

definition report_failure :: "nat \<Rightarrow> string option \<Rightarrow> 's call_state \<Rightarrow> 's call_state" where
  "report_failure code reason s = s\<lparr>cs_reports := cs_reports s @ [(code, reason)]\<rparr>"

definition reply_with :: "nat \<Rightarrow> headers \<Rightarrow> 's call_state \<Rightarrow> 's call_state" where
  "reply_with code hs s = s\<lparr>cs_replies := cs_replies s @ [(code, hs)]\<rparr>"

definition reason_value :: "nat \<Rightarrow> string \<Rightarrow> string" where
  "reason_value code text = (if contains_str '';cause='' text then text else q850_reason_value code (Some text))"

definition refuse_call :: "route_error \<Rightarrow> 's call_state \<Rightarrow> unit result \<times> 's call_state" where
  "refuse_call e s =
     (if spam (cs_cookie s) \<noteq> None then (Inr (), s)
      else let code = (case re_status e of Some c \<Rightarrow> c | None \<Rightarrow> ServerInternalError)
           in (Inl (re_error e),
               reply_with code [Other ''Reason'' (reason_value code (re_error e))] (report_failure code (Some (re_error e)) s)))"

definition max_forwards :: "sip_tx \<Rightarrow> nat" where
  "max_forwards tx =
     (case first_header HMaxForwards (rq_headers tx) of
        Some v \<Rightarrow> (case parse_unsigned u32_max v of Some n \<Rightarrow> n | None \<Rightarrow> 70)
      | None \<Rightarrow> 70)"

definition TooManyHops :: nat where "TooManyHops = 483"

text \<open>From an INVITE to the plan of its call and the hops it has left; \<open>Inl\<close> when the INVITE is done with.  \<open>reported\<close> says whether
  too many hops are reported as a failed call.\<close>

definition plan_call ::
  "('s, 'n) call_module \<Rightarrow> bool \<Rightarrow> sip_tx \<Rightarrow> sip_user \<Rightarrow> 's call_state \<Rightarrow> (unit result + dialplan \<times> nat) run \<times> 's call_state" where
  "plan_call m reported tx who s =
     (case build_dialplan m tx who s of
        (Panic, s1) \<Rightarrow> (Panic, s1)
      | (Ret (Inl e), s1) \<Rightarrow> (let (r, s2) = refuse_call e s1 in (Ret (Inl r), s2))
      | (Ret (Inr plan), s1) \<Rightarrow>
          if max_forwards tx = 0
          then (Ret (Inl (Inr ())), reply_with TooManyHops [] (if reported then report_failure TooManyHops None s1 else s1))
          else (Ret (Inr (plan, max_forwards tx - 1)), s1))"

text \<open>The session of a plan is built and serves the call; \<open>serve\<close> is its result.\<close>

definition serve_call :: "(dialplan \<Rightarrow> nat \<Rightarrow> unit result) \<Rightarrow> dialplan \<times> nat \<Rightarrow> 's call_state \<Rightarrow> unit result \<times> 's call_state" where
  "serve_call serve p s = (serve (fst p) (snd p), s\<lparr>cs_sessions := cs_sessions s @ [p]\<rparr>)"

section \<open>What does not change\<close>

lemma and_then_Ret [simp]: "and_then (Ret (Inr x), s) f = f x s" "and_then (Ret (Inl e), s) f = (Ret (Inl e), s)"
  by simp_all

lemma and_thenE:
  assumes "and_then r f = (Ret (Inr y), s')"
  obtains x s where "r = (Ret (Inr x), s)" "f x s = (Ret (Inr y), s')"
proof -
  obtain a s where r: "r = (a, s)" by (rule prod.exhaust)
  show thesis
  proof (cases a)
    case (Ret v)
    then show thesis using assms that r by (cases v) auto
  qed (use assms r in simp)
qed

lemma apply_hints_keeps [simp]:
  "dp_flow (apply_hints m h plan) = dp_flow plan" "dp_recording (apply_hints m h plan) = dp_recording plan"
  "dp_callee_offline (apply_hints m h plan) = dp_callee_offline plan" "dp_original (apply_hints m h plan) = dp_original plan"
  "dp_session_id (apply_hints m h plan) = dp_session_id plan" "dp_call_forwarding (apply_hints m h plan) = dp_call_forwarding plan"
  by (simp_all add: apply_hints_def restrict_codecs_def Let_def split: option.splits)

lemma apply_recording_keeps [simp]:
  "dp_flow (apply_recording_policy m who plan) = dp_flow plan"
  "dp_callee_offline (apply_recording_policy m who plan) = dp_callee_offline plan"
  by (simp_all add: apply_recording_policy_def split: option.splits)

lemma number_pool_keeps [simp]:
  "dp_flow (fst (number_pool_inspect sl plan cookie tx usage)) = dp_flow plan"
  "dp_recording (fst (number_pool_inspect sl plan cookie tx usage)) = dp_recording plan"
  "dp_callee_offline (fst (number_pool_inspect sl plan cookie tx usage)) = dp_callee_offline plan"
  "dp_session_id (fst (number_pool_inspect sl plan cookie tx usage)) = dp_session_id plan"
  "dp_call_forwarding (fst (number_pool_inspect sl plan cookie tx usage)) = dp_call_forwarding plan"
  by (simp_all add: number_pool_inspect_def split: option.splits)

lemma emergency_keeps [simp]:
  "dp_recording (fst (emergency_inspect sl cfg plan cookie tx usage)) = dp_recording plan"
  "dp_callee_offline (fst (emergency_inspect sl cfg plan cookie tx usage)) = dp_callee_offline plan"
  "dp_session_id (fst (emergency_inspect sl cfg plan cookie tx usage)) = dp_session_id plan"
  "dp_call_forwarding (fst (emergency_inspect sl cfg plan cookie tx usage)) = dp_call_forwarding plan"
  "snd (emergency_inspect sl cfg plan cookie tx usage) = usage"
  by (simp_all add: emergency_inspect_def split: option.splits sum.splits)

text \<open>The inspectors of the application as one: what the emergency numbers make of a plan, with the caller of the pool.\<close>

definition inspected :: "sip_lib \<Rightarrow> emergency_config option \<Rightarrow> dialplan \<Rightarrow> auth_cookie \<Rightarrow> sip_tx \<Rightarrow> usage \<Rightarrow> dialplan \<times> usage" where
  "inspected sl emergency plan cookie tx usage =
     number_pool_inspect sl (fst (emergency_inspect sl emergency plan cookie tx usage)) cookie tx usage"

lemma run_app_inspectors:
  "run_inspectors (app_inspectors sl emergency) tx plan s =
     (Ret (Inr (fst (inspected sl emergency plan (cs_cookie s) tx (cs_usage s)))),
      s\<lparr>cs_usage := snd (inspected sl emergency plan (cs_cookie s) tx (cs_usage s))\<rparr>)"
proof (cases emergency)
  case None
  then show ?thesis
    by (simp add: app_inspectors_def never_fails_def inspected_def emergency_inspect_def split_beta Let_def)
qed (simp add: app_inspectors_def never_fails_def inspected_def split_beta Let_def)

lemma inspected_keeps [simp]:
  "dp_recording (fst (inspected sl em plan cookie tx usage)) = dp_recording plan"
  "dp_callee_offline (fst (inspected sl em plan cookie tx usage)) = dp_callee_offline plan"
  "dp_session_id (fst (inspected sl em plan cookie tx usage)) = dp_session_id plan"
  "dp_call_forwarding (fst (inspected sl em plan cookie tx usage)) = dp_call_forwarding plan"
  "dp_flow (fst (inspected sl em plan cookie tx usage)) = dp_flow (fst (emergency_inspect sl em plan cookie tx usage))"
  by (simp_all add: inspected_def)

lemma callee_settings_keeps:
  assumes "callee_forwarding m tx = Ret fwd"
  shows "\<exists>plan'. callee_settings m tx plan = Ret plan' \<and> dp_flow plan' = dp_flow plan
           \<and> dp_recording plan' = dp_recording plan \<and> dp_session_id plan' = dp_session_id plan"
proof (cases "resolve_callee_user m tx")
  case (Inr u)
  then show ?thesis
    using assms by (cases u) (auto simp: callee_settings_def callee_forwarding_def split: option.split)
qed (simp add: callee_settings_def)

lemma build_with_app_inspectors:
  assumes "cm_inspectors m = app_inspectors sl em" "cm_router m = None" "callee_forwarding m tx = Ret fwd"
    and r: "default_resolve m (map_option tc_name (from_trunk (cs_cookie s))) tx who s = (Ret (Inr plan), s1)"
    and fl: "f = dp_flow (fst (emergency_inspect sl em (plan\<lparr>dp_caller_contact := c\<rparr>) (cs_cookie s1) tx (cs_usage s1)))"
    and c: "c = (if dp_caller_contact plan = None then cm_default_contact m else dp_caller_contact plan)"
  shows "map_run (map_sum re_status dp_flow) (fst (build_dialplan m tx who s))
           = Ret (if dp_callee_offline plan \<and> flow_is_empty f then Inl (Some TemporarilyUnavailable) else Inr f)"
proof -
  let ?plan = "plan\<lparr>dp_caller_contact := c\<rparr>"
  have contact: "(if dp_caller_contact plan = None then plan\<lparr>dp_caller_contact := cm_default_contact m\<rparr> else plan) = ?plan"
    using c by auto
  let ?i = "fst (inspected sl em ?plan (cs_cookie s1) tx (cs_usage s1))"
  obtain plan' where "callee_settings m tx ?i = Ret plan'" "dp_flow plan' = dp_flow ?i"
    using callee_settings_keeps [OF assms(3)] by blast
  then show ?thesis
    using assms(1,2) fl by (simp add: build_dialplan_def r contact run_app_inspectors Let_def route_err_def)
qed

section \<open>Where a call goes\<close>

text \<open>A call between two parties that are both strangers is refused, unless a trunk brings it.\<close>

theorem strangers_are_refused:
  assumes "resolve_callee_uri tx = Inr u" "rq_call_id tx = Inr c" "from_trunk (cs_cookie s) = None"
    "\<not> same_realm m (text_or_empty (su_realm who))" "\<not> same_realm m (u_host u)"
  shows "default_resolve m hint tx who s
           = (Ret (Inl (route_err ''Both caller and callee are external realm'' (Some Forbidden))), s)"
  using assms by (simp add: default_resolve_def call_direction_def)

text \<open>What the default resolution needs to know of a call that neither a forwarding nor a rule takes.\<close>

definition unhandled ::
  "('s, 'n) call_module \<Rightarrow> string option \<Rightarrow> sip_tx \<Rightarrow> sip_user \<Rightarrow> uri \<Rightarrow> uri \<Rightarrow> 's call_state \<Rightarrow> 's call_state \<Rightarrow> bool" where
  "unhandled m hint tx who u cu s s1 \<longleftrightarrow>
     resolve_callee_uri tx = Inr u \<and> (\<exists>c. rq_call_id tx = Inr c) \<and> caller_uri_of who tx = Inr cu
     \<and> (\<exists>fwd. callee_forwarding m tx = Ret fwd \<and> map_option cf_mode fwd \<noteq> Some FwdAlways)
     \<and> (\<exists>d opt tr st. call_direction m who u s = (Ret (Inr d), s1)
          \<and> preview_route m hint (forward_option u\<lparr>caller := cu\<rparr>) tx d (cs_routing s1) = (Ret (Inr (NotHandled opt)), tr, st))"

lemma callee_locations_routing [simp]: "cs_routing (snd (callee_locations m always u s)) = cs_routing s"
  "cs_cookie (snd (callee_locations m always u s)) = cs_cookie s"
  by (simp_all add: callee_locations_def Let_def split_beta)

lemma resolve_unhandled:
  assumes "unhandled m hint tx who u cu s s1"
  obtains c d s2 where
    "default_resolve m hint tx who s
       = (Ret (Inr (make_plan m c u cu tx d (fst (fst (callee_locations m False u s1)))
            (snd (fst (callee_locations m False u s1))) PendNothing None)), s2)"
    "rq_call_id tx = Inr c" "cs_cookie s2 = cs_cookie s1"
proof -
  obtain c fwd d opt tr st where h: "resolve_callee_uri tx = Inr u" "rq_call_id tx = Inr c" "caller_uri_of who tx = Inr cu"
      "callee_forwarding m tx = Ret fwd" "map_option cf_mode fwd \<noteq> Some FwdAlways"
      "call_direction m who u s = (Ret (Inr d), s1)"
      "preview_route m hint (forward_option u\<lparr>caller := cu\<rparr>) tx d (cs_routing s1) = (Ret (Inr (NotHandled opt)), tr, st)"
    using assms unfolding unhandled_def by blast
  obtain e ls s2 where l: "callee_locations m False u s1 = ((e, ls), s2)" by (metis prod.exhaust)
  have s2: "cs_routing s2 = cs_routing s1" "cs_cookie s2 = cs_cookie s1"
    using callee_locations_routing [of m False u s1] l by auto
  have na: "(map_option cf_mode fwd = Some FwdAlways) = False" using h(5) by simp
  have "resolve_in m hint tx who u c d fwd s1
      = (Ret (Inr (make_plan m c u cu tx d e ls PendNothing None)), s2\<lparr>cs_routing := st\<rparr>)"
    unfolding resolve_in_def na Let_def using h(3,7) s2(1) by (simp add: l run_preview_def split: option.split)
  then have "default_resolve m hint tx who s
      = (Ret (Inr (make_plan m c u cu tx d e ls PendNothing None)), s2\<lparr>cs_routing := st\<rparr>)"
    using h by (simp add: default_resolve_def)
  then show thesis using that [of c d] h(2) s2(2) l by simp
qed

lemma make_plan_simps [simp]:
  "dp_flow (make_plan m c u cu tx d e ls p h)
     = pending_flow (cm_sip m) p (resolve_unhandled_targets (same_realm m (u_host u)) e ls) (Targets (Sequential []))"
  "dp_callee_offline (make_plan m c u cu tx d e ls p h) \<longleftrightarrow> same_realm m (u_host u) \<and> e"
  "dp_recording (make_plan m c u cu tx d e ls p h)
     = (case cm_recording m of Some p \<Rightarrow> new_recording_config p
        | None \<Rightarrow> \<lparr>rec_enabled = False, rec_option = None, rec_auto_start = False\<rparr>)"
  "dp_session_id (make_plan m c u cu tx d e ls p h) = Some c"
  by (simp_all add: make_plan_def dialplan_new_def Let_def)

lemma build_unhandled:
  assumes "unhandled m (map_option tc_name (from_trunk (cs_cookie s))) tx who u cu s s1" "same_realm m (u_host u)"
    "cm_inspectors m = app_inspectors sl None" "cm_router m = None"
    "lookup (cm_sip m) (cm_now m) u (cs_locator s1) = (locs, l)"
  shows "map_run (map_sum re_status dp_flow) (fst (build_dialplan m tx who s))
           = Ret (if locs = [] then Inl (Some TemporarilyUnavailable) else Inr (Targets (Sequential [hd locs])))"
proof -
  obtain fwd where fwd: "callee_forwarding m tx = Ret fwd" using assms(1) by (auto simp: unhandled_def)
  have locs: "fst (callee_locations m False u s1)
      = (locs = [], if locs = [] then [default_location\<lparr>aor := u\<rparr>] else locs)"
    using assms(2,5) by (simp add: callee_locations_def Let_def)
  obtain c d s2 where r: "default_resolve m (map_option tc_name (from_trunk (cs_cookie s))) tx who s
      = (Ret (Inr (make_plan m c u cu tx d (locs = []) (if locs = [] then [default_location\<lparr>aor := u\<rparr>] else locs) PendNothing None)), s2)"
    using resolve_unhandled [OF assms(1)] locs by (metis fst_conv snd_conv)
  show ?thesis
    using build_with_app_inspectors [OF assms(3,4) fwd r refl refl] assms(2)
    by (cases locs) (simp_all add: emergency_inspect_def pending_flow_def resolve_unhandled_targets_def with_targets_def)
qed


text \<open>When the called user forwards every call, the forwarding alone decides: the routing rules are not asked, and neither
  their limits nor their round robin move.\<close>

theorem always_forward_skips_routing:
  assumes "resolve_callee_uri tx = Inr u" "rq_call_id tx = Inr c" "call_direction m who u s = (Ret (Inr d), s1)"
    "callee_forwarding m tx = Ret (Some cfg)" "cf_mode cfg = FwdAlways" "forced_route m (cf_endpoint cfg) = Inr p"
    "caller_uri_of who tx = Inr cu"
  shows "default_resolve m hint tx who s
           = (Ret (Inr (make_plan m c u cu tx d False [default_location\<lparr>aor := u\<rparr>] p None)), s1)"
  using assms by (simp add: default_resolve_def resolve_in_def callee_locations_def)

section \<open>Emergencies come after the routing\<close>

text \<open>C34: An emergency call takes the emergency trunk whatever the routing planned, even to a party that is offline; but a call that
  the routing refuses stays refused, for the emergency numbers are looked at afterwards.\<close>

theorem emergency_after_routing:
  assumes "cm_inspectors m = app_inspectors sl (Some cfg)" "cm_router m = None" "callee_forwarding m tx = Ret fwd"
    "em_enabled cfg" "rq_method tx = MInvite" "rq_to tx = Inr to" "th_uri to = Inr uri"
    "is_emergency cfg (user_or_default uri)" "uri_parse sl (em_trunk cfg) = Some trunk"
  shows "map_run (map_sum re_status dp_flow) (fst (build_dialplan m tx who s))
           = map_run (map_sum re_status (\<lambda>_. Targets (Sequential [default_location\<lparr>aor := trunk\<rparr>])))
               (fst (default_resolve m (map_option tc_name (from_trunk (cs_cookie s))) tx who s))"
proof -
  obtain r s1 where r: "default_resolve m (map_option tc_name (from_trunk (cs_cookie s))) tx who s = (r, s1)" by (rule prod.exhaust)
  have em: "dp_flow (fst (emergency_inspect sl (Some cfg) p k tx us)) = Targets (Sequential [default_location\<lparr>aor := trunk\<rparr>])" for p k us
    using assms(4-9) by (simp add: emergency_inspect_def)
  show ?thesis
  proof (cases r)
    case (Ret v)
    show ?thesis
    proof (cases v)
      case (Inr plan)
      then show ?thesis
        using build_with_app_inspectors [OF assms(1-3), of s who plan s1] r Ret by (simp add: em)
    qed (use r Ret assms(2) in \<open>simp add: build_dialplan_def\<close>)
  qed (use r assms(2) in \<open>simp add: build_dialplan_def\<close>)
qed

section \<open>The prefixes of a trunk\<close>

text \<open>The prefixes that a trunk demands are checked by \<open>route_invite\<close>.  The plan of a call is made with \<open>preview_route\<close>, which does
  not check them, and nothing else routes the call again.\<close>

theorem prefix_policy_skipped:
  assumes "prefix_refusal m hint tx DirInbound = Some reason" "cm_routes m = []"
  shows "(fst (route_invite m hint opt tx DirInbound st), fst (preview_route m hint opt tx DirInbound st))
           = (Ret (Inr (RouteAbort Forbidden (Some reason))), Ret (Inr (NotHandled opt)))"
  using assms by (simp add: route_invite_def preview_route_def match_invite_def match_invite_impl_def)

section \<open>Recording\<close>

lemma sanitized_not_Nil: "alternative \<noteq> [] \<Longrightarrow> sanitize_filename_component v alternative \<noteq> []"
  by (simp add: sanitize_filename_component_def Let_def)

lemma recorded_if_enabled:
  assumes "cm_recording m = Some p" "rp_enabled p" "\<not> cm_sip_flow m" "rec_enabled (dp_recording plan)"
    "dp_session_id plan = Some c" "c \<noteq> []"
  shows "rec_enabled (dp_recording (apply_recording_policy m who plan))
           \<and> rec_option (dp_recording (apply_recording_policy m who plan)) \<noteq> None"
  using assms sanitized_not_Nil [OF assms(6)]
  by (auto simp: apply_recording_policy_def build_recorder_option_def Let_def split: option.splits)

lemma default_resolve_makes:
  assumes "default_resolve m hint tx who s = (Ret (Inr plan), s')"
  shows "\<exists>c u cu d e ls p h. rq_call_id tx = Inr c \<and> plan = make_plan m c u cu tx d e ls p h"
  using assms
  by (auto simp: default_resolve_def resolve_in_def Let_def split: sum.splits run.splits prod.splits elim!: and_thenE; blast)


section \<open>File names\<close>

lemma sanitize_chars_safe:
  "\<forall>c \<in> set acc. allowed_in_filename c \<Longrightarrow> length acc < 120 \<Longrightarrow>
     (\<forall>c \<in> set (sanitize_chars acc sep v). allowed_in_filename c) \<and> length (sanitize_chars acc sep v) \<le> 120"
proof (induction acc sep v rule: sanitize_chars.induct)
  case (2 acc sep c cs)
  have underscore: "allowed_in_filename (CHR ''_'')" by (simp add: allowed_in_filename_def)
  define r where "r = (if allowed_in_filename c then (acc @ [c], False)
      else if \<not> sep then (acc @ ''_'', True) else (acc, sep))"
  obtain acc' sep' where r: "r = (acc', sep')" by (rule prod.exhaust)
  have ok: "\<forall>c \<in> set acc'. allowed_in_filename c" "length acc' \<le> 120"
    using "2.prems" underscore r by (auto simp: r_def split: if_splits)
  have step: "sanitize_chars acc sep (c # cs) = (if 120 \<le> length acc' then acc' else sanitize_chars acc' sep' cs)"
    using r by (simp add: r_def Let_def)
  show ?case
  proof (cases "120 \<le> length acc'")
    case False
    then show ?thesis unfolding step using "2.IH" [OF r_def r [symmetric] False] ok(1) by simp
  next
    case True
    then show ?thesis unfolding step using ok by simp
  qed
qed simp

lemma trim_matches_subset: "set (trim_matches_by P s) \<subseteq> set s"
  unfolding trim_matches_by_def by (auto dest!: set_dropWhileD)

lemma trim_matches_length: "length (trim_matches_by P s) \<le> length s"
  using length_dropWhile_le [of P "rev (dropWhile P s)"] length_dropWhile_le [of P s] by (simp add: trim_matches_by_def)

text \<open>The name of a recording is harmless: at most 120 characters, all of them letters, digits, dashes, underscores and dots, so
  it has no separator of paths; or it is the identifier of the session as it came in the request.\<close>

theorem recording_name_safe:
  "sanitize_filename_component v alternative = alternative
     \<or> (\<forall>c \<in> set (sanitize_filename_component v alternative). allowed_in_filename c)
       \<and> length (sanitize_filename_component v alternative) \<le> 120"
proof -
  have "(\<forall>c \<in> set (sanitize_chars [] False v). allowed_in_filename c) \<and> length (sanitize_chars [] False v) \<le> 120"
    by (rule sanitize_chars_safe) simp_all
  then show ?thesis
    using trim_matches_subset trim_matches_length
    by (auto simp: sanitize_filename_component_def Let_def) (meson order_trans subsetD)+
qed

text \<open>The identifier of a session is a text of the caller, and a path of dots is kept as it is: the recording is then a directory.\<close>

lemma session_of_dots:
  "set_extension ''wav'' (path_push default_config_recorder_path (sanitize_filename_component ''..'' ''..'')) = ''./config/recorders/..''"
  by code_simp

text \<open>The extension replaces what follows the last dot of a name: two sessions whose identifiers end in different hosts
  share one file.\<close>

lemma recordings_collide:
  "set_extension ''wav'' (path_push ''r'' (sanitize_filename_component ''7@10.0.0.1'' ''x''))
     = set_extension ''wav'' (path_push ''r'' (sanitize_filename_component ''7@10.0.0.2'' ''x''))"
  by code_simp

section \<open>Examples\<close>

definition demo_recording :: recording_policy where
  "demo_recording = \<lparr>rp_enabled = True, rp_directions = [DirOutbound], rp_caller_allow = [], rp_caller_deny = [''*''], rp_callee_allow = [],
     rp_callee_deny = [''*''], rp_auto_start = None, rp_filename_pattern = None, rp_samplerate = None, rp_ptime = None, rp_path = None\<rparr>"

definition demo_call_module :: "(counts, unit) call_module" where
  "demo_call_module =
     \<lparr>cm_sip = demo_loc_lib, cm_net = demo_net,
      cm_server = \<lparr>sc_realms = Some [''pbx.example''], sc_ports = {}, sc_external_ip = None, sc_addrs = [], sc_ensure_user = False,
                   sc_cluster_peer_ips = []\<rparr>,
      cm_users = mem_backend [], cm_env = demo_env, cm_trunks = [], cm_routes = [], cm_queues = (\<lambda>_. Inr None), cm_now = 7,
      cm_recording = Some demo_recording, cm_sip_flow = False, cm_codecs = None, cm_codec_of = Some, cm_opus = False,
      cm_media = \<lparr>mc_proxy_mode = ''auto'', mc_ice_servers = None\<rparr>, cm_passthrough_failure = False, cm_glob = (\<lambda>_. None),
      cm_timestamp = ''now'', cm_uuid = ''id'', cm_json_file = (\<lambda>f. f), cm_default_contact = None, cm_router = None,
      cm_inspectors = app_inspectors demo_uri_lib None\<rparr>"

definition demo_call_tx :: "string \<Rightarrow> string \<Rightarrow> sip_tx" where
  "demo_call_tx user host = (demo_request user)\<lparr>rq_uri := demo_phone user host,
     rq_to := Inr \<lparr>th_uri = Inr (demo_phone user host), th_has_tag = False\<rparr>\<rparr>"

definition demo_caller :: sip_user where
  "demo_caller = default_user\<lparr>su_username := ''z'', su_realm := Some ''far.example'', su_from := Some (demo_phone ''z'' ''far.example'')\<rparr>"

definition demo_call_state :: "counts call_state" where
  "demo_call_state = \<lparr>cs_routing = demo_state, cs_locator = demo_locator, cs_cookie = demo_cookie\<lparr>from_trunk := None\<rparr>,
     cs_usage = [], cs_replies = [], cs_reports = [], cs_sessions = []\<rparr>"

lemmas demo_call_defs = demo_call_module_def demo_call_tx_def demo_caller_def demo_call_state_def demo_request_def demo_cookie_def

lemma demo_realms:
  "same_realm demo_call_module ''pbx.example''" "\<not> same_realm demo_call_module ''far.example''"
  "\<not> same_realm demo_call_module ''other.example''"
  by code_simp+

lemma strangers_are_refused_witness:
  "default_resolve demo_call_module None (demo_call_tx ''b'' ''other.example'') demo_caller demo_call_state
     = (Ret (Inl (route_err ''Both caller and callee are external realm'' (Some Forbidden))), demo_call_state)"
proof (rule strangers_are_refused)
  show "resolve_callee_uri (demo_call_tx ''b'' ''other.example'') = Inr (demo_phone ''b'' ''other.example'')" by code_simp
  show "\<not> same_realm demo_call_module (u_host (demo_phone ''b'' ''other.example''))"
    using demo_realms by (simp add: demo_phone_def)
  show "\<not> same_realm demo_call_module (text_or_empty (su_realm demo_caller))"
    using demo_realms by (simp add: demo_caller_def text_or_empty_def)
qed (simp_all add: demo_call_defs)

lemma demo_unhandled:
  "unhandled demo_call_module None (demo_call_tx ''a'' ''pbx.example'') demo_caller (demo_phone ''a'' ''pbx.example'')
     (demo_phone ''z'' ''far.example'') demo_call_state demo_call_state"
proof -
  let ?tx = "demo_call_tx ''a'' ''pbx.example''" and ?u = "demo_phone ''a'' ''pbx.example''"
  have fwd: "callee_forwarding demo_call_module ?tx = Ret None" by code_simp
  have d: "call_direction demo_call_module demo_caller ?u demo_call_state = (Ret (Inr DirInbound), demo_call_state)"
    using demo_realms by (simp add: call_direction_def demo_caller_def text_or_empty_def demo_phone_def)
  have p: "preview_route demo_call_module None opt ?tx DirInbound st = (Ret (Inr (NotHandled opt)), empty_trace, st)" for opt st
    by (simp add: preview_route_def match_invite_def match_invite_impl_def demo_call_module_def)
  have "resolve_callee_uri ?tx = Inr ?u" "caller_uri_of demo_caller ?tx = Inr (demo_phone ''z'' ''far.example'')" by code_simp+
  moreover have "rq_call_id ?tx = Inr ''c1''" by (simp add: demo_call_defs)
  ultimately show ?thesis unfolding unhandled_def using fwd d p by auto
qed

lemma demo_lookup:
  "fst (lookup (cm_sip demo_call_module) (cm_now demo_call_module) (demo_phone ''a'' ''pbx.example'') (cs_locator demo_call_state))
     = [demo_binding ''a'' ''10.0.0.1'' (Some 5) ''a'']"
proof -
  have "fst (lookup demo_loc_lib 7 (demo_phone ''a'' ''pbx.example'') demo_locator) = [demo_binding ''a'' ''10.0.0.1'' (Some 5) ''a'']"
    by (simp add: lookup_def prune_def hm_retain_def all_locations_def is_direct_hit_def is_expired_at_def secs_def Let_def
          sort_locations_by_recency_def demo_locator_defs)
  then show ?thesis by (simp add: demo_call_module_def demo_call_state_def)
qed

lemma demo_build:
  "map_run (map_sum re_status dp_flow) (fst (build_dialplan demo_call_module (demo_call_tx ''a'' ''pbx.example'') demo_caller demo_call_state))
     = Ret (Inr (Targets (Sequential [demo_binding ''a'' ''10.0.0.1'' (Some 5) ''a''])))"
proof -
  have "unhandled demo_call_module (map_option tc_name (from_trunk (cs_cookie demo_call_state)))
      (demo_call_tx ''a'' ''pbx.example'') demo_caller (demo_phone ''a'' ''pbx.example'')
      (demo_phone ''z'' ''far.example'') demo_call_state demo_call_state"
    using demo_unhandled by (simp add: demo_call_state_def)
  from build_unhandled [OF this _ _ _ prod.collapse [symmetric], of demo_uri_lib] demo_realms(1) demo_lookup
  show ?thesis by (simp add: demo_phone_def) (simp add: demo_call_module_def)
qed



definition demo_prefix_module :: "(counts, unit) call_module" where
  "demo_prefix_module = demo_call_module\<lparr>cm_trunks := [(''t'',
     \<lparr>dest = ''sip:far.example'', backup_dest = None, username = None, password = None, codec = [], trunk_disabled = None,
      weight = None, trunk_transport = None, trunk_id = None, trunk_dir = None, inbound_hosts = [],
      incoming_from_user_prefix = Some ''+852'', incoming_to_user_prefix = None, country = None, trunk_policy = None,
      rewrite_hostport = False, did_numbers = []\<rparr>)]\<rparr>"

lemma prefix_policy_skipped_witness:
  "\<exists>reason. fst (route_invite demo_prefix_module (Some ''t'') (forward_option default_uri) (demo_call_tx ''a'' ''pbx.example'') DirInbound demo_state)
       = Ret (Inr (RouteAbort Forbidden (Some reason)))
     \<and> fst (preview_route demo_prefix_module (Some ''t'') (forward_option default_uri) (demo_call_tx ''a'' ''pbx.example'') DirInbound demo_state)
       = Ret (Inr (NotHandled (forward_option default_uri)))"
proof -
  obtain reason where "prefix_refusal demo_prefix_module (Some ''t'') (demo_call_tx ''a'' ''pbx.example'') DirInbound = Some reason"
    by (simp add: prefix_refusal_def resolve_source_trunk_def build_source_trunk_def demo_prefix_module_def extract_from_user_def
        demo_call_tx_def demo_request_def matches_incoming_user_prefixes_def check_user_prefix_def matches_user_prefix_def
        regex_chars_def trim_def trim_start_def trim_end_def is_whitespace_def starts_with_def)
  then show ?thesis
    using prefix_policy_skipped [of demo_prefix_module "Some ''t''" "demo_call_tx ''a'' ''pbx.example''" reason "forward_option default_uri" demo_state]
    by (simp add: demo_prefix_module_def demo_call_module_def)
qed

definition demo_emergency :: emergency_config where
  "demo_emergency = \<lparr>em_enabled = True, em_numbers = default_emergency_numbers, em_trunk = ''sip:emergency''\<rparr>"

lemma emergency_after_routing_witness:
  "map_run (map_sum re_status dp_flow) (fst (build_dialplan (demo_call_module\<lparr>cm_inspectors := app_inspectors demo_uri_lib (Some demo_emergency)\<rparr>)
       (demo_call_tx ''911'' ''pbx.example'') demo_caller demo_call_state))
     = map_run (map_sum re_status (\<lambda>_. Targets (Sequential [default_location\<lparr>aor := default_uri\<lparr>u_scheme := ''sip'', u_user := Some ''emergency''\<rparr>\<rparr>])))
         (fst (default_resolve (demo_call_module\<lparr>cm_inspectors := app_inspectors demo_uri_lib (Some demo_emergency)\<rparr>)
            (map_option tc_name (from_trunk (cs_cookie demo_call_state))) (demo_call_tx ''911'' ''pbx.example'') demo_caller demo_call_state))"
proof (rule emergency_after_routing [where to = "\<lparr>th_uri = Inr (demo_phone ''911'' ''pbx.example''), th_has_tag = False\<rparr>"])
  show "callee_forwarding (demo_call_module\<lparr>cm_inspectors := app_inspectors demo_uri_lib (Some demo_emergency)\<rparr>)
      (demo_call_tx ''911'' ''pbx.example'') = Ret None" by code_simp
  show "is_emergency demo_emergency (user_or_default (demo_phone ''911'' ''pbx.example''))" by code_simp
  show "uri_parse demo_uri_lib (em_trunk demo_emergency) = Some (default_uri\<lparr>u_scheme := ''sip'', u_user := Some ''emergency''\<rparr>)"
    by code_simp
qed (simp_all add: demo_emergency_def demo_call_tx_def demo_request_def demo_call_module_def)

end
