(* ===== verification/Call_Registry.thy ===== *)
theory Call_Registry
  imports Prelude
begin

text \<open>
  The registry of active calls, \<open>src/src/proxy/active_call_registry.rs\<close>, and the shared state of a session that
  mirrors itself into the registry and reports its changes as events, \<open>src/src/proxy/proxy_call/state.rs\<close>.
  The registry finds the handle of a call by its session and by each of its dialogs; the lemmas show that a removed
  session leaves nothing behind, and what happens when two sessions use one dialog id.  The session's lemmas show
  that a replay of its events gives its state.  Times of the wall clock are nanoseconds since 1970.
\<close>

section \<open>The state of the registry\<close>

datatype call_status = StRinging | StTalking

fun show_call_status :: "call_status \<Rightarrow> string" where
  "show_call_status StRinging = ''ringing''"
| "show_call_status StTalking = ''talking''"

record call_entry =
  ce_session_id :: string
  ce_caller :: "string option"
  ce_callee :: "string option"
  ce_direction :: string
  ce_started_at :: int
  ce_answered_at :: "int option"
  ce_status :: call_status

text \<open>A handle is a session id and a channel into the session; the channel is named by a number.\<close>

record session_handle =
  sh_session_id :: string
  sh_channel :: nat

record registry_state =
  entries :: "(string, call_entry) hmap"
  handles :: "(string, session_handle) hmap"
  handles_by_dialog :: "(string, session_handle) hmap"
  dialog_by_session :: "(string, string list) hmap"

definition registry_new :: registry_state where
  "registry_new = \<lparr>entries = [], handles = [], handles_by_dialog = [], dialog_by_session = []\<rparr>"

section \<open>The operations\<close>

definition upsert :: "call_entry \<Rightarrow> session_handle \<Rightarrow> registry_state \<Rightarrow> registry_state" where
  "upsert entry handle r =
     r\<lparr>entries := hm_insert (ce_session_id entry) entry (entries r),
       handles := hm_insert (sh_session_id handle) handle (handles r)\<rparr>"

definition dialogs_of :: "registry_state \<Rightarrow> string \<Rightarrow> string list" where
  "dialogs_of r s = (case hm_get (dialog_by_session r) s of Some ds \<Rightarrow> ds | None \<Rightarrow> [])"

definition register_dialog :: "string \<Rightarrow> session_handle \<Rightarrow> registry_state \<Rightarrow> registry_state" where
  "register_dialog dialog_id handle r =
     r\<lparr>dialog_by_session := hm_insert (sh_session_id handle) (dialogs_of r (sh_session_id handle) @ [dialog_id]) (dialog_by_session r),
       handles_by_dialog := hm_insert dialog_id handle (handles_by_dialog r)\<rparr>"

definition unregister_dialog :: "string \<Rightarrow> registry_state \<Rightarrow> registry_state" where
  "unregister_dialog dialog_id r =
     (case hm_get (handles_by_dialog r) dialog_id of
        None \<Rightarrow> r
      | Some handle \<Rightarrow>
          let r = r\<lparr>handles_by_dialog := hm_remove dialog_id (handles_by_dialog r)\<rparr> in
          case hm_get (dialog_by_session r) (sh_session_id handle) of
            None \<Rightarrow> r
          | Some dialogs \<Rightarrow>
              let rest = filter (\<lambda>d. d \<noteq> dialog_id) dialogs in
              r\<lparr>dialog_by_session := (if rest = [] then hm_remove (sh_session_id handle) (dialog_by_session r)
                                      else hm_insert (sh_session_id handle) rest (dialog_by_session r))\<rparr>)"

definition get_handle_by_dialog :: "string \<Rightarrow> registry_state \<Rightarrow> session_handle option" where
  "get_handle_by_dialog dialog_id r = hm_get (handles_by_dialog r) dialog_id"

definition update_entry :: "string \<Rightarrow> (call_entry \<Rightarrow> call_entry) \<Rightarrow> registry_state \<Rightarrow> registry_state" where
  "update_entry session updater r =
     (case hm_get (entries r) session of
        Some entry \<Rightarrow> r\<lparr>entries := hm_insert session (updater entry) (entries r)\<rparr>
      | None \<Rightarrow> r)"

definition remove_session :: "string \<Rightarrow> registry_state \<Rightarrow> registry_state" where
  "remove_session session r =
     r\<lparr>entries := hm_remove session (entries r), handles := hm_remove session (handles r),
       dialog_by_session := hm_remove session (dialog_by_session r),
       handles_by_dialog := fold hm_remove (dialogs_of r session) (handles_by_dialog r)\<rparr>"

definition call_count :: "registry_state \<Rightarrow> nat" where
  "call_count r = length (entries r)"

definition registry_is_empty :: "registry_state \<Rightarrow> bool" where
  "registry_is_empty r \<longleftrightarrow> call_count r = 0"

text \<open>\<open>sort_by_key\<close> is a stable sort; the key is the reversed start time.\<close>

definition list_recent :: "nat \<Rightarrow> registry_state \<Rightarrow> call_entry list" where
  "list_recent limit r = take limit (sort_key (\<lambda>e. - ce_started_at e) (hm_values (entries r)))"

definition get_entry :: "string \<Rightarrow> registry_state \<Rightarrow> call_entry option" where
  "get_entry session r = hm_get (entries r) session"

definition get_handle :: "string \<Rightarrow> registry_state \<Rightarrow> session_handle option" where
  "get_handle session r = hm_get (handles r) session"

definition session_ids :: "registry_state \<Rightarrow> string list" where
  "session_ids r = hm_keys (entries r)"

definition register_handle :: "int \<Rightarrow> string \<Rightarrow> session_handle \<Rightarrow> registry_state \<Rightarrow> registry_state" where
  "register_handle now session handle r =
     upsert \<lparr>ce_session_id = session, ce_caller = None, ce_callee = None, ce_direction = ''inbound'',
             ce_started_at = now, ce_answered_at = None, ce_status = StRinging\<rparr> handle r"

text \<open>
  The cleanup computes its limit with \<open>chrono\<close>: an age that does not fit into its duration (\<open>i64::MAX\<close> milliseconds)
  is replaced by an hour, and a limit before the first representable time is a panic.
\<close>

definition nanos :: "int \<Rightarrow> int" where
  "nanos seconds = 1000000000 * seconds"

definition chrono_duration_max :: int where
  "chrono_duration_max = 9223372036854775807 * 1000000"

definition chrono_min_utc :: int where
  "chrono_min_utc = nanos (- 8334601228800)"

definition cleanup_cutoff :: "int \<Rightarrow> int \<Rightarrow> int run" where
  "cleanup_cutoff now max_age =
     (let age = if max_age \<le> chrono_duration_max then max_age else nanos 3600
      in if now - age < chrono_min_utc then Panic else Ret (now - age))"

definition last_activity :: "call_entry \<Rightarrow> int" where
  "last_activity e = (case ce_answered_at e of Some t \<Rightarrow> t | None \<Rightarrow> ce_started_at e)"

definition stale_ids :: "int \<Rightarrow> registry_state \<Rightarrow> string list" where
  "stale_ids cutoff r = hm_keys (hm_retain (\<lambda>_ e. last_activity e < cutoff) (entries r))"

definition cleanup_stale :: "int \<Rightarrow> int \<Rightarrow> registry_state \<Rightarrow> (nat \<times> registry_state) run" where
  "cleanup_stale now max_age r =
     map_run (\<lambda>cutoff. (length (stale_ids cutoff r), fold remove_session (stale_ids cutoff r) r)) (cleanup_cutoff now max_age)"

text \<open>The background task of \<open>src/src/proxy/server.rs\<close> runs the cleanup every minute with an age of one hour.\<close>

definition cleanup_tick :: "int \<Rightarrow> registry_state \<Rightarrow> (nat \<times> registry_state) run" where
  "cleanup_tick now r = cleanup_stale now (nanos 3600) r"

text \<open>What a SIP session does when the call is answered.\<close>

definition mark_answered :: "int \<Rightarrow> string option \<Rightarrow> string option \<Rightarrow> string \<Rightarrow> registry_state \<Rightarrow> registry_state" where
  "mark_answered now caller callee session =
     update_entry session (\<lambda>e. e\<lparr>ce_answered_at := Some now, ce_status := StTalking,
        ce_caller := (if ce_caller e = None then caller else ce_caller e),
        ce_callee := (if ce_callee e = None then callee else ce_callee e)\<rparr>)"

section \<open>What the registry promises\<close>

definition owner :: "registry_state \<Rightarrow> string \<Rightarrow> string option" where
  "owner r d = map_option sh_session_id (get_handle_by_dialog d r)"

datatype reg_op =
    Upsert call_entry session_handle
  | RegisterDialog string session_handle
  | UnregisterDialog string
  | UpdateEntry string "call_entry \<Rightarrow> call_entry"
  | RemoveSession string
  | RegisterHandle int string session_handle
  | CleanupStale int int

fun reg_step :: "reg_op \<Rightarrow> registry_state \<Rightarrow> registry_state" where
  "reg_step (Upsert e h) r = upsert e h r"
| "reg_step (RegisterDialog d h) r = register_dialog d h r"
| "reg_step (UnregisterDialog d) r = unregister_dialog d r"
| "reg_step (UpdateEntry s f) r = update_entry s f r"
| "reg_step (RemoveSession s) r = remove_session s r"
| "reg_step (RegisterHandle now s h) r = register_handle now s h r"
| "reg_step (CleanupStale now age) r = (case cleanup_stale now age r of Ret (n, r') \<Rightarrow> r' | Panic \<Rightarrow> r)"

text \<open>A dialog id is registered again only for the session that has it.\<close>

fun no_sharing :: "reg_op list \<Rightarrow> registry_state \<Rightarrow> bool" where
  "no_sharing [] r = True"
| "no_sharing (op # ops) r =
     ((case op of RegisterDialog d h \<Rightarrow>
         owner r d = None \<or> owner r d = Some (sh_session_id h)
       | _ \<Rightarrow> True)
      \<and> no_sharing ops (reg_step op r))"

lemma dialogs_of_simps [simp]:
  "dialogs_of (upsert e h r) s = dialogs_of r s"
  "dialogs_of (register_dialog d h r) s = (if s = sh_session_id h then dialogs_of r s @ [d] else dialogs_of r s)"
  "dialogs_of (update_entry s0 f r) s = dialogs_of r s"
  "dialogs_of (remove_session s0 r) s = (if s = s0 then [] else dialogs_of r s)"
  by (simp_all add: dialogs_of_def upsert_def register_dialog_def update_entry_def remove_session_def split: option.split)

lemma dialogs_of_unregister:
  "dialogs_of (unregister_dialog d r) s =
     (if owner r d = Some s then filter (\<lambda>d'. d' \<noteq> d) (dialogs_of r s) else dialogs_of r s)"
  by (auto simp: owner_def dialogs_of_def unregister_dialog_def get_handle_by_dialog_def Let_def split: option.split)

lemma handle_by_dialog_simps [simp]:
  "get_handle_by_dialog d (upsert e h r) = get_handle_by_dialog d r"
  "get_handle_by_dialog d (register_dialog d' h r) = (if d = d' then Some h else get_handle_by_dialog d r)"
  "get_handle_by_dialog d (unregister_dialog d' r) = (if d = d' then None else get_handle_by_dialog d r)"
  "get_handle_by_dialog d (update_entry s f r) = get_handle_by_dialog d r"
  "get_handle_by_dialog d (remove_session s r) = (if d \<in> set (dialogs_of r s) then None else get_handle_by_dialog d r)"
  by (simp_all add: get_handle_by_dialog_def upsert_def register_dialog_def unregister_dialog_def update_entry_def
      remove_session_def hm_get_fold_remove Let_def split: option.split)

lemma entry_simps [simp]:
  "get_entry s (upsert e h r) = (if s = ce_session_id e then Some e else get_entry s r)"
  "get_entry s (register_dialog d h r) = get_entry s r"
  "get_entry s (unregister_dialog d r) = get_entry s r"
  "get_entry s (update_entry s' f r) = (if s = s' then map_option f (get_entry s r) else get_entry s r)"
  "get_entry s (remove_session s' r) = (if s = s' then None else get_entry s r)"
  by (auto simp: get_entry_def upsert_def register_dialog_def unregister_dialog_def update_entry_def remove_session_def
      Let_def split: option.splits)

lemma handle_remove [simp]: "get_handle s (remove_session s' r) = (if s = s' then None else get_handle s r)"
  by (simp add: get_handle_def remove_session_def)

lemma owner_simps [simp]:
  "owner (upsert e h r) d = owner r d"
  "owner (register_dialog d' h r) d = (if d = d' then Some (sh_session_id h) else owner r d)"
  "owner (unregister_dialog d' r) d = (if d = d' then None else owner r d)"
  "owner (update_entry s f r) d = owner r d"
  "owner (remove_session s r) d = (if d \<in> set (dialogs_of r s) then None else owner r d)"
  by (simp_all add: owner_def)

interpretation reg: directory owner dialogs_of remove_session
  by unfold_locales simp_all

text \<open>The invariant: every dialog with a handle is tracked for the session of the handle.  Without dialogs that two
  sessions share, no dialog is tracked for a session that does not own its handle (\<open>reg.owned\<close>).\<close>

definition reg_inv :: "registry_state \<Rightarrow> bool" where
  "reg_inv r \<longleftrightarrow> hm_wf (entries r) \<and> hm_wf (handles r) \<and> reg.tracked r"

lemma reg_new_inv [inv_intros]: "reg_inv registry_new" "reg.owned registry_new"
  by (simp_all add: reg_inv_def reg.tracked_def reg.owned_def owner_def get_handle_by_dialog_def registry_new_def dialogs_of_def)

lemma wf_simps [simp]:
  "hm_wf (entries r) \<and> hm_wf (handles r) \<Longrightarrow> hm_wf (entries (upsert e h r)) \<and> hm_wf (handles (upsert e h r))"
  "entries (register_dialog d h r) = entries r" "handles (register_dialog d h r) = handles r"
  "entries (unregister_dialog d r) = entries r" "handles (unregister_dialog d r) = handles r"
  "hm_wf (entries r) \<Longrightarrow> hm_wf (entries (update_entry s f r))" "handles (update_entry s f r) = handles r"
  "hm_wf (entries r) \<Longrightarrow> hm_wf (entries (remove_session s r))"
  "hm_wf (handles r) \<Longrightarrow> hm_wf (handles (remove_session s r))"
  by (simp_all add: upsert_def register_dialog_def unregister_dialog_def update_entry_def remove_session_def Let_def
      split: option.split)

lemma remove_session_inv [inv_intros]: "reg_inv r \<Longrightarrow> reg_inv (remove_session s r)"
  by (simp add: reg_inv_def reg.drop_tracked)

lemma fold_remove_session_inv [inv_intros]:
  "reg_inv r \<Longrightarrow> reg_inv (fold remove_session ss r)"
  "reg.owned r \<Longrightarrow> reg.owned (fold remove_session ss r)"
  by (induction ss arbitrary: r) (simp_all add: remove_session_inv reg.drop_owned)

lemma reg_step_inv [inv_intros]: "reg_inv r \<Longrightarrow> reg_inv (reg_step op r)"
proof (cases op)
  case (CleanupStale now age)
  assume "reg_inv r"
  with CleanupStale show ?thesis
    by (cases "cleanup_cutoff now age") (simp_all add: cleanup_stale_def fold_remove_session_inv)
qed (auto simp: reg_inv_def reg.tracked_def register_handle_def dialogs_of_unregister remove_session_inv [unfolded reg_inv_def])

lemma reg_step_owned [inv_intros]:
  "reg_inv r \<Longrightarrow> reg.owned r \<Longrightarrow> no_sharing [op] r \<Longrightarrow> reg.owned (reg_step op r)"
proof (cases op)
  case (CleanupStale now age)
  assume "reg_inv r" "reg.owned r"
  with CleanupStale show ?thesis
    by (cases "cleanup_cutoff now age") (simp_all add: cleanup_stale_def fold_remove_session_inv)
next
  case (RegisterDialog d h)
  assume "reg.owned r" "no_sharing [op] r"
  with RegisterDialog show ?thesis by (auto simp: reg.owned_def split: if_splits)
next
  case (UnregisterDialog d)
  assume "reg.owned r"
  with UnregisterDialog show ?thesis by (auto simp: reg.owned_def dialogs_of_unregister split: if_splits)
next
  case (RemoveSession s)
  assume "reg.owned r"
  with RemoveSession show ?thesis by (simp add: reg.drop_owned)
qed (simp_all add: reg.owned_def register_handle_def)

lemma reg_run_inv: "reg_inv r \<Longrightarrow> reg_inv (fold reg_step ops r)"
  by (induction ops arbitrary: r) (simp_all add: reg_step_inv)

lemma reg_run_owned: "reg_inv r \<Longrightarrow> reg.owned r \<Longrightarrow> no_sharing ops r \<Longrightarrow> reg.owned (fold reg_step ops r)"
  by (induction ops arbitrary: r) (simp_all add: reg_step_inv reg_step_owned)

text \<open>C13: Removing a session removes all of it and nothing else.  After any sequence of operations in which no dialog
  id is registered for a second session, removing a session takes away exactly the dialogs whose handles belong to it,
  its entry and its handle, and every other session keeps its dialogs, its entry and its handle.\<close>

theorem registry_remove_exact:
  assumes "no_sharing ops registry_new" and "r = fold reg_step ops registry_new"
  shows "get_handle_by_dialog d (remove_session s r) =
           (case get_handle_by_dialog d r of Some h \<Rightarrow> if sh_session_id h = s then None else Some h | None \<Rightarrow> None)
         \<and> get_entry s' (remove_session s r) = (if s' = s then None else get_entry s' r)
         \<and> get_handle s' (remove_session s r) = (if s' = s then None else get_handle s' r)"
proof -
  have "reg_inv r" "reg.owned r"
    unfolding assms(2) by (simp_all add: assms(1) reg_run_inv reg_run_owned reg_new_inv)
  then have "owner (remove_session s r) d = (if owner r d = Some s then None else owner r d)"
    by (intro reg.drop_exact) (simp_all add: reg_inv_def)
  then show ?thesis
    by (auto simp: owner_def split: option.split if_splits)
qed

lemma removed_session_leaves_no_dialog:
  "reg_inv r \<Longrightarrow> get_handle_by_dialog d (remove_session s r) = Some h \<Longrightarrow> sh_session_id h \<noteq> s"
  using reg.drop_leaves_none [of r s d] by (auto simp: reg_inv_def owner_def split: if_splits)

text \<open>A dialog id that two sessions use is lost with the first of them.  When a dialog is registered for a second
  session, the id stays in the list of the first one, and ending the first session removes the second session's
  handle: the dialog of the live call is no longer found.\<close>

theorem shared_dialog_lost:
  "get_handle_by_dialog d (register_dialog d h2 (register_dialog d h1 r)) = Some h2
   \<and> get_handle_by_dialog d (remove_session (sh_session_id h1) (register_dialog d h2 (register_dialog d h1 r))) = None"
  by simp

section \<open>Cleaning up\<close>

lemma fold_remove_session:
  "get_entry s (fold remove_session ss r) = (if s \<in> set ss then None else get_entry s r)"
  "get_handle s (fold remove_session ss r) = (if s \<in> set ss then None else get_handle s r)"
  by (induction ss arbitrary: r) auto

lemma fold_remove_dialog:
  "s \<in> set ss \<Longrightarrow> d \<in> set (dialogs_of r s) \<Longrightarrow> get_handle_by_dialog d (fold remove_session ss r) = None"
proof (induction ss arbitrary: r)
  case (Cons s0 ss)
  have keep: "get_handle_by_dialog d r = None \<Longrightarrow> get_handle_by_dialog d (fold remove_session ss r) = None" for r
    by (induction ss arbitrary: r) auto
  show ?case
  proof (cases "d \<in> set (dialogs_of r s0)")
    case True
    then show ?thesis using keep [of "remove_session s0 r"] by simp
  next
    case False
    then have "s \<noteq> s0" using Cons.prems(2) by auto
    then show ?thesis using Cons by simp
  qed
qed simp

lemma stale_ids_iff:
  "hm_wf (entries r) \<Longrightarrow> s \<in> set (stale_ids cutoff r) \<longleftrightarrow> (\<exists>e. get_entry s r = Some e \<and> last_activity e < cutoff)"
  unfolding stale_ids_def hm_keys_get by (simp add: hm_get_retain get_entry_def split: option.split)

lemma cleanup_entries:
  "hm_wf (entries r) \<Longrightarrow> cleanup_stale now age r = Ret (n, r') \<Longrightarrow> cleanup_cutoff now age = Ret cutoff \<Longrightarrow>
     get_entry s r' = (case get_entry s r of Some e \<Rightarrow> if last_activity e < cutoff then None else Some e | None \<Rightarrow> None)"
  by (auto simp: cleanup_stale_def fold_remove_session stale_ids_iff split: option.split)

lemma hour_cutoff: "0 \<le> now \<Longrightarrow> cleanup_cutoff now (nanos 3600) = Ret (now - nanos 3600)"
  by (simp add: cleanup_cutoff_def chrono_duration_max_def chrono_min_utc_def nanos_def)

text \<open>A call that lasts more than an hour is forgotten while it is talking.  The cleanup that runs every minute
  takes the time of the answer for the last activity of a call, so an hour later it removes the entry, the handle and
  all dialogs of the call, whatever its status: a transfer in that dialog is refused from then on.\<close>

theorem long_calls_forgotten:
  assumes "hm_wf (entries r)" and "get_entry s r = Some e" and "ce_status e = StTalking"
    and "ce_answered_at e = Some t" and "t + nanos 3600 < now" and "0 \<le> now"
  shows "\<exists>n r'. cleanup_tick now r = Ret (n, r') \<and> get_entry s r' = None \<and> get_handle s r' = None
           \<and> (\<forall>d \<in> set (dialogs_of r s). get_handle_by_dialog d r' = None)"
proof -
  have "s \<in> set (stale_ids (now - nanos 3600) r)"
    using assms by (simp add: stale_ids_iff last_activity_def)
  then show ?thesis
    by (simp add: cleanup_tick_def cleanup_stale_def hour_cutoff assms(6) fold_remove_session fold_remove_dialog)
qed

section \<open>Evaluation of the registry\<close>

definition demo_handle :: "string \<Rightarrow> session_handle" where
  "demo_handle s = \<lparr>sh_session_id = s, sh_channel = 0\<rparr>"

definition demo_calls :: "reg_op list" where
  "demo_calls = [RegisterHandle 0 ''s1'' (demo_handle ''s1''), RegisterDialog ''d1'' (demo_handle ''s1''),
     RegisterHandle 5 ''s2'' (demo_handle ''s2''), RegisterDialog ''d2'' (demo_handle ''s2''),
     UpdateEntry ''s1'' (\<lambda>e. e\<lparr>ce_answered_at := Some 7, ce_status := StTalking\<rparr>)]"

lemma demo_calls_get:
  "get_entry ''s1'' (fold reg_step demo_calls registry_new) =
     Some \<lparr>ce_session_id = ''s1'', ce_caller = None, ce_callee = None, ce_direction = ''inbound'', ce_started_at = 0,
           ce_answered_at = Some 7, ce_status = StTalking\<rparr>"
  "get_handle_by_dialog ''d1'' (fold reg_step demo_calls registry_new) = Some (demo_handle ''s1'')"
  "get_handle_by_dialog ''d2'' (fold reg_step demo_calls registry_new) = Some (demo_handle ''s2'')"
  "dialogs_of (fold reg_step demo_calls registry_new) ''s1'' = [''d1'']"
  by (simp_all add: demo_calls_def demo_handle_def register_handle_def)
    (simp add: dialogs_of_def registry_new_def)

lemma demo_no_sharing: "no_sharing demo_calls registry_new"
  by (simp add: demo_calls_def register_handle_def) (simp add: owner_def get_handle_by_dialog_def registry_new_def)

theorem registry_remove_exact_witness:
  "get_handle_by_dialog ''d1'' (remove_session ''s1'' (fold reg_step demo_calls registry_new)) = None
   \<and> get_handle_by_dialog ''d2'' (remove_session ''s1'' (fold reg_step demo_calls registry_new)) = Some (demo_handle ''s2'')"
  using registry_remove_exact [OF demo_no_sharing refl, of "''d1''" "''s1''" "''s1''"]
    registry_remove_exact [OF demo_no_sharing refl, of "''d2''" "''s1''" "''s1''"]
  by (simp add: demo_calls_get demo_handle_def)

theorem long_calls_forgotten_witness:
  "\<exists>n r'. cleanup_tick (nanos 3601) (fold reg_step demo_calls registry_new) = Ret (n, r')
     \<and> get_entry ''s1'' r' = None \<and> get_handle_by_dialog ''d1'' r' = None"
proof -
  have "hm_wf (entries (fold reg_step demo_calls registry_new))"
    using reg_run_inv [OF reg_new_inv(1), of demo_calls] by (simp add: reg_inv_def)
  from long_calls_forgotten [OF this demo_calls_get(1), of 7 "nanos 3601"] show ?thesis
    by (auto simp: nanos_def demo_calls_get)
qed

section \<open>The shared state of a session\<close>

datatype hangup_reason = ByCaller | ByCallee | ByRefer | BySystem | Autohangup | NoAnswer | NoBalance | AnswerMachine
  | ServerUnavailable | Canceled | Rejected | HangupFailed | HangupOther string

datatype call_phase = Initializing | Ringing | EarlyMedia | Bridged | Terminating | Failed | Ended

record session_snapshot =
  sn_session_id :: string
  sn_phase :: call_phase
  sn_started_at :: int
  sn_ring_time :: "int option"
  sn_answer_time :: "int option"
  sn_hangup_reason :: "hangup_reason option"
  sn_last_error_code :: "nat option"
  sn_last_error_reason :: "string option"
  sn_caller :: "string option"
  sn_callee :: "string option"
  sn_current_target :: "string option"
  sn_queue_name :: "string option"
  sn_direction :: string
  sn_answer_sdp :: "string option"

datatype call_event =
    PhaseChanged string call_phase
  | TargetRinging string "string option"
  | TargetAnswered string "string option"
  | TargetFailed string "string option" "nat option" "string option"
  | QueueEntered string string
  | QueueLeft string "string option"
  | EvHangup string "hangup_reason option"

text \<open>
  The channel of the events is the list of what has been sent to it; the channel of the running application is the
  list of what it was sent and whether its receiver is still there.  The registry is \<open>None\<close> when the session has none
  or it is gone.
\<close>

record 'e session_shared =
  ss_inner :: session_snapshot
  ss_registry :: "registry_state option"
  ss_events :: "call_event list option"
  ss_app_events :: "(bool \<times> 'e list) option"

definition shared_new :: "int \<Rightarrow> string \<Rightarrow> string \<Rightarrow> string option \<Rightarrow> string option \<Rightarrow> registry_state option \<Rightarrow> 'e session_shared" where
  "shared_new now session direction caller callee registry =
     \<lparr>ss_inner = \<lparr>sn_session_id = session, sn_phase = Initializing, sn_started_at = now, sn_ring_time = None,
        sn_answer_time = None, sn_hangup_reason = None, sn_last_error_code = None, sn_last_error_reason = None,
        sn_caller = caller, sn_callee = callee, sn_current_target = None, sn_queue_name = None,
        sn_direction = direction, sn_answer_sdp = None\<rparr>,
      ss_registry = registry, ss_events = None, ss_app_events = None\<rparr>"

definition set_app_event_sender :: "(bool \<times> 'e list) option \<Rightarrow> 'e session_shared \<Rightarrow> 'e session_shared" where
  "set_app_event_sender sender s = s\<lparr>ss_app_events := sender\<rparr>"

definition send_app_event :: "'e \<Rightarrow> 'e session_shared \<Rightarrow> bool \<times> 'e session_shared" where
  "send_app_event event s =
     (case ss_app_events s of
        Some (True, log) \<Rightarrow> (True, s\<lparr>ss_app_events := Some (True, log @ [event])\<rparr>)
      | _ \<Rightarrow> (False, s))"

definition has_app_event_sender :: "'e session_shared \<Rightarrow> bool" where
  "has_app_event_sender s \<longleftrightarrow> ss_app_events s \<noteq> None"

definition set_answer_sdp :: "string \<Rightarrow> 'e session_shared \<Rightarrow> 'e session_shared" where
  "set_answer_sdp sdp s = s\<lparr>ss_inner := (ss_inner s)\<lparr>sn_answer_sdp := Some sdp\<rparr>\<rparr>"

definition register_active_call :: "session_handle \<Rightarrow> 'e session_shared \<Rightarrow> 'e session_shared" where
  "register_active_call handle s =
     (case ss_registry s of
        None \<Rightarrow> s
      | Some r \<Rightarrow>
          let i = ss_inner s;
              entry = \<lparr>ce_session_id = sn_session_id i, ce_caller = sn_caller i, ce_callee = sn_callee i,
                       ce_direction = sn_direction i, ce_started_at = sn_started_at i,
                       ce_answered_at = sn_answer_time i, ce_status = StRinging\<rparr>
          in s\<lparr>ss_registry := Some (register_dialog (sn_session_id i) handle (upsert entry handle r))\<rparr>)"

definition shared_register_dialog :: "string \<Rightarrow> session_handle \<Rightarrow> 'e session_shared \<Rightarrow> 'e session_shared" where
  "shared_register_dialog dialog_id handle s =
     s\<lparr>ss_registry := map_option (register_dialog dialog_id handle) (ss_registry s)\<rparr>"

definition shared_unregister :: "'e session_shared \<Rightarrow> 'e session_shared" where
  "shared_unregister s = s\<lparr>ss_registry := map_option (remove_session (sn_session_id (ss_inner s))) (ss_registry s)\<rparr>"

definition set_event_sender :: "'e session_shared \<Rightarrow> 'e session_shared" where
  "set_event_sender s = s\<lparr>ss_events := Some []\<rparr>"

definition emit_custom_event :: "call_event \<Rightarrow> 'e session_shared \<Rightarrow> 'e session_shared" where
  "emit_custom_event ev s = s\<lparr>ss_events := map_option (\<lambda>log. log @ [ev]) (ss_events s)\<rparr>"

section \<open>Changes of the shared state\<close>

definition mirror_entry :: "session_snapshot \<Rightarrow> call_entry \<Rightarrow> call_entry" where
  "mirror_entry i e =
     e\<lparr>ce_caller := sn_caller i, ce_callee := sn_callee i, ce_answered_at := sn_answer_time i,
       ce_status := (case sn_phase i of Bridged \<Rightarrow> StTalking | _ \<Rightarrow> StRinging)\<rparr>"

definition change_events :: "session_snapshot \<Rightarrow> session_snapshot \<Rightarrow> call_event list" where
  "change_events old new =
     (if sn_phase new \<noteq> sn_phase old then [PhaseChanged (sn_session_id new) (sn_phase new)] else [])
     @ (if sn_queue_name new \<noteq> sn_queue_name old
        then (case (sn_queue_name old, sn_queue_name new) of
                (Some prev, Some cur) \<Rightarrow> [QueueLeft (sn_session_id new) (Some prev), QueueEntered (sn_session_id new) cur]
              | (Some prev, None) \<Rightarrow> [QueueLeft (sn_session_id new) (Some prev)]
              | (None, Some cur) \<Rightarrow> [QueueEntered (sn_session_id new) cur]
              | (None, None) \<Rightarrow> [])
        else [])
     @ (if sn_hangup_reason new \<noteq> sn_hangup_reason old then [EvHangup (sn_session_id new) (sn_hangup_reason new)] else [])"

definition update_shared :: "(session_snapshot \<Rightarrow> bool \<times> session_snapshot) \<Rightarrow> 'e session_shared \<Rightarrow> bool \<times> 'e session_shared" where
  "update_shared mutate s =
     (let (changed, new) = mutate (ss_inner s);
          s1 = s\<lparr>ss_inner := new\<rparr>
      in if \<not> changed then (False, s1)
         else let s2 = s1\<lparr>ss_registry := map_option (update_entry (sn_session_id new) (mirror_entry new)) (ss_registry s1)\<rparr>
              in (True, fold emit_custom_event (change_events (ss_inner s) new) s2))"

definition update_routed_parties :: "string option \<Rightarrow> string option \<Rightarrow> 'e session_shared \<Rightarrow> 'e session_shared" where
  "update_routed_parties caller callee s = snd (update_shared (\<lambda>i.
     let (changed1, i1) = (if caller \<noteq> None \<and> sn_caller i \<noteq> caller then (True, i\<lparr>sn_caller := caller\<rparr>) else (False, i));
         (changed2, i2) = (if callee \<noteq> None \<and> sn_callee i1 \<noteq> callee then (True, i1\<lparr>sn_callee := callee\<rparr>) else (changed1, i1))
     in (changed2, i2)) s)"

definition transition_to_ringing :: "int \<Rightarrow> bool \<Rightarrow> 'e session_shared \<Rightarrow> bool \<times> 'e session_shared" where
  "transition_to_ringing now has_early_media s = update_shared (\<lambda>i.
     if sn_phase i \<in> {Initializing, Ringing, EarlyMedia}
     then (True, i\<lparr>sn_ring_time := (case sn_ring_time i of None \<Rightarrow> Some now | Some t \<Rightarrow> Some t),
                   sn_phase := (if has_early_media then EarlyMedia else Ringing)\<rparr>)
     else (False, i)) s"

definition transition_to_answered :: "int \<Rightarrow> 'e session_shared \<Rightarrow> 'e session_shared" where
  "transition_to_answered now s = snd (update_shared (\<lambda>i.
     (True, i\<lparr>sn_answer_time := (case sn_answer_time i of None \<Rightarrow> Some now | Some t \<Rightarrow> Some t), sn_phase := Bridged\<rparr>)) s)"

definition note_failure :: "nat \<Rightarrow> string option \<Rightarrow> 'e session_shared \<Rightarrow> 'e session_shared" where
  "note_failure code reason s = snd (update_shared (\<lambda>i.
     (True, i\<lparr>sn_last_error_code := Some code, sn_last_error_reason := reason,
              sn_phase := (if sn_phase i \<noteq> Bridged then Failed else sn_phase i)\<rparr>)) s)"

definition mark_hangup :: "hangup_reason \<Rightarrow> 'e session_shared \<Rightarrow> 'e session_shared" where
  "mark_hangup reason s = snd (update_shared (\<lambda>i.
     (True, i\<lparr>sn_hangup_reason := Some reason, sn_phase := Ended\<rparr>)) s)"

definition set_current_target :: "string option \<Rightarrow> 'e session_shared \<Rightarrow> 'e session_shared" where
  "set_current_target target s =
     (let (changed, s1) = update_shared (\<lambda>i.
            if sn_current_target i = target then (False, i) else (True, i\<lparr>sn_current_target := target\<rparr>)) s
      in if changed then emit_custom_event (TargetRinging (sn_session_id (ss_inner s1)) target) s1 else s1)"

definition set_queue_name :: "string option \<Rightarrow> 'e session_shared \<Rightarrow> 'e session_shared" where
  "set_queue_name queue s = snd (update_shared (\<lambda>i.
     if sn_queue_name i = queue then (False, i) else (True, i\<lparr>sn_queue_name := queue\<rparr>)) s)"

section \<open>What an observer of the events knows\<close>

record call_view =
  vw_phase :: call_phase
  vw_queue :: "string option"
  vw_hangup :: "hangup_reason option"
  vw_target :: "string option"

fun observe_event :: "call_event \<Rightarrow> call_view \<Rightarrow> call_view" where
  "observe_event (PhaseChanged _ p) v = v\<lparr>vw_phase := p\<rparr>"
| "observe_event (QueueEntered _ q) v = v\<lparr>vw_queue := Some q\<rparr>"
| "observe_event (QueueLeft _ _) v = v\<lparr>vw_queue := None\<rparr>"
| "observe_event (EvHangup _ h) v = v\<lparr>vw_hangup := h\<rparr>"
| "observe_event (TargetRinging _ t) v = v\<lparr>vw_target := t\<rparr>"
| "observe_event (TargetAnswered _ _) v = v"
| "observe_event (TargetFailed _ _ _ _) v = v"

definition view_of :: "session_snapshot \<Rightarrow> call_view" where
  "view_of i = \<lparr>vw_phase = sn_phase i, vw_queue = sn_queue_name i, vw_hangup = sn_hangup_reason i, vw_target = sn_current_target i\<rparr>"

definition view_new :: call_view where
  "view_new = \<lparr>vw_phase = Initializing, vw_queue = None, vw_hangup = None, vw_target = None\<rparr>"

datatype session_op =
    RoutedParties "string option" "string option"
  | ToRinging int bool
  | ToAnswered int
  | NoteFailure nat "string option"
  | MarkHangup hangup_reason
  | SetTarget "string option"
  | SetQueue "string option"
  | SetAnswerSdp string
  | Unregister
  | RegDialog string session_handle

fun session_step :: "session_op \<Rightarrow> 'e session_shared \<Rightarrow> 'e session_shared" where
  "session_step (RoutedParties a b) s = update_routed_parties a b s"
| "session_step (ToRinging now m) s = snd (transition_to_ringing now m s)"
| "session_step (ToAnswered now) s = transition_to_answered now s"
| "session_step (NoteFailure c r) s = note_failure c r s"
| "session_step (MarkHangup h) s = mark_hangup h s"
| "session_step (SetTarget t) s = set_current_target t s"
| "session_step (SetQueue q) s = set_queue_name q s"
| "session_step (SetAnswerSdp sdp) s = set_answer_sdp sdp s"
| "session_step Unregister s = shared_unregister s"
| "session_step (RegDialog d h) s = shared_register_dialog d h s"

lemma fold_emit [simp]:
  "ss_inner (fold emit_custom_event evs s) = ss_inner s"
  "ss_registry (fold emit_custom_event evs s) = ss_registry s"
  "ss_events (fold emit_custom_event evs s) = map_option (\<lambda>log. log @ evs) (ss_events s)"
  by (induction evs arbitrary: s) (simp_all add: emit_custom_event_def option.map_comp comp_def option.map_ident)

lemma observe_change_events:
  "fold observe_event (change_events old new) (view_of old) = (view_of new)\<lparr>vw_target := sn_current_target old\<rparr>"
  by (auto simp: change_events_def view_of_def split: option.split)

text \<open>Every change keeps the log in step with the state, and the entry of the registry in step with both.\<close>

definition replayed :: "'e session_shared \<Rightarrow> bool" where
  "replayed s \<longleftrightarrow> (\<exists>log. ss_events s = Some log \<and> fold observe_event log view_new = view_of (ss_inner s))"

definition mirrored :: "'e session_shared \<Rightarrow> bool" where
  "mirrored s \<longleftrightarrow> (\<forall>r e. ss_registry s = Some r \<longrightarrow> get_entry (sn_session_id (ss_inner s)) r = Some e \<longrightarrow> mirror_entry (ss_inner s) e = e)"

lemma update_shared_result:
  assumes "f (ss_inner s) = (c, new)"
  shows "fst (update_shared f s) = c" "ss_inner (snd (update_shared f s)) = new"
    "ss_registry (snd (update_shared f s)) =
       (if c then map_option (update_entry (sn_session_id new) (mirror_entry new)) (ss_registry s) else ss_registry s)"
    "ss_events (snd (update_shared f s)) =
       (if c then map_option (\<lambda>log. log @ change_events (ss_inner s) new) (ss_events s) else ss_events s)"
  by (simp_all add: update_shared_def assms Let_def)

text \<open>A change that keeps the session id and, when it reports no change, changes nothing.\<close>

definition proper_change :: "(session_snapshot \<Rightarrow> bool \<times> session_snapshot) \<Rightarrow> bool" where
  "proper_change f \<longleftrightarrow> (\<forall>i. sn_session_id (snd (f i)) = sn_session_id i \<and> (fst (f i) \<or> snd (f i) = i))"

lemma update_shared_replayed:
  assumes "replayed s" and "proper_change f" and "sn_current_target (snd (f (ss_inner s))) = sn_current_target (ss_inner s)"
  shows "replayed (snd (update_shared f s))"
proof -
  obtain c new where f: "f (ss_inner s) = (c, new)" by fastforce
  then have new: "c \<or> new = ss_inner s" using assms(2) by (metis fst_conv proper_change_def snd_conv)
  obtain log where log: "ss_events s = Some log" "fold observe_event log view_new = view_of (ss_inner s)"
    using assms(1) by (auto simp: replayed_def)
  show ?thesis
    using new log assms(3) observe_change_events [of "ss_inner s" new]
    unfolding replayed_def update_shared_result [of f s c new, OF f] by (auto simp: view_of_def f)
qed

lemma mirror_entry_idem [simp]: "mirror_entry i (mirror_entry i e) = mirror_entry i e"
  by (simp add: mirror_entry_def)

lemma update_shared_mirrored:
  assumes "mirrored s" and "proper_change f"
  shows "mirrored (snd (update_shared f s))"
proof -
  obtain c new where f: "f (ss_inner s) = (c, new)" by fastforce
  then have new: "c \<or> new = ss_inner s" using assms(2) by (metis fst_conv proper_change_def snd_conv)
  then show ?thesis
    using assms(1) unfolding mirrored_def update_shared_result [of f s c new, OF f] by auto
qed

lemma set_current_target_alt:
  "set_current_target t s =
     (if sn_current_target (ss_inner s) = t then s
      else emit_custom_event (TargetRinging (sn_session_id (ss_inner s)) t)
             (snd (update_shared (\<lambda>i. (True, i\<lparr>sn_current_target := t\<rparr>)) s)))"
  by (simp add: set_current_target_def update_shared_def Let_def)

lemma session_step_replayed: "replayed s \<Longrightarrow> replayed (session_step op s)"
proof (cases op)
  case (SetTarget t)
  assume "replayed s"
  then obtain log where "ss_events s = Some log" "fold observe_event log view_new = view_of (ss_inner s)"
    by (auto simp: replayed_def)
  then show ?thesis
    using \<open>replayed s\<close> observe_change_events [of "ss_inner s" "(ss_inner s)\<lparr>sn_current_target := t\<rparr>"]
    by (auto simp: SetTarget set_current_target_alt replayed_def emit_custom_event_def update_shared_def view_of_def)
qed (auto simp: update_routed_parties_def transition_to_ringing_def transition_to_answered_def note_failure_def
      mark_hangup_def set_queue_name_def proper_change_def Let_def intro!: update_shared_replayed,
     auto simp: replayed_def set_answer_sdp_def shared_unregister_def shared_register_dialog_def view_of_def)

lemma session_step_mirrored: "mirrored s \<Longrightarrow> mirrored (session_step op s)"
proof (cases op)
  case (SetTarget t)
  assume "mirrored s"
  then have "mirrored (snd (update_shared (\<lambda>i. (True, i\<lparr>sn_current_target := t\<rparr>)) s))"
    by (rule update_shared_mirrored) (simp add: proper_change_def)
  then show ?thesis using \<open>mirrored s\<close>
    by (simp add: SetTarget set_current_target_alt mirrored_def emit_custom_event_def)
qed (auto simp: update_routed_parties_def transition_to_ringing_def transition_to_answered_def note_failure_def
      mark_hangup_def set_queue_name_def proper_change_def Let_def intro!: update_shared_mirrored,
     auto simp: mirrored_def set_answer_sdp_def shared_unregister_def shared_register_dialog_def mirror_entry_def)

text \<open>The events of a session tell its state.  Whoever replays the events sent since the session was created, in
  their order, knows after every sequence of operations the phase, the queue, the reason of the hangup and the target of
  the session exactly.\<close>

theorem session_events_replay:
  "let s = fold session_step ops (set_event_sender (shared_new now session direction caller callee registry))
   in \<exists>log. ss_events s = Some log \<and> fold observe_event log view_new = view_of (ss_inner s)"
proof -
  have run: "replayed s \<Longrightarrow> replayed (fold session_step ops s)" for s :: "'a session_shared"
    by (induction ops arbitrary: s) (simp_all add: session_step_replayed)
  have "replayed (set_event_sender (shared_new now session direction caller callee registry :: 'a session_shared))"
    by (simp add: replayed_def set_event_sender_def shared_new_def view_new_def view_of_def)
  from run [OF this] show ?thesis by (simp add: replayed_def Let_def)
qed

text \<open>The registry shows the session as it is.  From the registration of a new session on, whatever the session
  does, the entry the registry has of it carries the session's caller, callee and answer time, and says talking exactly
  while the session is bridged.\<close>

theorem session_entry_mirrors:
  assumes "s0 = register_active_call handle (shared_new now session direction caller callee (Some r0))"
    and "s = fold session_step ops s0" and "ss_registry s = Some r" and "get_entry (sn_session_id (ss_inner s)) r = Some e"
  shows "ce_caller e = sn_caller (ss_inner s) \<and> ce_callee e = sn_callee (ss_inner s)
         \<and> ce_answered_at e = sn_answer_time (ss_inner s) \<and> (ce_status e = StTalking \<longleftrightarrow> sn_phase (ss_inner s) = Bridged)"
proof -
  have run: "mirrored s' \<Longrightarrow> mirrored (fold session_step ops s')" for s' :: "'a session_shared"
    by (induction ops arbitrary: s') (simp_all add: session_step_mirrored)
  have "mirrored s0"
    by (simp add: mirrored_def assms(1) register_active_call_def shared_new_def mirror_entry_def Let_def)
  then have "mirror_entry (ss_inner s) e = e"
    using run [of s0] assms(2-4) by (simp add: mirrored_def)
  then show ?thesis
    by (cases e; cases "sn_phase (ss_inner s)") (auto simp: mirror_entry_def)
qed

text \<open>An ended session is not protected from being answered: it becomes a talking call again.\<close>

lemma answered_after_hangup:
  "sn_phase (ss_inner (transition_to_answered now (mark_hangup h s))) = Bridged"
  by (simp add: transition_to_answered_def mark_hangup_def update_shared_def Let_def)

definition demo_session :: "nat session_shared" where
  "demo_session = fold session_step [ToRinging 3 False, ToAnswered 5]
     (register_active_call (demo_handle ''s'') (shared_new 0 ''s'' ''inbound'' None None (Some registry_new)))"

theorem session_entry_mirrors_witness:
  "\<exists>r e. ss_registry demo_session = Some r \<and> get_entry ''s'' r = Some e \<and> ce_status e = StTalking"
proof -
  obtain r e where re: "ss_registry demo_session = Some r" "get_entry (sn_session_id (ss_inner demo_session)) r = Some e"
    "sn_session_id (ss_inner demo_session) = ''s''" "sn_phase (ss_inner demo_session) = Bridged"
    by (simp add: demo_session_def transition_to_ringing_def transition_to_answered_def update_shared_def Let_def
        register_active_call_def shared_new_def)
  then show ?thesis
    using session_entry_mirrors [OF refl demo_session_def re(1,2)] by auto
qed

end
