(* ===== verification/Conference.thy ===== *)
theory Conference
  imports Prelude
begin

text \<open>
  Conferences: the audio mixer of one conference, \<open>src/src/media/conference_mixer.rs\<close> with \<open>AudioMixer::mix_frames\<close> of
  \<open>src/src/media/mixer.rs\<close>, and the manager of the rooms, \<open>src/src/call/runtime/conference_manager.rs\<close>.

  A channel between a participant and the mixer is the list of the frames in it.  It holds 100 frames; a
  sender waits when it is full, and sending into a channel whose receiver is gone is ignored.  The ends of
  channels that the manager stores are named by the conference whose mixer has the other end.  The codec of a
  participant, which nothing reads, is left out.
\<close>

section \<open>Frames\<close>

record audio_frame =
  samples :: "int list"
  af_sample_rate :: nat
  af_timestamp :: nat

definition audio_frame_new :: "int list \<Rightarrow> nat \<Rightarrow> audio_frame" where
  "audio_frame_new ss rate = \<lparr>samples = ss, af_sample_rate = rate, af_timestamp = 0\<rparr>"

text \<open>Samples are 16 bit numbers.  The mixer adds two of them as floating point numbers, which is exact for integers
  of this size and for the gain 1 that the conference uses, and converts the sum back; this conversion
  saturates, so the clamp after it has no effect.\<close>

definition sat16 :: "int \<Rightarrow> int" where
  "sat16 x = max (- 32768) (min 32767 x)"

definition mix_frames :: "int list list \<Rightarrow> int list" where
  "mix_frames frames =
     (if frames = [] then []
      else let n = length (hd frames)
           in fold (\<lambda>frame out. if length frame \<noteq> n then out else map2 (\<lambda>o' s. sat16 (o' + s)) out frame)
                frames (replicate n 0))"

text \<open>\<open>resize\<close> and \<open>truncate\<close> to the size of a frame.\<close>

definition normalize_frame :: "nat \<Rightarrow> int list \<Rightarrow> int list" where
  "normalize_frame n ss =
     (if length ss < n then ss @ replicate (n - length ss) 0 else if n < length ss then take n ss else ss)"

section \<open>The mixer of a conference\<close>

definition channel_capacity :: nat where "channel_capacity = 100"

record participant_audio =
  pa_input :: "audio_frame list"
  pa_output :: "audio_frame list"
  pa_output_open :: bool
  pa_muted :: bool

record conference_mixer =
  mx_conf_id :: string
  mx_participants :: "(leg_id, participant_audio) hmap"
  mx_participant_count :: "64 word"
  mx_sample_rate :: nat
  mx_frame_size :: nat

definition mixer_new :: "string \<Rightarrow> nat \<Rightarrow> conference_mixer" where
  "mixer_new conf_id rate =
     \<lparr>mx_conf_id = conf_id, mx_participants = [], mx_participant_count = 0, mx_sample_rate = rate,
      mx_frame_size = rate * 20 div 1000\<rparr>"

definition mixer_add_participant :: "leg_id \<Rightarrow> conference_mixer \<Rightarrow> unit result \<times> conference_mixer" where
  "mixer_add_participant leg m =
     (if hm_get (mx_participants m) leg \<noteq> None
      then (Inl (''Participant '' @ leg @ '' already exists in conference''), m)
      else (Inr (), m\<lparr>mx_participants := hm_insert leg
                       \<lparr>pa_input = [], pa_output = [], pa_output_open = True, pa_muted = False\<rparr> (mx_participants m),
                     mx_participant_count := mx_participant_count m + 1\<rparr>))"

definition mixer_remove_participant :: "leg_id \<Rightarrow> conference_mixer \<Rightarrow> conference_mixer" where
  "mixer_remove_participant leg m =
     m\<lparr>mx_participants := hm_remove leg (mx_participants m),
       mx_participant_count := mx_participant_count m - 1\<rparr>"

definition set_muted :: "leg_id \<Rightarrow> bool \<Rightarrow> conference_mixer \<Rightarrow> conference_mixer" where
  "set_muted leg b m =
     (case hm_get (mx_participants m) leg of
        Some p \<Rightarrow> m\<lparr>mx_participants := hm_insert leg (p\<lparr>pa_muted := b\<rparr>) (mx_participants m)\<rparr>
      | None \<Rightarrow> m)"

text \<open>One round of the mixing loop.  It first drains the input of every participant and keeps the latest frame of
  those that are not muted; then it mixes for every participant the frames of the others and sends the result.
  Sending waits when the channel is full: the round then ends with \<open>Inl\<close>, the participant it waits for.\<close>

definition drain :: "participant_audio \<Rightarrow> audio_frame option" where
  "drain p = (if pa_muted p \<or> pa_input p = [] then None else Some (last (pa_input p)))"

definition collect_audio :: "conference_mixer \<Rightarrow> (leg_id, audio_frame) hmap" where
  "collect_audio m =
     List.map_filter (\<lambda>(leg, p). map_option (\<lambda>f. (leg, f)) (drain p)) (mx_participants m)"

definition drain_all :: "conference_mixer \<Rightarrow> conference_mixer" where
  "drain_all m = m\<lparr>mx_participants := map (\<lambda>(leg, p). (leg, p\<lparr>pa_input := []\<rparr>)) (mx_participants m)\<rparr>"

definition mix_for :: "conference_mixer \<Rightarrow> (leg_id, audio_frame) hmap \<Rightarrow> leg_id \<Rightarrow> audio_frame option" where
  "mix_for m audio out =
     (let inputs = map (\<lambda>(leg, f). samples f) (filter (\<lambda>(leg, f). leg \<noteq> out) audio)
      in if inputs = [] then None
         else Some (audio_frame_new (mix_frames (map (normalize_frame (mx_frame_size m)) inputs)) (mx_sample_rate m)))"

definition send_output :: "audio_frame \<Rightarrow> participant_audio \<Rightarrow> participant_audio option" where
  "send_output f p =
     (if \<not> pa_output_open p then Some p
      else if length (pa_output p) < channel_capacity then Some (p\<lparr>pa_output := pa_output p @ [f]\<rparr>)
      else None)"

fun distribute :: "(leg_id, audio_frame) hmap \<Rightarrow> leg_id list \<Rightarrow> conference_mixer \<Rightarrow> (leg_id \<times> conference_mixer) + conference_mixer" where
  "distribute audio [] m = Inr m"
| "distribute audio (out # outs) m =
     (case mix_for m audio out of
        None \<Rightarrow> distribute audio outs m
      | Some f \<Rightarrow>
          (case hm_get (mx_participants m) out of
             None \<Rightarrow> distribute audio outs m
           | Some p \<Rightarrow>
               (case send_output f p of
                  None \<Rightarrow> Inl (out, m)
                | Some p' \<Rightarrow> distribute audio outs (m\<lparr>mx_participants := hm_insert out p' (mx_participants m)\<rparr>))))"

definition mixing_round :: "conference_mixer \<Rightarrow> (leg_id \<times> conference_mixer) + conference_mixer" where
  "mixing_round m =
     (let audio = collect_audio m; m' = drain_all m
      in if audio = [] then Inr m' else distribute audio (hm_keys (mx_participants m')) m')"

section \<open>Rooms\<close>

record conference_participant =
  cp_leg :: leg_id
  cp_muted :: bool
  cp_joined_at :: instant

record conference_room =
  cr_id :: string
  cr_participants :: "(leg_id, conference_participant) hmap"
  cr_created_at :: instant
  cr_max_participants :: "nat option"
  cr_locked :: bool

definition room_new :: "instant \<Rightarrow> string \<Rightarrow> nat option \<Rightarrow> conference_room" where
  "room_new now i mx =
     \<lparr>cr_id = i, cr_participants = [], cr_created_at = now, cr_max_participants = mx, cr_locked = False\<rparr>"

definition room_add_participant :: "instant \<Rightarrow> leg_id \<Rightarrow> conference_room \<Rightarrow> conference_room result" where
  "room_add_participant now leg r =
     (if (case cr_max_participants r of Some mx \<Rightarrow> mx \<le> length (cr_participants r) | None \<Rightarrow> False)
      then Inl ''Conference is at maximum capacity''
      else if hm_get (cr_participants r) leg \<noteq> None then Inl (''Leg '' @ leg @ '' already in conference'')
      else Inr (r\<lparr>cr_participants := hm_insert leg \<lparr>cp_leg = leg, cp_muted = False, cp_joined_at = now\<rparr> (cr_participants r)\<rparr>))"

definition not_in_conference :: "leg_id \<Rightarrow> err" where
  "not_in_conference leg = ''Leg '' @ leg @ '' is not in conference''"

definition room_remove_participant :: "leg_id \<Rightarrow> conference_room \<Rightarrow> conference_room result" where
  "room_remove_participant leg r =
     (if hm_get (cr_participants r) leg = None then Inl (not_in_conference leg)
      else Inr (r\<lparr>cr_participants := hm_remove leg (cr_participants r)\<rparr>))"

definition room_set_muted :: "bool \<Rightarrow> leg_id \<Rightarrow> conference_room \<Rightarrow> conference_room result" where
  "room_set_muted b leg r =
     (case hm_get (cr_participants r) leg of
        None \<Rightarrow> Inl (not_in_conference leg)
      | Some p \<Rightarrow> Inr (r\<lparr>cr_participants := hm_insert leg (p\<lparr>cp_muted := b\<rparr>) (cr_participants r)\<rparr>))"

definition room_lock :: "conference_room \<Rightarrow> conference_room" where
  "room_lock r = r\<lparr>cr_locked := True\<rparr>"

definition room_unlock :: "conference_room \<Rightarrow> conference_room" where
  "room_unlock r = r\<lparr>cr_locked := False\<rparr>"

section \<open>The manager\<close>

record conference_manager =
  conferences :: "(string, conference_room) hmap"
  leg_to_conference :: "leg_id \<rightharpoonup> string"
  audio_mixers :: "string \<rightharpoonup> conference_mixer"
  participant_channels :: "leg_id \<rightharpoonup> string"
  participant_output_rxs :: "leg_id \<rightharpoonup> string"

definition conference_manager_new :: conference_manager where
  "conference_manager_new =
     \<lparr>conferences = [], leg_to_conference = Map.empty, audio_mixers = Map.empty,
      participant_channels = Map.empty, participant_output_rxs = Map.empty\<rparr>"

definition conference_not_found :: "string \<Rightarrow> err" where
  "conference_not_found c = ''Conference '' @ c @ '' not found''"

definition create_conference ::
    "instant \<Rightarrow> string \<Rightarrow> nat option \<Rightarrow> conference_manager \<Rightarrow> conference_room result \<times> conference_manager" where
  "create_conference now c mx m =
     (if hm_get (conferences m) c \<noteq> None then (Inl (''Conference '' @ c @ '' already exists''), m)
      else let r = room_new now c mx
           in (Inr r, m\<lparr>conferences := hm_insert c r (conferences m),
                        audio_mixers := (audio_mixers m)(c \<mapsto> mixer_new c 8000)\<rparr>))"

definition forget_legs :: "leg_id set \<Rightarrow> (leg_id \<rightharpoonup> string) \<Rightarrow> (leg_id \<rightharpoonup> string)" where
  "forget_legs legs f = (\<lambda>l. if l \<in> legs then None else f l)"

definition destroy_conference :: "string \<Rightarrow> conference_manager \<Rightarrow> unit result \<times> conference_manager" where
  "destroy_conference c m =
     (let m1 = m\<lparr>audio_mixers := (audio_mixers m)(c := None)\<rparr>
      in case hm_get (conferences m1) c of
           None \<Rightarrow> (Inl (conference_not_found c), m1)
         | Some r \<Rightarrow>
             (let legs = set (hm_keys (cr_participants r))
              in (Inr (), m1\<lparr>conferences := hm_remove c (conferences m1),
                             leg_to_conference := forget_legs legs (leg_to_conference m1),
                             participant_channels := forget_legs legs (participant_channels m1),
                             participant_output_rxs := forget_legs legs (participant_output_rxs m1)\<rparr>)))"

text \<open>Adding a participant takes the locks one after the other: the leg is looked up first, and the rest runs after
  this lock has been given back.\<close>

definition add_participant_check :: "string \<Rightarrow> leg_id \<Rightarrow> conference_manager \<Rightarrow> err option" where
  "add_participant_check c leg m =
     (case leg_to_conference m leg of
        Some c' \<Rightarrow> if c' \<noteq> c then Some (''Leg '' @ leg @ '' is already in conference '' @ c') else None
      | None \<Rightarrow> None)"

definition add_participant_join ::
    "instant \<Rightarrow> string \<Rightarrow> leg_id \<Rightarrow> conference_manager \<Rightarrow> string result \<times> conference_manager" where
  "add_participant_join now c leg m =
     (case hm_get (conferences m) c of
        None \<Rightarrow> (Inl (conference_not_found c), m)
      | Some r \<Rightarrow>
          (case room_add_participant now leg r of
             Inl e \<Rightarrow> (Inl e, m)
           | Inr r' \<Rightarrow>
               (let m1 = m\<lparr>conferences := hm_insert c r' (conferences m)\<rparr>
                in case audio_mixers m1 c of
                     None \<Rightarrow> (Inl (''Audio mixer not found for conference '' @ c), m1)
                   | Some x \<Rightarrow>
                       (case mixer_add_participant leg x of
                          (Inl e, _) \<Rightarrow> (Inl e, m1)
                        | (Inr _, x') \<Rightarrow>
                            (Inr c, m1\<lparr>audio_mixers := (audio_mixers m1)(c \<mapsto> x'),
                                       participant_channels := (participant_channels m1)(leg \<mapsto> c),
                                       leg_to_conference := (leg_to_conference m1)(leg \<mapsto> c),
                                       participant_output_rxs := (participant_output_rxs m1)(leg \<mapsto> c)\<rparr>)))))"

definition add_participant ::
    "instant \<Rightarrow> string \<Rightarrow> leg_id \<Rightarrow> conference_manager \<Rightarrow> string result \<times> conference_manager" where
  "add_participant now c leg m =
     (case add_participant_check c leg m of Some e \<Rightarrow> (Inl e, m) | None \<Rightarrow> add_participant_join now c leg m)"

definition remove_participant :: "string \<Rightarrow> leg_id \<Rightarrow> conference_manager \<Rightarrow> unit result \<times> conference_manager" where
  "remove_participant c leg m =
     (case hm_get (conferences m) c of
        None \<Rightarrow> (Inl (conference_not_found c), m)
      | Some r \<Rightarrow>
          (case room_remove_participant leg r of
             Inl e \<Rightarrow> (Inl e, m)
           | Inr r' \<Rightarrow>
               (Inr (), m\<lparr>conferences := hm_insert c r' (conferences m),
                          audio_mixers := (case audio_mixers m c of
                                             Some x \<Rightarrow> (audio_mixers m)(c \<mapsto> mixer_remove_participant leg x)
                                           | None \<Rightarrow> audio_mixers m),
                          participant_channels := (participant_channels m)(leg := None),
                          participant_output_rxs := (participant_output_rxs m)(leg := None),
                          leg_to_conference := (leg_to_conference m)(leg := None)\<rparr>)))"

definition mute_participant :: "bool \<Rightarrow> string \<Rightarrow> leg_id \<Rightarrow> conference_manager \<Rightarrow> unit result \<times> conference_manager" where
  "mute_participant b c leg m =
     (case hm_get (conferences m) c of
        None \<Rightarrow> (Inl (conference_not_found c), m)
      | Some r \<Rightarrow>
          (case room_set_muted b leg r of
             Inl e \<Rightarrow> (Inl e, m)
           | Inr r' \<Rightarrow>
               (Inr (), m\<lparr>conferences := hm_insert c r' (conferences m),
                          audio_mixers := (case audio_mixers m c of
                                             Some x \<Rightarrow> (audio_mixers m)(c \<mapsto> set_muted leg b x)
                                           | None \<Rightarrow> audio_mixers m)\<rparr>)))"

definition take_participant_output_rx :: "leg_id \<Rightarrow> conference_manager \<Rightarrow> string option \<times> conference_manager" where
  "take_participant_output_rx leg m =
     (participant_output_rxs m leg, m\<lparr>participant_output_rxs := (participant_output_rxs m)(leg := None)\<rparr>)"

record conference_stats =
  cs_conference_id :: string
  cs_participant_count :: nat
  cs_muted_count :: nat
  cs_duration :: duration

definition get_conference_stats :: "instant \<Rightarrow> string \<Rightarrow> conference_manager \<Rightarrow> conference_stats result" where
  "get_conference_stats now c m =
     (case hm_get (conferences m) c of
        None \<Rightarrow> Inl (conference_not_found c)
      | Some r \<Rightarrow> Inr \<lparr>cs_conference_id = c, cs_participant_count = length (cr_participants r),
                       cs_muted_count = length (filter cp_muted (hm_values (cr_participants r))),
                       cs_duration = now - cr_created_at r\<rparr>)"

definition remove_leg_from_all :: "leg_id \<Rightarrow> conference_manager \<Rightarrow> conference_manager" where
  "remove_leg_from_all leg m =
     (case leg_to_conference m leg of Some c \<Rightarrow> snd (remove_participant c leg m) | None \<Rightarrow> m)"

section \<open>Rooms and mixers agree\<close>

definition agree :: "conference_room \<Rightarrow> conference_mixer \<Rightarrow> bool" where
  "agree r x \<longleftrightarrow>
     hm_wf (cr_participants r) \<and> hm_wf (mx_participants x)
     \<and> (case cr_max_participants r of Some mx \<Rightarrow> length (cr_participants r) \<le> mx | None \<Rightarrow> True)
     \<and> (\<forall>leg. map_option pa_muted (hm_get (mx_participants x) leg) = map_option cp_muted (hm_get (cr_participants r) leg))
     \<and> mx_participant_count x = of_nat (length (mx_participants x))"

lemma agree_new: "agree (room_new now c mx) (mixer_new c rate)"
  by (simp add: agree_def room_new_def mixer_new_def split: option.split)

lemma agree_member: "agree r x \<Longrightarrow> hm_get (mx_participants x) leg = None \<longleftrightarrow> hm_get (cr_participants r) leg = None"
  by (simp add: agree_def) (metis option.map_disc_iff)

lemma agree_add:
  assumes "agree r x" and "room_add_participant now leg r = Inr r'"
  shows "\<exists>x'. mixer_add_participant leg x = (Inr (), x') \<and> agree r' x'
           \<and> (\<forall>l. hm_get (cr_participants r') l = None \<longleftrightarrow> l \<noteq> leg \<and> hm_get (cr_participants r) l = None)"
proof -
  have new: "hm_get (cr_participants r) leg = None" and r': "r' = r\<lparr>cr_participants :=
      hm_insert leg \<lparr>cp_leg = leg, cp_muted = False, cp_joined_at = now\<rparr> (cr_participants r)\<rparr>"
    and mx: "\<forall>mx. cr_max_participants r = Some mx \<longrightarrow> length (cr_participants r) < mx"
    using assms(2) by (auto simp: room_add_participant_def not_le split: if_splits option.splits)
  have "hm_get (mx_participants x) leg = None" using agree_member [OF assms(1)] new by simp
  with assms(1) new mx show ?thesis
    by (auto simp: mixer_add_participant_def agree_def r' hm_length_insert split: option.split)
qed

lemma agree_remove:
  assumes "agree r x" and "room_remove_participant leg r = Inr r'"
  shows "agree r' (mixer_remove_participant leg x)
         \<and> (\<forall>l. hm_get (cr_participants r') l = (if l = leg then None else hm_get (cr_participants r) l))"
proof -
  have old: "hm_get (cr_participants r) leg \<noteq> None" and r': "r' = r\<lparr>cr_participants := hm_remove leg (cr_participants r)\<rparr>"
    using assms(2) by (auto simp: room_remove_participant_def split: if_splits)
  then obtain p q where pq: "hm_get (cr_participants r) leg = Some p" "hm_get (mx_participants x) leg = Some q"
    using agree_member [OF assms(1), of leg] by (cases "hm_get (mx_participants x) leg") auto
  have wf: "hm_wf (cr_participants r)" "hm_wf (mx_participants x)" using assms(1) by (auto simp: agree_def)
  have len: "length (cr_participants r) = Suc (length (hm_remove leg (cr_participants r)))"
      "length (mx_participants x) = Suc (length (hm_remove leg (mx_participants x)))"
    using hm_length_remove [OF wf(1) pq(1)] hm_length_remove [OF wf(2) pq(2)] by simp_all
  show ?thesis
    using assms(1) wf len
    by (auto simp: agree_def r' mixer_remove_participant_def split: option.split)
qed

lemma agree_mute:
  assumes "agree r x" and "room_set_muted b leg r = Inr r'"
  shows "agree r' (set_muted leg b x) \<and> (\<forall>l. hm_get (cr_participants r') l = None \<longleftrightarrow> hm_get (cr_participants r) l = None)"
proof -
  obtain p where p: "hm_get (cr_participants r) leg = Some p"
      "r' = r\<lparr>cr_participants := hm_insert leg (p\<lparr>cp_muted := b\<rparr>) (cr_participants r)\<rparr>"
    using assms(2) by (auto simp: room_set_muted_def split: option.splits)
  obtain q where q: "hm_get (mx_participants x) leg = Some q"
    using agree_member [OF assms(1), of leg] p(1) by auto
  show ?thesis
    using assms(1) by (auto simp: agree_def set_muted_def p q hm_length_insert split: option.split)
qed

text \<open>Mixing changes the channels only.\<close>

definition same_members :: "conference_mixer \<Rightarrow> conference_mixer \<Rightarrow> bool" where
  "same_members x y \<longleftrightarrow>
     hm_keys (mx_participants y) = hm_keys (mx_participants x)
     \<and> (\<forall>leg. map_option pa_muted (hm_get (mx_participants y) leg) = map_option pa_muted (hm_get (mx_participants x) leg))
     \<and> mx_participant_count y = mx_participant_count x"

lemma agree_same_members: "agree r x \<Longrightarrow> same_members x y \<Longrightarrow> agree r y"
  by (auto simp: agree_def same_members_def hm_wf_def) (metis length_map)

lemma same_members_trans: "same_members x y \<Longrightarrow> same_members y z \<Longrightarrow> same_members x z"
  by (simp add: same_members_def)

lemma hm_keys_insert_present: "hm_get m k \<noteq> None \<Longrightarrow> hm_keys (hm_insert k v m) = hm_keys m"
  by (induction m) (auto split: if_splits)

lemma same_members_drain: "same_members x (drain_all x)"
proof -
  have "hm_get (map (\<lambda>(leg, p). (leg, p\<lparr>pa_input := []\<rparr>)) ps) leg = map_option (\<lambda>p. p\<lparr>pa_input := []\<rparr>) (hm_get ps leg)"
    for ps :: "(leg_id, participant_audio) hmap" and leg
    by (induction ps) auto
  then show ?thesis
    by (auto simp: same_members_def drain_all_def option.map_comp comp_def case_prod_unfold)
qed

lemma send_output_muted: "send_output f p = Some p' \<Longrightarrow> pa_muted p' = pa_muted p"
  by (auto simp: send_output_def split: if_splits)

lemma same_members_distribute:
  "case distribute audio outs x of Inl (_, y) \<Rightarrow> same_members x y | Inr y \<Rightarrow> same_members x y"
proof (induction audio outs x rule: distribute.induct)
  case (1 audio m)
  then show ?case by (simp add: same_members_def)
next
  case (2 audio out outs m)
  show ?case
  proof (cases "mix_for m audio out")
    case None
    then show ?thesis using "2.IH"(1) by simp
  next
    case (Some f)
    note f = Some
    show ?thesis
    proof (cases "hm_get (mx_participants m) out")
      case None
      then show ?thesis using "2.IH"(2) f by simp
    next
      case (Some p)
      note p = Some
      show ?thesis
      proof (cases "send_output f p")
        case None
        then show ?thesis using f p by (simp add: same_members_def)
      next
        case (Some p')
        have "same_members m (m\<lparr>mx_participants := hm_insert out p' (mx_participants m)\<rparr>)"
          using p send_output_muted [OF Some] by (auto simp: same_members_def hm_keys_insert_present)
        then show ?thesis
          using "2.IH"(3) [OF f p Some] f p Some by (auto split: sum.splits intro: same_members_trans)
      qed
    qed
  qed
qed

lemma same_members_round:
  "case mixing_round x of Inl (_, y) \<Rightarrow> same_members x y | Inr y \<Rightarrow> same_members x y"
  using same_members_distribute [where audio = "collect_audio x" and x = "drain_all x" and outs = "hm_keys (mx_participants (drain_all x))"]
  by (auto simp: mixing_round_def Let_def same_members_drain split: sum.splits
      intro: same_members_trans [OF same_members_drain])

section \<open>The invariant of the manager\<close>

definition member :: "conference_manager \<Rightarrow> string \<Rightarrow> leg_id \<Rightarrow> bool" where
  "member m c leg \<longleftrightarrow> (\<exists>r. hm_get (conferences m) c = Some r \<and> hm_get (cr_participants r) leg \<noteq> None)"

definition conf_inv :: "conference_manager \<Rightarrow> bool" where
  "conf_inv m \<longleftrightarrow>
     (\<forall>c. case hm_get (conferences m) c of
            None \<Rightarrow> audio_mixers m c = None
          | Some r \<Rightarrow> (\<exists>x. audio_mixers m c = Some x \<and> agree r x))
     \<and> (\<forall>leg c. leg_to_conference m leg = Some c \<longleftrightarrow> member m c leg)
     \<and> participant_channels m = leg_to_conference m
     \<and> (\<forall>leg c. participant_output_rxs m leg = Some c \<longrightarrow> leg_to_conference m leg = Some c)"

datatype conf_op =
    CreateConf instant string "nat option"
  | DestroyConf string
  | Join instant string leg_id
  | Leave string leg_id
  | Mute bool string leg_id
  | TakeOutput leg_id
  | Hangup_leg leg_id
  | Round string

text \<open>A round of the mixing loop of one conference, as far as it gets.\<close>

definition round_of :: "string \<Rightarrow> conference_manager \<Rightarrow> conference_manager" where
  "round_of c m =
     (case audio_mixers m c of
        None \<Rightarrow> m
      | Some x \<Rightarrow>
          m\<lparr>audio_mixers := (audio_mixers m)(c \<mapsto> (case mixing_round x of Inl (_, y) \<Rightarrow> y | Inr y \<Rightarrow> y))\<rparr>)"

fun conf_step :: "conf_op \<Rightarrow> conference_manager \<Rightarrow> conference_manager" where
  "conf_step (CreateConf now c mx) m = snd (create_conference now c mx m)"
| "conf_step (DestroyConf c) m = snd (destroy_conference c m)"
| "conf_step (Join now c leg) m = snd (add_participant now c leg m)"
| "conf_step (Leave c leg) m = snd (remove_participant c leg m)"
| "conf_step (Mute b c leg) m = snd (mute_participant b c leg m)"
| "conf_step (TakeOutput leg) m = snd (take_participant_output_rx leg m)"
| "conf_step (Hangup_leg leg) m = remove_leg_from_all leg m"
| "conf_step (Round c) m = round_of c m"

lemma conf_inv_room:
  assumes "conf_inv m" and "hm_get (conferences m) c = Some r"
  shows "\<exists>x. audio_mixers m c = Some x \<and> agree r x"
proof -
  have "case hm_get (conferences m) c of None \<Rightarrow> audio_mixers m c = None | Some r \<Rightarrow> (\<exists>x. audio_mixers m c = Some x \<and> agree r x)"
    using assms(1) by (simp add: conf_inv_def)
  then show ?thesis by (simp add: assms(2))
qed

lemma conf_inv_no_room:
  assumes "conf_inv m" and "hm_get (conferences m) c = None"
  shows "audio_mixers m c = None"
proof -
  have "case hm_get (conferences m) c of None \<Rightarrow> audio_mixers m c = None | Some r \<Rightarrow> (\<exists>x. audio_mixers m c = Some x \<and> agree r x)"
    using assms(1) by (simp add: conf_inv_def)
  then show ?thesis by (simp add: assms(2))
qed

lemma conf_inv_leg: "conf_inv m \<Longrightarrow> leg_to_conference m leg = Some c \<longleftrightarrow> member m c leg"
  by (simp add: conf_inv_def)

lemma conf_inv_unique: "conf_inv m \<Longrightarrow> member m c leg \<Longrightarrow> member m c' leg \<Longrightarrow> c' = c"
  using conf_inv_leg [of m leg c] conf_inv_leg [of m leg c'] by simp

lemma member_iff: "hm_get (conferences m) c = Some r \<Longrightarrow> member m c leg \<longleftrightarrow> hm_get (cr_participants r) leg \<noteq> None"
  by (simp add: member_def)

text \<open>Replacing one room with its mixer.\<close>

lemma conf_inv_update:
  assumes "conf_inv m" and "agree r x"
    and "conferences m' = hm_insert c r (conferences m)" and "audio_mixers m' = (audio_mixers m)(c \<mapsto> x)"
    and "\<And>l c'. leg_to_conference m' l = Some c' \<longleftrightarrow> (if c' = c then hm_get (cr_participants r) l \<noteq> None else member m c' l)"
    and "participant_channels m' = leg_to_conference m'"
    and "\<And>l c'. participant_output_rxs m' l = Some c' \<Longrightarrow> leg_to_conference m' l = Some c'"
  shows "conf_inv m'"
proof -
  have "member m' c' l \<longleftrightarrow> (if c' = c then hm_get (cr_participants r) l \<noteq> None else member m c' l)" for c' l
    by (simp add: member_def assms(3))
  then show ?thesis
    using assms(1,2,6,7) unfolding conf_inv_def assms(3,4) by (simp add: assms(5) cong: option.case_cong)
qed

lemma conf_inv_replace:
  assumes inv: "conf_inv m" and r: "hm_get (conferences m) c = Some r" and ag: "agree r' x"
    and same: "\<And>l. hm_get (cr_participants r') l = None \<longleftrightarrow> hm_get (cr_participants r) l = None"
    and m': "conferences m' = hm_insert c r' (conferences m)" "audio_mixers m' = (audio_mixers m)(c \<mapsto> x)"
      "leg_to_conference m' = leg_to_conference m" "participant_channels m' = participant_channels m"
      "participant_output_rxs m' = participant_output_rxs m"
  shows "conf_inv m'"
proof (rule conf_inv_update [OF inv ag m'(1,2)])
  show "leg_to_conference m' l = Some c' \<longleftrightarrow> (if c' = c then hm_get (cr_participants r') l \<noteq> None else member m c' l)" for l c'
    unfolding m' using conf_inv_leg [OF inv, of l c'] member_iff [OF r, of l] same [of l] by simp
  show "participant_channels m' = leg_to_conference m'" unfolding m' using inv by (simp add: conf_inv_def)
  show "participant_output_rxs m' l = Some c' \<Longrightarrow> leg_to_conference m' l = Some c'" for l c'
    unfolding m' using inv unfolding conf_inv_def by blast
qed

lemma create_inv [inv_intros]:
  assumes "conf_inv m"
  shows "conf_inv (snd (create_conference now c mx m))"
proof (cases "hm_get (conferences m) c")
  case None
  have "\<not> member m c l" for l using None by (simp add: member_def)
  then have "leg_to_conference m l \<noteq> Some c" for l using conf_inv_leg [OF assms] by simp
  then show ?thesis
    using assms conf_inv_leg [OF assms]
    by (intro conf_inv_update [OF assms agree_new [of now c mx 8000]])
      (auto simp: create_conference_def None Let_def room_new_def conf_inv_def)
qed (use assms in \<open>simp add: create_conference_def\<close>)

lemma destroy_inv [inv_intros]:
  assumes "conf_inv m"
  shows "conf_inv (snd (destroy_conference c m))"
proof (cases "hm_get (conferences m) c")
  case None
  then have "snd (destroy_conference c m) = m"
    using conf_inv_no_room [OF assms None] by (simp add: destroy_conference_def fun_upd_idem)
  with assms show ?thesis by simp
next
  case (Some r)
  define m' where "m' = snd (destroy_conference c m)"
  have legs: "leg \<in> set (hm_keys (cr_participants r)) \<longleftrightarrow> leg_to_conference m leg = Some c" for leg
    unfolding conf_inv_leg [OF assms] hm_keys_get member_iff [OF Some] ..
  have m': "conferences m' = hm_remove c (conferences m)" "audio_mixers m' = (audio_mixers m)(c := None)"
      "leg_to_conference m' l = (if leg_to_conference m l = Some c then None else leg_to_conference m l)"
      "participant_channels m' l = (if leg_to_conference m l = Some c then None else participant_channels m l)"
      "participant_output_rxs m' l = (if leg_to_conference m l = Some c then None else participant_output_rxs m l)" for l
    using legs by (simp_all add: m'_def destroy_conference_def Some Let_def forget_legs_def)
  have "member m' c' l \<longleftrightarrow> c' \<noteq> c \<and> member m c' l" for c' l by (simp add: member_def m')
  then show ?thesis
    using assms conf_inv_unique [OF assms] unfolding m'_def [symmetric] conf_inv_def
    by (auto simp: m' fun_eq_iff cong: option.case_cong)
qed

lemma join_inv:
  assumes inv: "conf_inv m" and chk: "add_participant_check c leg m = None"
  shows "conf_inv (snd (add_participant_join now c leg m))"
proof (cases "hm_get (conferences m) c")
  case None
  with inv show ?thesis by (simp add: add_participant_join_def)
next
  case (Some r)
  note r = Some
  obtain x where x: "audio_mixers m c = Some x" "agree r x" using conf_inv_room [OF inv r] by blast
  show ?thesis
  proof (cases "room_add_participant now leg r")
    case (Inl e)
    with inv r show ?thesis by (simp add: add_participant_join_def)
  next
    case (Inr r')
    obtain x' where x': "mixer_add_participant leg x = (Inr (), x')" "agree r' x'"
        "\<And>l. hm_get (cr_participants r') l = None \<longleftrightarrow> l \<noteq> leg \<and> hm_get (cr_participants r) l = None"
      using agree_add [OF x(2) Inr] by blast
    have free: "leg_to_conference m leg = None \<or> leg_to_conference m leg = Some c"
      using chk by (auto simp: add_participant_check_def split: option.splits if_splits)
    have leg: "member m c' leg \<Longrightarrow> c' = c" for c' using free conf_inv_leg [OF inv, of leg c'] by auto
    define m' where "m' = snd (add_participant_join now c leg m)"
    have m': "leg_to_conference m' = (leg_to_conference m)(leg \<mapsto> c)" "participant_channels m' = (participant_channels m)(leg \<mapsto> c)"
        "participant_output_rxs m' = (participant_output_rxs m)(leg \<mapsto> c)"
      by (simp_all add: m'_def add_participant_join_def r Inr x x'(1))
    show ?thesis
      unfolding m'_def [symmetric]
    proof (rule conf_inv_update [OF inv x'(2)])
      show "leg_to_conference m' l = Some c' \<longleftrightarrow> (if c' = c then hm_get (cr_participants r') l \<noteq> None else member m c' l)" for l c'
        using conf_inv_leg [OF inv, of l c'] member_iff [OF r, of l] x'(3) [of l] leg [of c'] by (auto simp: m')
      show "participant_channels m' = leg_to_conference m'" using inv by (simp add: m' conf_inv_def)
      show "participant_output_rxs m' l = Some c' \<Longrightarrow> leg_to_conference m' l = Some c'" for l c'
        using inv unfolding m' conf_inv_def by (simp split: if_splits)
    qed (simp_all add: m'_def add_participant_join_def r Inr x x'(1))
  qed
qed

lemma add_inv [inv_intros]: "conf_inv m \<Longrightarrow> conf_inv (snd (add_participant now c leg m))"
  by (simp add: add_participant_def join_inv split: option.split)

lemma remove_inv [inv_intros]:
  assumes inv: "conf_inv m"
  shows "conf_inv (snd (remove_participant c leg m))"
proof (cases "hm_get (conferences m) c")
  case (Some r)
  note r = Some
  obtain x where x: "audio_mixers m c = Some x" "agree r x" using conf_inv_room [OF inv r] by blast
  show ?thesis
  proof (cases "room_remove_participant leg r")
    case (Inr r')
    note ag = agree_remove [OF x(2) Inr]
    have "member m c leg" using Inr r by (auto simp: room_remove_participant_def member_def split: if_splits)
    then have leg: "member m c' leg \<Longrightarrow> c' = c" for c' by (rule conf_inv_unique [OF inv])
    define m' where "m' = snd (remove_participant c leg m)"
    have m': "leg_to_conference m' = (leg_to_conference m)(leg := None)" "participant_channels m' = (participant_channels m)(leg := None)"
        "participant_output_rxs m' = (participant_output_rxs m)(leg := None)"
      by (simp_all add: m'_def remove_participant_def r Inr)
    show ?thesis
      unfolding m'_def [symmetric]
    proof (rule conf_inv_update [OF inv, of r' "mixer_remove_participant leg x" _ c])
      show "leg_to_conference m' l = Some c' \<longleftrightarrow> (if c' = c then hm_get (cr_participants r') l \<noteq> None else member m c' l)" for l c'
        using conf_inv_leg [OF inv, of l c'] member_iff [OF r, of l] ag leg [of c'] by (auto simp: m')
      show "participant_channels m' = leg_to_conference m'" using inv by (simp add: m' conf_inv_def)
      show "participant_output_rxs m' l = Some c' \<Longrightarrow> leg_to_conference m' l = Some c'" for l c'
        using inv unfolding m' conf_inv_def by (simp split: if_splits)
    qed (use ag in \<open>simp_all add: m'_def remove_participant_def r Inr x\<close>)
  qed (use inv r in \<open>simp add: remove_participant_def\<close>)
qed (use inv in \<open>simp add: remove_participant_def\<close>)

lemma mute_inv [inv_intros]:
  assumes inv: "conf_inv m"
  shows "conf_inv (snd (mute_participant b c leg m))"
proof (cases "hm_get (conferences m) c")
  case (Some r)
  note r = Some
  obtain x where x: "audio_mixers m c = Some x" "agree r x" using conf_inv_room [OF inv r] by blast
  show ?thesis
  proof (cases "room_set_muted b leg r")
    case (Inr r')
    show ?thesis
      by (rule conf_inv_replace [OF inv r, of r' "set_muted leg b x"])
        (use agree_mute [OF x(2) Inr] in \<open>simp_all add: mute_participant_def r Inr x\<close>)
  qed (use inv r in \<open>simp add: mute_participant_def\<close>)
qed (use inv in \<open>simp add: mute_participant_def\<close>)

lemma round_inv [inv_intros]:
  assumes inv: "conf_inv m"
  shows "conf_inv (round_of c m)"
proof (cases "audio_mixers m c")
  case (Some x)
  define y where "y = (case mixing_round x of Inl (_, y) \<Rightarrow> y | Inr y \<Rightarrow> y)"
  have y: "same_members x y" using same_members_round [of x] by (auto simp: y_def split: sum.splits)
  obtain r where r: "hm_get (conferences m) c = Some r"
    using conf_inv_no_room [OF inv, of c] Some by (cases "hm_get (conferences m) c") auto
  then have "agree r x" using conf_inv_room [OF inv r] Some by simp
  then have ag: "agree r y" using y by (rule agree_same_members)
  have "hm_insert c r (conferences m) = conferences m" using r by (simp add: update_triv)
  then show ?thesis
    by (intro conf_inv_replace [OF inv r ag]) (simp_all add: round_of_def Some y_def [symmetric])
qed (use inv in \<open>simp add: round_of_def\<close>)

lemma conf_step_inv: "conf_inv m \<Longrightarrow> conf_inv (conf_step op m)"
proof (cases op)
  case (TakeOutput leg)
  assume "conf_inv m"
  then show ?thesis by (auto simp: TakeOutput conf_inv_def take_participant_output_rx_def member_def cong: option.case_cong)
next
  case (Hangup_leg leg)
  assume "conf_inv m"
  then show ?thesis by (simp add: Hangup_leg remove_leg_from_all_def remove_inv split: option.split)
qed (simp_all add: inv_intros)

lemma conf_new_inv: "conf_inv conference_manager_new"
  by (simp add: conf_inv_def conference_manager_new_def member_def)

text \<open>C16: Rooms, mixers and the directory of legs agree.  After any sequence of operations, and of rounds of the mixing
  loops, a leg is a participant of at most one conference, the one the directory names, and has its channel there;
  every conference has a mixer with the same participants, the same of them muted and the right count; no
  room has more participants than its limit.\<close>

theorem conference_consistent:
  assumes "m = fold conf_step ops conference_manager_new"
  shows "(\<forall>leg c. leg_to_conference m leg = Some c \<longleftrightarrow> member m c leg)
         \<and> participant_channels m = leg_to_conference m
         \<and> (\<forall>c r. hm_get (conferences m) c = Some r \<longrightarrow>
               (\<exists>x. audio_mixers m c = Some x
                  \<and> (\<forall>leg. map_option pa_muted (hm_get (mx_participants x) leg) = map_option cp_muted (hm_get (cr_participants r) leg))
                  \<and> mx_participant_count x = of_nat (length (mx_participants x)))
               \<and> (\<forall>mx. cr_max_participants r = Some mx \<longrightarrow> length (cr_participants r) \<le> mx))"
proof -
  have "conf_inv (fold conf_step ops m0)" if "conf_inv m0" for m0
    using that by (induction ops arbitrary: m0) (simp_all add: conf_step_inv)
  then have inv: "conf_inv m" using assms conf_new_inv by simp
  have "(\<exists>x. audio_mixers m c = Some x \<and> agree r x)" if "hm_get (conferences m) c = Some r" for c r
    by (rule conf_inv_room [OF inv that])
  then have "\<forall>c r. hm_get (conferences m) c = Some r \<longrightarrow>
               (\<exists>x. audio_mixers m c = Some x
                  \<and> (\<forall>leg. map_option pa_muted (hm_get (mx_participants x) leg) = map_option cp_muted (hm_get (cr_participants r) leg))
                  \<and> mx_participant_count x = of_nat (length (mx_participants x)))
               \<and> (\<forall>mx. cr_max_participants r = Some mx \<longrightarrow> length (cr_participants r) \<le> mx)"
    unfolding agree_def by (metis option.simps(5))
  with inv show ?thesis by (simp add: conf_inv_def)
qed

section \<open>What the participants hear\<close>

text \<open>The specification of a round: the latest frames of all others that are not muted and have spoken.\<close>

definition heard :: "conference_mixer \<Rightarrow> leg_id \<Rightarrow> int list list" where
  "heard m out =
     List.map_filter (\<lambda>(leg, p). if leg = out \<or> pa_muted p \<or> pa_input p = [] then None
                            else Some (normalize_frame (mx_frame_size m) (samples (last (pa_input p))))) (mx_participants m)"

definition round_output :: "conference_mixer \<Rightarrow> leg_id \<Rightarrow> participant_audio \<Rightarrow> audio_frame list" where
  "round_output m leg p =
     (if \<not> pa_output_open p \<or> heard m leg = [] then []
      else [audio_frame_new (mix_frames (heard m leg)) (mx_sample_rate m)])"

lemma mix_for_heard:
  assumes "mx_frame_size y = mx_frame_size m" and "mx_sample_rate y = mx_sample_rate m"
  shows "mix_for y (collect_audio m) out =
     (if heard m out = [] then None else Some (audio_frame_new (mix_frames (heard m out)) (mx_sample_rate m)))"
proof -
  have "map (normalize_frame n) (map (\<lambda>(leg, f). samples f) (filter (\<lambda>(leg, f). leg \<noteq> out)
          (List.map_filter (\<lambda>(leg, p). map_option (\<lambda>f. (leg, f)) (drain p)) ps))) =
        List.map_filter (\<lambda>(leg, p). if leg = out \<or> pa_muted p \<or> pa_input p = [] then None
             else Some (normalize_frame n (samples (last (pa_input p))))) ps" for n ps
    by (induction ps) (auto simp: List.map_filter_simps drain_def)
  then have "map (normalize_frame (mx_frame_size m)) (map (\<lambda>(leg, f). samples f) (filter (\<lambda>(leg, f). leg \<noteq> out) (collect_audio m)))
      = heard m out"
    by (simp add: heard_def collect_audio_def)
  then show ?thesis
    unfolding mix_for_def Let_def assms by (metis (no_types, lifting) map_is_Nil_conv)
qed

lemma distribute_absent:
  "distribute audio outs y = Inr y' \<Longrightarrow> leg \<notin> set outs \<Longrightarrow>
     hm_get (mx_participants y') leg = hm_get (mx_participants y) leg"
  by (induction audio outs y rule: distribute.induct) (auto split: option.splits)

lemma send_output_Some:
  "send_output f q = Some q' \<Longrightarrow>
     q' = q\<lparr>pa_output := pa_output q @ (if pa_output_open q then [f] else [])\<rparr>
     \<and> (pa_output_open q \<longrightarrow> length (pa_output q) < channel_capacity)"
  by (auto simp: send_output_def split: if_splits)

lemma distribute_result:
  assumes "distribute audio outs y = Inr y'" and "distinct outs" and "leg \<in> set outs"
    and "hm_get (mx_participants y) leg = Some p"
    and mix: "\<And>z out. mx_frame_size z = mx_frame_size y \<Longrightarrow> mx_sample_rate z = mx_sample_rate y \<Longrightarrow> mix_for z audio out = mix out"
  shows "case mix leg of
           None \<Rightarrow> hm_get (mx_participants y') leg = Some p
         | Some f \<Rightarrow> \<exists>p'. send_output f p = Some p' \<and> hm_get (mx_participants y') leg = Some p'"
  using assms
proof (induction outs arbitrary: y)
  case (Cons out outs)
  have m: "mix_for y audio out = mix out" by (rule Cons.prems(5)) simp_all
  have dist: "distinct outs" using Cons.prems(2) by simp
  obtain y1 where y1: "distribute audio outs y1 = Inr y'" "mx_frame_size y1 = mx_frame_size y" "mx_sample_rate y1 = mx_sample_rate y"
    and other: "leg \<noteq> out \<Longrightarrow> hm_get (mx_participants y1) leg = Some p"
    and self: "leg = out \<Longrightarrow> case mix leg of None \<Rightarrow> hm_get (mx_participants y1) leg = Some p
         | Some f \<Rightarrow> \<exists>p'. send_output f p = Some p' \<and> hm_get (mx_participants y1) leg = Some p'"
    using Cons.prems(1,4) m by (force split: option.splits)
  show ?case
  proof (cases "leg = out")
    case True
    then have "hm_get (mx_participants y') leg = hm_get (mx_participants y1) leg"
      using distribute_absent [OF y1(1)] Cons.prems(2) by simp
    then show ?thesis using self [OF True] by (simp cong: option.case_cong)
  next
    case False
    then have "leg \<in> set outs" using Cons.prems(3) by simp
    from Cons.IH [OF y1(1) dist this other [OF False]] show ?thesis
      using Cons.prems(5) unfolding y1(2,3) by simp
  qed
qed simp

lemma drain_all_get:
  "hm_get (mx_participants (drain_all m)) leg = map_option (\<lambda>p. p\<lparr>pa_input := []\<rparr>) (hm_get (mx_participants m) leg)"
proof -
  have "hm_get (map (\<lambda>(leg, p). (leg, p\<lparr>pa_input := []\<rparr>)) ps) leg = map_option (\<lambda>p. p\<lparr>pa_input := []\<rparr>) (hm_get ps leg)"
    for ps :: "(leg_id, participant_audio) hmap"
    by (induction ps) auto
  then show ?thesis by (simp add: drain_all_def)
qed

lemma collect_empty_heard: "collect_audio m = [] \<Longrightarrow> heard m leg = []"
  using mix_for_heard [of m m leg] by (auto simp: mix_for_def split: if_splits)

lemma mixing_round_result:
  assumes wf: "hm_wf (mx_participants m)" and r: "mixing_round m = Inr m'" and p: "hm_get (mx_participants m) leg = Some p"
  shows "hm_get (mx_participants m') leg = Some (p\<lparr>pa_input := [], pa_output := pa_output p @ round_output m leg p\<rparr>)
         \<and> (round_output m leg p \<noteq> [] \<longrightarrow> length (pa_output p) < channel_capacity)"
proof (cases "collect_audio m = []")
  case True
  then show ?thesis
    using r p collect_empty_heard [OF True]
    by (auto simp: mixing_round_def Let_def drain_all_get round_output_def)
next
  case False
  let ?y = "drain_all m"
  have d: "distribute (collect_audio m) (hm_keys (mx_participants ?y)) ?y = Inr m'"
    using r False by (simp add: mixing_round_def Let_def)
  have keys: "hm_keys (mx_participants ?y) = hm_keys (mx_participants m)"
    by (simp add: drain_all_def case_prod_unfold comp_def)
  have dist: "distinct (hm_keys (mx_participants ?y))" using wf by (simp add: keys hm_wf_def)
  have y: "hm_get (mx_participants ?y) leg = Some (p\<lparr>pa_input := []\<rparr>)" using p by (simp add: drain_all_get)
  have mem: "leg \<in> set (hm_keys (mx_participants ?y))" using y by (simp only: hm_keys_get) simp
  have size: "mx_frame_size ?y = mx_frame_size m" "mx_sample_rate ?y = mx_sample_rate m" by (simp_all add: drain_all_def)
  note res = distribute_result [OF d dist mem y, of "\<lambda>out. if heard m out = [] then None
      else Some (audio_frame_new (mix_frames (heard m out)) (mx_sample_rate m))", unfolded size, OF mix_for_heard]
  show ?thesis
    using res by (auto simp: round_output_def dest!: send_output_Some split: if_splits)
qed

text \<open>C15: Every participant hears the others and nobody else.  When a round of the mixing loop is completed, each
  participant's input has been read and exactly one frame has been added to its output, or none when nobody else has
  spoken or its receiver is gone: the mix of the latest frames of all other participants that are not muted.\<close>

theorem everyone_hears_the_others:
  assumes "hm_wf (mx_participants m)" and "mixing_round m = Inr m'" and "hm_get (mx_participants m) leg = Some p"
  shows "hm_get (mx_participants m') leg = Some (p\<lparr>pa_input := [], pa_output := pa_output p @ round_output m leg p\<rparr>)"
  using mixing_round_result [OF assms] by blast

section \<open>The mix\<close>

lemma sat16_bounds: "- 32768 \<le> sat16 x" "sat16 x \<le> 32767"
  by (simp_all add: sat16_def)

lemma sat16_exact: "- 32768 \<le> x \<Longrightarrow> x \<le> 32767 \<Longrightarrow> sat16 x = x"
  by (simp add: sat16_def)

lemma mix_fold_length:
  "length out = n \<Longrightarrow>
     length (fold (\<lambda>frame out. if length frame \<noteq> n then out else map2 (\<lambda>o' s. sat16 (o' + s)) out frame) fs out) = n"
  by (induction fs arbitrary: out) auto

lemma mix_fold_bounds:
  "length out = n \<Longrightarrow> (\<forall>s \<in> set out. - 32768 \<le> s \<and> s \<le> 32767) \<Longrightarrow>
     \<forall>s \<in> set (fold (\<lambda>frame out. if length frame \<noteq> n then out else map2 (\<lambda>o' s. sat16 (o' + s)) out frame) fs out).
       - 32768 \<le> s \<and> s \<le> 32767"
proof (induction fs arbitrary: out)
  case (Cons f fs)
  let ?out = "if length f \<noteq> n then out else map2 (\<lambda>o' s. sat16 (o' + s)) out f"
  have "length ?out = n" "\<forall>s \<in> set ?out. - 32768 \<le> s \<and> s \<le> 32767"
    using Cons.prems sat16_bounds by (auto simp: set_zip)
  from Cons.IH [OF this] show ?case by simp
qed simp

lemma mix_fold_exact:
  "length out = n \<Longrightarrow> i < n \<Longrightarrow> (\<forall>f \<in> set fs. length f = n) \<Longrightarrow> \<bar>out ! i\<bar> + (\<Sum>f\<leftarrow>fs. \<bar>f ! i\<bar>) \<le> 32767 \<Longrightarrow>
     fold (\<lambda>frame out. if length frame \<noteq> n then out else map2 (\<lambda>o' s. sat16 (o' + s)) out frame) fs out ! i
       = out ! i + (\<Sum>f\<leftarrow>fs. f ! i)"
proof (induction fs arbitrary: out)
  case (Cons f fs)
  let ?out = "map2 (\<lambda>o' s. sat16 (o' + s)) out f"
  have "0 \<le> (\<Sum>f\<leftarrow>fs. \<bar>f ! i\<bar>)" by (rule sum_list_nonneg) auto
  then have small: "\<bar>out ! i\<bar> + \<bar>f ! i\<bar> \<le> 32767" using Cons.prems(4) by simp
  then have s: "sat16 (out ! i + f ! i) = out ! i + f ! i" by (intro sat16_exact) linarith+
  have i: "?out ! i = out ! i + f ! i" using Cons.prems s by simp
  have "length ?out = n" using Cons.prems by simp
  moreover have "\<bar>?out ! i\<bar> + (\<Sum>f\<leftarrow>fs. \<bar>f ! i\<bar>) \<le> 32767" using Cons.prems(4) unfolding i by simp
  ultimately show ?case using Cons.IH [of ?out] Cons.prems i by simp
qed simp

text \<open>The mix neither wraps around nor distorts without need.  A mix of frames of one size has that size and
  16 bit samples, and each sample is the exact sum of the mixed ones whenever their magnitudes add up to at most
  32767.\<close>

theorem mix_is_saturated_sum:
  assumes "\<forall>f \<in> set frames. length f = n" and "frames \<noteq> []"
  shows "length (mix_frames frames) = n \<and> (\<forall>s \<in> set (mix_frames frames). - 32768 \<le> s \<and> s \<le> 32767)
         \<and> (\<forall>i < n. (\<Sum>f\<leftarrow>frames. \<bar>f ! i\<bar>) \<le> 32767 \<longrightarrow> mix_frames frames ! i = (\<Sum>f\<leftarrow>frames. f ! i))"
proof -
  have n: "length (hd frames) = n" using assms by (cases frames) auto
  then have m: "mix_frames frames = fold (\<lambda>frame out. if length frame \<noteq> n then out
      else map2 (\<lambda>o' s. sat16 (o' + s)) out frame) frames (replicate n 0)"
    using assms(2) by (simp add: mix_frames_def Let_def)
  show ?thesis
    unfolding m using mix_fold_length [of "replicate n 0" n frames] mix_fold_bounds [of "replicate n 0" n frames]
      mix_fold_exact [of "replicate n 0" n _ frames] assms(1) by simp
qed

section \<open>A listener that does not listen\<close>

definition speak :: "leg_id \<Rightarrow> audio_frame \<Rightarrow> conference_mixer \<Rightarrow> conference_mixer" where
  "speak leg f m =
     (case hm_get (mx_participants m) leg of
        Some p \<Rightarrow> m\<lparr>mx_participants := hm_insert leg (p\<lparr>pa_input := pa_input p @ [f]\<rparr>) (mx_participants m)\<rparr>
      | None \<Rightarrow> m)"

fun rounds :: "nat \<Rightarrow> leg_id \<Rightarrow> audio_frame \<Rightarrow> conference_mixer \<Rightarrow> (leg_id \<times> conference_mixer) + conference_mixer" where
  "rounds 0 leg f m = Inr m"
| "rounds (Suc k) leg f m =
     (case rounds k leg f m of Inl w \<Rightarrow> Inl w | Inr m' \<Rightarrow> mixing_round (speak leg f m'))"

lemma mixing_round_wf: "hm_wf (mx_participants m) \<Longrightarrow> mixing_round m = Inr m' \<Longrightarrow> hm_wf (mx_participants m')"
  using same_members_round [of m] by (simp add: same_members_def hm_wf_def)

lemma heard_not_Nil:
  assumes "hm_get (mx_participants m) leg = Some p" and "\<not> pa_muted p" and "pa_input p \<noteq> []" and "leg \<noteq> out"
  shows "heard m out \<noteq> []"
proof -
  have "(leg, p) \<in> set (mx_participants m)" using assms(1) by (rule map_of_SomeD)
  then have "normalize_frame (mx_frame_size m) (samples (last (pa_input p))) \<in> set (heard m out)"
    using assms(2-4) by (force simp: heard_def set_map_filter simp del: List.map_filter_simps)
  then show ?thesis by auto
qed

lemma rounds_progress:
  assumes "hm_wf (mx_participants m)" and "speaker \<noteq> listener"
    and "hm_get (mx_participants m) speaker = Some p" and "\<not> pa_muted p"
    and "hm_get (mx_participants m) listener = Some q" and "pa_output_open q"
    and "rounds k speaker f m = Inr m'"
  shows "hm_wf (mx_participants m')
         \<and> (\<exists>p. hm_get (mx_participants m') speaker = Some p \<and> \<not> pa_muted p)
         \<and> (\<exists>q. hm_get (mx_participants m') listener = Some q \<and> pa_output_open q \<and> k \<le> length (pa_output q) \<and> k \<le> channel_capacity)"
  using assms(7)
proof (induction k arbitrary: m')
  case 0
  then show ?case using assms by auto
next
  case (Suc k)
  obtain m1 where m1: "rounds k speaker f m = Inr m1" "mixing_round (speak speaker f m1) = Inr m'"
    using Suc.prems by (auto split: sum.splits)
  obtain p1 q1 where pq: "hm_wf (mx_participants m1)" "hm_get (mx_participants m1) speaker = Some p1" "\<not> pa_muted p1"
      "hm_get (mx_participants m1) listener = Some q1" "pa_output_open q1" "k \<le> length (pa_output q1)" "k \<le> channel_capacity"
    using Suc.IH [OF m1(1)] by blast
  let ?m = "speak speaker f m1" and ?p = "p1\<lparr>pa_input := pa_input p1 @ [f]\<rparr>"
  have wf: "hm_wf (mx_participants ?m)" using pq(1,2) by (simp add: speak_def)
  have sp: "hm_get (mx_participants ?m) speaker = Some ?p" and li: "hm_get (mx_participants ?m) listener = Some q1"
    using pq assms(2) by (simp_all add: speak_def)
  have "heard ?m listener \<noteq> []" by (rule heard_not_Nil [OF sp]) (use pq assms(2) in simp_all)
  then have out: "round_output ?m listener q1 \<noteq> []" "length (round_output ?m listener q1) = 1"
    using pq(5) by (simp_all add: round_output_def)
  note rl = mixing_round_result [OF wf m1(2) li] and rs = mixing_round_result [OF wf m1(2) sp]
  have "length (pa_output q1) < channel_capacity" using rl out(1) by blast
  with rl rs out pq mixing_round_wf [OF wf m1(2)] show ?case by auto
qed

text \<open>One listener that does not read its output stops the conference.  While somebody speaks, a participant whose
  receiver is open but not read fills its channel of 100 frames; at the latest the next round waits for some
  participant's channel and is not completed, so nobody hears anything any more.\<close>

theorem unread_output_stalls:
  assumes "hm_wf (mx_participants m)" and "speaker \<noteq> listener"
    and "hm_get (mx_participants m) speaker = Some p" and "\<not> pa_muted p"
    and "hm_get (mx_participants m) listener = Some q" and "pa_output_open q"
  shows "\<exists>waits. rounds 101 speaker f m = Inl waits"
proof (cases "rounds 101 speaker f m")
  case (Inr m')
  then show ?thesis using rounds_progress [OF assms Inr] by (simp add: channel_capacity_def)
qed simp

section \<open>Two joins at the same time\<close>

text \<open>A leg that joins two conferences at the same time gets into both.  The check whether the leg is in another
  conference and the join are separate steps: when two joins of one leg are checked before either is carried out,
  both succeed, and the directory knows the second conference only, so that hanging up leaves the leg in the
  first one.\<close>

theorem concurrent_joins_split:
  assumes inv: "conf_inv m" and "c1 \<noteq> c2" and "leg_to_conference m leg = None"
    and "add_participant_join t1 c1 leg m = (Inr x1, m1)" and "add_participant_join t2 c2 leg m1 = (Inr x2, m2)"
  shows "add_participant_check c1 leg m = None \<and> add_participant_check c2 leg m = None
         \<and> member m2 c1 leg \<and> member m2 c2 leg \<and> leg_to_conference m2 leg = Some c2
         \<and> member (remove_leg_from_all leg m2) c1 leg"
proof -
  have join: "member m' c leg \<and> leg_to_conference m' leg = Some c \<and> (\<forall>c' l. c' \<noteq> c \<longrightarrow> member m' c' l = member m0 c' l)"
    if "add_participant_join t c leg m0 = (Inr x, m')" for t c m0 x m'
    using that
    by (auto simp: add_participant_join_def member_def room_add_participant_def Let_def
        split: option.splits sum.splits if_splits prod.splits)
  have "member (snd (remove_participant c2 leg m2)) c1 leg = member m2 c1 leg"
    using assms(2) by (simp add: remove_participant_def member_def split: option.split sum.split)
  then show ?thesis
    using join [OF assms(4)] join [OF assms(5)] assms(2,3)
    by (simp add: add_participant_check_def remove_leg_from_all_def)
qed

section \<open>Evaluation\<close>

definition demo_conf :: conference_manager where
  "demo_conf = fold conf_step [CreateConf 0 ''c'' (Some 2), CreateConf 0 ''d'' None] conference_manager_new"

lemma demo_conf_inv: "conf_inv demo_conf"
  by (simp add: demo_conf_def conf_step_inv conf_new_inv del: conf_step.simps)

theorem conference_consistent_witness:
  "leg_to_conference (fold conf_step [CreateConf 0 ''c'' (Some 2), Join 1 ''c'' ''a'', Join 1 ''d'' ''a''] conference_manager_new) ''a''
     = Some ''c''"
proof -
  let ?ops = "[CreateConf 0 ''c'' (Some 2), Join 1 ''c'' ''a'', Join 1 ''d'' ''a'']"
  have "member (fold conf_step ?ops conference_manager_new) ''c'' ''a''"
    by (simp add: member_def conference_manager_new_def create_conference_def Let_def add_participant_def
        add_participant_check_def add_participant_join_def room_add_participant_def room_new_def
        mixer_add_participant_def mixer_new_def)
  then show ?thesis using conference_consistent [OF refl, of ?ops] by blast
qed

theorem concurrent_joins_split_witness:
  "\<exists>m1 m2. add_participant_join 1 ''c'' ''a'' demo_conf = (Inr ''c'', m1)
       \<and> add_participant_join 1 ''d'' ''a'' m1 = (Inr ''d'', m2) \<and> member (remove_leg_from_all ''a'' m2) ''c'' ''a''"
proof -
  have "leg_to_conference demo_conf ''a'' = None"
    by (simp add: demo_conf_def conference_manager_new_def create_conference_def Let_def)
  moreover obtain m1 where m1: "add_participant_join 1 ''c'' ''a'' demo_conf = (Inr ''c'', m1)"
    by (simp add: demo_conf_def conference_manager_new_def create_conference_def Let_def
        add_participant_join_def room_add_participant_def room_new_def mixer_add_participant_def mixer_new_def)
  moreover obtain m2 where "add_participant_join 1 ''d'' ''a'' m1 = (Inr ''d'', m2)"
    using m1 by (auto simp: demo_conf_def conference_manager_new_def create_conference_def Let_def
        add_participant_join_def room_add_participant_def room_new_def mixer_add_participant_def mixer_new_def)
  ultimately show ?thesis
    using concurrent_joins_split [OF demo_conf_inv, of "''c''" "''d''" "''a''" 1 "''c''" m1 1 "''d''" m2] by auto
qed

definition demo_frame :: audio_frame where
  "demo_frame = audio_frame_new [1, -2] 50"

definition demo_listener :: participant_audio where
  "demo_listener = \<lparr>pa_input = [], pa_output = [], pa_output_open = True, pa_muted = False\<rparr>"

definition demo_mixer :: conference_mixer where
  "demo_mixer = (mixer_new ''c'' 100)\<lparr>mx_participants :=
     [(''a'', demo_listener\<lparr>pa_input := [demo_frame]\<rparr>), (''b'', demo_listener), (''m'', demo_listener\<lparr>pa_input := [demo_frame], pa_muted := True\<rparr>)]\<rparr>"

lemmas demo_mixer_defs = demo_mixer_def demo_listener_def demo_frame_def mixer_new_def

lemma demo_mixer_wf: "hm_wf (mx_participants demo_mixer)"
  by (simp add: demo_mixer_defs hm_wf_def)

theorem everyone_hears_the_others_witness:
  "\<exists>m'. mixing_round demo_mixer = Inr m'
     \<and> map_option (map samples \<circ> pa_output) (hm_get (mx_participants m') ''b'') = Some [[1, -2]]"
proof -
  obtain m' where r: "mixing_round demo_mixer = Inr m'"
    by (simp add: mixing_round_def collect_audio_def drain_all_def drain_def demo_mixer_defs mix_for_def
        List.map_filter_simps send_output_def channel_capacity_def)
  have "round_output demo_mixer ''b'' demo_listener = [audio_frame_new [1, -2] 100]"
    by (simp add: round_output_def heard_def demo_mixer_defs List.map_filter_simps audio_frame_new_def
        normalize_frame_def mix_frames_def sat16_def)
  moreover have "hm_get (mx_participants demo_mixer) ''b'' = Some demo_listener" by (simp add: demo_mixer_def)
  ultimately show ?thesis
    using everyone_hears_the_others [OF demo_mixer_wf r, of "''b''" demo_listener] r
    by (simp add: audio_frame_new_def demo_listener_def)
qed

theorem mix_is_saturated_sum_witness: "mix_frames [[1, 30000], [2, 30000]] ! 0 = 3"
  using mix_is_saturated_sum [of "[[1, 30000], [2, 30000]]" 2] by simp

theorem unread_output_stalls_witness: "\<exists>waits. rounds 101 ''a'' demo_frame demo_mixer = Inl waits"
  by (rule unread_output_stalls [OF demo_mixer_wf, where listener = "''b''"
        and p = "demo_listener\<lparr>pa_input := [demo_frame]\<rparr>" and q = demo_listener]) (simp_all add: demo_mixer_defs)

end
