(* ===== verification/Call_Entry.thy ===== *)
theory Call_Entry
  imports Call_Module Call_Registry Conference
begin

text \<open>
  The requests that the call module answers (\<open>src/src/proxy/call.rs\<close>): an INVITE, which may replace a party of another call, a
  REFER that asks for a transfer, a MESSAGE with a command of an agent's phone, and the requests inside a dialog.  The
  module reads the registry of active calls and changes the conferences.  What it starts in the background is a list of tasks; a
  task polls the registry until the new call is answered.  Commands to sessions are a log.
\<close>

section \<open>State\<close>

datatype entry_command =
    CmdHangup string "leg_id list option"
  | CmdBridge leg_id leg_id
  | CmdHold leg_id
  | CmdUnhold leg_id

datatype entry_event =
    SeatReplaceSucceeded string string string
  | CallTransferred string

text \<open>A task of a call that replaces another: the identifier of the new session, the handle of the old one, and the conference of
  the old one if it is in a conference.\<close>

datatype replaces_task = SeatReplacement string session_handle string | AttendedMerge string session_handle

datatype refer_task = ReferTask "string \<times> string \<times> string" session_handle string

record 's entry_state =
  es_call :: "'s call_state"
  es_registry :: registry_state
  es_confs :: conference_manager
  es_tasks :: "replaces_task list"
  es_refers :: "refer_task list"
  es_commands :: "(session_handle \<times> entry_command) list"
  es_events :: "entry_event list"
  es_in_dialog :: "sip_tx list"

text \<open>What the module asks of the stack: the identifier of a dialog (call, local tag, remote tag) and its text, the
  user of a request, the end of a session, whether it has answered by then, and the work of a dialog, the decoding of a URL, and the reading of JSON.\<close>

record message_command =
  mc_cmd :: string
  mc_call_id :: string

record entry_lib =
  dialog_of :: "sip_tx \<Rightarrow> (string \<times> string \<times> string) result"
  dialog_text :: "string \<times> string \<times> string \<Rightarrow> string"
  el_user_of :: "sip_tx \<Rightarrow> sip_user result"
  el_serve :: "dialplan \<Rightarrow> nat \<Rightarrow> unit result"
  el_answered :: "dialplan \<Rightarrow> nat \<Rightarrow> bool"
  el_dialog_handles :: "sip_tx \<Rightarrow> bool"
  url_decode :: "string \<Rightarrow> string option"
  json_command :: "sip_tx \<Rightarrow> message_command option"

definition on_call :: "('s call_state \<Rightarrow> 's call_state) \<Rightarrow> 's entry_state \<Rightarrow> 's entry_state" where
  "on_call f s = s\<lparr>es_call := f (es_call s)\<rparr>"

section \<open>Replaced calls\<close>

fun other_header :: "string \<Rightarrow> headers \<Rightarrow> string option" where
  "other_header name [] = None"
| "other_header name (Other n v # hs) = (if eq_ignore_ascii_case n name then Some v else other_header name hs)"
| "other_header name (Std t v # hs) = other_header name hs"

fun replaces_tags :: "string list \<Rightarrow> string option \<times> string option \<Rightarrow> string option \<times> string option" where
  "replaces_tags [] tags = tags"
| "replaces_tags (part # parts) (to_tag, from_tag) =
     (case strip_prefix ''to-tag='' part of
        Some v \<Rightarrow> replaces_tags parts (Some (trim v), from_tag)
      | None \<Rightarrow>
          (case strip_prefix ''from-tag='' part of
             Some v \<Rightarrow> replaces_tags parts (to_tag, Some (trim v))
           | None \<Rightarrow> replaces_tags parts (to_tag, from_tag)))"

definition parse_replaces :: "string \<Rightarrow> (string \<times> string \<times> string) option" where
  "parse_replaces value =
     (case split_on (CHR '';'') (trim value) of
        [] \<Rightarrow> None
      | call_id # parts \<Rightarrow>
          (case replaces_tags parts (None, None) of
             (Some to_tag, Some from_tag) \<Rightarrow> Some (trim call_id, to_tag, from_tag)
           | _ \<Rightarrow> None))"

definition parse_replaces_header :: "sip_tx \<Rightarrow> (string \<times> string \<times> string) option" where
  "parse_replaces_header tx = Option.bind (other_header ''Replaces'' (rq_headers tx)) parse_replaces"

definition get_conference_id_for_leg :: "leg_id \<Rightarrow> conference_manager \<Rightarrow> string option" where
  "get_conference_id_for_leg leg confs = leg_to_conference confs leg"

definition spawn_replacement :: "sip_tx \<Rightarrow> session_handle \<Rightarrow> string option \<Rightarrow> 's entry_state \<Rightarrow> 's entry_state" where
  "spawn_replacement tx old conf s =
     (case rq_call_id tx of
        Inl _ \<Rightarrow> s
      | Inr new \<Rightarrow>
          if new = [] then s
          else s\<lparr>es_tasks := es_tasks s @ [case conf of Some c \<Rightarrow> SeatReplacement new old c | None \<Rightarrow> AttendedMerge new old]\<rparr>)"

definition CallTransactionDoesNotExist :: nat where "CallTransactionDoesNotExist = 481"

definition place_call ::
  "('s, 'n) call_module \<Rightarrow> entry_lib \<Rightarrow> bool \<Rightarrow> sip_tx \<Rightarrow> sip_user \<Rightarrow> ('s entry_state \<Rightarrow> 's entry_state)
     \<Rightarrow> 's entry_state \<Rightarrow> unit result run \<times> 's entry_state" where
  "place_call m el reported tx who spawn s =
     (case plan_call m reported tx who (es_call s) of
        (Panic, c) \<Rightarrow> (Panic, s\<lparr>es_call := c\<rparr>)
      | (Ret (Inl r), c) \<Rightarrow> (Ret r, s\<lparr>es_call := c\<rparr>)
      | (Ret (Inr p), c) \<Rightarrow> (let (r, c') = serve_call (el_serve el) p c in (Ret r, spawn (s\<lparr>es_call := c'\<rparr>))))"

definition handle_invite :: "('s, 'n) call_module \<Rightarrow> entry_lib \<Rightarrow> sip_tx \<Rightarrow> 's entry_state \<Rightarrow> unit result run \<times> 's entry_state" where
  "handle_invite m el tx s =
     (case ck_user (cs_cookie (es_call s)) of
        None \<Rightarrow> (Ret (Inl ''Missing caller user in transaction cookie''), s)
      | Some who \<Rightarrow>
          (case parse_replaces_header tx of
             None \<Rightarrow> place_call m el True tx who id s
           | Some (call_id, to_tag, from_tag) \<Rightarrow>
               (case get_handle_by_dialog (dialog_text el (call_id, to_tag, from_tag)) (es_registry s) of
                  None \<Rightarrow> (Ret (Inr ()), on_call (reply_with CallTransactionDoesNotExist []) s)
                | Some old \<Rightarrow>
                    place_call m el False tx who
                      (spawn_replacement tx old (get_conference_id_for_leg (sh_session_id old) (es_confs s))) s)))"

text \<open>The background task: it looks every 100 milliseconds, 300 times, whether the new call is answered.\<close>

definition is_talking :: "string \<Rightarrow> registry_state \<Rightarrow> bool" where
  "is_talking session r = (case get_entry session r of Some e \<Rightarrow> ce_status e = StTalking | None \<Rightarrow> False)"

definition answered_poll :: "string \<Rightarrow> registry_state list \<Rightarrow> nat option" where
  "answered_poll session polls = position (is_talking session) (take 300 polls)"

fun replaces_answered :: "instant \<Rightarrow> replaces_task \<Rightarrow> 's entry_state \<Rightarrow> 's entry_state" where
  "replaces_answered t (SeatReplacement new old c) s =
     (let confs1 = snd (remove_participant c (sh_session_id old) (es_confs s));
          confs2 = snd (add_participant t c new confs1)
      in s\<lparr>es_confs := confs2, es_commands := es_commands s @ [(old, CmdHangup ''replaced_by_replaces'' None)],
           es_events := es_events s @ [SeatReplaceSucceeded c (sh_session_id old) new]\<rparr>)"
| "replaces_answered t (AttendedMerge new old) s =
     (let c = ''conf-replaces-'' @ new;
          confs1 = snd (create_conference t c None (es_confs s));
          confs2 = snd (add_participant t c (sh_session_id old) confs1);
          confs3 = snd (add_participant t c new confs2)
      in s\<lparr>es_confs := confs3, es_commands := es_commands s @ [(old, CmdHangup ''replaced_by_replaces'' (Some [''caller'']))],
           es_events := es_events s @ [CallTransferred (sh_session_id old)]\<rparr>)"

section \<open>Transfers asked for by REFER\<close>

fun refer_to_header :: "headers \<Rightarrow> string option" where
  "refer_to_header [] = None"
| "refer_to_header (h # hs) =
     (if eq_ignore_ascii_case (header_name h) ''Refer-To'' then Some (header_value h) else refer_to_header hs)"

definition strip_brackets :: "string \<Rightarrow> string" where
  "strip_brackets value =
     (let t = trim value; u = (case strip_prefix ''<'' t of Some r \<Rightarrow> r | None \<Rightarrow> t)
      in if ends_with ''>'' u then butlast u else u)"

definition parse_refer_to :: "entry_lib \<Rightarrow> string \<Rightarrow> string \<times> string option" where
  "parse_refer_to el refer_to =
     (let cut = (\<lambda>pos. let encoded = drop (pos + 10) refer_to
                       in (take pos refer_to, Some (case url_decode el encoded of Some d \<Rightarrow> d | None \<Rightarrow> encoded)))
      in case find_str ''?Replaces='' refer_to of
           Some pos \<Rightarrow> cut pos
         | None \<Rightarrow> (case find_str ''&Replaces='' refer_to of Some pos \<Rightarrow> cut pos | None \<Rightarrow> (refer_to, None)))"

definition handle_inbound_refer :: "entry_lib \<Rightarrow> sip_tx \<Rightarrow> 's entry_state \<Rightarrow> unit result \<times> 's entry_state" where
  "handle_inbound_refer el tx s =
     (case refer_to_header (rq_headers tx) of
        None \<Rightarrow> (Inl ''Missing Refer-To header'', on_call (reply_with 400 []) s)
      | Some value \<Rightarrow>
          (case dialog_of el tx of
             Inl e \<Rightarrow> (Inl (''Failed to get dialog ID: '' @ e), s)
           | Inr d \<Rightarrow>
               (case get_handle_by_dialog (dialog_text el d) (es_registry s) of
                  None \<Rightarrow> (Inl ''No active session for REFER dialog'', on_call (reply_with CallTransactionDoesNotExist []) s)
                | Some original \<Rightarrow>
                    (Inr (), (on_call (reply_with 202 []) s)\<lparr>es_refers := es_refers s @ [ReferTask d original (strip_brackets value)]\<rparr>))))"

text \<open>What the INVITE to the target of a transfer brings.\<close>

datatype invite_outcome = InvAnswered | InvRejected nat | InvFailed string | InvTimeout | InvNoResponse

text \<open>The transfer.  \<open>new\<close> is the fresh identifier of the call to the target, \<open>offer\<close> the description of the media stack, \<open>handle\<close> the handle of
  the new session, \<open>alive\<close> whether the original session still takes commands.\<close>

definition execute_inbound_refer_transfer ::
  "sip_lib \<Rightarrow> string \<Rightarrow> int \<Rightarrow> string \<Rightarrow> unit result \<Rightarrow> session_handle \<Rightarrow> bool \<Rightarrow> session_handle \<Rightarrow> string \<Rightarrow> invite_outcome
     \<Rightarrow> 's entry_state \<Rightarrow> ((nat \<times> string) + unit) \<times> 's entry_state" where
  "execute_inbound_refer_transfer sl realm time new offer handle alive original target outcome s =
     (case uri_parse sl target of
        None \<Rightarrow> (Inl (400, ''Invalid transfer target URI''), s)
      | Some _ \<Rightarrow>
          (case uri_parse sl (''sip:transfer@'' @ realm) of
             None \<Rightarrow> (Inl (500, ''Invalid caller URI''), s)
           | Some _ \<Rightarrow>
               (case offer of
                  Inl e \<Rightarrow> (Inl (500, ''Failed to generate SDP: '' @ e), s)
                | Inr _ \<Rightarrow>
                    (let s1 = s\<lparr>es_registry := upsert \<lparr>ce_session_id = new, ce_caller = Some ''transfer'', ce_callee = Some target,
                                   ce_direction = ''outbound'', ce_started_at = time, ce_answered_at = None, ce_status = StRinging\<rparr>
                                   handle (es_registry s)\<rparr>;
                         gone = s1\<lparr>es_registry := remove_session new (es_registry s1)\<rparr>
                     in case outcome of
                          InvAnswered \<Rightarrow>
                            (let s2 = s1\<lparr>es_registry := update_entry new (\<lambda>e. e\<lparr>ce_answered_at := Some time, ce_status := StTalking\<rparr>)
                                            (es_registry s1)\<rparr>
                             in if alive
                                then (Inr (), s2\<lparr>es_commands := es_commands s2 @ [(original, CmdBridge (sh_session_id original) new)]\<rparr>)
                                else (Inl (500, ''Failed to bridge calls''), s2))
                        | InvRejected code \<Rightarrow> (Inl (code, ''Transfer target rejected with '' @ string_of_nat code), gone)
                        | InvFailed e \<Rightarrow> (Inl (500, ''Invite failed: '' @ e), gone)
                        | InvTimeout \<Rightarrow> (Inl (408, ''Transfer target timeout''), gone)
                        | InvNoResponse \<Rightarrow> (Inl (500, ''Unexpected invite result''), gone)))))"

text \<open>The final report of a transfer, the status in the body and the state of the subscription.\<close>

definition final_notify :: "(nat \<times> string) + unit \<Rightarrow> nat \<times> string" where
  "final_notify r =
     (let code = (case r of Inr _ \<Rightarrow> 200 | Inl (status, _) \<Rightarrow> status)
      in (code, if 200 \<le> code then ''terminated;reason=noresource'' else ''active''))"

section \<open>Messages\<close>

definition handle_message :: "entry_lib \<Rightarrow> sip_tx \<Rightarrow> 's entry_state \<Rightarrow> unit result \<times> 's entry_state" where
  "handle_message el tx s =
     (let command = (\<lambda>c leg. case get_handle leg (es_registry s) of
                               Some h \<Rightarrow> s\<lparr>es_commands := es_commands s @ [(h, c leg)]\<rparr> | None \<Rightarrow> s)
      in case json_command el tx of
           None \<Rightarrow> (Inr (), on_call (reply_with 200 []) s)
         | Some cmd \<Rightarrow>
             if mc_cmd cmd = ''consult.initiate'' then
               (Inr (), on_call (reply_with 200 [Std HContentType ''application/json'']) (command CmdHold (mc_call_id cmd)))
             else if mc_cmd cmd = ''consult.cancel'' then
               (Inr (), on_call (reply_with 200 []) (command CmdUnhold (mc_call_id cmd)))
             else (Inr (), on_call (reply_with 200 []) s))"

section \<open>The handler of the module\<close>

definition process_message :: "entry_lib \<Rightarrow> sip_tx \<Rightarrow> 's entry_state \<Rightarrow> 's entry_state" where
  "process_message el tx s =
     (case dialog_of el tx of
        Inl _ \<Rightarrow> s
      | Inr _ \<Rightarrow> if el_dialog_handles el tx then s\<lparr>es_in_dialog := es_in_dialog s @ [tx]\<rparr> else s)"

text \<open>No response was sent: the logs are those of one transaction.\<close>

definition no_response :: "entry_lib \<Rightarrow> 's call_state \<Rightarrow> bool" where
  "no_response el c \<longleftrightarrow> cs_replies c = [] \<and> \<not> list_ex (\<lambda>(plan, hops). el_answered el plan hops) (cs_sessions c)"

definition call_on_transaction_begin ::
  "('s, 'n) call_module \<Rightarrow> entry_lib \<Rightarrow> sip_tx \<Rightarrow> 's entry_state \<Rightarrow> proxy_action result run \<times> 's entry_state" where
  "call_on_transaction_begin m el tx s =
     (case (case ck_user (cs_cookie (es_call s)) of Some u \<Rightarrow> Inr u | None \<Rightarrow> el_user_of el tx) of
        Inl e \<Rightarrow> (Ret (Inl e), s)
      | Inr u \<Rightarrow>
          (let s1 = on_call (\<lambda>c. c\<lparr>cs_cookie := (cs_cookie c)\<lparr>ck_user := Some u\<rparr>\<rparr>) s
           in case dialog_of el tx of
                Inl e \<Rightarrow> (Ret (Inl e), s1)
              | Inr (call_id, local_tag, remote_tag) \<Rightarrow>
                  if rq_method tx = MInvite then
                    if local_tag \<noteq> [] then (Ret (Inr Abort), process_message el tx s1)
                    else (case handle_invite m el tx s1 of
                            (Panic, s2) \<Rightarrow> (Panic, s2)
                          | (Ret (Inr _), s2) \<Rightarrow> (Ret (Inr Abort), s2)
                          | (Ret (Inl e), s2) \<Rightarrow>
                              (Ret (Inr Abort),
                               if no_response el (es_call s2)
                               then on_call (reply_with ServerInternalError
                                       [Other ''Reason'' (q850_reason_value ServerInternalError (Some e))]) s2
                               else s2))
                  else if rq_method tx = MOther ''REFER'' then
                    (let (r, s2) = handle_inbound_refer el tx s1
                     in (Ret (Inr Abort), case r of Inl _ \<Rightarrow> on_call (reply_with ServerInternalError []) s2 | Inr _ \<Rightarrow> s2))
                  else if rq_method tx = MOther ''MESSAGE'' then (Ret (Inr Abort), snd (handle_message el tx s1))
                  else if rq_method tx \<in> MOther ` {''OPTIONS'', ''INFO'', ''ACK'', ''UPDATE'', ''CANCEL'', ''BYE'', ''NOTIFY''} then
                    (Ret (Inr Abort), process_message el tx s1)
                  else (Ret (Inr Continue), s1)))"

section \<open>A replaced seat\<close>

lemma hm_remove_length:
  assumes "hm_get m k \<noteq> None"
  shows "length (hm_remove k m) < length m"
proof -
  obtain v where "(k, v) \<in> set m" using assms by (auto dest: map_of_SomeD)
  then show ?thesis unfolding AList.delete_eq by (intro length_filter_less [of "(k, v)"]) auto
qed

lemma leave_exact:
  assumes old: "member m c old"
  obtains r r' where "hm_get (conferences m) c = Some r" "hm_get (conferences (snd (remove_participant c old m))) c = Some r'"
    "cr_participants r' = hm_remove old (cr_participants r)" "cr_max_participants r' = cr_max_participants r"
    "leg_to_conference (snd (remove_participant c old m)) = (leg_to_conference m)(old := None)"
    "length (cr_participants r') < length (cr_participants r)"
proof -
  obtain r where r: "hm_get (conferences m) c = Some r" "hm_get (cr_participants r) old \<noteq> None"
    using old by (auto simp: member_def)
  from hm_remove_length [OF r(2)] r show thesis
    by (intro that [of r "r\<lparr>cr_participants := hm_remove old (cr_participants r)\<rparr>"])
      (auto simp: remove_participant_def room_remove_participant_def)
qed

text \<open>When the call that replaces a seat is answered, the new leg has the seat of the old one and nothing else in the conferences
  changes, also in a conference that was full.\<close>

theorem seat_is_replaced:
  assumes inv: "conf_inv (es_confs s)" and old: "member (es_confs s) c (sh_session_id h)"
    and new: "leg_to_conference (es_confs s) new = None"
  shows "leg_to_conference (es_confs (replaces_answered t (SeatReplacement new h c) s))
           = (leg_to_conference (es_confs s))(sh_session_id h := None, new \<mapsto> c)"
proof -
  let ?m = "es_confs s" and ?o = "sh_session_id h"
  let ?m1 = "snd (remove_participant c ?o ?m)"
  obtain r r' where r: "hm_get (conferences ?m) c = Some r" "hm_get (conferences ?m1) c = Some r'"
      "cr_participants r' = hm_remove ?o (cr_participants r)" "cr_max_participants r' = cr_max_participants r"
      "leg_to_conference ?m1 = (leg_to_conference ?m)(?o := None)" "length (cr_participants r') < length (cr_participants r)"
    using leave_exact [OF old] by blast
  obtain x where "agree r x" using conf_inv_room [OF inv r(1)] by blast
  then have room: "\<not> (case cr_max_participants r' of Some mx \<Rightarrow> mx \<le> length (cr_participants r') | None \<Rightarrow> False)"
    using r(4,6) by (auto simp: agree_def split: option.splits)
  have inv1: "conf_inv ?m1" by (rule remove_inv [OF inv])
  have free: "leg_to_conference ?m1 new = None" using new r(5) by simp
  then have "\<not> member ?m1 c new" using conf_inv_leg [OF inv1, of new c] by simp
  then have absent: "hm_get (cr_participants r') new = None" using r(2) by (simp add: member_def)
  obtain x1 where x1: "audio_mixers ?m1 c = Some x1" "agree r' x1" using conf_inv_room [OF inv1 r(2)] by blast
  obtain r2 where r2: "room_add_participant t new r' = Inr r2" using room absent by (simp add: room_add_participant_def)
  obtain x2 where "mixer_add_participant new x1 = (Inr (), x2)" using agree_add [OF x1(2) r2] by blast
  then have "leg_to_conference (snd (add_participant t c new ?m1)) = (leg_to_conference ?m1)(new \<mapsto> c)"
    using free r(2) r2 x1 by (simp add: add_participant_def add_participant_check_def add_participant_join_def Let_def)
  then show ?thesis using r(5) by (simp add: Let_def)
qed

lemma seat_keeps_invariant: "conf_inv (es_confs s) \<Longrightarrow> conf_inv (es_confs (replaces_answered t task s))"
  by (cases task) (simp_all add: Let_def add_inv remove_inv create_inv)

section \<open>What is read\<close>

text \<open>A field that names a dialog is read as it was written.\<close>

theorem replaces_roundtrip:
  assumes "CHR '';'' \<notin> set call" "CHR '';'' \<notin> set to" "CHR '';'' \<notin> set from" "trim call = call" "trim to = to" "trim from = from"
    "call \<noteq> []" "from \<noteq> []"
  shows "parse_replaces (call @ '';to-tag='' @ to @ '';from-tag='' @ from) = Some (call, to, from)"
proof -
  let ?v = "call @ '';to-tag='' @ to @ '';from-tag='' @ from"
  have edges: "\<not> is_whitespace (hd call)" "\<not> is_whitespace (last from)"
    using trim_fixed [OF assms(4,7)] trim_fixed [OF assms(6,8)] by simp_all
  have "trim ?v = ?v" using edges assms(7,8) by (intro trim_no_edges) auto
  moreover have "split_on (CHR '';'') ?v = [call, ''to-tag='' @ to, ''from-tag='' @ from]"
  proof -
    have "split_on (CHR '';'') (''to-tag='' @ to @ '';from-tag='' @ from) = [''to-tag='' @ to, ''from-tag='' @ from]"
      using split_on_append [of "CHR '';''" "''to-tag='' @ to" "''from-tag='' @ from"] split_on_single [of "CHR '';''" "''from-tag='' @ from" "''from-tag='' @ from"] assms(2,3)
      by simp
    then show ?thesis using split_on_append [OF assms(1), of "''to-tag='' @ to @ '';from-tag='' @ from"] by simp
  qed
  ultimately show ?thesis using assms(4-6) by (simp add: parse_replaces_def)
qed

text \<open>A blank before a tag hides it, and the INVITE is then an ordinary call.\<close>

lemma replaces_blank_hidden: "parse_replaces ''c1; to-tag=a; from-tag=b'' = None"
  by code_simp

section \<open>Every INVITE is answered\<close>

text \<open>Making a plan sends nothing and starts nothing, and it does not change whether the request counts as spam.\<close>

definition same_log :: "'s call_state \<Rightarrow> 's call_state \<Rightarrow> bool" where
  "same_log s s' \<longleftrightarrow> cs_replies s' = cs_replies s \<and> cs_reports s' = cs_reports s \<and> cs_sessions s' = cs_sessions s
     \<and> spam (cs_cookie s') = spam (cs_cookie s)"

lemma same_log_refl [simp]: "same_log s s"
  by (simp add: same_log_def)

lemma same_log_trans: "same_log s s1 \<Longrightarrow> same_log s1 s2 \<Longrightarrow> same_log s s2"
  by (simp add: same_log_def)

lemma same_log_update [simp]:
  "same_log s (s'\<lparr>cs_usage := u\<rparr>) = same_log s s'" "same_log s (s'\<lparr>cs_routing := r\<rparr>) = same_log s s'"
  "same_log s (s'\<lparr>cs_locator := l\<rparr>) = same_log s s'"
  "same_log s (s'\<lparr>cs_cookie := (cs_cookie s')\<lparr>ck_callee_display_name := n\<rparr>\<rparr>) = same_log s s'"
  by (simp_all add: same_log_def)

lemma same_log_and_then:
  assumes "same_log s (snd r)" "\<And>x s1. same_log s1 (snd (f x s1))"
  shows "same_log s (snd (and_then r f))"
  using assms by (cases "(r, f)" rule: and_then.cases) (auto intro: same_log_trans)

lemma same_log_and_then_result:
  assumes "\<And>x s1. same_log s1 (snd (f x s1))"
  shows "same_log s (snd (and_then (Ret v, s) f))"
  using assms by (intro same_log_and_then) simp_all

lemma call_direction_log: "same_log s (snd (call_direction m who u s))"
  by (simp add: call_direction_def Let_def split: sum.split option.split prod.split)

lemma callee_locations_log: "same_log s (snd (callee_locations m a u s))"
  by (simp add: callee_locations_def Let_def split: prod.split)

lemma run_preview_log: "same_log s (snd (run_preview m hint u cu tx d s))"
  by (simp add: run_preview_def Let_def split: prod.split)

lemma resolve_in_log: "same_log s (snd (resolve_in m hint tx who u c d fwd s))"
  unfolding resolve_in_def Let_def split_beta
  by (rule same_log_and_then_result, rule same_log_trans [OF callee_locations_log], rule same_log_and_then_result, rule same_log_and_then)
     (auto simp: run_preview_log)

lemma default_resolve_log: "same_log s (snd (default_resolve m hint tx who s))"
  unfolding default_resolve_def
  by (auto split: sum.split run.split intro!: same_log_and_then call_direction_log resolve_in_log)

lemma run_inspectors_log: "same_log s (snd (run_inspectors fs tx plan s))"
proof (induction fs arbitrary: plan s)
  case (Cons f fs)
  obtain r u where "f plan (cs_cookie s) tx (cs_usage s) = (r, u)" by (rule prod.exhaust)
  then show ?case
    using same_log_and_then_result [of "run_inspectors fs tx" "s\<lparr>cs_usage := u\<rparr>" r] Cons.IH
    by (auto intro: same_log_trans [of s "s\<lparr>cs_usage := u\<rparr>"])
qed simp

lemma build_dialplan_log: "same_log s (snd (build_dialplan m tx who s))"
  unfolding build_dialplan_def Let_def
  by (intro same_log_and_then) (auto intro: default_resolve_log run_inspectors_log split: option.split)

text \<open>A reply was sent, or a session took the call and is done or has answered itself.\<close>

definition taken_care_of :: "entry_lib \<Rightarrow> 's call_state \<Rightarrow> bool" where
  "taken_care_of el c \<longleftrightarrow> cs_replies c \<noteq> []
     \<or> list_ex (\<lambda>(plan, hops). el_serve el plan hops = Inr () \<or> el_answered el plan hops) (cs_sessions c)"

lemma plan_call_cases:
  assumes "plan_call m reported tx who c = (Ret v, c')" "spam (cs_cookie c) = None"
  obtains r where "v = Inl r" "cs_replies c' \<noteq> []"
  | p where "v = Inr p" "same_log c c'"
proof -
  obtain r1 c1 where b: "build_dialplan m tx who c = (r1, c1)" by (rule prod.exhaust)
  then have log: "same_log c c1" using build_dialplan_log [of c m tx who] by simp
  then have "spam (cs_cookie c1) = None" using assms(2) by (simp add: same_log_def)
  then show thesis
    using assms(1) b log that
    by (auto simp: plan_call_def refuse_call_def reply_with_def Let_def split: run.splits sum.splits if_splits)
qed

lemma spawn_replacement_call [simp]: "es_call (spawn_replacement tx old conf s) = es_call s"
  by (simp add: spawn_replacement_def split: sum.split)

lemma place_call_taken:
  assumes r: "place_call m el reported tx who spawn s = (Ret r, s')" and spam: "spam (cs_cookie (es_call s)) = None"
    and spawn: "\<And>s. es_call (spawn s) = es_call s"
  shows "taken_care_of el (es_call s') \<or> (\<exists>e. r = Inl e)"
proof -
  obtain v c where p: "plan_call m reported tx who (es_call s) = (v, c)" by (rule prod.exhaust)
  with r obtain x where v: "v = Ret x" by (cases v) (simp_all add: place_call_def)
  from plan_call_cases [OF p [unfolded v] spam] show ?thesis
  proof cases
    case (1 q)
    then have "s' = s\<lparr>es_call := c\<rparr>" using r p v by (simp add: place_call_def)
    then show ?thesis using 1 by (simp add: taken_care_of_def)
  next
    case (2 q)
    have "cs_sessions (es_call s') = cs_sessions c @ [q]" "r = el_serve el (fst q) (snd q)"
      using r p v 2 spawn by (auto simp: place_call_def serve_call_def)
    then show ?thesis by (cases "el_serve el (fst q) (snd q)") (auto simp: taken_care_of_def split_beta)
  qed
qed

lemma handle_invite_taken:
  assumes r: "handle_invite m el tx s = (Ret r, s')" and spam: "spam (cs_cookie (es_call s)) = None"
  shows "taken_care_of el (es_call s') \<or> (\<exists>e. r = Inl e)"
proof (cases "ck_user (cs_cookie (es_call s))")
  case (Some who)
  note who = Some
  show ?thesis
  proof (cases "parse_replaces_header tx")
    case None
    then show ?thesis using r who place_call_taken [OF _ spam, of m el True tx who id r s'] by (simp add: handle_invite_def)
  next
    case (Some d)
    obtain a b e where d: "d = (a, b, e)" by (rule prod_cases3)
    show ?thesis
    proof (cases "get_handle_by_dialog (dialog_text el d) (es_registry s)")
      case None
      then show ?thesis using r who Some d by (auto simp: handle_invite_def on_call_def reply_with_def taken_care_of_def)
    next
      case (Some old)
      then show ?thesis
        using r who \<open>parse_replaces_header tx = Some d\<close> d
          place_call_taken [OF _ spam, of m el False tx who "spawn_replacement tx old (get_conference_id_for_leg (sh_session_id old) (es_confs s))" r s']
        by (simp add: handle_invite_def)
    qed
  qed
qed (use r in \<open>auto simp: handle_invite_def\<close>)


section \<open>Transfers\<close>

text \<open>A REFER that is refused gets two final answers: the module's own, and 500 after it.\<close>

theorem refused_refer_answered_twice:
  assumes "rq_method tx = MOther ''REFER''" "dialog_of el tx = Inr d" "ck_user (cs_cookie (es_call s)) = Some u"
    "refer_to_header (rq_headers tx) = None"
  shows "cs_replies (es_call (snd (call_on_transaction_begin m el tx s))) = cs_replies (es_call s) @ [(400, []), (500, [])]"
  using assms
  by (cases d) (simp add: call_on_transaction_begin_def handle_inbound_refer_def on_call_def reply_with_def ServerInternalError_def)

text \<open>A transfer that fails before the target answers leaves nothing in the registry.\<close>

theorem failed_transfer_leaves_nothing:
  assumes "execute_inbound_refer_transfer sl realm time new offer handle alive original target outcome s = (Inl e, s')"
    "outcome \<noteq> InvAnswered" "get_entry new (es_registry s) = None"
  shows "get_entry new (es_registry s') = None"
  using assms
  by (auto simp: execute_inbound_refer_transfer_def get_entry_def remove_session_def Let_def
      split: option.splits sum.splits invite_outcome.splits)

text \<open>But once the target has answered, the new call stays listed as talking also when the two calls could not be joined: nobody removes
  it before the clean-up of old calls.\<close>

theorem unjoined_transfer_stays_listed:
  assumes "uri_parse sl target = Some u" "uri_parse sl (''sip:transfer@'' @ realm) = Some w"
  shows "\<exists>s'. execute_inbound_refer_transfer sl realm time new (Inr ()) handle False original target InvAnswered s
                = (Inl (500, ''Failed to bridge calls''), s') \<and> is_talking new (es_registry s')"
  using assms
  by (simp add: execute_inbound_refer_transfer_def is_talking_def get_entry_def update_entry_def upsert_def Let_def)

section \<open>Examples of requests\<close>

definition demo_entry_lib :: entry_lib where
  "demo_entry_lib = \<lparr>dialog_of = (\<lambda>_. Inr (''c1'', [], ''f'')), dialog_text = (\<lambda>(c, l, r). c @ l @ r), el_user_of = (\<lambda>_. Inr demo_caller),
     el_serve = (\<lambda>_ _. Inr ()), el_answered = (\<lambda>_ _. True), el_dialog_handles = (\<lambda>_. True), url_decode = Some, json_command = (\<lambda>_. None)\<rparr>"

definition demo_old :: session_handle where
  "demo_old = \<lparr>sh_session_id = ''a'', sh_channel = 0\<rparr>"

definition demo_entry_state :: "counts entry_state" where
  "demo_entry_state = \<lparr>es_call = demo_call_state, es_registry = registry_new,
     es_confs = conf_step (Join 0 ''r'' ''a'') (conf_step (CreateConf 0 ''r'' (Some 1)) conference_manager_new),
     es_tasks = [], es_refers = [], es_commands = [], es_events = [], es_in_dialog = []\<rparr>"


lemma seat_is_replaced_witness:
  "leg_to_conference (es_confs (replaces_answered 1 (SeatReplacement ''b'' demo_old ''r'') demo_entry_state))
     = (leg_to_conference (es_confs demo_entry_state))(''a'' := None, ''b'' \<mapsto> ''r'')"
proof -
  have inv: "conf_inv (es_confs demo_entry_state)"
    by (simp add: demo_entry_state_def create_inv add_inv conf_new_inv)
  have legs: "leg_to_conference (es_confs demo_entry_state) ''a'' = Some ''r''"
    "leg_to_conference (es_confs demo_entry_state) ''b'' = None"
    by (simp_all add: demo_entry_state_def conference_manager_new_def create_conference_def room_new_def add_participant_def
        add_participant_check_def add_participant_join_def room_add_participant_def mixer_add_participant_def mixer_new_def Let_def)
  have "member (es_confs demo_entry_state) ''r'' (sh_session_id demo_old)"
    using conf_inv_leg [OF inv, of "''a''" "''r''"] legs by (simp add: demo_old_def)
  from seat_is_replaced [OF inv this legs(2), of 1] show ?thesis by (simp add: demo_old_def)
qed

end
