(* ===== verification/Presence.thy ===== *)
theory Presence
  imports Registrar
begin

text \<open>
  Who is available: \<open>src/src/proxy/presence.rs\<close> and the console's two calls into it
  (\<open>src/src/console/handlers/presence.rs\<close>).  The manager keeps a state for each identity, mirrored in a table of the
  database, and the subscriptions of watchers and of mailboxes; the module answers SUBSCRIBE and PUBLISH and sends the
  NOTIFY requests; a listener follows the events of the registrar and of closed connections.  XML and the dialogs are the
  libraries', the clock gives an instant and a Unix time.  The channels to the tasks of the module are lists; that a
  sender waits while a channel is full is left out.
\<close>

section \<open>Data\<close>

datatype presence_status = Available | Busy | Away | Offline

fun status_text :: "presence_status \<Rightarrow> string" where
  "status_text Available = ''available''"
| "status_text Busy = ''busy''"
| "status_text Away = ''away''"
| "status_text Offline = ''offline''"

record presence_state =
  ps_status :: presence_status
  ps_note :: "string option"
  ps_activity :: "string option"
  ps_last_updated :: int

definition default_presence :: "int \<Rightarrow> presence_state" where
  "default_presence ts = \<lparr>ps_status = Offline, ps_note = None, ps_activity = None, ps_last_updated = ts\<rparr>"

record presence_row =
  row_status :: string
  row_note :: "string option"
  row_activity :: "string option"
  row_last_updated :: int

type_synonym dialog_id = "string \<times> string \<times> string"

record subscriber =
  sub_aor :: uri
  sub_dialog_id :: dialog_id
  sub_expires :: instant

record mwi_subscriber = subscriber +
  sub_account_uri :: string

record mwi_trigger =
  mwi_extension :: string
  mwi_new_messages :: nat
  mwi_old_messages :: nat

datatype event_source = Local | Remote ip_addr nat

fun is_local :: "event_source \<Rightarrow> bool" where
  "is_local Local = True"
| "is_local (Remote ip port) = False"

datatype locator_event = LRegistered location | LUnregistered location | LOffline "location list"

text \<open>The table of the database has one row for each identity.  The flag says whether the database answers.\<close>

record presence_db =
  db_rows :: "(string, presence_row) hmap"
  db_answers :: bool

record presence_manager =
  pm_states :: "(string, presence_state) hmap"
  pm_subscribers :: "(string, subscriber list) hmap"
  pm_mwi_subscribers :: "(string, mwi_subscriber list) hmap"
  pm_database :: "presence_db option"
  pm_notify_tx :: "string list option"
  pm_mwi_tx :: "mwi_trigger list option"

definition presence_manager_new :: "presence_db option \<Rightarrow> presence_manager" where
  "presence_manager_new database =
     \<lparr>pm_states = [], pm_subscribers = [], pm_mwi_subscribers = [], pm_database = database, pm_notify_tx = None, pm_mwi_tx = None\<rparr>"

section \<open>The manager\<close>

definition status_of_text :: "string \<Rightarrow> presence_status" where
  "status_of_text s =
     (if s = ''available'' then Available else if s = ''busy'' then Busy else if s = ''away'' then Away else Offline)"

definition state_of_row :: "presence_row \<Rightarrow> presence_state" where
  "state_of_row r = \<lparr>ps_status = status_of_text (row_status r), ps_note = row_note r, ps_activity = row_activity r,
                     ps_last_updated = row_last_updated r\<rparr>"

definition row_of_state :: "presence_state \<Rightarrow> presence_row" where
  "row_of_state st = \<lparr>row_status = status_text (ps_status st), row_note = ps_note st, row_activity = ps_activity st,
                      row_last_updated = ps_last_updated st\<rparr>"

definition load_from_db :: "presence_manager \<Rightarrow> unit result \<times> presence_manager" where
  "load_from_db m =
     (case pm_database m of
        None \<Rightarrow> (Inr (), m)
      | Some db \<Rightarrow>
          if db_answers db
          then (Inr (), m\<lparr>pm_states := fold (\<lambda>(i, r). hm_insert i (state_of_row r)) (db_rows db) (pm_states m)\<rparr>)
          else (Inl ''database'', m))"

definition get_state :: "int \<Rightarrow> string \<Rightarrow> presence_manager \<Rightarrow> presence_state" where
  "get_state ts i m = (case hm_get (pm_states m) i of Some st \<Rightarrow> st | None \<Rightarrow> default_presence ts)"

text \<open>A state is written to the table when the change comes from this node; a table that does not answer is only logged.  The
  identity is then put on the channel to the task that notifies the watchers.\<close>

definition update_state :: "string \<Rightarrow> presence_state \<Rightarrow> event_source \<Rightarrow> presence_manager \<Rightarrow> presence_manager" where
  "update_state i st source m =
     m\<lparr>pm_states := hm_insert i st (pm_states m),
       pm_database :=
         (if is_local source
          then map_option (\<lambda>db. if db_answers db then db\<lparr>db_rows := hm_insert i (row_of_state st) (db_rows db)\<rparr> else db) (pm_database m)
          else pm_database m),
       pm_notify_tx := map_option (\<lambda>q. q @ [i]) (pm_notify_tx m)\<rparr>"

text \<open>Both kinds of subscription are kept in the same way: one for each dialog, the newest last.\<close>

definition replace_dialog :: "'a subscriber_scheme \<Rightarrow> 'a subscriber_scheme list \<Rightarrow> 'a subscriber_scheme list" where
  "replace_dialog sub subs = filter (\<lambda>s. sub_dialog_id s \<noteq> sub_dialog_id sub) subs @ [sub]"

definition or_default :: "'a list option \<Rightarrow> 'a list" where
  "or_default v = (case v of Some xs \<Rightarrow> xs | None \<Rightarrow> [])"

definition add_subscriber :: "string \<Rightarrow> subscriber \<Rightarrow> presence_manager \<Rightarrow> presence_manager" where
  "add_subscriber i sub m =
     m\<lparr>pm_subscribers := hm_insert i (replace_dialog sub (or_default (hm_get (pm_subscribers m) i))) (pm_subscribers m)\<rparr>"

definition get_subscribers :: "string \<Rightarrow> presence_manager \<Rightarrow> subscriber list" where
  "get_subscribers i m = or_default (hm_get (pm_subscribers m) i)"

definition cleanup_expired :: "instant \<Rightarrow> presence_manager \<Rightarrow> presence_manager" where
  "cleanup_expired now m =
     m\<lparr>pm_subscribers := map (\<lambda>(i, subs). (i, filter (\<lambda>s. now < sub_expires s) subs)) (pm_subscribers m)\<rparr>"

definition add_mwi_subscriber :: "string \<Rightarrow> mwi_subscriber \<Rightarrow> presence_manager \<Rightarrow> presence_manager" where
  "add_mwi_subscriber i sub m =
     m\<lparr>pm_mwi_subscribers :=
         hm_insert i (replace_dialog sub (or_default (hm_get (pm_mwi_subscribers m) i))) (pm_mwi_subscribers m)\<rparr>"

definition get_mwi_subscribers :: "string \<Rightarrow> presence_manager \<Rightarrow> mwi_subscriber list" where
  "get_mwi_subscribers i m = or_default (hm_get (pm_mwi_subscribers m) i)"

definition cleanup_expired_mwi :: "instant \<Rightarrow> presence_manager \<Rightarrow> presence_manager" where
  "cleanup_expired_mwi now m =
     m\<lparr>pm_mwi_subscribers := map (\<lambda>(i, subs). (i, filter (\<lambda>s. now < sub_expires s) subs)) (pm_mwi_subscribers m)\<rparr>"

definition trigger_mwi :: "string \<Rightarrow> nat \<Rightarrow> nat \<Rightarrow> presence_manager \<Rightarrow> presence_manager" where
  "trigger_mwi extension new_messages old_messages m =
     m\<lparr>pm_mwi_tx := map_option (\<lambda>q. q @ [\<lparr>mwi_extension = extension, mwi_new_messages = new_messages, mwi_old_messages = old_messages\<rparr>])
        (pm_mwi_tx m)\<rparr>"

text \<open>The events of the registrar and of closed connections.\<close>

definition get_user :: "location \<Rightarrow> string option" where
  "get_user loc = u_user (aor loc)"

definition goes_offline :: "int \<Rightarrow> event_source \<Rightarrow> location \<Rightarrow> presence_manager \<Rightarrow> presence_manager" where
  "goes_offline ts source loc m =
     (case get_user loc of
        Some user \<Rightarrow> update_state user ((default_presence ts)\<lparr>ps_status := Offline, ps_last_updated := ts\<rparr>) source m
      | None \<Rightarrow> m)"

fun handle_locator_event :: "int \<Rightarrow> locator_event \<Rightarrow> event_source \<Rightarrow> presence_manager \<Rightarrow> presence_manager" where
  "handle_locator_event ts (LRegistered loc) source m =
     (case get_user loc of
        Some user \<Rightarrow>
          (let current = get_state ts user m
           in if ps_status current = Offline
              then update_state user (current\<lparr>ps_status := Available, ps_last_updated := ts\<rparr>) source m
              else m)
      | None \<Rightarrow> m)"
| "handle_locator_event ts (LUnregistered loc) source m = goes_offline ts source loc m"
| "handle_locator_event ts (LOffline locs) source m = fold (goes_offline ts source) locs m"

text \<open>The listener of the module receives from a broadcast channel and ends at the first result that is not an event: also when it
  has been too slow and the channel reports how many events it missed.\<close>

datatype 'e received = Event 'e | Lagged nat | Closed

fun listen_locator_events :: "(locator_event \<times> int) received list \<Rightarrow> presence_manager \<Rightarrow> presence_manager" where
  "listen_locator_events (Event (e, ts) # rest) m = listen_locator_events rest (handle_locator_event ts e Local m)"
| "listen_locator_events _ m = m"

section \<open>Documents\<close>

record rpid_activities =
  rpid_away :: bool
  rpid_busy :: bool
  rpid_on_the_phone :: bool

record pidf_tuple =
  tu_id :: string
  tu_basic :: string
  tu_note :: "string option"
  tu_contact :: "string option"
  tu_activities :: "rpid_activities option"

record pidf_presence =
  pidf_xmlns :: string
  pidf_xmlns_rpid :: "string option"
  pidf_entity :: string
  pidf_tuples :: "pidf_tuple list"
  pidf_notes :: "string list"

definition no_activities :: rpid_activities where
  "no_activities = \<lparr>rpid_away = False, rpid_busy = False, rpid_on_the_phone = False\<rparr>"

definition status_activities :: "presence_status \<Rightarrow> rpid_activities option" where
  "status_activities st =
     (case st of Busy \<Rightarrow> Some (no_activities\<lparr>rpid_busy := True\<rparr>) | Away \<Rightarrow> Some (no_activities\<lparr>rpid_away := True\<rparr>) | _ \<Rightarrow> None)"

definition notify_document :: "string \<Rightarrow> subscriber \<Rightarrow> presence_state \<Rightarrow> pidf_presence" where
  "notify_document i sub st =
     (let address = ''sip:'' @ i @ ''@'' @ u_host (sub_aor sub)
      in \<lparr>pidf_xmlns = ''urn:ietf:params:xml:ns:pidf'', pidf_xmlns_rpid = Some ''urn:ietf:params:xml:ns:pidf:rpid'',
          pidf_entity = address,
          pidf_tuples = [\<lparr>tu_id = ''t1'', tu_basic = (if ps_status st \<in> {Available, Busy, Away} then ''open'' else ''closed''),
             tu_note = (case ps_note st of Some n \<Rightarrow> Some n | None \<Rightarrow> Some (status_text (ps_status st))),
             tu_contact = Some address, tu_activities = status_activities (ps_status st)\<rparr>],
          pidf_notes = []\<rparr>)"

text \<open>What a published document says: the first open tuple decides.\<close>

definition tuple_status :: "pidf_tuple \<Rightarrow> presence_status" where
  "tuple_status t =
     (case tu_activities t of
        Some a \<Rightarrow> if rpid_busy a \<or> rpid_on_the_phone a then Busy else if rpid_away a then Away else Available
      | None \<Rightarrow> Available)"

fun first_open :: "pidf_tuple list \<Rightarrow> presence_status \<times> string option" where
  "first_open [] = (Offline, None)"
| "first_open (t # ts) = (if tu_basic t = ''open'' then (tuple_status t, tu_note t) else first_open ts)"

definition text_status :: "string \<Rightarrow> presence_status" where
  "text_status body =
     (if contains_str ''busy'' body then Busy else if contains_str ''away'' body then Away
      else if contains_str ''available'' body \<or> contains_str ''open'' body then Available else Offline)"

definition plain_status :: "string \<Rightarrow> presence_status" where
  "plain_status body =
     (if contains_str ''busy'' body then Busy else if contains_str ''away'' body then Away
      else if contains_str ''offline'' body then Offline else Available)"

definition read_document :: "string \<Rightarrow> pidf_presence \<Rightarrow> presence_state \<Rightarrow> presence_state" where
  "read_document body pidf current =
     (let (status, activity_note) = first_open (pidf_tuples pidf);
          status = (if status = Offline \<and> pidf_tuples pidf = [] then text_status body else status)
      in current\<lparr>ps_status := status,
           ps_note := (case activity_note of
                         Some note \<Rightarrow> Some note
                       | None \<Rightarrow> (case pidf_notes pidf of n # _ \<Rightarrow> Some n | [] \<Rightarrow> ps_note current))\<rparr>)"

section \<open>The module\<close>

record body_tx = sip_tx +
  rq_body :: string

text \<open>Reading and writing of XML, and the dialogs: the subscription of a request, whether a dialog still exists, and whether a
  request in it succeeds.\<close>

record presence_lib =
  xml_read :: "string \<Rightarrow> pidf_presence option"
  xml_write :: "pidf_presence \<Rightarrow> string option"
  server_subscription :: "body_tx \<Rightarrow> dialog_id result"
  has_dialog :: "dialog_id \<Rightarrow> bool"
  dialog_request :: "dialog_id \<Rightarrow> unit result"

text \<open>The state of the module: the manager, the answers to requests, the NOTIFY requests sent (with the time left, the
  package and the body), and the changes told to the cluster.\<close>

record notify =
  nf_dialog :: dialog_id
  nf_headers :: headers
  nf_body :: string

record presence_module =
  md_manager :: presence_manager
  md_replies :: "nat list"
  md_notifies :: "notify list"
  md_emitted :: "(string \<times> presence_state) list"

definition on_manager :: "(presence_manager \<Rightarrow> presence_manager) \<Rightarrow> presence_module \<Rightarrow> presence_module" where
  "on_manager f s = s\<lparr>md_manager := f (md_manager s)\<rparr>"

definition reply_status :: "nat \<Rightarrow> presence_module \<Rightarrow> presence_module" where
  "reply_status status s = s\<lparr>md_replies := md_replies s @ [status]\<rparr>"

definition notify_headers :: "string \<Rightarrow> string \<Rightarrow> instant \<Rightarrow> 'a subscriber_scheme \<Rightarrow> headers" where
  "notify_headers package content_type now sub =
     [Std (HTyped ''Event'') package,
      Std (HTyped ''Subscription-State'') (''active;expires='' @ string_of_nat (as_secs (sub_expires sub - now))),
      Std HContentType content_type]"

definition dialog_notify :: "presence_lib \<Rightarrow> err \<Rightarrow> 'a subscriber_scheme \<Rightarrow> headers \<Rightarrow> string \<Rightarrow> presence_module \<Rightarrow> unit result \<times> presence_module" where
  "dialog_notify lib missing sub hs body s =
     (if \<not> has_dialog lib (sub_dialog_id sub) then (Inl missing, s)
      else (dialog_request lib (sub_dialog_id sub),
            s\<lparr>md_notifies := md_notifies s @ [\<lparr>nf_dialog = sub_dialog_id sub, nf_headers = hs, nf_body = body\<rparr>]\<rparr>))"

definition xml_declaration :: string where
  "xml_declaration = ''<?xml version='' @ quote @ ''1.0'' @ quote @ '' encoding='' @ quote @ ''UTF-8'' @ quote @ ''?>''"

definition send_notify ::
  "presence_lib \<Rightarrow> instant \<Rightarrow> string \<Rightarrow> subscriber \<Rightarrow> presence_state \<Rightarrow> presence_module \<Rightarrow> unit result \<times> presence_module" where
  "send_notify lib now i sub st s =
     (case xml_write lib (notify_document i sub st) of
        None \<Rightarrow> (Inl ''XML serialization failed'', s)
      | Some xml \<Rightarrow> dialog_notify lib ''Dialog not found'' sub (notify_headers ''presence'' ''application/pidf+xml'' now sub) (xml_declaration @ xml) s)"

definition crlf :: string where "crlf = [CHR 0x0D, CHR 0x0A]"

definition send_mwi_notify :: "presence_lib \<Rightarrow> instant \<Rightarrow> mwi_trigger \<Rightarrow> mwi_subscriber \<Rightarrow> presence_module \<Rightarrow> unit result \<times> presence_module" where
  "send_mwi_notify lib now trigger sub s =
     dialog_notify lib (''MWI dialog not found for '' @ mwi_extension trigger) sub (notify_headers ''message-summary'' ''application/simple-message-summary'' now sub)
       (''Messages-Waiting: '' @ (if 0 < mwi_new_messages trigger then ''yes'' else ''no'') @ crlf
        @ ''Message-Account: '' @ sub_account_uri sub @ crlf
        @ ''Voice-Message: '' @ string_of_nat (mwi_new_messages trigger) @ ''/'' @ string_of_nat (mwi_old_messages trigger)
        @ '' (0/0)'' @ crlf) s"

definition from_header_uri :: "'a sip_tx_scheme \<Rightarrow> uri result" where
  "from_header_uri tx = (case rq_from tx of Inl e \<Rightarrow> Inl e | Inr from \<Rightarrow> fh_uri from)"

definition to_header_uri :: "'a sip_tx_scheme \<Rightarrow> uri result" where
  "to_header_uri tx = (case rq_to tx of Inl e \<Rightarrow> Inl e | Inr to \<Rightarrow> th_uri to)"

definition request_expires :: "'a sip_tx_scheme \<Rightarrow> nat" where
  "request_expires tx =
     (case Option.bind (first_header (HTyped ''Expires'') (rq_headers tx)) (parse_unsigned u32_max) of Some e \<Rightarrow> e | None \<Rightarrow> 3600)"

definition watched_identity :: "uri \<Rightarrow> string" where
  "watched_identity u = (case u_user u of Some user \<Rightarrow> user | None \<Rightarrow> u_host u)"

definition handle_subscribe ::
  "presence_lib \<Rightarrow> instant \<Rightarrow> int \<Rightarrow> body_tx \<Rightarrow> presence_module \<Rightarrow> unit result \<times> presence_module" where
  "handle_subscribe lib now ts tx s =
     (case (from_header_uri tx, to_header_uri tx) of
        (Inr from, Inr to) \<Rightarrow>
          (case server_subscription lib tx of
             Inl e \<Rightarrow> (Inl e, s)
           | Inr dialog \<Rightarrow>
               (let i = watched_identity to;
                    sub = \<lparr>sub_aor = from, sub_dialog_id = dialog, sub_expires = now + secs (request_expires tx)\<rparr>;
                    s1 = reply_status 200 (on_manager (add_subscriber i sub) s)
                in send_notify lib now i sub (get_state ts i (md_manager s1)) s1))
      | (Inl e, _) \<Rightarrow> (Inl e, s)
      | (_, Inl e) \<Rightarrow> (Inl e, s))"

definition handle_mwi_subscribe :: "presence_lib \<Rightarrow> instant \<Rightarrow> body_tx \<Rightarrow> presence_module \<Rightarrow> unit result \<times> presence_module" where
  "handle_mwi_subscribe lib now tx s =
     (case (from_header_uri tx, to_header_uri tx) of
        (Inr from, Inr to) \<Rightarrow>
          (case server_subscription lib tx of
             Inl e \<Rightarrow> (Inl e, s)
           | Inr dialog \<Rightarrow>
               (let extension = watched_identity to;
                    sub = \<lparr>sub_aor = from, sub_dialog_id = dialog, sub_expires = now + secs (request_expires tx),
                           sub_account_uri = ''sip:'' @ extension @ ''@'' @ u_host to\<rparr>;
                    s1 = reply_status 200 (on_manager (add_mwi_subscriber extension sub) s)
                in (Inr (), snd (send_mwi_notify lib now
                      \<lparr>mwi_extension = extension, mwi_new_messages = 0, mwi_old_messages = 0\<rparr> sub s1))))
      | (Inl e, _) \<Rightarrow> (Inl e, s)
      | (_, Inl e) \<Rightarrow> (Inl e, s))"

definition published_state :: "presence_lib \<Rightarrow> int \<Rightarrow> body_tx \<Rightarrow> presence_state \<Rightarrow> presence_state" where
  "published_state lib ts tx st =
     (let current = st\<lparr>ps_last_updated := ts\<rparr>; body = rq_body tx
      in if request_expires tx = 0 then current\<lparr>ps_status := Offline\<rparr>
         else case xml_read lib body of
                Some pidf \<Rightarrow> read_document body pidf current
              | None \<Rightarrow> current\<lparr>ps_status := plain_status body\<rparr>)"

definition publisher :: "body_tx \<Rightarrow> auth_cookie \<Rightarrow> string result" where
  "publisher tx cookie =
     (case from_header_uri tx of
        Inl e \<Rightarrow> Inl e
      | Inr from \<Rightarrow>
          (case ck_user cookie of
             Some user \<Rightarrow> Inr (su_username user)
           | None \<Rightarrow> (case u_user from of Some u \<Rightarrow> Inr u | None \<Rightarrow> Inl ''Missing identity in From header'')))"

definition handle_publish ::
  "presence_lib \<Rightarrow> bool \<Rightarrow> int \<Rightarrow> body_tx \<Rightarrow> auth_cookie \<Rightarrow> presence_module \<Rightarrow> unit result \<times> presence_module" where
  "handle_publish lib clustered ts tx cookie s =
     (case publisher tx cookie of
        Inl e \<Rightarrow> (Inl e, s)
      | Inr i \<Rightarrow>
          (let st = published_state lib ts tx (get_state ts i (md_manager s));
               s1 = on_manager (update_state i st Local) s
           in (Inr (), reply_status 200 (if clustered then s1\<lparr>md_emitted := md_emitted s1 @ [(i, st)]\<rparr> else s1))))"

definition event_package :: "headers \<Rightarrow> string" where
  "event_package hs = (case first_header (HTyped ''Event'') hs of Some v \<Rightarrow> to_ascii_lowercase v | None \<Rightarrow> [])"

definition presence_on_transaction_begin ::
  "presence_lib \<Rightarrow> bool \<Rightarrow> instant \<Rightarrow> int \<Rightarrow> body_tx \<Rightarrow> auth_cookie \<Rightarrow> presence_module \<Rightarrow> proxy_action result \<times> presence_module" where
  "presence_on_transaction_begin lib clustered now ts tx cookie s =
     (let finish = \<lambda>(r, s'). (map_sum id (\<lambda>_. Abort) r, s')
      in if rq_method tx = MOther ''SUBSCRIBE'' then
           (if starts_with ''message-summary'' (event_package (rq_headers tx))
            then finish (handle_mwi_subscribe lib now tx s) else finish (handle_subscribe lib now ts tx s))
         else if rq_method tx = MOther ''PUBLISH'' then finish (handle_publish lib clustered ts tx cookie s)
         else (Inr Continue, s))"

section \<open>The tasks of the module\<close>

text \<open>The start gives the manager its channels.\<close>

definition presence_on_start :: "presence_module \<Rightarrow> presence_module" where
  "presence_on_start = on_manager (\<lambda>m. m\<lparr>pm_notify_tx := Some [], pm_mwi_tx := Some []\<rparr>)"

definition notify_all :: "presence_lib \<Rightarrow> instant \<Rightarrow> int \<Rightarrow> string \<Rightarrow> presence_module \<Rightarrow> presence_module" where
  "notify_all lib now ts i s =
     (let st = get_state ts i (md_manager s)
      in fold (\<lambda>sub s. snd (send_notify lib now i sub st s)) (get_subscribers i (md_manager s)) s)"

text \<open>One round of the task that notifies watchers, of the one for mailboxes, and of the clean-up.\<close>

definition notify_step :: "presence_lib \<Rightarrow> instant \<Rightarrow> int \<Rightarrow> presence_module \<Rightarrow> presence_module" where
  "notify_step lib now ts s =
     (case pm_notify_tx (md_manager s) of
        Some (i # rest) \<Rightarrow> notify_all lib now ts i (on_manager (\<lambda>m. m\<lparr>pm_notify_tx := Some rest\<rparr>) s)
      | _ \<Rightarrow> s)"

definition mwi_step :: "presence_lib \<Rightarrow> instant \<Rightarrow> presence_module \<Rightarrow> presence_module" where
  "mwi_step lib now s =
     (case pm_mwi_tx (md_manager s) of
        Some (t # rest) \<Rightarrow>
          fold (\<lambda>sub s. snd (send_mwi_notify lib now t sub s)) (get_mwi_subscribers (mwi_extension t) (md_manager s))
            (on_manager (\<lambda>m. m\<lparr>pm_mwi_tx := Some rest\<rparr>) s)
      | _ \<Rightarrow> s)"

definition cleanup_step :: "instant \<Rightarrow> presence_module \<Rightarrow> presence_module" where
  "cleanup_step now = on_manager (cleanup_expired_mwi now \<circ> cleanup_expired now)"

text \<open>The console sets a state itself; the cluster is not told.\<close>

definition set_presence ::
  "int \<Rightarrow> string \<Rightarrow> presence_status \<Rightarrow> string option \<Rightarrow> string option \<Rightarrow> presence_module \<Rightarrow> presence_module" where
  "set_presence ts extension status note activity =
     on_manager (update_state extension \<lparr>ps_status = status, ps_note = note, ps_activity = activity, ps_last_updated = ts\<rparr> Local)"

section \<open>Texts of the states\<close>

lemma status_text_roundtrip [simp]: "status_of_text (status_text st) = st"
  by (cases st) (simp_all add: status_of_text_def)

lemma row_roundtrip [simp]: "state_of_row (row_of_state st) = st"
  by (simp add: state_of_row_def row_of_state_def)

section \<open>Restart\<close>

text \<open>A restart makes a new manager on the same database and loads it.\<close>

definition restart :: "presence_manager \<Rightarrow> presence_manager" where
  "restart m = snd (load_from_db (presence_manager_new (pm_database m)))"

type_synonym presence_update = "string \<times> presence_state \<times> event_source"

definition run_updates :: "presence_update list \<Rightarrow> presence_manager \<Rightarrow> presence_manager" where
  "run_updates = fold (\<lambda>(i, st, source). update_state i st source)"

definition own_updates :: "string \<Rightarrow> presence_update list \<Rightarrow> presence_update list" where
  "own_updates i = filter (\<lambda>(j, _, source). j = i \<and> is_local source)"

definition table_kept :: "presence_manager \<Rightarrow> bool" where
  "table_kept m \<longleftrightarrow> (\<exists>db. pm_database m = Some db \<and> db_answers db \<and> hm_wf (db_rows db))"

lemma fold_insert_get:
  "hm_wf rows \<Longrightarrow> hm_get (fold (\<lambda>(i, r). hm_insert i (f r)) rows m) k
     = (case hm_get rows k of Some r \<Rightarrow> Some (f r) | None \<Rightarrow> hm_get m k)"
proof (induction rows arbitrary: m)
  case (Cons e rows)
  obtain i r where e: "e = (i, r)" by (rule prod.exhaust)
  with Cons.prems have "hm_get rows i = None" "hm_wf rows" by (auto simp: hm_wf_def map_of_eq_None_iff)
  then show ?case using Cons.IH by (auto simp: e split: option.split)
qed simp

lemma restarted_state:
  assumes "pm_database m = Some db" "db_answers db" "hm_wf (db_rows db)"
  shows "get_state ts i (restart m) = (case hm_get (db_rows db) i of Some r \<Rightarrow> state_of_row r | None \<Rightarrow> default_presence ts)"
  using assms fold_insert_get [OF assms(3), of state_of_row "[]" i]
  by (simp add: restart_def load_from_db_def presence_manager_new_def get_state_def split: option.split)

lemma update_keeps_table: "table_kept m \<Longrightarrow> table_kept (update_state i st source m)"
  by (auto simp: table_kept_def update_state_def)

lemma restart_update:
  assumes "table_kept m"
  shows "get_state ts i (restart (update_state j st source m))
           = (if j = i \<and> is_local source then st else get_state ts i (restart m))"
proof -
  obtain db where db: "pm_database m = Some db" "db_answers db" "hm_wf (db_rows db)" using assms by (auto simp: table_kept_def)
  show ?thesis
  proof (cases "is_local source")
    case True
    let ?db = "db\<lparr>db_rows := hm_insert j (row_of_state st) (db_rows db)\<rparr>"
    have "pm_database (update_state j st source m) = Some ?db" using True db by (simp add: update_state_def)
    then show ?thesis using restarted_state [of _ ?db ts i] restarted_state [OF db, of ts i] db True by simp
  next
    case False
    then have "pm_database (update_state j st source m) = Some db" using db by (simp add: update_state_def)
    then show ?thesis using restarted_state [OF _ db(2,3), of _ ts i] db False by simp
  qed
qed

text \<open>C39: What survives a restart: for each identity the state of its latest change on this node.  A change that another node of
  the cluster has reported in between is lost.\<close>

theorem presence_survives_restart:
  assumes "table_kept m"
  shows "get_state ts i (restart (run_updates us m))
           = (if own_updates i us = [] then get_state ts i (restart m) else fst (snd (last (own_updates i us))))"
  using assms
proof (induction us arbitrary: m)
  case (Cons u us)
  obtain j st source where u: "u = (j, st, source)" by (cases u) auto
  have "get_state ts i (restart (run_updates us (update_state j st source m)))
      = (if own_updates i us = [] then get_state ts i (restart (update_state j st source m)) else fst (snd (last (own_updates i us))))"
    by (rule Cons.IH [OF update_keeps_table [OF Cons.prems]])
  then show ?case using restart_update [OF Cons.prems, of ts i j st source] by (simp add: u run_updates_def own_updates_def)
qed (simp add: run_updates_def own_updates_def)

definition demo_manager :: presence_manager where
  "demo_manager = presence_manager_new (Some \<lparr>db_rows = [], db_answers = True\<rparr>)"

definition demo_busy :: presence_state where
  "demo_busy = \<lparr>ps_status = Busy, ps_note = Some ''in a meeting'', ps_activity = None, ps_last_updated = 5\<rparr>"

theorem presence_survives_restart_witness:
  "get_state 9 ''1001'' (restart (run_updates
     [(''1001'', demo_busy, Local), (''1002'', demo_busy, Local), (''1001'', default_presence 7, Remote (V4 1) 0)] demo_manager)) = demo_busy"
proof -
  have "table_kept demo_manager" by (simp add: table_kept_def demo_manager_def presence_manager_new_def)
  from presence_survives_restart [OF this, of 9 "''1001''"] show ?thesis by (simp add: own_updates_def)
qed

section \<open>Steps\<close>

text \<open>Everything that happens to the module: a request, a round of the clean-up, an event of the location service, a round of
  the tasks that notify, and a change by the console.\<close>

datatype presence_step =
    Request instant int body_tx auth_cookie
  | CleanUp instant
  | LocatorEvent int locator_event event_source
  | NotifyTask instant int
  | MwiTask instant
  | SetPresence int string presence_status "string option" "string option"

fun do_step :: "presence_lib \<Rightarrow> bool \<Rightarrow> presence_step \<Rightarrow> presence_module \<Rightarrow> presence_module" where
  "do_step lib c (Request now ts tx cookie) s = snd (presence_on_transaction_begin lib c now ts tx cookie s)"
| "do_step lib c (CleanUp now) s = cleanup_step now s"
| "do_step lib c (LocatorEvent ts e source) s = on_manager (handle_locator_event ts e source) s"
| "do_step lib c (NotifyTask now ts) s = notify_step lib now ts s"
| "do_step lib c (MwiTask now) s = mwi_step lib now s"
| "do_step lib c (SetPresence ts i st note act) s = set_presence ts i st note act s"

definition run_steps :: "presence_lib \<Rightarrow> bool \<Rightarrow> presence_step list \<Rightarrow> presence_module \<Rightarrow> presence_module" where
  "run_steps lib c = fold (do_step lib c)"

lemma subscribers_update [simp]: "get_subscribers i (update_state j st source m) = get_subscribers i m"
  by (simp add: get_subscribers_def update_state_def)

lemma goes_offline_subscribers [simp]: "get_subscribers i (goes_offline ts source loc m) = get_subscribers i m"
  by (simp add: goes_offline_def split: option.split)

lemma fold_offline_subscribers [simp]: "get_subscribers i (fold (goes_offline ts source) locs m) = get_subscribers i m"
  by (induction locs arbitrary: m) simp_all

lemma locator_event_subscribers [simp]: "get_subscribers i (handle_locator_event ts e source m) = get_subscribers i m"
  by (cases e) (simp_all add: Let_def split: option.split)

lemma dialog_notify_manager [simp]: "md_manager (snd (dialog_notify lib missing sub hs body s)) = md_manager s"
  by (simp add: dialog_notify_def)

lemma send_notify_manager [simp]: "md_manager (snd (send_notify lib now i sub st s)) = md_manager s"
  by (simp add: send_notify_def split: option.split)

lemma send_mwi_notify_manager [simp]: "md_manager (snd (send_mwi_notify lib now t sub s)) = md_manager s"
  by (simp add: send_mwi_notify_def)

lemma fold_notify_manager [simp]: "md_manager (fold (\<lambda>sub s. snd (send_notify lib now i sub st s)) subs s) = md_manager s"
  by (induction subs arbitrary: s) simp_all

lemma fold_mwi_manager [simp]: "md_manager (fold (\<lambda>sub s. snd (send_mwi_notify lib now t sub s)) subs s) = md_manager s"
  by (induction subs arbitrary: s) simp_all

lemma notify_all_manager [simp]: "md_manager (notify_all lib now ts i s) = md_manager s"
  by (simp add: notify_all_def Let_def)

lemma on_manager_manager [simp]: "md_manager (on_manager f s) = f (md_manager s)"
  by (simp add: on_manager_def)

lemma reply_status_manager [simp]: "md_manager (reply_status c s) = md_manager s"
  by (simp add: reply_status_def)

lemma channel_subscribers [simp]:
  "get_subscribers i (m\<lparr>pm_notify_tx := q\<rparr>) = get_subscribers i m" "get_subscribers i (m\<lparr>pm_mwi_tx := p\<rparr>) = get_subscribers i m"
  "get_subscribers i (add_mwi_subscriber j sub m) = get_subscribers i m"
  "get_subscribers i (cleanup_expired_mwi now m) = get_subscribers i m"
  by (simp_all add: get_subscribers_def add_mwi_subscriber_def cleanup_expired_mwi_def)

lemma add_subscriber_subscribers [simp]:
  "get_subscribers i (add_subscriber j sub m) = (if i = j then replace_dialog sub (get_subscribers i m) else get_subscribers i m)"
  by (simp add: get_subscribers_def add_subscriber_def or_default_def)

lemma hm_get_map_values: "hm_get (map (\<lambda>(k, v). (k, f v)) m) k = map_option f (hm_get m k)"
  by (induction m) auto

lemma cleanup_subscribers [simp]:
  "get_subscribers i (cleanup_expired now m) = filter (\<lambda>s. now < sub_expires s) (get_subscribers i m)"
  by (simp add: get_subscribers_def cleanup_expired_def hm_get_map_values or_default_def split: option.split)

text \<open>How a step changes the subscriptions of an identity.\<close>

lemma step_subscribers:
  "get_subscribers i (md_manager (do_step lib c step s)) = get_subscribers i (md_manager s)
   \<or> (\<exists>now. step = CleanUp now
        \<and> get_subscribers i (md_manager (do_step lib c step s)) = filter (\<lambda>s. now < sub_expires s) (get_subscribers i (md_manager s)))
   \<or> (\<exists>now ts tx cookie sub. step = Request now ts tx cookie \<and> server_subscription lib tx = Inr (sub_dialog_id sub)
        \<and> get_subscribers i (md_manager (do_step lib c step s)) = replace_dialog sub (get_subscribers i (md_manager s)))"
proof (cases step)
  case (Request now ts tx cookie)
  have mwi: "get_subscribers i (md_manager (snd (handle_mwi_subscribe lib now tx s))) = get_subscribers i (md_manager s)"
    by (simp add: handle_mwi_subscribe_def Let_def split: sum.split)
  have pub: "get_subscribers i (md_manager (snd (handle_publish lib c ts tx cookie s))) = get_subscribers i (md_manager s)"
    by (simp add: handle_publish_def Let_def split: sum.split)
  have "get_subscribers i (md_manager (snd (handle_subscribe lib now ts tx s))) = get_subscribers i (md_manager s)
      \<or> (\<exists>sub. server_subscription lib tx = Inr (sub_dialog_id sub)
          \<and> get_subscribers i (md_manager (snd (handle_subscribe lib now ts tx s))) = replace_dialog sub (get_subscribers i (md_manager s)))"
  proof (cases "from_header_uri tx"; cases "to_header_uri tx"; cases "server_subscription lib tx")
    fix from_u to_u d
    assume u: "from_header_uri tx = Inr from_u" "to_header_uri tx = Inr to_u" "server_subscription lib tx = Inr d"
    let ?sub = "\<lparr>sub_aor = from_u, sub_dialog_id = d, sub_expires = now + secs (request_expires tx)\<rparr>"
    show ?thesis
      using u by (cases "i = watched_identity to_u") (auto simp: handle_subscribe_def Let_def intro!: exI [of _ ?sub])
  qed (simp_all add: handle_subscribe_def)
  then show ?thesis
    using mwi pub by (auto simp: Request presence_on_transaction_begin_def Let_def case_prod_unfold)
next
  case (NotifyTask now ts)
  then show ?thesis by (simp add: notify_step_def split: option.split list.split)
next
  case (MwiTask now)
  then show ?thesis by (simp add: mwi_step_def split: option.split list.split)
qed (simp_all add: cleanup_step_def set_presence_def)

section \<open>Watchers\<close>

definition one_per_dialog :: "presence_manager \<Rightarrow> bool" where
  "one_per_dialog m \<longleftrightarrow> (\<forall>i. distinct (map sub_dialog_id (get_subscribers i m)))"

lemma replace_dialog_distinct:
  "distinct (map sub_dialog_id subs) \<Longrightarrow> distinct (map sub_dialog_id (replace_dialog sub subs))"
  by (auto simp: replace_dialog_def distinct_map inj_on_def)

lemma step_one_per_dialog: "one_per_dialog (md_manager s) \<Longrightarrow> one_per_dialog (md_manager (do_step lib c step s))"
proof (unfold one_per_dialog_def, intro allI)
  fix i
  assume "\<forall>i. distinct (map sub_dialog_id (get_subscribers i (md_manager s)))"
  then have "distinct (map sub_dialog_id (get_subscribers i (md_manager s)))" by blast
  then show "distinct (map sub_dialog_id (get_subscribers i (md_manager (do_step lib c step s))))"
    using step_subscribers [of i lib c step s] by (auto simp: distinct_map_filter replace_dialog_distinct)
qed

lemma run_one_per_dialog: "one_per_dialog (md_manager s) \<Longrightarrow> one_per_dialog (md_manager (run_steps lib c steps s))"
  unfolding run_steps_def by (induction steps arbitrary: s) (simp_all add: step_one_per_dialog)

text \<open>A subscription is still there after a step unless its dialog subscribes again or the clean-up finds it expired.\<close>

fun leaves_alone :: "presence_lib \<Rightarrow> subscriber \<Rightarrow> presence_step \<Rightarrow> bool" where
  "leaves_alone lib sub (Request now ts tx cookie) = (server_subscription lib tx \<noteq> Inr (sub_dialog_id sub))"
| "leaves_alone lib sub (CleanUp now) = (now < sub_expires sub)"
| "leaves_alone lib sub step = True"

lemma step_keeps_subscription:
  assumes "sub \<in> set (get_subscribers i (md_manager s))" "leaves_alone lib sub step"
  shows "sub \<in> set (get_subscribers i (md_manager (do_step lib c step s)))"
  using step_subscribers [of i lib c step s] assms by (auto simp: replace_dialog_def)

lemma run_keeps_subscription:
  "sub \<in> set (get_subscribers i (md_manager s)) \<Longrightarrow> list_all (leaves_alone lib sub) steps
     \<Longrightarrow> sub \<in> set (get_subscribers i (md_manager (run_steps lib c steps s)))"
  unfolding run_steps_def by (induction steps arbitrary: s) (simp_all add: step_keeps_subscription)

lemma fold_notify_sent:
  assumes "sub \<in> set subs" "has_dialog lib (sub_dialog_id sub)" "xml_write lib (notify_document i sub st) = Some xml"
  shows "\<exists>n \<in> set (md_notifies (fold (\<lambda>sub s. snd (send_notify lib now i sub st s)) subs s)).
           nf_dialog n = sub_dialog_id sub \<and> nf_body n = xml_declaration @ xml"
proof -
  have grow: "set (md_notifies s) \<subseteq> set (md_notifies (fold (\<lambda>sub s. snd (send_notify lib now i sub st s)) subs s))" for subs s
    by (induction subs arbitrary: s) (fastforce simp: send_notify_def dialog_notify_def split: option.splits)+
  show ?thesis
    using assms(1)
  proof (induction subs arbitrary: s)
    case (Cons x subs)
    show ?case
    proof (cases "x = sub")
      case True
      let ?s = "snd (send_notify lib now i sub st s)"
      have "\<exists>n \<in> set (md_notifies ?s). nf_dialog n = sub_dialog_id sub \<and> nf_body n = xml_declaration @ xml"
        using assms(2,3) by (simp add: send_notify_def dialog_notify_def)
      with True show ?thesis using grow [of ?s subs] by auto
    qed (use Cons in simp)
  qed simp
qed

lemma get_state_channel [simp]: "get_state ts i (m\<lparr>pm_notify_tx := q\<rparr>) = get_state ts i m"
  by (simp add: get_state_def)

text \<open>The task takes the identities in their order, so after as many rounds as there are entries it has served the last one.\<close>

lemma notify_steps_reach:
  assumes "pm_notify_tx (md_manager s) = Some (q @ i # rest)" "sub \<in> set (get_subscribers i (md_manager s))"
    "has_dialog lib (sub_dialog_id sub)" "get_state ts i (md_manager s) = st" "xml_write lib (notify_document i sub st) = Some xml"
  shows "\<exists>n \<in> set (md_notifies ((notify_step lib now ts ^^ Suc (length q)) s)).
           nf_dialog n = sub_dialog_id sub \<and> nf_body n = xml_declaration @ xml"
  using assms
proof (induction q arbitrary: s)
  case Nil
  let ?s = "on_manager (\<lambda>m. m\<lparr>pm_notify_tx := Some rest\<rparr>) s"
  have "notify_step lib now ts s
      = fold (\<lambda>sub s. snd (send_notify lib now i sub st s)) (get_subscribers i (md_manager s)) ?s"
    using Nil by (simp add: notify_step_def notify_all_def Let_def)
  then show ?case using fold_notify_sent [OF Nil(2,3,5)] by simp
next
  case (Cons j q)
  let ?s = "notify_step lib now ts s"
  have "md_manager ?s = (md_manager s)\<lparr>pm_notify_tx := Some (q @ i # rest)\<rparr>"
    using Cons.prems(1) by (simp add: notify_step_def)
  then show ?case using Cons.IH [of ?s] Cons.prems by (simp add: funpow_swap1)
qed

lemma subscribe_adds:
  assumes "from_header_uri tx = Inr a" "to_header_uri tx = Inr b" "server_subscription lib tx = Inr d"
    "i = watched_identity b" "sub = \<lparr>sub_aor = a, sub_dialog_id = d, sub_expires = now + secs (request_expires tx)\<rparr>"
  shows "sub \<in> set (get_subscribers i (md_manager (snd (handle_subscribe lib now ts tx s))))"
  using assms by (simp add: handle_subscribe_def Let_def replace_dialog_def)


section \<open>Registration\<close>

text \<open>What the listener is told by the registrar.\<close>

fun event_of_registrar :: "registrar_event \<Rightarrow> locator_event" where
  "event_of_registrar (EvRegistered loc extra) = LRegistered loc"
| "event_of_registrar (EvUnregistered loc) = LUnregistered loc"

definition follow_registrar :: "int \<Rightarrow> registrar_event list \<Rightarrow> presence_manager \<Rightarrow> presence_manager" where
  "follow_registrar ts evs = fold (\<lambda>e. handle_locator_event ts (event_of_registrar e) Local) evs"

lemma registers_one_events:
  assumes "registers_one m tx user to ge entry"
    "loc = fst (binding_location m now tx user to (entry_expires m ge entry) entry)"
  shows "\<exists>extra. rs_events (snd (registrar_on_transaction_begin m (memory_ops (rg_lib m) now) now tx s)) = rs_events s @ [EvRegistered loc extra]"
  using assms
  by (auto simp: registers_one_def registrar_on_transaction_begin_def memory_ops_def reply_def Let_def split: prod.split)

lemma registered_is_up: "get_user loc = Some u \<Longrightarrow> ps_status (get_state ts' u (handle_locator_event ts (LRegistered loc) source m)) \<noteq> Offline"
  by (auto simp: Let_def get_state_def update_state_def default_presence_def split: option.splits)


text \<open>When the connection of one of the phones of a user closes, the user is shown as offline, whatever other phones are
  registered.\<close>

lemma goes_offline_other: "ps_status (get_state ts u m) = Offline \<Longrightarrow> ps_status (get_state ts u (goes_offline ts' source loc m)) = Offline"
  by (auto simp: goes_offline_def get_state_def update_state_def default_presence_def split: option.splits)

lemma fold_goes_offline: "ps_status (get_state ts u m) = Offline \<Longrightarrow> ps_status (get_state ts u (fold (goes_offline ts' source) locs m)) = Offline"
  by (induction locs arbitrary: m) (simp_all add: goes_offline_other)

lemma one_phone_gone_is_offline:
  assumes "loc \<in> set locs" "get_user loc = Some u"
  shows "ps_status (get_state ts u (handle_locator_event ts' (LOffline locs) source m)) = Offline"
proof -
  obtain xs ys where l: "locs = xs @ loc # ys" using assms(1) by (auto simp: in_set_conv_decomp)
  have "ps_status (get_state ts u (goes_offline ts' source loc (fold (goes_offline ts' source) xs m))) = Offline"
    using assms(2) by (simp add: goes_offline_def get_state_def update_state_def)
  then show ?thesis by (simp add: l fold_goes_offline)
qed

text \<open>The listener ends for good when it has once been too slow: later events change nothing.\<close>

lemma listen_append:
  "listen_locator_events (map Event evs @ rest) m
     = listen_locator_events rest (fold (\<lambda>(e, ts). handle_locator_event ts e Local) evs m)"
proof (induction evs arbitrary: m)
  case (Cons e evs)
  then show ?case by (cases e) simp
qed simp

theorem slow_listener_ends:
  "listen_locator_events (map Event evs @ Lagged n # rest) m = listen_locator_events (map Event evs) m"
  using listen_append [of evs "Lagged n # rest" m] listen_append [of evs "[]" m] by simp

section \<open>Documents read back\<close>

text \<open>The status that a NOTIFY writes is the one that the same document gives when it is published: for each status, with the
  note of the state, or with the name of the status as a note when there was none.\<close>

theorem published_document_roundtrip:
  assumes "xml_read lib (rq_body tx) = Some (notify_document i sub st)" "request_expires tx \<noteq> 0" "publisher tx cookie = Inr j"
  shows "let m = md_manager (snd (handle_publish lib c ts tx cookie s))
         in ps_status (get_state ts j m) = ps_status st
            \<and> (ps_status st \<noteq> Offline \<longrightarrow>
                 ps_note (get_state ts j m) = Some (case ps_note st of Some n \<Rightarrow> n | None \<Rightarrow> status_text (ps_status st)))"
  using assms
  by (cases "ps_status st")
    (auto simp: handle_publish_def published_state_def read_document_def notify_document_def tuple_status_def status_activities_def
      no_activities_def Let_def get_state_def update_state_def split: option.split)

section \<open>Evaluation\<close>

definition demo_presence_lib :: presence_lib where
  "demo_presence_lib = \<lparr>xml_read = \<lambda>body. None, xml_write = \<lambda>doc. Some (concat (map tu_basic (pidf_tuples doc))),
     server_subscription = \<lambda>tx. map_sum id (\<lambda>c. (c, ''l'', ''r'')) (rq_call_id tx), has_dialog = \<lambda>d. True, dialog_request = \<lambda>d. Inr ()\<rparr>"

definition demo_body_tx :: "string \<Rightarrow> string \<Rightarrow> body_tx" where
  "demo_body_tx meth call =
     \<lparr>rq_method = MOther meth, rq_uri = demo_phone [] ''pbx.example'', rq_headers = [Std (HTyped ''Expires'') ''60''],
      rq_from = Inr \<lparr>fh_uri = Inr (demo_phone ''w'' ''pbx.example''), fh_display_name = None, fh_tag = Some ''t''\<rparr>,
      rq_to = Inr \<lparr>th_uri = Inr (demo_phone ''b'' ''pbx.example''), th_has_tag = False\<rparr>,
      rq_call_id = Inr call, rq_contact = None, rq_via_target = Inl ''none'', rq_source = None, rq_body = ''busy''\<rparr>"

definition demo_presence_module :: presence_module where
  "demo_presence_module = presence_on_start \<lparr>md_manager = demo_manager, md_replies = [], md_notifies = [], md_emitted = []\<rparr>"

definition demo_watch :: subscriber where
  "demo_watch = \<lparr>sub_aor = demo_phone ''w'' ''pbx.example'', sub_dialog_id = (''c1'', ''l'', ''r''), sub_expires = 5 + secs 60\<rparr>"

lemma demo_expires_60: "request_expires (demo_body_tx meth call) = 60"
  by (simp add: request_expires_def demo_body_tx_def parse_unsigned_def digit_val_def u32_max_def)

definition plain_cookie :: auth_cookie where
  "plain_cookie = \<lparr>spam = None, from_trunk = None, ck_user = None, ck_callee_display_name = None\<rparr>"

lemma demo_body_uris:
  "from_header_uri (demo_body_tx meth call) = Inr (demo_phone ''w'' ''pbx.example'')"
  "to_header_uri (demo_body_tx meth call) = Inr (demo_phone ''b'' ''pbx.example'')"
  "server_subscription demo_presence_lib (demo_body_tx meth call) = Inr (call, ''l'', ''r'')"
  by (simp_all add: from_header_uri_def to_header_uri_def demo_body_tx_def demo_presence_lib_def)


definition demo_sign_off :: sip_tx where
  "demo_sign_off = (demo_register ''b'' False)\<lparr>rq_headers := [Std HContact ''<10.0.0.66>'', Std (HTyped ''Expires'') ''0'']\<rparr>"

lemma demo_signs_off:
  "registers_one demo_registrar demo_sign_off (demo_user ''b'') (demo_phone ''b'' ''pbx.example'') (Some 0) demo_entry"
proof -
  have "trim ''<10.0.0.66>'' = ''<10.0.0.66>''" "trim ''Contact'' = ''Contact''" "trim ''Expires'' = ''Expires''"
    by (simp_all add: trim_def trim_start_def trim_end_def is_whitespace_def)
  then have "parse_contact_headers demo_reg_lib (rq_headers demo_sign_off) = Inr [demo_entry]"
    by (simp add: parse_contact_headers_def collect_header_values_def split_contact_entries_def flush_entry_def demo_parse demo_sign_off_def
        to_ascii_lowercase_def ascii_lower_def)
  moreover have "user_of_tx demo_auth_lib [] demo_sign_off = Inr (demo_user ''b'')"
    using demo_user_of_tx [of "''b''" False]
    by (simp add: user_of_tx_def demo_sign_off_def demo_register_def check_authorization_headers_def)
  ultimately show ?thesis
    by (simp add: registers_one_def demo_registrar_def demo_sign_off_def demo_register_def to_uri_of_def demo_entry_def
        parse_unsigned_def digit_val_def u32_max_def)
qed


theorem published_document_roundtrip_witness:
  "let lib = demo_presence_lib\<lparr>xml_read := \<lambda>b. Some (notify_document ''x'' demo_watch demo_busy)\<rparr>
   in ps_status (get_state 6 ''w'' (md_manager (snd (handle_publish lib False 6 (demo_body_tx ''PUBLISH'' ''c'') plain_cookie demo_presence_module)))) = Busy"
proof -
  let ?lib = "demo_presence_lib\<lparr>xml_read := \<lambda>b. Some (notify_document ''x'' demo_watch demo_busy)\<rparr>"
  have "publisher (demo_body_tx ''PUBLISH'' ''c'') plain_cookie = Inr ''w''"
    by (simp add: publisher_def demo_body_uris plain_cookie_def demo_phone_def)
  then show ?thesis
    using published_document_roundtrip [of ?lib "demo_body_tx ''PUBLISH'' ''c''" "''x''" demo_watch demo_busy plain_cookie "''w''" False 6 demo_presence_module]
    by (simp add: demo_expires_60 demo_busy_def Let_def)
qed

end
