(* ===== verification/Cluster.thy ===== *)
theory Cluster
  imports Presence
begin

text \<open>
  Nodes of a cluster (\<open>src/src/proxy/cluster_event.rs\<close>) tell each other about registrations and presence by SIP MESSAGE.
  The hub of a node forwards its local events to the peers and to the handlers of addons; the module takes the messages of peers,
  changes the presence without writing the database, and tells the handlers.  JSON, the texts of addresses and the SIP stack are
  parameters; the requests that were sent and the calls of handlers are logs, and the answer of a peer is not looked at.
\<close>

section \<open>Messages\<close>

record cluster_locator_message =
  cl_event :: string
  cl_aor :: string
  cl_registered_aor :: "string option"
  cl_contact_raw :: "string option"
  cl_expires :: nat
  cl_destination :: "string option"

record cluster_presence_message =
  cp_identity :: string
  cp_status :: string
  cp_note :: "string option"
  cp_activity :: "string option"
  cp_last_updated :: int

datatype cluster_message_body = ClusterLocator cluster_locator_message | ClusterPresence cluster_presence_message

definition CLUSTER_CONTENT_TYPE :: string where
  "CLUSTER_CONTENT_TYPE = ''application/x-rustpbx-cluster-event''"

record cluster_lib =
  cl_sip :: sip_lib
  cl_addr_show :: "sip_addr \<Rightarrow> string"
  ip_show :: "ip_addr \<Rightarrow> string"
  socket_show :: "ip_addr \<times> nat \<Rightarrow> string"
  json_write :: "cluster_message_body \<Rightarrow> string option"
  json_read :: "string \<Rightarrow> cluster_message_body option"
  via_parses :: "string \<Rightarrow> bool"

definition locator_message :: "cluster_lib \<Rightarrow> string \<Rightarrow> location \<Rightarrow> cluster_locator_message" where
  "locator_message lib event loc =
     \<lparr>cl_event = event, cl_aor = uri_show (cl_sip lib) (aor loc), cl_registered_aor = map_option (uri_show (cl_sip lib)) (registered_aor loc),
      cl_contact_raw = contact_raw loc, cl_expires = expires loc, cl_destination = map_option (cl_addr_show lib) (destination loc)\<rparr>"

text \<open>An event of several locations stands for its first one; an empty list is an index out of bounds.\<close>

fun message_of_event :: "cluster_lib \<Rightarrow> locator_event \<Rightarrow> cluster_locator_message run" where
  "message_of_event lib (LRegistered loc) = Ret (locator_message lib ''registered'' loc)"
| "message_of_event lib (LUnregistered loc) = Ret (locator_message lib ''unregistered'' loc)"
| "message_of_event lib (LOffline []) = Panic"
| "message_of_event lib (LOffline (loc # _)) = Ret (locator_message lib ''unregistered'' loc)"

definition to_event :: "cluster_lib \<Rightarrow> cluster_locator_message \<Rightarrow> locator_event option" where
  "to_event lib msg =
     (case uri_parse (cl_sip lib) (cl_aor msg) of
        None \<Rightarrow> None
      | Some u \<Rightarrow>
          (let loc = default_location\<lparr>aor := u, expires := cl_expires msg,
                       registered_aor := Option.bind (cl_registered_aor msg) (uri_parse (cl_sip lib)),
                       contact_raw := cl_contact_raw msg, destination := None\<rparr>
           in if cl_event msg = ''registered'' then Some (LRegistered loc)
              else if cl_event msg = ''unregistered'' then Some (LUnregistered loc)
              else None))"

definition message_of_state :: "string \<Rightarrow> presence_state \<Rightarrow> cluster_presence_message" where
  "message_of_state i st =
     \<lparr>cp_identity = i, cp_status = status_text (ps_status st), cp_note = ps_note st, cp_activity = ps_activity st,
      cp_last_updated = ps_last_updated st\<rparr>"

definition to_state :: "cluster_presence_message \<Rightarrow> presence_state option" where
  "to_state msg =
     Some \<lparr>ps_status = (if cp_status msg = ''available'' then Available else if cp_status msg = ''busy'' then Busy
                        else if cp_status msg = ''away'' then Away else Offline),
           ps_note = cp_note msg, ps_activity = cp_activity msg, ps_last_updated = cp_last_updated msg\<rparr>"

section \<open>The hub\<close>

type_synonym socket_addr = "ip_addr \<times> nat"

datatype handler_call = OnLocatorEvent locator_event event_source | OnPresenceEvent string presence_state event_source

record cluster_request =
  cr_peer :: socket_addr
  cr_uri :: uri
  cr_headers :: headers
  cr_body :: string

record cluster_hub =
  ch_presence :: presence_manager
  ch_local_sip_addr :: socket_addr
  ch_peers :: "socket_addr list"
  ch_handlers :: "string list"
  ch_calls :: "(string \<times> handler_call) list"
  ch_sent :: "cluster_request list"

definition register_handler :: "string \<Rightarrow> cluster_hub \<Rightarrow> cluster_hub" where
  "register_handler h hub = hub\<lparr>ch_handlers := ch_handlers hub @ [h]\<rparr>"

definition notify_locator_handlers :: "locator_event \<Rightarrow> event_source \<Rightarrow> cluster_hub \<Rightarrow> cluster_hub" where
  "notify_locator_handlers e source hub =
     hub\<lparr>ch_calls := ch_calls hub @ map (\<lambda>h. (h, OnLocatorEvent e source)) (ch_handlers hub)\<rparr>"

definition notify_presence_handlers :: "string \<Rightarrow> presence_state \<Rightarrow> event_source \<Rightarrow> cluster_hub \<Rightarrow> cluster_hub" where
  "notify_presence_handlers i st source hub =
     hub\<lparr>ch_calls := ch_calls hub @ map (\<lambda>h. (h, OnPresenceEvent i st source)) (ch_handlers hub)\<rparr>"

text \<open>The branch of the Via field is a random text, which no result depends on.\<close>

definition send_sip_message :: "cluster_lib \<Rightarrow> string \<Rightarrow> socket_addr \<Rightarrow> cluster_hub \<Rightarrow> cluster_hub" where
  "send_sip_message lib body peer hub =
     (case uri_parse (cl_sip lib) (''sip:cluster@'' @ ip_show lib (fst peer) @ '':'' @ string_of_nat (snd peer)) of
        None \<Rightarrow> hub
      | Some u \<Rightarrow>
          if via_parses lib (socket_show lib (ch_local_sip_addr hub))
             \<and> uri_parse (cl_sip lib) (''sip:cluster@'' @ socket_show lib (ch_local_sip_addr hub)) \<noteq> None
          then hub\<lparr>ch_sent := ch_sent hub @ [\<lparr>cr_peer = peer, cr_uri = u, cr_headers = [Std HContentType CLUSTER_CONTENT_TYPE], cr_body = body\<rparr>]\<rparr>
          else hub)"

definition send_to_peers :: "cluster_lib \<Rightarrow> cluster_message_body \<Rightarrow> cluster_hub \<Rightarrow> cluster_hub" where
  "send_to_peers lib msg hub =
     (case json_write lib msg of
        None \<Rightarrow> hub
      | Some body \<Rightarrow> fold (send_sip_message lib body) (ch_peers hub) hub)"

definition send_locator_to_peers :: "cluster_lib \<Rightarrow> locator_event \<Rightarrow> cluster_hub \<Rightarrow> cluster_hub run" where
  "send_locator_to_peers lib e hub = map_run (\<lambda>msg. send_to_peers lib (ClusterLocator msg) hub) (message_of_event lib e)"

definition send_presence_to_peers :: "cluster_lib \<Rightarrow> string \<Rightarrow> presence_state \<Rightarrow> cluster_hub \<Rightarrow> cluster_hub" where
  "send_presence_to_peers lib i st = send_to_peers lib (ClusterPresence (message_of_state i st))"

definition offline_location :: "cluster_lib \<Rightarrow> location \<Rightarrow> cluster_hub \<Rightarrow> cluster_hub run" where
  "offline_location lib loc hub =
     send_locator_to_peers lib (LUnregistered loc) (notify_locator_handlers (LUnregistered loc) Local hub)"

definition dispatch_local_locator_event :: "cluster_lib \<Rightarrow> locator_event \<Rightarrow> cluster_hub \<Rightarrow> cluster_hub run" where
  "dispatch_local_locator_event lib e hub =
     (let hub1 = notify_locator_handlers e Local hub
      in case e of
           LOffline (loc # locs) \<Rightarrow> fold (\<lambda>l r. bind_run r (offline_location lib l)) (loc # locs) (Ret hub1)
         | _ \<Rightarrow> send_locator_to_peers lib e hub1)"

text \<open>The task of the hub goes on when it has missed events; a panic ends it.\<close>

fun hub_listen :: "cluster_lib \<Rightarrow> locator_event received list \<Rightarrow> cluster_hub \<Rightarrow> cluster_hub" where
  "hub_listen lib (Event e # rest) hub =
     (case dispatch_local_locator_event lib e hub of Ret hub' \<Rightarrow> hub_listen lib rest hub' | Panic \<Rightarrow> hub)"
| "hub_listen lib (Lagged n # rest) hub = hub_listen lib rest hub"
| "hub_listen lib (Closed # rest) hub = hub"
| "hub_listen lib [] hub = hub"

definition on_remote_locator_event :: "int \<Rightarrow> locator_event \<Rightarrow> event_source \<Rightarrow> cluster_hub \<Rightarrow> cluster_hub" where
  "on_remote_locator_event ts e source hub =
     notify_locator_handlers e source (hub\<lparr>ch_presence := handle_locator_event ts e source (ch_presence hub)\<rparr>)"

definition on_remote_presence_change :: "string \<Rightarrow> presence_state \<Rightarrow> event_source \<Rightarrow> cluster_hub \<Rightarrow> cluster_hub" where
  "on_remote_presence_change i st source hub =
     notify_presence_handlers i st source (hub\<lparr>ch_presence := update_state i st source (ch_presence hub)\<rparr>)"

definition emit_presence_change :: "cluster_lib \<Rightarrow> string \<Rightarrow> presence_state \<Rightarrow> cluster_hub \<Rightarrow> cluster_hub" where
  "emit_presence_change lib i st hub = send_presence_to_peers lib i st (notify_presence_handlers i st Local hub)"

section \<open>The module\<close>

record cluster_module =
  cl_peer_ips :: "ip_addr list"
  cl_local_addrs :: "socket_addr list"

definition cluster_module_create :: "socket_addr list \<Rightarrow> socket_addr list \<Rightarrow> cluster_module" where
  "cluster_module_create peers addrs = \<lparr>cl_peer_ips = map fst peers, cl_local_addrs = addrs\<rparr>"

definition extract_source_ip :: "'a sip_tx_scheme \<Rightarrow> ip_addr option" where
  "extract_source_ip tx = Option.bind (rq_source tx) (\<lambda>addr. ip_from_str (fst (a_addr addr)))"

definition is_local_ip :: "cluster_module \<Rightarrow> ip_addr \<Rightarrow> bool" where
  "is_local_ip m ip = list_ex (\<lambda>a. fst a = ip) (cl_local_addrs m)"

fun content_type :: "headers \<Rightarrow> string option" where
  "content_type [] = None"
| "content_type (Std t v # hs) = (if t = HContentType then Some v else content_type hs)"
| "content_type (Other n v # hs) = (if eq_ignore_ascii_case n ''Content-Type'' then Some v else content_type hs)"

text \<open>The result is the action, the answer (if any) and the hub.\<close>

definition cluster_on_transaction_begin ::
  "cluster_lib \<Rightarrow> cluster_module \<Rightarrow> int \<Rightarrow> body_tx \<Rightarrow> cluster_hub \<Rightarrow> proxy_action \<times> nat option \<times> cluster_hub" where
  "cluster_on_transaction_begin lib m ts tx hub =
     (if rq_method tx \<noteq> MOther ''MESSAGE'' then (Continue, None, hub)
      else case extract_source_ip tx of
             None \<Rightarrow> (Continue, None, hub)
           | Some from_ip \<Rightarrow>
               if from_ip \<notin> set (cl_peer_ips m) then (Continue, None, hub)
               else if is_local_ip m from_ip then (Abort, Some 200, hub)
               else if content_type (rq_headers tx) \<noteq> Some CLUSTER_CONTENT_TYPE then (Continue, None, hub)
               else case json_read lib (rq_body tx) of
                      None \<Rightarrow> (Abort, Some 400, hub)
                    | Some (ClusterLocator msg) \<Rightarrow>
                        (Abort, Some 200,
                         case to_event lib msg of Some e \<Rightarrow> on_remote_locator_event ts e (Remote from_ip 0) hub | None \<Rightarrow> hub)
                    | Some (ClusterPresence msg) \<Rightarrow>
                        (Abort, Some 200,
                         case to_state msg of
                           Some st \<Rightarrow> on_remote_presence_change (cp_identity msg) st (Remote from_ip 0) hub
                         | None \<Rightarrow> hub))"

section \<open>What arrives is what was sent\<close>

lemma to_state_message [simp]: "to_state (message_of_state i st) = Some st" "cp_identity (message_of_state i st) = i"
  by (cases "ps_status st") (simp_all add: to_state_def message_of_state_def)

definition uris_read_back :: "sip_lib \<Rightarrow> bool" where
  "uris_read_back lib \<longleftrightarrow> (\<forall>u. uri_parse lib (uri_show lib u) = Some u)"

text \<open>A location after the way over the cluster: who it is, how long it lasts and the text of its contact.\<close>

definition location_core :: "location \<Rightarrow> location" where
  "location_core loc = default_location\<lparr>aor := aor loc, expires := expires loc, registered_aor := registered_aor loc, contact_raw := contact_raw loc\<rparr>"

fun event_core :: "locator_event \<Rightarrow> locator_event option" where
  "event_core (LRegistered loc) = Some (LRegistered (location_core loc))"
| "event_core (LUnregistered loc) = Some (LUnregistered (location_core loc))"
| "event_core (LOffline locs) = (case locs of [] \<Rightarrow> None | loc # _ \<Rightarrow> Some (LUnregistered (location_core loc)))"

lemma locator_event_roundtrip:
  assumes "uris_read_back (cl_sip lib)" "message_of_event lib e = Ret msg"
  shows "to_event lib msg = event_core e"
proof -
  have "Option.bind (map_option (uri_show (cl_sip lib)) v) (uri_parse (cl_sip lib)) = v" for v
    using assms(1) by (cases v) (simp_all add: uris_read_back_def)
  then show ?thesis
    using assms
    by (cases "(lib, e)" rule: message_of_event.cases)
      (auto simp: to_event_def locator_message_def location_core_def uris_read_back_def Let_def default_location_def)
qed

section \<open>Sending\<close>

lemma send_sip_message_fields [simp]:
  "ch_presence (send_sip_message lib body p hub) = ch_presence hub" "ch_peers (send_sip_message lib body p hub) = ch_peers hub"
  "ch_handlers (send_sip_message lib body p hub) = ch_handlers hub" "ch_calls (send_sip_message lib body p hub) = ch_calls hub"
  "ch_local_sip_addr (send_sip_message lib body p hub) = ch_local_sip_addr hub"
  by (simp_all add: send_sip_message_def split: option.split)

lemma send_to_peers_fields [simp]:
  "ch_presence (send_to_peers lib msg hub) = ch_presence hub" "ch_peers (send_to_peers lib msg hub) = ch_peers hub"
  "ch_handlers (send_to_peers lib msg hub) = ch_handlers hub" "ch_calls (send_to_peers lib msg hub) = ch_calls hub"
proof -
  have "ch_presence (fold (send_sip_message lib b) ps hub) = ch_presence hub \<and> ch_peers (fold (send_sip_message lib b) ps hub) = ch_peers hub
      \<and> ch_handlers (fold (send_sip_message lib b) ps hub) = ch_handlers hub \<and> ch_calls (fold (send_sip_message lib b) ps hub) = ch_calls hub" for b ps
    by (induction ps arbitrary: hub) simp_all
  then show "ch_presence (send_to_peers lib msg hub) = ch_presence hub" "ch_peers (send_to_peers lib msg hub) = ch_peers hub"
    "ch_handlers (send_to_peers lib msg hub) = ch_handlers hub" "ch_calls (send_to_peers lib msg hub) = ch_calls hub"
    by (simp_all add: send_to_peers_def split: option.split)
qed

text \<open>A peer can be reached when the texts of the addresses are read by the stack.\<close>

definition reachable_peer :: "cluster_lib \<Rightarrow> cluster_hub \<Rightarrow> socket_addr \<Rightarrow> bool" where
  "reachable_peer lib hub peer \<longleftrightarrow>
     uri_parse (cl_sip lib) (''sip:cluster@'' @ ip_show lib (fst peer) @ '':'' @ string_of_nat (snd peer)) \<noteq> None
     \<and> via_parses lib (socket_show lib (ch_local_sip_addr hub))
     \<and> uri_parse (cl_sip lib) (''sip:cluster@'' @ socket_show lib (ch_local_sip_addr hub)) \<noteq> None"

lemma sent_once:
  "map (\<lambda>r. (cr_peer r, cr_headers r, cr_body r)) (ch_sent (fold (send_sip_message lib body) ps hub))
     = map (\<lambda>r. (cr_peer r, cr_headers r, cr_body r)) (ch_sent hub)
       @ map (\<lambda>p. (p, [Std HContentType CLUSTER_CONTENT_TYPE], body)) (filter (reachable_peer lib hub) ps)"
proof (induction ps arbitrary: hub)
  case (Cons p ps)
  have "reachable_peer lib (send_sip_message lib body p hub) = reachable_peer lib hub"
    by (intro ext) (simp add: reachable_peer_def)
  then show ?case using Cons by (auto simp: send_sip_message_def reachable_peer_def split: option.splits)
qed simp

text \<open>A message arrives at another node as a request from the address of the sender.\<close>

definition arrives_as :: "cluster_request \<Rightarrow> string \<Rightarrow> body_tx \<Rightarrow> bool" where
  "arrives_as r sender tx \<longleftrightarrow> rq_method tx = MOther ''MESSAGE'' \<and> rq_headers tx = cr_headers r \<and> rq_body tx = cr_body r
     \<and> (\<exists>src. rq_source tx = Some src \<and> fst (a_addr src) = sender)"

definition known_peer :: "cluster_module \<Rightarrow> string \<Rightarrow> bool" where
  "known_peer m sender \<longleftrightarrow> (\<exists>ip. ip_from_str sender = Some ip \<and> ip \<in> set (cl_peer_ips m) \<and> \<not> is_local_ip m ip)"

lemma peer_takes:
  assumes "arrives_as r sender tx" "known_peer m sender" "cr_headers r = [Std HContentType CLUSTER_CONTENT_TYPE]"
    "json_read lib (cr_body r) = Some (ClusterPresence msg)"
  shows "\<exists>ip. cluster_on_transaction_begin lib m ts tx hub
     = (Abort, Some 200, on_remote_presence_change (cp_identity msg) (the (to_state msg)) (Remote ip 0) hub)"
  using assms by (auto simp: cluster_on_transaction_begin_def arrives_as_def known_peer_def extract_source_ip_def to_state_def)


text \<open>Requests of anybody else change nothing and go on to the next module; so does everything that is not a MESSAGE.\<close>

theorem strangers_change_nothing:
  assumes "rq_method tx \<noteq> MOther ''MESSAGE'' \<or> (\<forall>ip. extract_source_ip tx = Some ip \<longrightarrow> ip \<notin> set (cl_peer_ips m))"
  shows "cluster_on_transaction_begin lib m ts tx hub = (Continue, None, hub)"
  using assms by (auto simp: cluster_on_transaction_begin_def split: option.split)

text \<open>Nothing that a peer sends is sent on, so a change goes over each connection at most once.\<close>

lemma receiving_sends_nothing:
  "ch_sent (snd (snd (cluster_on_transaction_begin lib m ts tx hub))) = ch_sent hub"
  by (auto simp: cluster_on_transaction_begin_def on_remote_locator_event_def on_remote_presence_change_def
      notify_locator_handlers_def notify_presence_handlers_def split: option.split cluster_message_body.split)

text \<open>Two nodes on one machine do not hear each other: the message is taken for an own one, answered and dropped.\<close>

theorem nodes_on_one_host_are_deaf:
  assumes "rq_method tx = MOther ''MESSAGE''" "extract_source_ip tx = Some ip" "(ip, port) \<in> set addrs" "(ip, port') \<in> set peers"
  shows "cluster_on_transaction_begin lib (cluster_module_create peers addrs) ts tx hub = (Abort, Some 200, hub)"
proof -
  have "ip \<in> fst ` set peers" "is_local_ip (cluster_module_create peers addrs) ip"
    using assms(3,4) by (force simp: is_local_ip_def cluster_module_create_def list_ex_iff)+
  then show ?thesis using assms(1,2) by (simp add: cluster_on_transaction_begin_def cluster_module_create_def)
qed

section \<open>Local events\<close>

text \<open>The conversion of an event without locations is out of bounds; the location service never reports one.\<close>

lemma closed_connection_not_empty: "fst (on_connection_closed addr l) \<noteq> Some []"
  by (simp add: on_connection_closed_def split: prod.split option.split)

lemma offline_location_returns: "offline_location lib loc hub = Ret (send_to_peers lib (ClusterLocator (locator_message lib ''unregistered'' loc))
     (notify_locator_handlers (LUnregistered loc) Local hub))"
  by (simp add: offline_location_def send_locator_to_peers_def)

lemma dispatch_panics_iff: "dispatch_local_locator_event lib e hub = Panic \<longleftrightarrow> e = LOffline []"
proof -
  have "fold (\<lambda>l r. bind_run r (offline_location lib l)) locs (Ret h) \<noteq> Panic" for locs h
    by (induction locs arbitrary: h) (simp_all add: offline_location_returns)
  then show ?thesis
    by (cases "(lib, e)" rule: message_of_event.cases)
      (auto simp: dispatch_local_locator_event_def send_locator_to_peers_def offline_location_returns Let_def)
qed

text \<open>An addon hears of a phone whose connection closes twice: as part of the list that went offline, and as unregistered.\<close>

lemma offline_told_twice:
  assumes "dispatch_local_locator_event lib (LOffline [loc]) hub = Ret hub'"
  shows "ch_calls hub' = ch_calls hub @ map (\<lambda>h. (h, OnLocatorEvent (LOffline [loc]) Local)) (ch_handlers hub)
           @ map (\<lambda>h. (h, OnLocatorEvent (LUnregistered loc) Local)) (ch_handlers hub)"
  using assms by (auto simp: dispatch_local_locator_event_def offline_location_returns notify_locator_handlers_def)

section \<open>Evaluation\<close>

definition demo_cluster_lib :: "presence_state \<Rightarrow> cluster_lib" where
  "demo_cluster_lib st = \<lparr>cl_sip = demo_reg_lib, cl_addr_show = \<lambda>a. fst (a_addr a), ip_show = \<lambda>ip. ''10.0.0.2'', socket_show = \<lambda>a. ''10.0.0.1:5060'',
     json_write = \<lambda>b. Some ''{}'', json_read = \<lambda>s. Some (ClusterPresence (message_of_state ''b'' st)), via_parses = \<lambda>v. True\<rparr>"

definition demo_hub :: "socket_addr list \<Rightarrow> cluster_hub" where
  "demo_hub peers = \<lparr>ch_presence = demo_manager, ch_local_sip_addr = (V4 1, 5060), ch_peers = peers, ch_handlers = [], ch_calls = [], ch_sent = []\<rparr>"

definition demo_message :: body_tx where
  "demo_message = (demo_body_tx ''MESSAGE'' ''c'')\<lparr>rq_headers := [Std HContentType CLUSTER_CONTENT_TYPE], rq_body := ''{}'',
     rq_source := Some (demo_addr ''10.0.0.1'')\<rparr>"

lemma demo_ip: "ip_from_str ''10.0.0.1'' = Some (V4 167772161)"
  by code_simp


theorem nodes_on_one_host_are_deaf_witness:
  "cluster_on_transaction_begin (demo_cluster_lib demo_busy) (cluster_module_create [(V4 167772161, 5070)] [(V4 167772161, 5060)]) 8
     demo_message (demo_hub []) = (Abort, Some 200, demo_hub [])"
  by (rule nodes_on_one_host_are_deaf [where ip = "V4 167772161" and port = 5060 and port' = 5070])
    (simp_all add: demo_message_def demo_body_tx_def extract_source_ip_def demo_addr_def demo_ip)

theorem strangers_change_nothing_witness:
  "cluster_on_transaction_begin (demo_cluster_lib demo_busy) (cluster_module_create [] []) 8 demo_message (demo_hub []) = (Continue, None, demo_hub [])"
  by (rule strangers_change_nothing) (simp add: cluster_module_create_def)

end
