(* ===== verification/Session_Timer.thy ===== *)
theory Session_Timer
  imports Sip
begin

text \<open>
  RFC 4028 session timers, \<open>src/src/proxy/proxy_call/session_timer.rs\<close>: the state of the timer of one
  dialog, the tests that drive it, the reading and writing of the \<open>Session-Expires\<close> and \<open>Min-SE\<close>
  header fields, and the choice of the refresher.
\<close>

section \<open>Data\<close>

datatype session_timer_mode = Off | Supported | Always

definition is_enabled :: "session_timer_mode \<Rightarrow> bool" where
  "is_enabled m \<longleftrightarrow> m \<noteq> Off"

definition is_always :: "session_timer_mode \<Rightarrow> bool" where
  "is_always m \<longleftrightarrow> m = Always"

definition session_timer_mode_of :: "bool \<Rightarrow> bool \<Rightarrow> session_timer_mode" where
  "session_timer_mode_of session_timer session_timer_always =
     (if \<not> session_timer then Off else if session_timer_always then Always else Supported)"

definition HEADER_SESSION_EXPIRES :: string where "HEADER_SESSION_EXPIRES = ''Session-Expires''"
definition HEADER_MIN_SE :: string where "HEADER_MIN_SE = ''Min-SE''"
definition HEADER_SUPPORTED :: string where "HEADER_SUPPORTED = ''Supported''"
definition TIMER_TAG :: string where "TIMER_TAG = ''timer''"
definition DEFAULT_SESSION_EXPIRES :: nat where "DEFAULT_SESSION_EXPIRES = 1800"
definition MIN_MIN_SE :: nat where "MIN_MIN_SE = 90"

datatype refresher = Uac | Uas

fun refresher_display :: "refresher \<Rightarrow> string" where
  "refresher_display Uac = ''uac''"
| "refresher_display Uas = ''uas''"

definition refresher_from_str :: "string \<Rightarrow> refresher option" where
  "refresher_from_str s =
     (let l = to_ascii_lowercase s
      in if l = ''uac'' then Some Uac else if l = ''uas'' then Some Uas else None)"

definition for_local_role :: "bool \<Rightarrow> refresher" where
  "for_local_role we_are_uac = (if we_are_uac then Uac else Uas)"

definition is_our_role :: "refresher \<Rightarrow> bool \<Rightarrow> bool" where
  "is_our_role r we_are_uac \<longleftrightarrow> (r = Uac \<and> we_are_uac) \<or> (r = Uas \<and> \<not> we_are_uac)"

record timer_state =
  t_mode :: session_timer_mode
  enabled :: bool
  session_interval :: duration
  min_se :: duration
  t_refresher :: refresher
  active :: bool
  refreshing :: bool
  last_refresh :: instant
  refresh_count :: "32 word"
  failed_refreshes :: "32 word"

definition default_timer :: "instant \<Rightarrow> timer_state" where
  "default_timer now =
     \<lparr>t_mode = Off, enabled = False, session_interval = secs DEFAULT_SESSION_EXPIRES,
      min_se = secs MIN_MIN_SE, t_refresher = Uac, active = False, refreshing = False,
      last_refresh = now, refresh_count = 0, failed_refreshes = 0\<rparr>"

section \<open>The timer\<close>

definition elapsed :: "instant \<Rightarrow> instant \<Rightarrow> duration" where
  "elapsed now since = now - since"

definition should_refresh :: "instant \<Rightarrow> timer_state \<Rightarrow> bool" where
  "should_refresh now t =
     (if \<not> active t \<or> \<not> enabled t \<or> refreshing t then False
      else session_interval t div 2 \<le> elapsed now (last_refresh t))"

definition is_expired :: "instant \<Rightarrow> timer_state \<Rightarrow> bool" where
  "is_expired now t =
     (if \<not> active t \<or> \<not> enabled t then False
      else session_interval t \<le> elapsed now (last_refresh t))"

definition next_refresh_time :: "timer_state \<Rightarrow> instant option run" where
  "next_refresh_time t =
     (if \<not> active t \<or> \<not> enabled t then Ret None
      else map_run Some (instant_add (last_refresh t) (session_interval t div 2)))"

definition expiration_time :: "timer_state \<Rightarrow> instant option run" where
  "expiration_time t =
     (if \<not> active t \<or> \<not> enabled t then Ret None
      else map_run Some (instant_add (last_refresh t) (session_interval t)))"

definition time_until_expiration :: "instant \<Rightarrow> timer_state \<Rightarrow> duration option run" where
  "time_until_expiration now t =
     map_run (map_option (\<lambda>e. if now < e then e - now else 0)) (expiration_time t)"

definition time_until_refresh :: "instant \<Rightarrow> timer_state \<Rightarrow> duration option run" where
  "time_until_refresh now t =
     map_run (map_option (\<lambda>e. if now < e then e - now else 0)) (next_refresh_time t)"

definition should_we_refresh :: "timer_state \<Rightarrow> bool \<Rightarrow> bool" where
  "should_we_refresh t we_are_uac = is_our_role (t_refresher t) we_are_uac"

definition next_timeout_for_role :: "instant \<Rightarrow> timer_state \<Rightarrow> bool \<Rightarrow> duration option run" where
  "next_timeout_for_role now t we_are_uac =
     (if \<not> active t \<or> \<not> enabled t then Ret None
      else if \<not> refreshing t \<and> should_we_refresh t we_are_uac then time_until_refresh now t
      else time_until_expiration now t)"

definition start_refresh :: "timer_state \<Rightarrow> bool \<times> timer_state" where
  "start_refresh t = (if refreshing t then (False, t) else (True, t\<lparr>refreshing := True\<rparr>))"

definition complete_refresh :: "instant \<Rightarrow> timer_state \<Rightarrow> timer_state" where
  "complete_refresh now t =
     t\<lparr>last_refresh := now, refreshing := False, refresh_count := refresh_count t + 1\<rparr>"

definition fail_refresh :: "timer_state \<Rightarrow> timer_state" where
  "fail_refresh t = t\<lparr>refreshing := False, failed_refreshes := failed_refreshes t + 1\<rparr>"

definition update_refresh :: "instant \<Rightarrow> timer_state \<Rightarrow> timer_state" where
  "update_refresh now t = t\<lparr>last_refresh := now, refresh_count := refresh_count t + 1\<rparr>"

definition get_session_expires_value :: "timer_state \<Rightarrow> string" where
  "get_session_expires_value t =
     string_of_nat (as_secs (session_interval t)) @ '';refresher='' @ refresher_display (t_refresher t)"

definition get_min_se_value :: "timer_state \<Rightarrow> string" where
  "get_min_se_value t = string_of_nat (as_secs (min_se t))"

section \<open>Header fields\<close>

definition get_header_value :: "headers \<Rightarrow> string \<Rightarrow> string option" where
  "get_header_value hs name =
     map_option header_value (List.find (\<lambda>h. eq_ignore_ascii_case (header_name h) name) hs)"

fun scan_refresher :: "string list \<Rightarrow> refresher option \<Rightarrow> refresher option" where
  "scan_refresher [] r = r"
| "scan_refresher (part # parts) r =
     scan_refresher parts
       (let p = trim part
        in if starts_with ''refresher='' p
           then refresher_from_str (trim_start_matches ''refresher='' p) else r)"

definition parse_session_expires :: "string \<Rightarrow> (duration \<times> refresher option) option" where
  "parse_session_expires value =
     (case split_on (CHR '';'') value of
        [] \<Rightarrow> None
      | part0 # parts \<Rightarrow>
          (case parse_u64 (trim part0) of
             None \<Rightarrow> None
           | Some seconds \<Rightarrow> Some (secs seconds, scan_refresher parts None)))"

definition has_timer_tag :: "string \<Rightarrow> bool" where
  "has_timer_tag v \<longleftrightarrow> (\<exists>p \<in> set (split_on (CHR '','') v). trim p = TIMER_TAG)"

fun header_has_timer :: "header \<Rightarrow> bool" where
  "header_has_timer (Std HSupported v) = has_timer_tag v"
| "header_has_timer (Other n v) = (eq_ignore_ascii_case n HEADER_SUPPORTED \<and> has_timer_tag v)"
| "header_has_timer _ = False"

definition has_timer_support :: "headers \<Rightarrow> bool" where
  "has_timer_support hs \<longleftrightarrow> (\<exists>h \<in> set hs. header_has_timer h)"

definition parse_min_se :: "string \<Rightarrow> duration option" where
  "parse_min_se value = map_option secs (parse_u64 (trim value))"

definition select_server_timer_refresher :: "bool \<Rightarrow> bool \<Rightarrow> refresher option \<Rightarrow> refresher" where
  "select_server_timer_refresher peer_supports_timer session_expires_present requested =
     (case requested of
        Some r \<Rightarrow> r
      | None \<Rightarrow> if peer_supports_timer \<and> session_expires_present then Uac else Uas)"

definition select_client_timer_refresher :: "refresher option \<Rightarrow> refresher" where
  "select_client_timer_refresher requested = (case requested of Some r \<Rightarrow> r | None \<Rightarrow> Uac)"

definition too_small_error :: "duration \<Rightarrow> duration \<Rightarrow> err" where
  "too_small_error interval m =
     ''Session-Expires too small: '' @ string_of_nat (as_secs interval) @ '' < '' @ string_of_nat (as_secs m)"

definition apply_session_timer_headers :: "timer_state \<Rightarrow> headers \<Rightarrow> unit result \<times> timer_state" where
  "apply_session_timer_headers t hs =
     (case Option.bind (get_header_value hs HEADER_SESSION_EXPIRES) parse_session_expires of
        None \<Rightarrow> (Inr (), t)
      | Some (interval, r) \<Rightarrow>
          if interval < min_se t then (Inl (too_small_error interval (min_se t)), t)
          else (Inr (), t\<lparr>session_interval := interval,
                          t_refresher := (case r of Some r' \<Rightarrow> r' | None \<Rightarrow> t_refresher t)\<rparr>))"

definition apply_refresh_response ::
    "instant \<Rightarrow> timer_state \<Rightarrow> headers \<Rightarrow> bool \<Rightarrow> unit result \<times> timer_state" where
  "apply_refresh_response now t hs we_are_uac =
     (if get_header_value hs HEADER_SESSION_EXPIRES = None then
        (let t' = complete_refresh now t
         in (Inr (), if is_always (t_mode t') then t'\<lparr>t_refresher := for_local_role we_are_uac\<rparr>
                     else t'\<lparr>enabled := False, active := False\<rparr>))
      else case apply_session_timer_headers t hs of
             (Inl e, t') \<Rightarrow> (Inl e, fail_refresh t')
           | (Inr _, t') \<Rightarrow> (Inr (), complete_refresh now t'))"

definition build_timer_headers :: "string \<Rightarrow> string \<Rightarrow> bool \<Rightarrow> headers" where
  "build_timer_headers session_expires m include_content_type =
     (if include_content_type then [Std HContentType ''application/sdp''] else []) @
     [Other HEADER_SESSION_EXPIRES session_expires, Other HEADER_MIN_SE m, Std HSupported TIMER_TAG]"

definition build_default_session_timer_headers :: "nat \<Rightarrow> nat \<Rightarrow> headers" where
  "build_default_session_timer_headers session_expires m =
     build_timer_headers (string_of_nat session_expires) (string_of_nat m) False"

definition build_session_timer_headers :: "timer_state \<Rightarrow> bool \<Rightarrow> headers" where
  "build_session_timer_headers t include_content_type =
     build_timer_headers (get_session_expires_value t) (get_min_se_value t) include_content_type"

definition build_session_timer_response_headers :: "timer_state \<Rightarrow> headers" where
  "build_session_timer_response_headers t =
     [Other HEADER_SESSION_EXPIRES (get_session_expires_value t)]"

lemmas timer_test_defs =
  should_refresh_def is_expired_def elapsed_def next_refresh_time_def expiration_time_def
  time_until_refresh_def time_until_expiration_def next_timeout_for_role_def should_we_refresh_def

lemmas timer_update_defs =
  start_refresh_def complete_refresh_def fail_refresh_def update_refresh_def

section \<open>Reading and writing header fields\<close>

lemma refresher_from_str_display [simp]: "refresher_from_str (refresher_display r) = Some r"
  by (cases r) (simp_all add: refresher_from_str_def to_ascii_lowercase_def ascii_lower_def)

lemma refresher_display_chars: "c \<in> set (refresher_display r) \<Longrightarrow> \<not> is_whitespace c \<and> c \<noteq> CHR '';''"
  by (cases r) (auto simp: is_whitespace_def)

lemma trim_refresher_part: "trim (''refresher='' @ refresher_display r) = ''refresher='' @ refresher_display r"
  by (rule trim_id) (auto simp: is_whitespace_def dest: refresher_display_chars)

lemma trim_start_matches_display:
  "trim_start_matches ''refresher='' (''refresher='' @ refresher_display r) = refresher_display r"
  by (cases r) (simp_all add: trim_start_matches.simps)

lemma scan_refresher_display:
  "scan_refresher [''refresher='' @ refresher_display r] None = Some r"
  by (simp only: scan_refresher.simps trim_refresher_part Let_def trim_start_matches_display
      refresher_from_str_display starts_with_iff) simp

lemma parse_session_expires_value:
  assumes "n \<le> u64_max"
  shows "parse_session_expires (string_of_nat n @ '';refresher='' @ refresher_display r)
           = Some (secs n, Some r)"
proof -
  have "split_on (CHR '';'') (''refresher='' @ refresher_display r) = [''refresher='' @ refresher_display r]"
    by (rule split_on_absent) (auto dest: refresher_display_chars)
  then have "split_on (CHR '';'') (string_of_nat n @ CHR '';'' # ''refresher='' @ refresher_display r)
      = [string_of_nat n, ''refresher='' @ refresher_display r]"
    by (subst split_on_append) simp_all
  with assms show ?thesis
    by (simp only: parse_session_expires_def append_Cons append_Nil) (simp add: scan_refresher_display [simplified])
qed

lemma get_header_value_build [simp]:
  "get_header_value (build_session_timer_headers t ct) HEADER_SESSION_EXPIRES
     = Some (get_session_expires_value t)"
  "get_header_value (build_session_timer_headers t ct) HEADER_MIN_SE = Some (get_min_se_value t)"
  by (simp_all add: build_session_timer_headers_def build_timer_headers_def get_header_value_def
      HEADER_SESSION_EXPIRES_def HEADER_MIN_SE_def eq_ignore_ascii_case_def to_ascii_lowercase_def
      ascii_lower_def)

lemma apply_headers_value:
  assumes "get_header_value hs HEADER_SESSION_EXPIRES = Some v"
    and "parse_session_expires v = Some (interval, r)"
  shows "apply_session_timer_headers t hs =
    (if interval < min_se t then (Inl (too_small_error interval (min_se t)), t)
     else (Inr (), t\<lparr>session_interval := interval,
                     t_refresher := (case r of Some r' \<Rightarrow> r' | None \<Rightarrow> t_refresher t)\<rparr>))"
  using assms by (simp add: apply_session_timer_headers_def)

text \<open>what one side writes the other side reads.  The header fields that a timer with a whole
  number of seconds puts into a refresh request, applied to the peer's timer, set the peer's
  interval and refresher to those of the sender, unless the interval is below the peer's \<open>Min-SE\<close>, in
  which case the peer's timer is left as it was and the error names both values.\<close>

theorem session_expires_roundtrip:
  assumes "session_interval t = secs n" and "n \<le> u64_max"
  shows "apply_session_timer_headers peer (build_session_timer_headers t ct) =
    (if secs n < min_se peer then (Inl (too_small_error (secs n) (min_se peer)), peer)
     else (Inr (), peer\<lparr>session_interval := session_interval t, t_refresher := t_refresher t\<rparr>))"
proof -
  have "parse_session_expires (get_session_expires_value t) = Some (secs n, Some (t_refresher t))"
    using parse_session_expires_value [OF assms(2), of "t_refresher t"] assms(1)
    by (simp add: get_session_expires_value_def)
  from apply_headers_value [OF get_header_value_build(1) this] assms(1) show ?thesis by simp
qed

lemma session_expires_roundtrip_witness:
  "session_interval ((default_timer 0)\<lparr>t_refresher := Uas\<rparr>) = secs 1800 \<and> 1800 \<le> u64_max \<and>
   apply_session_timer_headers (default_timer 7)
     (build_session_timer_headers ((default_timer 0)\<lparr>t_refresher := Uas\<rparr>) True) =
   (Inr (), (default_timer 7)\<lparr>session_interval := secs 1800, t_refresher := Uas\<rparr>)"
proof -
  let ?t = "(default_timer 0)\<lparr>t_refresher := Uas\<rparr>"
  have h: "session_interval ?t = secs 1800" "(1800 :: nat) \<le> u64_max"
    by (simp_all add: default_timer_def DEFAULT_SESSION_EXPIRES_def u64_max_def)
  then show ?thesis
    using session_expires_roundtrip [OF h, of "default_timer 7" True]
    by (simp add: default_timer_def MIN_MIN_SE_def)
qed

section \<open>When the timer fires\<close>

lemma time_left:
  assumes "(base :: nat) \<le> now"
  shows "span \<le> now + (if now < base + span then base + span - now else 0) - base"
    and "e < (if now < base + span then base + span - now else 0) \<Longrightarrow> \<not> span \<le> now + e - base"
  using assms by (auto split: if_splits)

lemma refresh_wakeup:
  assumes "time_until_refresh now t = Ret (Some d)" and "last_refresh t \<le> now" and "\<not> refreshing t"
  shows "should_refresh (now + d) t" and "e < d \<Longrightarrow> \<not> should_refresh (now + e) t"
  using assms time_left [OF assms(2)] by (auto simp: timer_test_defs instant_add_def split: if_splits)

lemma expiry_wakeup:
  assumes "time_until_expiration now t = Ret (Some d)" and "last_refresh t \<le> now"
  shows "is_expired (now + d) t" and "e < d \<Longrightarrow> \<not> is_expired (now + e) t"
  using assms time_left [OF assms(2)] by (auto simp: timer_test_defs instant_add_def split: if_splits)

lemma should_refresh_mono: "should_refresh a t \<Longrightarrow> a \<le> b \<Longrightarrow> should_refresh b t"
  by (auto simp: timer_test_defs split: if_splits)

lemma is_expired_mono: "is_expired a t \<Longrightarrow> a \<le> b \<Longrightarrow> is_expired b t"
  by (auto simp: timer_test_defs split: if_splits)

text \<open>C11: the wake-up time is exact.  When the scheduler of the dialog asks how long to sleep, then after
  sleeping that long the test that the wake-up is for succeeds (the refresh is due if this side refreshes and no
  refresh is under way, the session has expired otherwise), and at no earlier moment.\<close>

theorem wakeup_exact:
  assumes "next_timeout_for_role now t uac = Ret (Some d)" and "last_refresh t \<le> now"
  shows "if \<not> refreshing t \<and> should_we_refresh t uac
         then should_refresh (now + d) t \<and> (\<forall>e < d. \<not> should_refresh (now + e) t)
         else is_expired (now + d) t \<and> (\<forall>e < d. \<not> is_expired (now + e) t)"
  using assms refresh_wakeup [OF _ assms(2)] expiry_wakeup [OF _ assms(2)]
  by (auto simp: next_timeout_for_role_def split: if_splits)

lemma wakeup_exact_witness:
  "let t = (default_timer 0)\<lparr>enabled := True, active := True\<rparr>
   in next_timeout_for_role (secs 100) t True = Ret (Some (secs 800)) \<and> last_refresh t \<le> secs 100 \<and>
      should_refresh (secs 100 + secs 800) t \<and> \<not> should_refresh (secs 100 + secs 799) t"
proof -
  let ?t = "(default_timer 0)\<lparr>enabled := True, active := True\<rparr>"
  have h: "next_timeout_for_role (secs 100) ?t True = Ret (Some (secs 800))" "last_refresh ?t \<le> secs 100"
    by (simp_all add: timer_test_defs default_timer_def secs_def DEFAULT_SESSION_EXPIRES_def
        instant_add_def instant_limit_def is_our_role_def)
  have "\<not> refreshing ?t" "should_we_refresh ?t True"
    by (simp_all add: default_timer_def should_we_refresh_def is_our_role_def)
  with h wakeup_exact [OF h] show ?thesis by (simp add: Let_def)
qed

text \<open>a refresh is due before the session expires.  On every active timer of at least one second
  the two ends never both refresh and never both wait: exactly one role is the refresher's, its
  refresh time comes strictly before the expiry time, and an expired session without a refresh under
  way was due for a refresh.\<close>

theorem refresh_before_expiry:
  assumes "active t" "enabled t" "secs 1 \<le> session_interval t"
    and "expiration_time t = Ret (Some e)"
  shows "should_we_refresh t True \<noteq> should_we_refresh t False
    \<and> (\<exists>r. next_refresh_time t = Ret (Some r) \<and> r < e)
    \<and> (is_expired now t \<and> \<not> refreshing t \<longrightarrow> should_refresh now t)"
proof -
  have "should_we_refresh t True \<noteq> should_we_refresh t False"
    by (cases "t_refresher t") (auto simp: should_we_refresh_def is_our_role_def)
  moreover have "\<exists>r. next_refresh_time t = Ret (Some r) \<and> r < e"
    using assms by (auto simp: timer_test_defs instant_add_def secs_def split: if_splits)
  moreover have "is_expired now t \<and> \<not> refreshing t \<longrightarrow> should_refresh now t"
    using assms(1,2) by (auto simp: timer_test_defs)
  ultimately show ?thesis by blast
qed

lemma refresh_before_expiry_witness:
  "let t = (default_timer 0)\<lparr>enabled := True, active := True\<rparr>
   in expiration_time t = Ret (Some (secs 1800)) \<and> should_refresh (secs 1900) t \<and>
      (\<exists>r. next_refresh_time t = Ret (Some r) \<and> r < secs 1800)"
proof -
  let ?t = "(default_timer 0)\<lparr>enabled := True, active := True\<rparr>"
  have h: "active ?t" "enabled ?t" "secs 1 \<le> session_interval ?t"
    "expiration_time ?t = Ret (Some (secs 1800))"
    by (simp_all add: timer_test_defs default_timer_def DEFAULT_SESSION_EXPIRES_def
        instant_add_def instant_limit_def)
  have "is_expired (secs 1900) ?t" "\<not> refreshing ?t"
    by (simp_all add: timer_test_defs default_timer_def DEFAULT_SESSION_EXPIRES_def)
  with h refresh_before_expiry [OF h, of "secs 1900"] show ?thesis by (simp add: Let_def)
qed

section \<open>The answer to a refresh\<close>

text \<open>The three outcomes of reading the header fields of a peer.\<close>

lemma apply_headers_cases:
  obtains
    (absent) "apply_session_timer_headers t hs = (Inr (), t)"
  | (refused) v interval r where "get_header_value hs HEADER_SESSION_EXPIRES = Some v"
      "parse_session_expires v = Some (interval, r)" "interval < min_se t"
      "apply_session_timer_headers t hs = (Inl (too_small_error interval (min_se t)), t)"
  | (agreed) v interval r where "get_header_value hs HEADER_SESSION_EXPIRES = Some v"
      "parse_session_expires v = Some (interval, r)" "min_se t \<le> interval"
      "apply_session_timer_headers t hs = (Inr (), t\<lparr>session_interval := interval,
         t_refresher := (case r of Some r' \<Rightarrow> r' | None \<Rightarrow> t_refresher t)\<rparr>)"
proof (cases "Option.bind (get_header_value hs HEADER_SESSION_EXPIRES) parse_session_expires")
  case None
  then show ?thesis by (intro absent) (simp add: apply_session_timer_headers_def)
next
  case (Some p)
  then obtain v interval r where
    v: "get_header_value hs HEADER_SESSION_EXPIRES = Some v" "parse_session_expires v = Some (interval, r)"
    by (cases p) (auto simp: bind_eq_Some_conv)
  show ?thesis
    by (cases "interval < min_se t") (auto simp: apply_headers_value [OF v] intro: refused [OF v] agreed [OF v])
qed



section \<open>Overflow\<close>

text \<open>Below an interval and a clock of \<open>2 ^ 62\<close> seconds no test of the timer panics.\<close>

lemma next_timeout_no_panic:
  assumes "session_interval t < secs (2 ^ 62)" and "last_refresh t < secs (2 ^ 62)"
  shows "next_timeout_for_role now t uac \<noteq> Panic" and "time_until_expiration now t \<noteq> Panic"
proof -
  have "secs (2 ^ 62) + secs (2 ^ 62) = instant_limit" by (simp add: instant_limit_def secs_def)
  with assms have "last_refresh t + session_interval t < instant_limit"
    and "last_refresh t + session_interval t div 2 < instant_limit" by simp_all
  then show "next_timeout_for_role now t uac \<noteq> Panic" and "time_until_expiration now t \<noteq> Panic"
    by (auto simp: timer_test_defs instant_add_def)
qed

text \<open>The greatest interval a header field can carry crashes the scheduler.  A \<open>Session-Expires\<close> value of
  \<open>2 ^ 64 - 1\<close> seconds is accepted, and on the timer it leaves behind every computation of the next wake-up
  panics, once the clock shows one second.\<close>

theorem max_session_expires_panics:
  assumes "active t" "enabled t" "min_se t \<le> secs u64_max" "secs 1 \<le> last_refresh t"
    and "get_header_value hs HEADER_SESSION_EXPIRES = Some (string_of_nat u64_max)"
  shows "\<exists>t'. apply_session_timer_headers t hs = (Inr (), t') \<and> next_timeout_for_role now t' uac = Panic"
proof -
  have "split_on (CHR '';'') (string_of_nat u64_max) = [string_of_nat u64_max]"
    by (rule split_on_absent) simp
  then have p: "parse_session_expires (string_of_nat u64_max) = Some (secs u64_max, None)"
    by (simp add: parse_session_expires_def)
  have big: "instant_limit \<le> last_refresh t + secs u64_max div 2"
    "instant_limit \<le> last_refresh t + secs u64_max"
    using assms(4) by (simp_all add: instant_limit_def secs_def u64_max_def)
  let ?t = "t\<lparr>session_interval := secs u64_max\<rparr>"
  have "apply_session_timer_headers t hs = (Inr (), ?t)"
    using apply_headers_value [OF assms(5) p, of t] assms(3) by simp
  moreover have "next_timeout_for_role now ?t uac = Panic"
    using assms(1,2) big by (auto simp: timer_test_defs instant_add_def not_less)
  ultimately show ?thesis by blast
qed

lemma max_session_expires_panics_witness:
  "\<exists>t'. apply_session_timer_headers ((default_timer (secs 10))\<lparr>enabled := True, active := True\<rparr>)
          [Other ''Session-Expires'' (string_of_nat u64_max)] = (Inr (), t')
        \<and> next_timeout_for_role (secs 10) t' False = Panic"
proof (rule max_session_expires_panics)
  show "get_header_value [Other ''Session-Expires'' (string_of_nat u64_max)] HEADER_SESSION_EXPIRES
      = Some (string_of_nat u64_max)"
    by (simp add: get_header_value_def HEADER_SESSION_EXPIRES_def)
qed (simp_all add: default_timer_def MIN_MIN_SE_def u64_max_def)

end
