(* ===== verification/Dialog_Timers.thy ===== *)
theory Dialog_Timers
  imports Session_Timer
begin

text \<open>
  The session timers of a call, \<open>src/src/proxy/proxy_call/sip_session.rs\<close>: one timer per dialog, its
  entry in the delay queue of the session's event loop, the refresh of a dialog by UPDATE with a
  fallback to re-INVITE, and the event loop's reaction when an entry of the queue is due.

  The delay queue is a library of the runtime.  Its operations are the fields of a \<open>delay_queue\<close>
  record; \<open>delay_queue_ok\<close> states what its documentation promises, in terms of a view of the queue as
  a map from keys to the stored dialog and the time it is due: an insertion returns a key that was
  not in use, \<open>reset\<close> and \<open>remove\<close> panic for a key that is not in the queue and act on its entry
  otherwise.  What the peer answers to each request of a refresh, and when, is an argument.
\<close>

section \<open>State\<close>

record ('d, 'k, 'q) delay_queue =
  dq_insert :: "instant \<Rightarrow> 'd \<Rightarrow> duration \<Rightarrow> 'q \<Rightarrow> 'k \<times> 'q"
  dq_reset :: "instant \<Rightarrow> 'k \<Rightarrow> duration \<Rightarrow> 'q \<Rightarrow> 'q run"
  dq_remove :: "'k \<Rightarrow> 'q \<Rightarrow> 'q run"

definition delay_queue_ok :: "('d, 'k, 'q) delay_queue \<Rightarrow> ('q \<Rightarrow> 'k \<rightharpoonup> 'd \<times> instant) \<Rightarrow> bool" where
  "delay_queue_ok dq view \<longleftrightarrow>
     (\<forall>now d w q. view q (fst (dq_insert dq now d w q)) = None \<and>
        view (snd (dq_insert dq now d w q)) = (view q)(fst (dq_insert dq now d w q) \<mapsto> (d, now + w))) \<and>
     (\<forall>now k w q d t. view q k = Some (d, t) \<longrightarrow>
        (\<exists>q'. dq_reset dq now k w q = Ret q' \<and> view q' = (view q)(k \<mapsto> (d, now + w)))) \<and>
     (\<forall>k q d t. view q k = Some (d, t) \<longrightarrow>
        (\<exists>q'. dq_remove dq k q = Ret q' \<and> view q' = (view q)(k := None)))"

record ('d, 'k, 'q) dialog_timers =
  caller_dialog :: 'd
  timers :: "'d \<rightharpoonup> timer_state"
  timer_keys :: "'d \<rightharpoonup> 'k"
  timer_queue :: 'q
  update_refresh_disabled :: "'d set"
  pending_hangup :: "'d set"
  autohangup :: bool

datatype timer_action = Refresh | Expired

datatype refresh_error =
    NoTimer | Refused err | UpdateRejected nat | UpdateTimedOut | ReinviteRejected nat
  | ReinviteTimedOut | SendFailed err | RetryUnresolved

datatype refresh_outcome = Refreshed | Retry | FallbackToReinvite | Failed refresh_error

type_synonym response = "nat \<times> headers"

text \<open>The answer to one request: the time it arrived, and a failure to send, a time-out, or a response.\<close>

type_synonym reply = "instant \<times> (err + response option)"

definition SessionIntervalTooSmall :: nat where "SessionIntervalTooSmall = 422"
definition MethodNotAllowed :: nat where "MethodNotAllowed = 405"
definition NotImplemented :: nat where "NotImplemented = 501"

definition is_successful :: "nat \<Rightarrow> bool" where
  "is_successful code \<longleftrightarrow> 200 \<le> code \<and> code < 300"

section \<open>Scheduling\<close>

definition is_uac_dialog :: "('d, 'k, 'q) dialog_timers \<Rightarrow> 'd \<Rightarrow> bool" where
  "is_uac_dialog s d \<longleftrightarrow> d \<noteq> caller_dialog s"

definition unschedule_timer ::
    "('d, 'k, 'q) delay_queue \<Rightarrow> 'd \<Rightarrow> ('d, 'k, 'q) dialog_timers \<Rightarrow> ('d, 'k, 'q) dialog_timers run" where
  "unschedule_timer dq d s =
     (case timer_keys s d of
        None \<Rightarrow> Ret s
      | Some k \<Rightarrow> map_run (\<lambda>q. s\<lparr>timer_keys := (timer_keys s)(d := None), timer_queue := q\<rparr>)
                    (dq_remove dq k (timer_queue s)))"

definition schedule_timer_with_timeout ::
    "('d, 'k, 'q) delay_queue \<Rightarrow> instant \<Rightarrow> 'd \<Rightarrow> duration option \<Rightarrow> ('d, 'k, 'q) dialog_timers
       \<Rightarrow> ('d, 'k, 'q) dialog_timers run" where
  "schedule_timer_with_timeout dq now d timeout s =
     (case timeout of
        None \<Rightarrow> unschedule_timer dq d s
      | Some w \<Rightarrow>
          (case timer_keys s d of
             Some k \<Rightarrow> map_run (\<lambda>q. s\<lparr>timer_keys := (timer_keys s)(d \<mapsto> k), timer_queue := q\<rparr>)
                         (dq_reset dq now k w (timer_queue s))
           | None \<Rightarrow> (let (k, q) = dq_insert dq now d w (timer_queue s)
                      in Ret (s\<lparr>timer_keys := (timer_keys s)(d \<mapsto> k), timer_queue := q\<rparr>))))"

definition schedule_timer ::
    "('d, 'k, 'q) delay_queue \<Rightarrow> instant \<Rightarrow> 'd \<Rightarrow> ('d, 'k, 'q) dialog_timers
       \<Rightarrow> ('d, 'k, 'q) dialog_timers run" where
  "schedule_timer dq now d s =
     bind_run (case timers s d of None \<Rightarrow> Ret None
               | Some t \<Rightarrow> next_timeout_for_role now t (is_uac_dialog s d))
       (\<lambda>timeout. schedule_timer_with_timeout dq now d timeout s)"

definition schedule_expiration_timer ::
    "('d, 'k, 'q) delay_queue \<Rightarrow> instant \<Rightarrow> 'd \<Rightarrow> ('d, 'k, 'q) dialog_timers
       \<Rightarrow> ('d, 'k, 'q) dialog_timers run" where
  "schedule_expiration_timer dq now d s =
     bind_run (case timers s d of None \<Rightarrow> Ret None | Some t \<Rightarrow> time_until_expiration now t)
       (\<lambda>timeout. schedule_timer_with_timeout dq now d timeout s)"

section \<open>Negotiation\<close>

definition init_server_timer ::
    "('d, 'k, 'q) delay_queue \<Rightarrow> instant \<Rightarrow> session_timer_mode \<Rightarrow> headers \<Rightarrow> nat
       \<Rightarrow> ('d, 'k, 'q) dialog_timers \<Rightarrow> ((nat \<times> string option) + unit) \<times> ('d, 'k, 'q) dialog_timers run" where
  "init_server_timer dq now mode hs default_expires s =
     (let d = caller_dialog s;
          supported = has_timer_support hs;
          t0 = (default_timer now)\<lparr>t_mode := mode\<rparr>;
          t1 = (case Option.bind (get_header_value hs HEADER_MIN_SE) parse_min_se of
                  None \<Rightarrow> t0
                | Some m \<Rightarrow> if min_se t0 < m then t0\<lparr>min_se := m\<rparr> else t0);
          install = (\<lambda>t. (Inr (), schedule_timer dq now d (s\<lparr>timers := (timers s)(d \<mapsto> t)\<rparr>)))
      in case get_header_value hs HEADER_SESSION_EXPIRES of
           Some v \<Rightarrow>
             (case parse_session_expires v of
                None \<Rightarrow> install t1
              | Some (interval, r) \<Rightarrow>
                  if interval < min_se t1
                  then (Inl (SessionIntervalTooSmall, Some (string_of_nat (as_secs (min_se t1)))), Ret s)
                  else install (t1\<lparr>enabled := True, session_interval := interval, active := True,
                                   t_refresher := select_server_timer_refresher supported True r\<rparr>))
         | None \<Rightarrow>
             if is_always mode
             then install (t1\<lparr>enabled := True, session_interval := max (secs default_expires) (min_se t1),
                              active := True, t_refresher := select_server_timer_refresher supported False None\<rparr>)
             else install t1)"

definition init_callee_timer ::
    "('d, 'k, 'q) delay_queue \<Rightarrow> instant \<Rightarrow> session_timer_mode \<Rightarrow> 'd \<Rightarrow> headers \<Rightarrow> duration
       \<Rightarrow> ('d, 'k, 'q) dialog_timers \<Rightarrow> ('d, 'k, 'q) dialog_timers run" where
  "init_callee_timer dq now mode d hs requested s =
     (let t0 = (default_timer now)\<lparr>t_mode := mode\<rparr>;
          t = (case Option.bind (get_header_value hs HEADER_SESSION_EXPIRES) parse_session_expires of
                 Some (interval, r) \<Rightarrow>
                   t0\<lparr>enabled := True, active := True, last_refresh := now, session_interval := interval,
                      t_refresher := select_client_timer_refresher r\<rparr>
               | None \<Rightarrow>
                   if is_always (t_mode t0)
                   then t0\<lparr>enabled := True, active := True, last_refresh := now,
                           session_interval := requested, t_refresher := Uac\<rparr>
                   else t0\<lparr>session_interval := requested\<rparr>)
      in schedule_timer dq now d (s\<lparr>timers := (timers s)(d \<mapsto> t)\<rparr>))"

definition update_dialog_timer_from_headers ::
    "('d, 'k, 'q) delay_queue \<Rightarrow> instant \<Rightarrow> 'd \<Rightarrow> headers \<Rightarrow> ('d, 'k, 'q) dialog_timers
       \<Rightarrow> unit result \<times> ('d, 'k, 'q) dialog_timers run" where
  "update_dialog_timer_from_headers dq now d hs s =
     (case timers s d of
        None \<Rightarrow> (Inr (), Ret s)
      | Some t \<Rightarrow>
          (case apply_session_timer_headers t hs of
             (Inl e, t1) \<Rightarrow> (Inl e, Ret (s\<lparr>timers := (timers s)(d \<mapsto> t1)\<rparr>))
           | (Inr _, t1) \<Rightarrow>
               (let t2 = (if active t1 then update_refresh now t1 else t1)
                in (Inr (), schedule_timer dq now d (s\<lparr>timers := (timers s)(d \<mapsto> t2)\<rparr>)))))"

definition successful_refresh_response_headers ::
    "('d, 'k, 'q) dialog_timers \<Rightarrow> 'd \<Rightarrow> headers option" where
  "successful_refresh_response_headers s d =
     (case timers s d of
        None \<Rightarrow> None
      | Some t \<Rightarrow> if \<not> enabled t \<or> \<not> active t then None
                  else Some (build_session_timer_response_headers t))"

section \<open>Refreshing a dialog\<close>

definition disable_update_refresh :: "'d \<Rightarrow> ('d, 'k, 'q) dialog_timers \<Rightarrow> ('d, 'k, 'q) dialog_timers" where
  "disable_update_refresh d s = s\<lparr>update_refresh_disabled := insert d (update_refresh_disabled s)\<rparr>"

definition should_fallback_to_reinvite :: "nat \<Rightarrow> bool" where
  "should_fallback_to_reinvite code \<longleftrightarrow> code = MethodNotAllowed \<or> code = NotImplemented"

definition should_try_update_refresh :: "('d, 'k, 'q) dialog_timers \<Rightarrow> 'd \<Rightarrow> bool" where
  "should_try_update_refresh s d \<longleftrightarrow> d \<notin> update_refresh_disabled s"

definition apply_refresh_min_se ::
    "'d \<Rightarrow> headers \<Rightarrow> ('d, 'k, 'q) dialog_timers \<Rightarrow> (refresh_error + bool) \<times> ('d, 'k, 'q) dialog_timers" where
  "apply_refresh_min_se d hs s =
     (case Option.bind (get_header_value hs HEADER_MIN_SE) parse_min_se of
        None \<Rightarrow> (Inr False, s)
      | Some m \<Rightarrow>
          (case timers s d of
             None \<Rightarrow> (Inl NoTimer, s)
           | Some t \<Rightarrow>
               (let t1 = (if min_se t < m then t\<lparr>min_se := m\<rparr> else t);
                    t2 = (if session_interval t1 < m then t1\<lparr>session_interval := m\<rparr> else t1)
                in (Inr True, s\<lparr>timers := (timers s)(d \<mapsto> t2)\<rparr>))))"

definition complete_refresh_from_response ::
    "instant \<Rightarrow> 'd \<Rightarrow> headers \<Rightarrow> ('d, 'k, 'q) dialog_timers
       \<Rightarrow> (refresh_error + unit) \<times> ('d, 'k, 'q) dialog_timers" where
  "complete_refresh_from_response now d hs s =
     (case timers s d of
        None \<Rightarrow> (Inr (), s)
      | Some t \<Rightarrow>
          (case apply_refresh_response now t hs (is_uac_dialog s d) of
             (Inl e, t') \<Rightarrow> (Inl (Refused e), s\<lparr>timers := (timers s)(d \<mapsto> t')\<rparr>)
           | (Inr _, t') \<Rightarrow> (Inr (), s\<lparr>timers := (timers s)(d \<mapsto> t')\<rparr>)))"

definition fail_refresh_if_pending :: "'d \<Rightarrow> ('d, 'k, 'q) dialog_timers \<Rightarrow> ('d, 'k, 'q) dialog_timers" where
  "fail_refresh_if_pending d s =
     (case timers s d of
        None \<Rightarrow> s
      | Some t \<Rightarrow> if refreshing t then s\<lparr>timers := (timers s)(d \<mapsto> fail_refresh t)\<rparr> else s)"

definition build_refresh_headers ::
    "('d, 'k, 'q) dialog_timers \<Rightarrow> 'd \<Rightarrow> bool \<Rightarrow> refresh_error + headers" where
  "build_refresh_headers s d include_content_type =
     (case timers s d of
        None \<Rightarrow> Inl NoTimer
      | Some t \<Rightarrow> Inr (build_session_timer_headers t include_content_type))"

definition handle_update_refresh_response ::
    "instant \<Rightarrow> 'd \<Rightarrow> response option \<Rightarrow> bool \<Rightarrow> ('d, 'k, 'q) dialog_timers
       \<Rightarrow> refresh_outcome \<times> ('d, 'k, 'q) dialog_timers" where
  "handle_update_refresh_response now d response allow_retry s =
     (case response of
        None \<Rightarrow> (Failed UpdateTimedOut, s)
      | Some (code, hs) \<Rightarrow>
          if is_successful code then
            (case complete_refresh_from_response now d hs s of
               (Inr _, s') \<Rightarrow> (Refreshed, s')
             | (Inl e, s') \<Rightarrow> (Failed e, s'))
          else if code = SessionIntervalTooSmall then
            (if \<not> allow_retry then (Failed (UpdateRejected code), s)
             else case apply_refresh_min_se d hs s of
                    (Inr True, s') \<Rightarrow> (Retry, s')
                  | (Inr False, s') \<Rightarrow> (Failed (UpdateRejected code), s')
                  | (Inl e, s') \<Rightarrow> (Failed e, s'))
          else if should_fallback_to_reinvite code then
            (FallbackToReinvite, disable_update_refresh d s)
          else (Failed (UpdateRejected code), s))"

definition try_update_refresh ::
    "'d \<Rightarrow> reply \<Rightarrow> reply \<Rightarrow> ('d, 'k, 'q) dialog_timers \<Rightarrow> refresh_outcome \<times> ('d, 'k, 'q) dialog_timers" where
  "try_update_refresh d r1 r2 s =
     (case build_refresh_headers s d False of
        Inl e \<Rightarrow> (Failed e, s)
      | Inr _ \<Rightarrow>
          (case r1 of
             (_, Inl e) \<Rightarrow> (Failed (SendFailed e), s)
           | (now, Inr response) \<Rightarrow>
               (case handle_update_refresh_response now d response True s of
                  (Retry, s1) \<Rightarrow>
                    (case build_refresh_headers s1 d False of
                       Inl e \<Rightarrow> (Failed e, s1)
                     | Inr _ \<Rightarrow>
                         (case r2 of
                            (_, Inl e) \<Rightarrow> (Failed (SendFailed e), s1)
                          | (now2, Inr response2) \<Rightarrow>
                              handle_update_refresh_response now2 d response2 False s1))
                | (outcome, s1) \<Rightarrow> (outcome, s1))))"

text \<open>The last two branches of the reply to a re-INVITE, which the first request and its repetition share.\<close>

definition reinvite_failed ::
    "'d \<Rightarrow> err + response option \<Rightarrow> ('d, 'k, 'q) dialog_timers
       \<Rightarrow> (refresh_error + unit) \<times> ('d, 'k, 'q) dialog_timers" where
  "reinvite_failed d r s =
     (case r of
        Inr (Some (code, _)) \<Rightarrow> (Inl (ReinviteRejected code), fail_refresh_if_pending d s)
      | Inr None \<Rightarrow> (Inl ReinviteTimedOut, fail_refresh_if_pending d s)
      | Inl e \<Rightarrow> (Inl (SendFailed e), fail_refresh_if_pending d s))"

definition reinvite_retry ::
    "'d \<Rightarrow> reply \<Rightarrow> bool \<Rightarrow> ('d, 'k, 'q) dialog_timers
       \<Rightarrow> (refresh_error + unit) \<times> ('d, 'k, 'q) dialog_timers" where
  "reinvite_retry d r has_body s =
     (case build_refresh_headers s d has_body of
        Inl e \<Rightarrow> (Inl e, s)
      | Inr _ \<Rightarrow>
          (case r of
             (now, Inr (Some (code, hs))) \<Rightarrow>
               if is_successful code then complete_refresh_from_response now d hs s
               else reinvite_failed d (snd r) s
           | _ \<Rightarrow> reinvite_failed d (snd r) s))"

definition try_reinvite_refresh ::
    "'d \<Rightarrow> reply \<Rightarrow> reply \<Rightarrow> bool \<Rightarrow> ('d, 'k, 'q) dialog_timers
       \<Rightarrow> (refresh_error + unit) \<times> ('d, 'k, 'q) dialog_timers" where
  "try_reinvite_refresh d r1 r2 has_body s =
     (case build_refresh_headers s d has_body of
        Inl e \<Rightarrow> (Inl e, s)
      | Inr _ \<Rightarrow>
          (case r1 of
             (now, Inr (Some (code, hs))) \<Rightarrow>
               if is_successful code then complete_refresh_from_response now d hs s
               else if code = SessionIntervalTooSmall then
                 (case apply_refresh_min_se d hs s of
                    (Inl e, s1) \<Rightarrow> (Inl e, s1)
                  | (Inr False, s1) \<Rightarrow> reinvite_failed d (snd r1) s1
                  | (Inr True, s1) \<Rightarrow> reinvite_retry d r2 has_body s1)
               else reinvite_failed d (snd r1) s
           | _ \<Rightarrow> reinvite_failed d (snd r1) s))"

record refresh_replies =
  update1 :: reply
  update2 :: reply
  reinvite1 :: reply
  reinvite2 :: reply

definition send_dialog_session_refresh ::
    "'d \<Rightarrow> refresh_replies \<Rightarrow> bool \<Rightarrow> ('d, 'k, 'q) dialog_timers
       \<Rightarrow> (refresh_error + unit) \<times> ('d, 'k, 'q) dialog_timers" where
  "send_dialog_session_refresh d rs has_body s =
     (if should_try_update_refresh s d then
        (case try_update_refresh d (update1 rs) (update2 rs) s of
           (Refreshed, s1) \<Rightarrow> (Inr (), s1)
         | (Retry, s1) \<Rightarrow> (Inl RetryUnresolved, s1)
         | (FallbackToReinvite, s1) \<Rightarrow> try_reinvite_refresh d (reinvite1 rs) (reinvite2 rs) has_body s1
         | (Failed e, s1) \<Rightarrow> (Inl e, fail_refresh_if_pending d s1))
      else try_reinvite_refresh d (reinvite1 rs) (reinvite2 rs) has_body s)"

section \<open>The event loop\<close>

definition next_timer_action ::
    "instant \<Rightarrow> 'd \<Rightarrow> ('d, 'k, 'q) dialog_timers \<Rightarrow> timer_action option \<times> ('d, 'k, 'q) dialog_timers" where
  "next_timer_action now d s =
     (let s0 = s\<lparr>timer_keys := (timer_keys s)(d := None)\<rparr>
      in case timers s0 d of
           None \<Rightarrow> (None, s0)
         | Some t \<Rightarrow>
             if is_expired now t then (Some Expired, s0)
             else if should_we_refresh t (is_uac_dialog s0 d) \<and> should_refresh now t \<and> fst (start_refresh t)
             then (Some Refresh, s0\<lparr>timers := (timers s0)(d \<mapsto> snd (start_refresh t))\<rparr>)
             else (None, s0))"

text \<open>The arm of the event loop for a due entry of the delay queue; \<open>q\<close> is the queue after the entry
  was taken out, \<open>later\<close> the time when the refresh is over.\<close>

definition on_timer_due ::
    "('d, 'k, 'q) delay_queue \<Rightarrow> instant \<Rightarrow> instant \<Rightarrow> 'd \<Rightarrow> 'q \<Rightarrow> refresh_replies \<Rightarrow> bool
       \<Rightarrow> ('d, 'k, 'q) dialog_timers \<Rightarrow> ('d, 'k, 'q) dialog_timers run" where
  "on_timer_due dq now later d q rs has_body s =
     (case next_timer_action now d (s\<lparr>timer_queue := q\<rparr>) of
        (Some Refresh, s1) \<Rightarrow>
          (case send_dialog_session_refresh d rs has_body s1 of
             (Inr _, s2) \<Rightarrow> schedule_timer dq later d s2
           | (Inl _, s2) \<Rightarrow> schedule_expiration_timer dq later d s2)
      | (Some Expired, s1) \<Rightarrow>
          Ret (s1\<lparr>autohangup := True, pending_hangup := insert d (pending_hangup s1)\<rparr>)
      | (None, s1) \<Rightarrow> Ret s1)"

text \<open>The part of the handler of a terminated callee dialog that concerns its timer.\<close>

definition on_dialog_terminated ::
    "('d, 'k, 'q) delay_queue \<Rightarrow> 'd \<Rightarrow> ('d, 'k, 'q) dialog_timers \<Rightarrow> ('d, 'k, 'q) dialog_timers run" where
  "on_dialog_terminated dq d s =
     map_run (\<lambda>s1. s1\<lparr>timers := (timers s1)(d := None),
                      update_refresh_disabled := update_refresh_disabled s1 - {d}\<rparr>)
       (unschedule_timer dq d (s\<lparr>pending_hangup := pending_hangup s - {d}\<rparr>))"

section \<open>The schedule\<close>

text \<open>The keys and the queue together represent a map from dialogs to due times.\<close>

definition keys_ok :: "('q \<Rightarrow> 'k \<rightharpoonup> 'd \<times> instant) \<Rightarrow> ('d, 'k, 'q) dialog_timers \<Rightarrow> bool" where
  "keys_ok view s \<longleftrightarrow>
     (\<forall>d k. timer_keys s d = Some k \<longleftrightarrow> (\<exists>t. view (timer_queue s) k = Some (d, t)))"

definition due :: "('q \<Rightarrow> 'k \<rightharpoonup> 'd \<times> instant) \<Rightarrow> ('d, 'k, 'q) dialog_timers \<Rightarrow> 'd \<rightharpoonup> instant" where
  "due view s d = Option.bind (timer_keys s d) (\<lambda>k. map_option snd (view (timer_queue s) k))"

lemma keys_ok_due: "keys_ok view s \<Longrightarrow> due view s d = Some t \<longleftrightarrow>
    (\<exists>k. timer_keys s d = Some k \<and> view (timer_queue s) k = Some (d, t))"
  by (auto simp: keys_ok_def due_def bind_eq_Some_conv)

lemma keys_ok_inj:
  "keys_ok view s \<Longrightarrow> timer_keys s d = Some k \<Longrightarrow> timer_keys s e = Some k \<Longrightarrow> d = e"
  by (auto simp: keys_ok_def)

text \<open>Replacing the entry of one dialog, whether it has a key or a new one is made.\<close>

lemma keys_ok_put:
  assumes "keys_ok view s" and "timer_keys s d = Some k \<or> (timer_keys s d = None \<and> view (timer_queue s) k = None)"
    and "view q = (view (timer_queue s))(k \<mapsto> (d, t))"
  shows "keys_ok view (s\<lparr>timer_keys := (timer_keys s)(d \<mapsto> k), timer_queue := q\<rparr>)"
    and "due view (s\<lparr>timer_keys := (timer_keys s)(d \<mapsto> k), timer_queue := q\<rparr>) = (due view s)(d \<mapsto> t)"
proof -
  have key: "timer_keys s e = Some k' \<longleftrightarrow> (\<exists>u. view (timer_queue s) k' = Some (e, u))" for e k'
    using assms(1) by (simp add: keys_ok_def)
  have own: "view (timer_queue s) k' = Some (d, u) \<Longrightarrow> k' = k" for k' u
    using assms(2) key [of d k'] by auto
  have other: "view (timer_queue s) k = Some (e, u) \<Longrightarrow> e = d" for e u
    using assms(2) key [of d k] by auto
  show "keys_ok view (s\<lparr>timer_keys := (timer_keys s)(d \<mapsto> k), timer_queue := q\<rparr>)"
    using key assms(3) by (auto simp: keys_ok_def dest: own other)
  show "due view (s\<lparr>timer_keys := (timer_keys s)(d \<mapsto> k), timer_queue := q\<rparr>) = (due view s)(d \<mapsto> t)"
  proof (rule ext)
    fix e
    have "e \<noteq> d \<Longrightarrow> timer_keys s e \<noteq> Some k" using key other by blast
    then show "due view (s\<lparr>timer_keys := (timer_keys s)(d \<mapsto> k), timer_queue := q\<rparr>) e = ((due view s)(d \<mapsto> t)) e"
      using assms(3) by (cases "timer_keys s e") (auto simp: due_def)
  qed
qed

lemma keys_ok_delete:
  assumes "keys_ok view s" and "timer_keys s d = Some k" and "view q = (view (timer_queue s))(k := None)"
  shows "keys_ok view (s\<lparr>timer_keys := (timer_keys s)(d := None), timer_queue := q\<rparr>)"
    and "due view (s\<lparr>timer_keys := (timer_keys s)(d := None), timer_queue := q\<rparr>) = (due view s)(d := None)"
proof -
  have key: "timer_keys s e = Some k' \<longleftrightarrow> (\<exists>u. view (timer_queue s) k' = Some (e, u))" for e k'
    using assms(1) by (simp add: keys_ok_def)
  have own: "view (timer_queue s) k' = Some (d, u) \<Longrightarrow> k' = k" for k' u
    using assms(2) key [of d k'] by auto
  have other: "view (timer_queue s) k = Some (e, u) \<Longrightarrow> e = d" for e u
    using assms(2) key [of d k] by auto
  show "keys_ok view (s\<lparr>timer_keys := (timer_keys s)(d := None), timer_queue := q\<rparr>)"
    using key assms(3) by (auto simp: keys_ok_def dest: own other)
  show "due view (s\<lparr>timer_keys := (timer_keys s)(d := None), timer_queue := q\<rparr>) = (due view s)(d := None)"
  proof (rule ext)
    fix e
    have "e \<noteq> d \<Longrightarrow> timer_keys s e \<noteq> Some k" using key other by blast
    then show "due view (s\<lparr>timer_keys := (timer_keys s)(d := None), timer_queue := q\<rparr>) e = ((due view s)(d := None)) e"
      using assms(3) by (cases "timer_keys s e") (auto simp: due_def)
  qed
qed

lemma unschedule_refines:
  assumes "delay_queue_ok dq view" and "keys_ok view s"
  shows "\<exists>s'. unschedule_timer dq d s = Ret s' \<and> keys_ok view s' \<and> due view s' = (due view s)(d := None)
    \<and> s' = s\<lparr>timer_keys := timer_keys s', timer_queue := timer_queue s'\<rparr>"
proof (cases "timer_keys s d")
  case None
  then have "due view s = (due view s)(d := None)" by (auto simp: due_def fun_eq_iff)
  with None assms(2) show ?thesis by (simp add: unschedule_timer_def)
next
  case (Some k)
  with assms(2) obtain t where "view (timer_queue s) k = Some (d, t)" by (auto simp: keys_ok_def)
  with assms(1) obtain q where q: "dq_remove dq k (timer_queue s) = Ret q"
    "view q = (view (timer_queue s))(k := None)" unfolding delay_queue_ok_def by blast
  show ?thesis
    using keys_ok_delete [OF assms(2) Some q(2)] q(1) Some by (simp add: unschedule_timer_def)
qed

lemma schedule_refines:
  assumes "delay_queue_ok dq view" and "keys_ok view s"
  shows "\<exists>s'. schedule_timer_with_timeout dq now d w s = Ret s' \<and> keys_ok view s'
    \<and> due view s' = (due view s)(d := map_option (\<lambda>x. now + x) w)
    \<and> s' = s\<lparr>timer_keys := timer_keys s', timer_queue := timer_queue s'\<rparr>"
proof (cases w)
  case None
  with unschedule_refines [OF assms, of d] show ?thesis by (simp add: schedule_timer_with_timeout_def)
next
  case w: (Some x)
  show ?thesis
  proof (cases "timer_keys s d")
    case None
    obtain k q where kq: "dq_insert dq now d x (timer_queue s) = (k, q)" by fastforce
    with assms(1) have "view (timer_queue s) k = None" "view q = (view (timer_queue s))(k \<mapsto> (d, now + x))"
      unfolding delay_queue_ok_def by (metis fst_conv snd_conv)+
    with keys_ok_put [OF assms(2), of d k q "now + x"] None kq w show ?thesis
      by (simp add: schedule_timer_with_timeout_def)
  next
    case (Some k)
    with assms(2) obtain t where "view (timer_queue s) k = Some (d, t)" by (auto simp: keys_ok_def)
    with assms(1) obtain q where "dq_reset dq now k x (timer_queue s) = Ret q"
      "view q = (view (timer_queue s))(k \<mapsto> (d, now + x))" unfolding delay_queue_ok_def by blast
    with keys_ok_put [OF assms(2), of d k q "now + x"] Some w show ?thesis
      by (simp add: schedule_timer_with_timeout_def)
  qed
qed

text \<open>A queue of slots, an instance of the delay queue for concrete runs.\<close>

type_synonym 'd slots = "('d \<times> instant) option list"

definition slot_view :: "'d slots \<Rightarrow> nat \<rightharpoonup> 'd \<times> instant" where
  "slot_view q k = (if k < length q then q ! k else None)"

definition slot_queue :: "('d, nat, 'd slots) delay_queue" where
  "slot_queue =
     \<lparr>dq_insert = (\<lambda>now d w q. (length q, q @ [Some (d, now + w)])),
      dq_reset = (\<lambda>now k w q. case slot_view q k of None \<Rightarrow> Panic | Some (d, _) \<Rightarrow> Ret (q[k := Some (d, now + w)])),
      dq_remove = (\<lambda>k q. case slot_view q k of None \<Rightarrow> Panic | Some _ \<Rightarrow> Ret (q[k := None]))\<rparr>"

lemma slot_queue_ok: "delay_queue_ok slot_queue slot_view"
  by (auto simp: delay_queue_ok_def slot_queue_def slot_view_def fun_eq_iff nth_append nth_list_update
      split: if_splits)


text \<open>A call with an active timer on its caller's dialog and nothing scheduled, for concrete runs.\<close>

definition demo_timer :: timer_state where
  "demo_timer = (default_timer 0)\<lparr>enabled := True, active := True, t_refresher := Uas\<rparr>"

definition demo_session :: "(nat, nat, nat slots) dialog_timers" where
  "demo_session =
     \<lparr>caller_dialog = 0, timers = [0 \<mapsto> demo_timer], timer_keys = Map.empty, timer_queue = [],
      update_refresh_disabled = {}, pending_hangup = {}, autohangup = False\<rparr>"

lemmas demo_defs = demo_session_def demo_timer_def default_timer_def DEFAULT_SESSION_EXPIRES_def MIN_MIN_SE_def

lemma demo_keys_ok: "keys_ok slot_view demo_session"
  by (simp add: keys_ok_def demo_defs slot_view_def)


section \<open>A refresh comes to an end\<close>

text \<open>What an operation on dialog \<open>d\<close> leaves alone.\<close>

definition only_dialog :: "'d \<Rightarrow> ('d, 'k, 'q) dialog_timers \<Rightarrow> ('d, 'k, 'q) dialog_timers \<Rightarrow> bool" where
  "only_dialog d s s' \<longleftrightarrow> (\<forall>e. e \<noteq> d \<longrightarrow> timers s' e = timers s e) \<and> timer_keys s' = timer_keys s
     \<and> timer_queue s' = timer_queue s \<and> caller_dialog s' = caller_dialog s
     \<and> pending_hangup s' = pending_hangup s"

text \<open>The timer of \<open>d\<close> has neither been refreshed nor given up, or it has, at one of the times \<open>T\<close>.\<close>

definition keeps :: "'d \<Rightarrow> ('d, 'k, 'q) dialog_timers \<Rightarrow> ('d, 'k, 'q) dialog_timers \<Rightarrow> bool" where
  "keeps d s s' \<longleftrightarrow> only_dialog d s s' \<and> (\<exists>t t'. timers s d = Some t \<and> timers s' d = Some t'
     \<and> refreshing t' = refreshing t \<and> last_refresh t' = last_refresh t \<and> refresh_count t' = refresh_count t)"

definition settles :: "'d \<Rightarrow> instant set \<Rightarrow> bool \<Rightarrow> ('d, 'k, 'q) dialog_timers \<Rightarrow> ('d, 'k, 'q) dialog_timers \<Rightarrow> bool" where
  "settles d T ok s s' \<longleftrightarrow> only_dialog d s s' \<and> (\<exists>t t'. timers s d = Some t \<and> timers s' d = Some t'
     \<and> \<not> refreshing t'
     \<and> (if ok then last_refresh t' \<in> T \<and> refresh_count t' = refresh_count t + 1
        else last_refresh t' = last_refresh t \<and> refresh_count t' = refresh_count t))"

lemma keeps_refl: "timers s d = Some t \<Longrightarrow> keeps d s s"
  by (simp add: keeps_def only_dialog_def)

lemma keeps_has_timer: "keeps d s s' \<Longrightarrow> \<exists>t. timers s' d = Some t"
  by (auto simp: keeps_def)

lemma keeps_settles: "keeps d s s1 \<Longrightarrow> settles d T ok s1 s2 \<Longrightarrow> settles d T ok s s2"
  by (auto simp: keeps_def settles_def only_dialog_def split: if_splits)

lemma settles_mono: "settles d T ok s s' \<Longrightarrow> T \<subseteq> T' \<Longrightarrow> settles d T' ok s s'"
  by (auto simp: settles_def split: if_splits)

lemma settles_False: "settles d T False s s' \<Longrightarrow> settles d T' False s s'"
  by (auto simp: settles_def)

lemma complete_settles:
  assumes "timers s d = Some t" and "complete_refresh_from_response now d hs s = (res, s')"
  shows "settles d {now} (res = Inr ()) s s'"
proof (cases "get_header_value hs HEADER_SESSION_EXPIRES")
  case None
  with assms show ?thesis
    by (auto simp: complete_refresh_from_response_def apply_refresh_response_def timer_update_defs
        settles_def only_dialog_def Let_def)
next
  case (Some v)
  show ?thesis
    by (cases rule: apply_headers_cases [of t hs])
      (use assms Some in \<open>auto simp: complete_refresh_from_response_def apply_refresh_response_def
         timer_update_defs settles_def only_dialog_def\<close>)
qed

lemma min_se_keeps:
  assumes "timers s d = Some t" and "apply_refresh_min_se d hs s = (res, s')"
  shows "keeps d s s'" and "\<exists>b. res = Inr b"
  using assms
  by (auto simp: apply_refresh_min_se_def keeps_def only_dialog_def Let_def split: option.splits if_splits)

lemma fail_if_pending_settles:
  assumes "keeps d s s' \<or> settles d T False s s'"
  shows "settles d T' False s (fail_refresh_if_pending d s')"
  using assms
  by (auto simp: fail_refresh_if_pending_def keeps_def settles_def only_dialog_def timer_update_defs)

lemma handle_update_cases:
  assumes "timers s d = Some t" and "handle_update_refresh_response now d r retry s = (out, s')"
  shows "case out of Refreshed \<Rightarrow> settles d {now} True s s' | Retry \<Rightarrow> retry \<and> keeps d s s'
    | FallbackToReinvite \<Rightarrow> keeps d s s' | Failed _ \<Rightarrow> keeps d s s' \<or> settles d {now} False s s'"
proof -
  have dis: "keeps d s (disable_update_refresh d s)"
    using assms(1) by (auto simp: keeps_def only_dialog_def disable_update_refresh_def)
  show ?thesis
    using assms(2) keeps_refl [OF assms(1)] dis complete_settles [OF assms(1)] min_se_keeps [OF assms(1)]
    by (fastforce simp: handle_update_refresh_response_def
        split: option.splits if_splits prod.splits sum.splits bool.splits)
qed

lemma keeps_trans: "keeps d s s1 \<Longrightarrow> keeps d s1 s2 \<Longrightarrow> keeps d s s2"
  unfolding keeps_def only_dialog_def by force

lemma try_update_cases:
  assumes "timers s d = Some t" and "try_update_refresh d r1 r2 s = (out, s')"
  shows "case out of Refreshed \<Rightarrow> settles d {fst r1, fst r2} True s s' | Retry \<Rightarrow> False
    | FallbackToReinvite \<Rightarrow> keeps d s s' | Failed _ \<Rightarrow> keeps d s s' \<or> settles d {} False s s'"
proof (cases "snd r1")
  case (Inl e)
  with assms keeps_refl [OF assms(1)] show ?thesis
    by (auto simp: try_update_refresh_def build_refresh_headers_def split: prod.splits)
next
  case (Inr resp)
  obtain o1 s1 where h: "handle_update_refresh_response (fst r1) d resp True s = (o1, s1)" by fastforce
  note c1 = handle_update_cases [OF assms(1) h]
  show ?thesis
  proof (cases "o1 = Retry")
    case False
    with assms h Inr have "out = o1" "s' = s1"
      by (auto simp: try_update_refresh_def build_refresh_headers_def split: prod.splits refresh_outcome.splits)
    with c1 False show ?thesis
      by (auto split: refresh_outcome.splits intro: settles_mono settles_False)
  next
    case True
    with c1 have k: "keeps d s s1" by simp
    then obtain t1 where t1: "timers s1 d = Some t1" by (auto dest: keeps_has_timer)
    show ?thesis
    proof (cases "snd r2")
      case (Inl e)
      with assms h Inr True t1 k show ?thesis
        by (auto simp: try_update_refresh_def build_refresh_headers_def split: prod.splits)
    next
      case (Inr resp2)
      with assms h \<open>snd r1 = Inr resp\<close> True t1
      have h2: "handle_update_refresh_response (fst r2) d resp2 False s1 = (out, s')"
        by (auto simp: try_update_refresh_def build_refresh_headers_def split: prod.splits)
      note c2 = handle_update_cases [OF t1 h2]
      show ?thesis
        by (cases out) (use c2 in \<open>auto intro: keeps_trans [OF k] settles_mono [OF keeps_settles [OF k]]
            settles_False [OF keeps_settles [OF k]]\<close>)
    qed
  qed
qed

lemma reinvite_failed_settles:
  assumes "timers s d = Some t" and "reinvite_failed d r s = (res, s')"
  shows "settles d T (res = Inr ()) s s'"
  using assms fail_if_pending_settles [of d s s] keeps_refl [OF assms(1)]
  by (auto simp: reinvite_failed_def split: sum.splits option.splits)

lemma reinvite_retry_settles:
  assumes "timers s d = Some t" and "reinvite_retry d r b s = (res, s')"
  shows "settles d {fst r} (res = Inr ()) s s'"
  using assms reinvite_failed_settles [OF assms(1)] complete_settles [OF assms(1)]
  by (auto simp: reinvite_retry_def build_refresh_headers_def split: prod.splits sum.splits option.splits if_splits)

lemma try_reinvite_settles:
  assumes "timers s d = Some t" and "try_reinvite_refresh d r1 r2 b s = (res, s')"
  shows "settles d {fst r1, fst r2} (res = Inr ()) s s'"
proof (cases "\<exists>hs. snd r1 = Inr (Some (SessionIntervalTooSmall, hs))")
  case False
  with assms have "reinvite_failed d (snd r1) s = (res, s')
    \<or> (\<exists>hs. complete_refresh_from_response (fst r1) d hs s = (res, s'))"
    by (auto simp: try_reinvite_refresh_def build_refresh_headers_def split: prod.splits sum.splits option.splits if_splits)
  then show ?thesis
    using reinvite_failed_settles [OF assms(1)]
    by (auto intro: settles_mono [OF complete_settles [OF assms(1)]])
next
  case True
  then obtain hs where hs: "snd r1 = Inr (Some (SessionIntervalTooSmall, hs))" by blast
  obtain x s1 where x: "apply_refresh_min_se d hs s = (x, s1)" by fastforce
  note k = min_se_keeps [OF assms(1) x]
  from k(1) obtain t1 where t1: "timers s1 d = Some t1" by (auto dest: keeps_has_timer)
  from assms hs x k(2) have "reinvite_failed d (snd r1) s1 = (res, s') \<or> reinvite_retry d r2 b s1 = (res, s')"
    by (auto simp: try_reinvite_refresh_def build_refresh_headers_def is_successful_def SessionIntervalTooSmall_def
        split: prod.splits bool.splits)
  then have "settles d {fst r1, fst r2} (res = Inr ()) s1 s'"
    using reinvite_failed_settles [OF t1] by (auto intro: settles_mono [OF reinvite_retry_settles [OF t1]])
  with k(1) show ?thesis by (rule keeps_settles)
qed

lemma refresh_settles:
  assumes "timers s d = Some t" and "send_dialog_session_refresh d rs b s = (res, s')"
  shows "settles d {fst (update1 rs), fst (update2 rs), fst (reinvite1 rs), fst (reinvite2 rs)} (res = Inr ()) s s'"
    (is "settles d ?T _ s s'")
proof (cases "should_try_update_refresh s d")
  case False
  with assms(2) have "try_reinvite_refresh d (reinvite1 rs) (reinvite2 rs) b s = (res, s')"
    by (simp add: send_dialog_session_refresh_def)
  from try_reinvite_settles [OF assms(1) this] show ?thesis by (rule settles_mono) auto
next
  case True
  obtain out s1 where u: "try_update_refresh d (update1 rs) (update2 rs) s = (out, s1)" by fastforce
  note c = try_update_cases [OF assms(1) u]
  show ?thesis
  proof (cases "out = FallbackToReinvite")
    case fb: True
    with c have k: "keeps d s s1" by simp
    then obtain t1 where t1: "timers s1 d = Some t1" by (auto dest: keeps_has_timer)
    from True u fb assms(2) have "try_reinvite_refresh d (reinvite1 rs) (reinvite2 rs) b s1 = (res, s')"
      by (simp add: send_dialog_session_refresh_def)
    from keeps_settles [OF k try_reinvite_settles [OF t1 this]] show ?thesis by (rule settles_mono) auto
  next
    case False
    with c assms(2) True u have "(out = Refreshed \<and> res = Inr () \<and> s' = s1)
      \<or> (\<exists>e. out = Failed e \<and> res = Inl e \<and> s' = fail_refresh_if_pending d s1)"
      by (auto simp: send_dialog_session_refresh_def split: refresh_outcome.splits)
    with c fail_if_pending_settles [of d s s1] show ?thesis by (auto intro: settles_mono)
  qed
qed
text \<open>C8: a refresh comes to an end.  Whatever the peer answers to the UPDATE and re-INVITE requests of a
  refresh, the timer of the dialog is not left with a refresh under way; the refresh is counted and its time is the
  arrival of one of the answers exactly when it is reported as successful, and otherwise neither the time nor the
  count changes.  No other dialog's timer and nothing of the schedule is touched.\<close>

theorem refresh_comes_to_an_end:
  assumes "timers s d = Some t" and "send_dialog_session_refresh d rs b s = (res, s')"
  shows "settles d {fst (update1 rs), fst (update2 rs), fst (reinvite1 rs), fst (reinvite2 rs)} (res = Inr ()) s s'"
  using assms by (rule refresh_settles)

lemma refresh_comes_to_an_end_witness:
  "let rs = \<lparr>update1 = (1, Inr (Some (405, []))), update2 = (2, Inr None), reinvite1 = (3, Inr None),
             reinvite2 = (4, Inr None)\<rparr>;
       s' = snd (send_dialog_session_refresh 0 rs True demo_session)
   in fst (send_dialog_session_refresh 0 rs True demo_session) = Inl ReinviteTimedOut
      \<and> settles 0 {1, 2, 3, 4} False demo_session s'"
proof -
  let ?rs = "\<lparr>update1 = (1, Inr (Some (405, []))), update2 = (2, Inr None), reinvite1 = (3, Inr None),
             reinvite2 = (4, Inr None)\<rparr>"
  have r: "fst (send_dialog_session_refresh 0 ?rs True demo_session) = Inl ReinviteTimedOut"
    by (simp add: send_dialog_session_refresh_def should_try_update_refresh_def try_update_refresh_def
        build_refresh_headers_def handle_update_refresh_response_def is_successful_def demo_session_def
        SessionIntervalTooSmall_def should_fallback_to_reinvite_def MethodNotAllowed_def
        disable_update_refresh_def try_reinvite_refresh_def reinvite_failed_def)
  have "timers demo_session 0 = Some demo_timer" by (simp add: demo_session_def)
  from refresh_comes_to_an_end [OF this, of ?rs True "Inl ReinviteTimedOut"] r show ?thesis
    by (simp add: Let_def prod_eq_iff)
qed

section \<open>No active timer is forgotten\<close>

text \<open>An active timer is watched when its dialog is about to be hung up, or has a due time from which
  on the event loop finds something to do.\<close>

definition watched :: "('q \<Rightarrow> 'k \<rightharpoonup> 'd \<times> instant) \<Rightarrow> ('d, 'k, 'q) dialog_timers \<Rightarrow> 'd \<Rightarrow> bool" where
  "watched view s d \<longleftrightarrow>
     (\<forall>t. timers s d = Some t \<and> active t \<and> enabled t \<longrightarrow>
        d \<in> pending_hangup s
        \<or> (\<exists>D. due view s d = Some D \<and> (\<forall>n \<ge> D. fst (next_timer_action n d s) \<noteq> None)))"

definition fits :: "timer_state \<Rightarrow> bool" where
  "fits t \<longleftrightarrow> session_interval t < secs (2 ^ 62) \<and> last_refresh t < secs (2 ^ 62)"

lemma next_timer_action_iff:
  "fst (next_timer_action n d s) \<noteq> None \<longleftrightarrow>
     (\<exists>t. timers s d = Some t \<and> (is_expired n t \<or> should_we_refresh t (is_uac_dialog s d) \<and> should_refresh n t))"
  by (auto simp: next_timer_action_def Let_def start_refresh_def is_uac_dialog_def should_refresh_def
      split: option.splits)

lemma watched_cong:
  assumes "timers s' d = timers s d" "due view s' d = due view s d" "caller_dialog s' = caller_dialog s"
    "d \<in> pending_hangup s \<Longrightarrow> d \<in> pending_hangup s'" "watched view s d"
  shows "watched view s' d"
  using assms unfolding watched_def next_timer_action_iff is_uac_dialog_def by simp metis

lemma frame_fields:
  assumes "s' = s\<lparr>timer_keys := K, timer_queue := Q\<rparr>"
  shows "timers s' = timers s" "caller_dialog s' = caller_dialog s" "pending_hangup s' = pending_hangup s"
  by (simp_all add: assms)

text \<open>The time span for which the queue is asked to wait ends with something to do.\<close>

definition wakes :: "('d, 'k, 'q) dialog_timers \<Rightarrow> 'd \<Rightarrow> instant \<Rightarrow> duration option \<Rightarrow> bool" where
  "wakes s d now w \<longleftrightarrow>
     (\<forall>t. timers s d = Some t \<and> active t \<and> enabled t \<longrightarrow>
        (\<exists>x. w = Some x \<and> (\<forall>n \<ge> now + x. fst (next_timer_action n d s) \<noteq> None)))"

definition rescheduled ::
    "('q \<Rightarrow> 'k \<rightharpoonup> 'd \<times> instant) \<Rightarrow> 'd \<Rightarrow> ('d, 'k, 'q) dialog_timers \<Rightarrow> ('d, 'k, 'q) dialog_timers \<Rightarrow> bool" where
  "rescheduled view d s s' \<longleftrightarrow> keys_ok view s' \<and> watched view s' d
     \<and> (\<forall>e. e \<noteq> d \<longrightarrow> due view s' e = due view s e) \<and> timers s' = timers s
     \<and> caller_dialog s' = caller_dialog s \<and> pending_hangup s' = pending_hangup s"

lemma schedule_watches:
  assumes "delay_queue_ok dq view" "keys_ok view s" "wakes s d now w"
  shows "\<exists>s'. schedule_timer_with_timeout dq now d w s = Ret s' \<and> rescheduled view d s s'"
proof -
  obtain s' where s': "schedule_timer_with_timeout dq now d w s = Ret s'" "keys_ok view s'"
    "due view s' = (due view s)(d := map_option (\<lambda>x. now + x) w)"
    "s' = s\<lparr>timer_keys := timer_keys s', timer_queue := timer_queue s'\<rparr>"
    using schedule_refines [OF assms(1,2)] by blast
  note f = frame_fields [OF s'(4)]
  have "watched view s' d"
    using assms(3) s'(3)
    unfolding watched_def wakes_def next_timer_action_iff f is_uac_dialog_def by fastforce
  with s' f show ?thesis by (auto simp: rescheduled_def)
qed

lemma schedule_timer_watches:
  assumes "delay_queue_ok dq view" "keys_ok view s" "timers s d = Some t" "\<not> refreshing t"
    "last_refresh t \<le> now" "fits t"
  shows "\<exists>s'. schedule_timer dq now d s = Ret s' \<and> rescheduled view d s s'"
proof -
  obtain w where w: "next_timeout_for_role now t (is_uac_dialog s d) = Ret w"
    using next_timeout_no_panic(1) assms(6) unfolding fits_def
    by (cases "next_timeout_for_role now t (is_uac_dialog s d)") auto
  have "wakes s d now w"
    unfolding wakes_def next_timer_action_iff
    using w assms(3,4) refresh_wakeup(1) [OF _ assms(5,4)] expiry_wakeup(1) [OF _ assms(5)]
    by (cases w) (auto simp: next_timeout_for_role_def time_until_refresh_def time_until_expiration_def
        next_refresh_time_def expiration_time_def map_run_Ret_iff split: if_splits
        intro: should_refresh_mono is_expired_mono)
  with schedule_watches [OF assms(1,2)] w assms(3) show ?thesis by (simp add: schedule_timer_def)
qed

lemma schedule_expiration_watches:
  assumes "delay_queue_ok dq view" "keys_ok view s" "timers s d = Some t"
    "last_refresh t \<le> now" "fits t"
  shows "\<exists>s'. schedule_expiration_timer dq now d s = Ret s' \<and> rescheduled view d s s'"
proof -
  obtain w where w: "time_until_expiration now t = Ret w"
    using next_timeout_no_panic(2) assms(5) unfolding fits_def
    by (cases "time_until_expiration now t") auto
  have "wakes s d now w"
    unfolding wakes_def next_timer_action_iff
    using w assms(3) expiry_wakeup(1) [OF _ assms(4)]
    by (cases w) (auto simp: time_until_expiration_def expiration_time_def map_run_Ret_iff split: if_splits
        intro: is_expired_mono)
  with schedule_watches [OF assms(1,2)] w assms(3) show ?thesis by (simp add: schedule_expiration_timer_def)
qed

lemma refresh_reschedules:
  assumes "delay_queue_ok dq view" "keys_ok view s1" "timers s1 d = Some t" "last_refresh t \<le> later"
    and times: "\<forall>r \<in> {update1 rs, update2 rs, reinvite1 rs, reinvite2 rs}. fst r \<le> later"
    and r: "send_dialog_session_refresh d rs b s1 = (res, s2)" and "\<forall>t. timers s2 d = Some t \<longrightarrow> fits t"
  shows "\<exists>s'. (case res of Inr _ \<Rightarrow> schedule_timer dq later d s2 | Inl _ \<Rightarrow> schedule_expiration_timer dq later d s2)
     = Ret s' \<and> rescheduled view d s2 s' \<and> only_dialog d s1 s2"
proof -
  note st = refresh_settles [OF assms(3) r]
  then have od: "only_dialog d s1 s2" by (simp add: settles_def)
  from st obtain t2 where t2: "timers s2 d = Some t2" "\<not> refreshing t2" "last_refresh t2 \<le> later"
    using assms(3,4) times by (auto simp: settles_def split: if_splits)
  from od assms(2) have k: "keys_ok view s2" by (simp add: only_dialog_def keys_ok_def)
  have f: "fits t2" using assms(7) t2(1) by blast
  show ?thesis
    using schedule_timer_watches [OF assms(1) k t2(1,2,3) f] schedule_expiration_watches [OF assms(1) k t2(1,3) f] od
    by (cases res) auto
qed

lemma rescheduled_watched:
  assumes "rescheduled view d s2 s'" "only_dialog d s1 s2" "\<forall>e. e \<noteq> d \<longrightarrow> watched view s1 e"
  shows "keys_ok view s' \<and> (\<forall>e. watched view s' e)"
proof -
  have "watched view s' e" if "e \<noteq> d" for e
  proof (rule watched_cong [of s' e s1])
    show "due view s' e = due view s1 e"
      using assms(1,2) that by (simp add: rescheduled_def only_dialog_def due_def)
  qed (use assms that in \<open>auto simp: rescheduled_def only_dialog_def\<close>)
  with assms(1) show ?thesis unfolding rescheduled_def by metis
qed

lemma timer_due_cases:
  assumes "next_timer_action now d s = (a, s1)"
  shows "s1 = s\<lparr>timer_keys := (timer_keys s)(d := None), timers := timers s1\<rparr>"
    and "a \<noteq> Some Refresh \<Longrightarrow> timers s1 = timers s"
    and "a = Some Refresh \<Longrightarrow> \<exists>t. timers s d = Some t \<and> timers s1 = (timers s)(d \<mapsto> t\<lparr>refreshing := True\<rparr>)"
  using assms by (auto simp: next_timer_action_def Let_def start_refresh_def split: option.splits if_splits)

text \<open>The event loop has taken a due entry out of the queue: all other timers are still watched, and so is
  this one when there is nothing to do.\<close>

lemma taken_watched:
  assumes "keys_ok view s" and "\<forall>e. watched view s e"
    and entry: "timer_keys s d = Some k" "view (timer_queue s) k = Some (d, D)" "D \<le> now"
    and taken: "view q = (view (timer_queue s))(k := None)"
    and a: "next_timer_action now d (s\<lparr>timer_queue := q\<rparr>) = (a, s1)"
  shows "keys_ok view s1" and "\<forall>e. e \<noteq> d \<or> a = None \<longrightarrow> watched view s1 e"
proof -
  note s1 = timer_due_cases [OF a, simplified]
  have base: "keys_ok view (s\<lparr>timer_keys := (timer_keys s)(d := None), timer_queue := q\<rparr>)"
    "due view (s\<lparr>timer_keys := (timer_keys s)(d := None), timer_queue := q\<rparr>) = (due view s)(d := None)"
    using keys_ok_delete [OF assms(1) entry(1) taken] by blast+
  show "keys_ok view s1" using base(1) by (subst s1(1)) (simp add: keys_ok_def)
  have d1: "due view s1 = (due view s)(d := None)" using base(2) by (subst s1(1)) (simp add: due_def fun_eq_iff)
  have c1: "caller_dialog s1 = caller_dialog s" "pending_hangup s1 = pending_hangup s"
    by (subst s1(1), simp)+
  have o1: "\<forall>e. e \<noteq> d \<longrightarrow> timers s1 e = timers s e"
    using s1(2,3) by (cases "a = Some Refresh") auto
  have "watched view s1 d" if "a = None"
  proof -
    have "fst (next_timer_action now d s) = fst (next_timer_action now d (s\<lparr>timer_queue := q\<rparr>))"
      by (auto simp: next_timer_action_def is_uac_dialog_def Let_def split: option.splits)
    moreover have "due view s d = Some D" using entry(1,2) by (simp add: due_def)
    ultimately show ?thesis
      using assms(2) [rule_format, of d] entry(3) s1(2) that c1 a by (auto simp: watched_def)
  qed
  with assms(2) d1 c1 o1 show "\<forall>e. e \<noteq> d \<or> a = None \<longrightarrow> watched view s1 e"
    by (metis watched_cong fun_upd_other)
qed



section \<open>Negotiation\<close>

text \<open>The interval and refresher a peer asks for, and the smallest interval in force for its request.\<close>

definition offered :: "headers \<Rightarrow> (duration \<times> refresher option) option" where
  "offered hs = Option.bind (get_header_value hs HEADER_SESSION_EXPIRES) parse_session_expires"

definition effective_min_se :: "headers \<Rightarrow> duration" where
  "effective_min_se hs =
     (case Option.bind (get_header_value hs HEADER_MIN_SE) parse_min_se of
        None \<Rightarrow> secs MIN_MIN_SE | Some m \<Rightarrow> max (secs MIN_MIN_SE) m)"

text \<open>negotiation with the caller.  An INVITE is refused with status 422 and the smallest interval in
  force exactly when it asks for a shorter one, and the call's state is not changed.  Otherwise the caller's timer is
  installed and scheduled: on exactly when the request has a readable \<open>Session-Expires\<close>, or none and
  the gateway forces timers, with an interval never below the smallest one, itself never below 90 seconds.\<close>

theorem server_negotiation:
  "if \<exists>i r. offered hs = Some (i, r) \<and> i < effective_min_se hs
   then init_server_timer dq now mode hs dflt s =
          (Inl (422, Some (string_of_nat (as_secs (effective_min_se hs)))), Ret s)
   else \<exists>t. init_server_timer dq now mode hs dflt s =
          (Inr (), schedule_timer dq now (caller_dialog s) (s\<lparr>timers := (timers s)(caller_dialog s \<mapsto> t)\<rparr>))
        \<and> min_se t = effective_min_se hs \<and> active t = enabled t \<and> \<not> refreshing t \<and> last_refresh t = now
        \<and> (enabled t \<longleftrightarrow> offered hs \<noteq> None \<or> (get_header_value hs HEADER_SESSION_EXPIRES = None \<and> mode = Always))
        \<and> (enabled t \<longrightarrow> secs 90 \<le> min_se t \<and> min_se t \<le> session_interval t)"
proof (cases "get_header_value hs HEADER_SESSION_EXPIRES")
  case None
  then show ?thesis
    by (auto simp: init_server_timer_def offered_def effective_min_se_def default_timer_def Let_def is_always_def
        MIN_MIN_SE_def max_def split: option.splits)
next
  case (Some v)
  then show ?thesis
    by (cases "parse_session_expires v")
      (auto simp: init_server_timer_def offered_def effective_min_se_def default_timer_def Let_def is_always_def
        MIN_MIN_SE_def SessionIntervalTooSmall_def max_def split: option.splits)
qed

lemma server_negotiation_witness:
  "init_server_timer slot_queue 0 Supported [Other ''session-expires'' ''60'', Other ''Min-SE'' ''30''] 1800 demo_session
    = (Inl (422, Some ''90''), Ret demo_session)"
proof -
  let ?hs = "[Other ''session-expires'' ''60'', Other ''Min-SE'' ''30'']"
  have v: "get_header_value ?hs HEADER_SESSION_EXPIRES = Some (string_of_nat 60)"
    "get_header_value ?hs HEADER_MIN_SE = Some (string_of_nat 30)" by code_simp+
  have s: "split_on (CHR '';'') (string_of_nat 60) = [string_of_nat 60]" by (rule split_on_absent) simp
  have m: "effective_min_se ?hs = secs 90"
    using v(2) by (simp add: effective_min_se_def parse_min_se_def MIN_MIN_SE_def u64_max_def max_def)
  have "\<exists>i r. offered ?hs = Some (i, r) \<and> i < effective_min_se ?hs"
    using v(1) s m by (simp add: offered_def parse_session_expires_def u64_max_def)
  with server_negotiation [of ?hs slot_queue 0 Supported 1800 demo_session] m show ?thesis
    by (simp add: string_of_nat.simps)
qed

text \<open>No such check towards the callee.  A 200 OK with a \<open>Session-Expires\<close> of 0 seconds is accepted: the
  callee's timer is due at once and the action the event loop finds is to hang up the call.\<close>

theorem callee_zero_interval_expires:
  assumes "delay_queue_ok dq view" and "keys_ok view s" and "now < instant_limit"
    and "offered hs = Some (0, r)"
  shows "\<exists>s'. init_callee_timer dq now mode d hs requested s = Ret s' \<and> due view s' d = Some now
    \<and> fst (next_timer_action now d s') = Some Expired"
proof -
  let ?t = "(default_timer now)\<lparr>t_mode := mode, enabled := True, active := True, last_refresh := now,
    session_interval := 0, t_refresher := select_client_timer_refresher r\<rparr>"
  let ?s = "s\<lparr>timers := (timers s)(d \<mapsto> ?t)\<rparr>"
  have w: "next_timeout_for_role now ?t b = Ret (Some 0)" for b
    using assms(3) by (simp add: timer_test_defs instant_add_def)
  have k: "keys_ok view ?s" using assms(2) by (simp add: keys_ok_def)
  from schedule_refines [OF assms(1) k, of now d "Some 0"] obtain s' where
    s': "schedule_timer_with_timeout dq now d (Some 0) ?s = Ret s'" "due view s' = (due view ?s)(d := Some now)"
    "s' = ?s\<lparr>timer_keys := timer_keys s', timer_queue := timer_queue s'\<rparr>" by auto
  from frame_fields(1) [OF s'(3)] have "fst (next_timer_action now d s') = Some Expired"
    by (simp add: next_timer_action_def is_expired_def elapsed_def Let_def)
  moreover have "init_callee_timer dq now mode d hs requested s = Ret s'"
    using assms(4) s'(1) w by (simp add: init_callee_timer_def offered_def schedule_timer_def Let_def)
  ultimately show ?thesis using s'(2) by simp
qed

lemma callee_zero_interval_expires_witness:
  "\<exists>s'. init_callee_timer slot_queue 5 Supported 1 [Other ''Session-Expires'' ''0''] (secs 1800) demo_session = Ret s'
    \<and> due slot_view s' 1 = Some 5 \<and> fst (next_timer_action 5 1 s') = Some Expired"
proof (rule callee_zero_interval_expires [OF slot_queue_ok demo_keys_ok, of _ _ None])
  have "get_header_value [Other ''Session-Expires'' ''0''] HEADER_SESSION_EXPIRES = Some (string_of_nat 0)" by code_simp
  moreover have "split_on (CHR '';'') (string_of_nat 0) = [string_of_nat 0]" by (rule split_on_absent) simp
  ultimately show "offered [Other ''Session-Expires'' ''0''] = Some (0, None)"
    by (simp add: offered_def parse_session_expires_def secs_def)
qed (simp add: instant_limit_def secs_def)

end
