(* ===== verification/Call_Queue.thy ===== *)
theory Call_Queue
  imports Prelude "HOL-Library.Multiset"
begin

text \<open>
  The queues of waiting legs, \<open>src/src/call/runtime/queue_manager.rs\<close>: one queue ordered by priority and the
  manager of all queues.  The contract of a queue (legs wait in the order of their priority and, within one
  priority, of their arrival) is the abstract specification at the end: a queue is the stable sort of the
  arrivals that have not left.
\<close>

section \<open>One queue\<close>

record queue_entry =
  qe_leg :: leg_id
  qe_session :: string
  qe_priority :: nat
  qe_enqueued_at :: instant
  qe_position_announcements :: bool

definition queue_entry_new :: "instant \<Rightarrow> leg_id \<Rightarrow> string \<Rightarrow> nat option \<Rightarrow> queue_entry" where
  "queue_entry_new now leg session priority =
     \<lparr>qe_leg = leg, qe_session = session, qe_priority = (case priority of Some p \<Rightarrow> p | None \<Rightarrow> 5),
      qe_enqueued_at = now, qe_position_announcements = True\<rparr>"

record call_queue =
  cq_id :: string
  cq_entries :: "queue_entry list"
  cq_max_wait_time :: "duration option"
  cq_announcement_interval :: "duration option"

definition call_queue_new :: "string \<Rightarrow> call_queue" where
  "call_queue_new i =
     \<lparr>cq_id = i, cq_entries = [], cq_max_wait_time = None, cq_announcement_interval = Some (secs 30)\<rparr>"

definition cq_enqueue :: "queue_entry \<Rightarrow> call_queue \<Rightarrow> nat \<times> call_queue" where
  "cq_enqueue entry q =
     (let pos = (case position (\<lambda>e. qe_priority entry < qe_priority e) (cq_entries q) of
                   Some i \<Rightarrow> i | None \<Rightarrow> length (cq_entries q))
      in (pos + 1, q\<lparr>cq_entries := insert_at pos entry (cq_entries q)\<rparr>))"

definition cq_dequeue :: "leg_id \<Rightarrow> call_queue \<Rightarrow> queue_entry option \<times> call_queue" where
  "cq_dequeue leg q =
     (case position (\<lambda>e. qe_leg e = leg) (cq_entries q) of
        Some i \<Rightarrow> (Some (cq_entries q ! i), q\<lparr>cq_entries := remove_at i (cq_entries q)\<rparr>)
      | None \<Rightarrow> (None, q))"

definition cq_get_position :: "leg_id \<Rightarrow> call_queue \<Rightarrow> nat option" where
  "cq_get_position leg q = map_option Suc (position (\<lambda>e. qe_leg e = leg) (cq_entries q))"

definition cq_len :: "call_queue \<Rightarrow> nat" where
  "cq_len q = length (cq_entries q)"

definition cq_is_empty :: "call_queue \<Rightarrow> bool" where
  "cq_is_empty q \<longleftrightarrow> cq_entries q = []"

section \<open>The manager\<close>

type_synonym queue_manager = "(string, call_queue) hmap"

definition queue_or_new :: "string \<Rightarrow> queue_manager \<Rightarrow> call_queue" where
  "queue_or_new i m = (case hm_get m i of Some q \<Rightarrow> q | None \<Rightarrow> call_queue_new i)"

definition get_or_create_queue :: "string \<Rightarrow> queue_manager \<Rightarrow> call_queue \<times> queue_manager" where
  "get_or_create_queue i m = (let q = queue_or_new i m in (q, hm_insert i q m))"

definition get_queue :: "string \<Rightarrow> queue_manager \<Rightarrow> call_queue option" where
  "get_queue i m = hm_get m i"

definition qm_enqueue ::
    "instant \<Rightarrow> string \<Rightarrow> leg_id \<Rightarrow> string \<Rightarrow> nat option \<Rightarrow> queue_manager \<Rightarrow> nat result \<times> queue_manager" where
  "qm_enqueue now i leg session priority m =
     (case cq_enqueue (queue_entry_new now leg session priority) (queue_or_new i m) of
        (pos, q) \<Rightarrow> (Inr pos, hm_insert i q m))"

definition queue_not_found :: "string \<Rightarrow> err" where
  "queue_not_found i = ''Queue not found: '' @ i"

definition leg_not_queued :: "leg_id \<Rightarrow> string \<Rightarrow> err" where
  "leg_not_queued leg i = ''Leg '' @ leg @ '' not found in queue '' @ i"

definition qm_dequeue :: "string \<Rightarrow> leg_id \<Rightarrow> queue_manager \<Rightarrow> queue_entry result \<times> queue_manager" where
  "qm_dequeue i leg m =
     (case hm_get m i of
        None \<Rightarrow> (Inl (queue_not_found i), m)
      | Some q \<Rightarrow>
          (case cq_dequeue leg q of
             (Some e, q') \<Rightarrow> (Inr e, hm_insert i q' m)
           | (None, _) \<Rightarrow> (Inl (leg_not_queued leg i), m)))"

definition qm_get_position :: "string \<Rightarrow> leg_id \<Rightarrow> queue_manager \<Rightarrow> nat result" where
  "qm_get_position i leg m =
     (case hm_get m i of
        None \<Rightarrow> Inl (queue_not_found i)
      | Some q \<Rightarrow>
          (case cq_get_position leg q of Some p \<Rightarrow> Inr p | None \<Rightarrow> Inl (leg_not_queued leg i)))"

record queue_stats =
  qs_queue_id :: string
  qs_length :: nat
  qs_wait_times :: "duration list"

definition get_queue_stats :: "instant \<Rightarrow> string \<Rightarrow> queue_manager \<Rightarrow> queue_stats result" where
  "get_queue_stats now i m =
     (case hm_get m i of
        None \<Rightarrow> Inl (queue_not_found i)
      | Some q \<Rightarrow> Inr \<lparr>qs_queue_id = i, qs_length = cq_len q,
                       qs_wait_times = map (\<lambda>e. now - qe_enqueued_at e) (cq_entries q)\<rparr>)"

definition list_queues :: "queue_manager \<Rightarrow> string list" where
  "list_queues m = hm_keys m"

definition remove_queue_if_empty :: "string \<Rightarrow> queue_manager \<Rightarrow> bool result \<times> queue_manager" where
  "remove_queue_if_empty i m =
     (case hm_get m i of
        Some q \<Rightarrow> if cq_is_empty q then (Inr True, hm_remove i m) else (Inr False, m)
      | None \<Rightarrow> (Inr False, m))"

definition get_queue_entries :: "string \<Rightarrow> queue_manager \<Rightarrow> queue_entry list result" where
  "get_queue_entries i m =
     (case hm_get m i of None \<Rightarrow> Inl (queue_not_found i) | Some q \<Rightarrow> Inr (cq_entries q))"

section \<open>Insertion and removal in a sorted list\<close>

definition insert_after :: "('a \<Rightarrow> nat) \<Rightarrow> 'a \<Rightarrow> 'a list \<Rightarrow> 'a list" where
  "insert_after f x xs = takeWhile (\<lambda>y. f y \<le> f x) xs @ x # dropWhile (\<lambda>y. f y \<le> f x) xs"

lemma position_takeWhile:
  "(case position P xs of Some i \<Rightarrow> i | None \<Rightarrow> length xs) = length (takeWhile (\<lambda>x. \<not> P x) xs)"
  by (induction xs) (auto split: option.splits)

lemma insert_at_takeWhile:
  "insert_at (length (takeWhile P xs)) x xs = takeWhile P xs @ x # dropWhile P xs"
  by (simp add: insert_at_def takeWhile_eq_take [symmetric] dropWhile_eq_drop [symmetric])

lemma cq_enqueue_alt:
  "cq_enqueue e q =
     (Suc (length (takeWhile (\<lambda>x. qe_priority x \<le> qe_priority e) (cq_entries q))),
      q\<lparr>cq_entries := insert_after qe_priority e (cq_entries q)\<rparr>)"
  by (simp add: cq_enqueue_def position_takeWhile insert_at_takeWhile insert_after_def Let_def not_less)

lemma sorted_takeWhile_filter:
  "sorted (map f xs) \<Longrightarrow> takeWhile (\<lambda>y. f y \<le> c) xs = filter (\<lambda>y. f y \<le> c) xs"
  by (induction xs) (auto intro!: filter_False [symmetric] dest: order_trans)

lemma sorted_dropWhile_filter:
  "sorted (map f xs) \<Longrightarrow> dropWhile (\<lambda>y. f y \<le> c) xs = filter (\<lambda>y. \<not> f y \<le> c) xs"
  by (induction xs) (auto intro!: filter_True [symmetric])

text \<open>Inserting after the entries of the same priority is the stable sort of the arrivals.\<close>

lemma insert_after_sort_key: "insert_after f x (sort_key f xs) = sort_key f (xs @ [x])"
proof (rule properties_for_sort_key [symmetric])
  let ?s = "sort_key f xs"
  have split: "insert_after f x ?s = filter (\<lambda>y. f y \<le> f x) ?s @ x # filter (\<lambda>y. \<not> f y \<le> f x) ?s"
    by (simp add: insert_after_def sorted_takeWhile_filter sorted_dropWhile_filter)
  show "mset (insert_after f x ?s) = mset (xs @ [x])"
    unfolding split using multiset_partition [of "mset xs" "\<lambda>y. f y \<le> f x"] by simp
  show "sorted (map f (insert_after f x ?s))"
    unfolding split by (auto simp: sorted_append sorted_map_same intro: sorted_filter)
  show "filter (\<lambda>y. f k = f y) (insert_after f x ?s) = filter (\<lambda>y. f k = f y) (xs @ [x])"
    if "k \<in> set (insert_after f x ?s)" for k
  proof -
    have st: "filter (\<lambda>y. f k = f y) ?s = filter (\<lambda>y. f k = f y) xs" 
      using sort_key_stable [of f "f k" xs] by (simp only: eq_commute [of "f k"])
    have "filter (\<lambda>y. f k = f y) (filter (\<lambda>y. f y \<le> f x) ?s) = (if f k \<le> f x then filter (\<lambda>y. f k = f y) xs else [])"
      "filter (\<lambda>y. f k = f y) (filter (\<lambda>y. \<not> f y \<le> f x) ?s) = (if f k \<le> f x then [] else filter (\<lambda>y. f k = f y) xs)"
      unfolding st [symmetric] filter_filter by (auto simp: filter_empty_conv intro!: filter_cong)
    then show ?thesis unfolding split by (auto simp: filter_empty_conv)
  qed
qed

lemma remove_at_position: "position P xs = Some i \<Longrightarrow> remove_at i xs = remove1 (xs ! i) xs"
proof (induction xs arbitrary: i)
  case (Cons x xs)
  show ?case
  proof (cases "P x")
    case False
    with Cons.prems obtain j where j: "position P xs = Some j" "i = Suc j" by auto
    with position_Some [OF j(1)] False have "xs ! j \<noteq> x" by auto
    with Cons.IH [OF j(1)] j(2) show ?thesis by (simp add: remove_at_def)
  qed (use Cons.prems in \<open>simp add: remove_at_def\<close>)
qed simp

lemma find_position: "List.find P xs = map_option ((!) xs) (position P xs)"
  by (induction xs) (auto simp: option.map_comp comp_def)

lemma sort_key_remove1: "sort_key f (remove1 x xs) = remove1 x (sort_key f xs)"
proof (rule properties_for_sort_key)
  show "filter (\<lambda>y. f k = f y) (remove1 x (sort_key f xs)) = filter (\<lambda>y. f k = f y) (remove1 x xs)" for k
    using sort_key_stable [of f "f k" xs] by (simp add: filter_remove1 eq_commute [of "f k"])
qed (simp_all add: sorted_map_remove1)

section \<open>The contract\<close>

text \<open>The operations that change the queues, and the specification: for every queue the arrivals that have not
  left, in the order of arrival.\<close>

datatype queue_op =
    Enq instant string leg_id string "nat option"
  | Deq string leg_id
  | Create string
  | Cleanup string

fun qm_step :: "queue_op \<Rightarrow> queue_manager \<Rightarrow> queue_manager" where
  "qm_step (Enq now i leg session priority) m = snd (qm_enqueue now i leg session priority m)"
| "qm_step (Deq i leg) m = snd (qm_dequeue i leg m)"
| "qm_step (Create i) m = snd (get_or_create_queue i m)"
| "qm_step (Cleanup i) m = snd (remove_queue_if_empty i m)"

definition served :: "leg_id \<Rightarrow> queue_entry list \<Rightarrow> queue_entry option" where
  "served leg as = List.find (\<lambda>e. qe_leg e = leg) (sort_key qe_priority as)"

fun arrivals_step :: "queue_op \<Rightarrow> (string \<Rightarrow> queue_entry list) \<Rightarrow> string \<Rightarrow> queue_entry list" where
  "arrivals_step (Enq now i leg session priority) as = as(i := as i @ [queue_entry_new now leg session priority])"
| "arrivals_step (Deq i leg) as = (case served leg (as i) of Some e \<Rightarrow> as(i := remove1 e (as i)) | None \<Rightarrow> as)"
| "arrivals_step (Create i) as = as"
| "arrivals_step (Cleanup i) as = as"

definition waiting :: "queue_manager \<Rightarrow> string \<Rightarrow> queue_entry list" where
  "waiting m i = cq_entries (queue_or_new i m)"

lemma waiting_Nil [simp]: "waiting [] i = []"
  by (simp add: waiting_def queue_or_new_def call_queue_new_def)

lemma waiting_insert [simp]: "waiting (hm_insert i q m) j = (if j = i then cq_entries q else waiting m j)"
  by (simp add: waiting_def queue_or_new_def)

lemma waiting_dequeue:
  "waiting (snd (qm_dequeue i leg m)) =
     (case List.find (\<lambda>e. qe_leg e = leg) (waiting m i) of
        Some e \<Rightarrow> (waiting m)(i := remove1 e (waiting m i)) | None \<Rightarrow> waiting m)"
proof (cases "hm_get m i")
  case None
  then show ?thesis
    by (auto simp: qm_dequeue_def waiting_def [of m i] queue_or_new_def call_queue_new_def)
next
  case (Some q)
  then have w: "waiting m i = cq_entries q" by (simp add: waiting_def queue_or_new_def)
  show ?thesis
    using remove_at_position [of "\<lambda>e. qe_leg e = leg" "cq_entries q"]
    by (auto simp: qm_dequeue_def Some cq_dequeue_def w find_position split: option.split)
qed

lemma waiting_cleanup: "waiting (snd (remove_queue_if_empty i m)) = waiting m"
  by (auto simp: remove_queue_if_empty_def cq_is_empty_def waiting_def queue_or_new_def call_queue_new_def
      split: option.split)

text \<open>One step of the manager is one step of the specification.\<close>

lemma waiting_step:
  assumes "\<And>i. waiting m i = sort_key qe_priority (as i)"
  shows "waiting (qm_step op m) i = sort_key qe_priority (arrivals_step op as i)"
proof (cases op)
  case (Enq now j leg session priority)
  have "waiting (qm_step op m) = (waiting m)(j := insert_after qe_priority (queue_entry_new now leg session priority) (waiting m j))"
    by (auto simp: Enq qm_enqueue_def cq_enqueue_alt waiting_def [of m])
  then show ?thesis using assms by (simp add: Enq insert_after_sort_key)
next
  case (Deq j leg)
  then show ?thesis
    using assms by (simp add: waiting_dequeue served_def sort_key_remove1 split: option.split)
next
  case (Create j)
  then show ?thesis using assms by (auto simp: get_or_create_queue_def Let_def waiting_def [of m])
next
  case (Cleanup j)
  then show ?thesis using assms by (simp add: waiting_cleanup)
qed

lemma waiting_run:
  "(\<And>i. waiting m i = sort_key qe_priority (as i)) \<Longrightarrow>
     waiting (fold qm_step ops m) i = sort_key qe_priority (fold arrivals_step ops as i)"
  by (induction ops arbitrary: m as) (simp_all add: waiting_step)

lemmas waiting_from_empty = waiting_run [of "[]" "\<lambda>_. []", simplified]

text \<open>C14: A queue serves by priority and, within one priority, first come first served.  After any sequence of
  operations on the queues, the entries of every queue are the stable sort by priority of the legs that have
  arrived in it and have not been taken out; creating a queue and removing empty queues loses nobody.\<close>

theorem queue_is_stable_sort:
  "waiting (fold qm_step ops []) i = sort_key qe_priority (fold arrivals_step ops (\<lambda>_. []) i)"
  by (rule waiting_from_empty)

lemma waiting_sorted: "sorted (map qe_priority (waiting (fold qm_step ops []) i))"
  by (simp add: waiting_from_empty)

lemma position_Some_insert:
  "(\<forall>y \<in> set xs. \<not> P y) \<Longrightarrow> P x \<Longrightarrow> position P (xs @ x # ys) = Some (length xs)"
  by (induction xs) auto

text \<open>The position a leg is told is its place in line.  In every state the operations reach, the position that
  enqueueing returns is one more than the number of waiting legs whose priority is at least as urgent, and
  asking for the position of the leg, when it was not waiting already, gives the same number.\<close>

theorem queue_position_exact:
  assumes "m = fold qm_step ops []" and "qm_enqueue now i leg session priority m = (r, m')"
  shows "r = Inr (Suc (length (filter (\<lambda>e. qe_priority e \<le> (case priority of Some p \<Rightarrow> p | None \<Rightarrow> 5)) (waiting m i))))
         \<and> (leg \<notin> qe_leg ` set (waiting m i) \<longrightarrow> qm_get_position i leg m' = r)"
proof -
  let ?e = "queue_entry_new now leg session priority"
  let ?before = "takeWhile (\<lambda>x. qe_priority x \<le> qe_priority ?e) (waiting m i)"
  have p: "qe_priority ?e = (case priority of Some p \<Rightarrow> p | None \<Rightarrow> 5)" "qe_leg ?e = leg"
    by (simp_all add: queue_entry_new_def)
  have r: "r = Inr (Suc (length ?before))" and m': "hm_get m' i = Some ((queue_or_new i m)\<lparr>cq_entries :=
      insert_after qe_priority ?e (waiting m i)\<rparr>)"
    using assms(2) by (auto simp: qm_enqueue_def cq_enqueue_alt waiting_def)
  have "qm_get_position i leg m' = r" if "leg \<notin> qe_leg ` set (waiting m i)"
  proof -
    have "\<forall>e \<in> set ?before. qe_leg e \<noteq> leg" using that by (auto dest: set_takeWhileD)
    then have "position (\<lambda>e. qe_leg e = leg) (insert_after qe_priority ?e (waiting m i)) = Some (length ?before)"
      unfolding insert_after_def by (rule position_Some_insert) (rule p(2))
    then show ?thesis by (simp add: qm_get_position_def m' cq_get_position_def r)
  qed
  then show ?thesis
    using r p(1) waiting_sorted [of ops i] assms(1) by (simp add: sorted_takeWhile_filter)
qed

definition demo_arrivals :: "queue_op list" where
  "demo_arrivals = [Enq 1 ''q'' ''a'' ''s'' None, Enq 2 ''q'' ''b'' ''s'' (Some 1), Enq 3 ''q'' ''c'' ''s'' None, Deq ''q'' ''b'']"

theorem queue_position_exact_witness:
  "fst (qm_enqueue 4 ''q'' ''d'' ''s'' (Some 5) (fold qm_step demo_arrivals [])) = Inr 3"
proof -
  let ?m = "fold qm_step demo_arrivals []"
  have "waiting ?m ''q'' = [queue_entry_new 1 ''a'' ''s'' None, queue_entry_new 3 ''c'' ''s'' None]"
    unfolding waiting_from_empty by (simp add: demo_arrivals_def served_def queue_entry_new_def)
  then show ?thesis
    using queue_position_exact [of ?m demo_arrivals 4 "''q''" "''d''" "''s''" "Some 5"]
    by (cases "qm_enqueue 4 ''q'' ''d'' ''s'' (Some 5) ?m") (auto simp: queue_entry_new_def)
qed

end
