(* ===== verification/Call_App.thy ===== *)
theory Call_App
  imports Call_Registry
begin

text \<open>
  The framework of call applications, \<open>src/src/call/app/\<close>: the actions a handler returns (\<open>mod.rs\<close>), the controller
  an application drives its call with (\<open>controller.rs\<close>: commands, timers, collection of digits) and the event loop that
  dispatches the events to the application (\<open>event_loop.rs\<close>).  The trait \<open>CallApp\<close> is a record of handlers over the
  state of the application.  A handler works on the application's state and the controller and returns an action or
  an error.  Everything that comes from outside (events, fired timers, cancellation) is the input of the loop, with
  the times at which it happens.
\<close>

section \<open>Actions and events\<close>

datatype 's app_action =
    Continue
  | Exit
  | TransferTo string
  | Chain 's
  | HangupCall "hangup_reason option" "nat option"
  | Sleep duration

datatype exit_reason = ExNormal | ExHangup | ExRemoteHangup "hangup_reason option" | ExTransferred | ExChained | ExCancelled
  | ExError string

text \<open>JSON objects as far as the applications read them: named values, of which the texts are used.\<close>

datatype json = JStr string | JNum nat | JOther

type_synonym json_data = "(string, json) hmap"

definition get_str :: "string \<Rightarrow> json_data \<Rightarrow> string option" where
  "get_str key data = (case hm_get data key of Some (JStr s) \<Rightarrow> Some s | _ \<Rightarrow> None)"

record recording_info =
  rec_path :: string
  rec_duration :: duration
  rec_size_bytes :: nat

datatype controller_event =
    DtmfReceived string
  | AudioComplete string bool
  | RecordingComplete recording_info
  | CallHangup "hangup_reason option"
  | Timeout string
  | CustomEvent string json_data

section \<open>The controller\<close>

datatype ctl_command =
    CmdAnswer leg_id
  | CmdHangup "hangup_reason option" "nat option"
  | CmdTransfer leg_id string bool
  | CmdPlay string bool bool string
  | CmdStopPlayback
  | CmdStartRecording string "nat option" bool
  | CmdStopRecording
  | CmdLegAdd string leg_id
  | CmdInjectAppEvent string json_data

text \<open>
  The session behind the controller accepts commands while it is open; \<open>ctl_sent\<close> is what it was sent.  New identifiers
  come from a supply.  A timer is a task with the time at which it wakes up.
\<close>

record controller =
  ctl_open :: bool
  ctl_sent :: "ctl_command list"
  ctl_uuid :: "nat \<Rightarrow> string"
  ctl_uuids_used :: nat
  ctl_timers :: "(string \<times> instant) list"
  ctl_cancelled :: "string list"

definition controller_new :: "(nat \<Rightarrow> string) \<Rightarrow> controller" where
  "controller_new uuid = \<lparr>ctl_open = True, ctl_sent = [], ctl_uuid = uuid, ctl_uuids_used = 0, ctl_timers = [], ctl_cancelled = []\<rparr>"

definition send_command :: "ctl_command \<Rightarrow> controller \<Rightarrow> unit result \<times> controller" where
  "send_command cmd c =
     (if ctl_open c then (Inr (), c\<lparr>ctl_sent := ctl_sent c @ [cmd]\<rparr>) else (Inl ''channel closed'', c))"

definition ctl_answer :: "controller \<Rightarrow> unit result \<times> controller" where
  "ctl_answer = send_command (CmdAnswer ''caller'')"

definition ctl_hangup :: "hangup_reason option \<Rightarrow> nat option \<Rightarrow> controller \<Rightarrow> unit result \<times> controller" where
  "ctl_hangup reason code = send_command (CmdHangup reason code)"

definition ctl_transfer :: "string \<Rightarrow> controller \<Rightarrow> unit result \<times> controller" where
  "ctl_transfer target = send_command (CmdTransfer ''caller'' target False)"

definition new_uuid :: "controller \<Rightarrow> string \<times> controller" where
  "new_uuid c = (ctl_uuid c (ctl_uuids_used c), c\<lparr>ctl_uuids_used := ctl_uuids_used c + 1\<rparr>)"

definition play_audio_with_options ::
  "string \<Rightarrow> string option \<Rightarrow> bool \<Rightarrow> bool \<Rightarrow> controller \<Rightarrow> string result \<times> controller" where
  "play_audio_with_options path track loop_playback interruptible c =
     (let (track_id, c1) = (case track of Some t \<Rightarrow> (t, c) | None \<Rightarrow> new_uuid c)
      in case send_command (CmdPlay path loop_playback interruptible track_id) c1 of
           (Inl e, c2) \<Rightarrow> (Inl e, c2)
         | (Inr _, c2) \<Rightarrow> (Inr track_id, c2))"

definition play_audio :: "string \<Rightarrow> bool \<Rightarrow> controller \<Rightarrow> string result \<times> controller" where
  "play_audio file interruptible = play_audio_with_options file None False interruptible"

definition stop_audio :: "controller \<Rightarrow> unit result \<times> controller" where
  "stop_audio = send_command CmdStopPlayback"

definition set_timeout :: "instant \<Rightarrow> string \<Rightarrow> duration \<Rightarrow> controller \<Rightarrow> controller" where
  "set_timeout now i delay c =
     c\<lparr>ctl_cancelled := removeAll i (ctl_cancelled c), ctl_timers := ctl_timers c @ [(i, now + delay)]\<rparr>"

definition cancel_timeout :: "string \<Rightarrow> controller \<Rightarrow> controller" where
  "cancel_timeout i c = c\<lparr>ctl_cancelled := List.insert i (ctl_cancelled c)\<rparr>"

text \<open>The task of the \<open>k\<close>-th timer wakes up: it reports the timer, or takes the cancellation away and reports nothing.\<close>

definition timer_wakes :: "nat \<Rightarrow> controller \<Rightarrow> string option \<times> controller" where
  "timer_wakes k c =
     (let i = fst (ctl_timers c ! k); c1 = c\<lparr>ctl_timers := remove_at k (ctl_timers c)\<rparr>
      in if i \<in> set (ctl_cancelled c1) then (None, c1\<lparr>ctl_cancelled := removeAll i (ctl_cancelled c1)\<rparr>)
         else (Some i, c1))"

definition start_recording :: "string \<Rightarrow> duration option \<Rightarrow> bool \<Rightarrow> controller \<Rightarrow> string result \<times> controller" where
  "start_recording path max_duration beep c =
     (case send_command (CmdStartRecording path (map_option (\<lambda>d. as_secs d mod 2 ^ 32) max_duration) beep) c of
        (Inl e, c1) \<Rightarrow> (Inl e, c1)
      | (Inr _, c1) \<Rightarrow> (Inr path, c1))"

text \<open>Waiting for the end of a recording: the inbox is what arrives, \<open>None\<close> that the channel is closed; an inbox that
  ends before leaves the operation waiting.\<close>

datatype 'a wait = Done "'a result" | Waiting

fun stop_recording_loop :: "controller_event option list \<Rightarrow> recording_info wait \<times> controller_event option list" where
  "stop_recording_loop [] = (Waiting, [])"
| "stop_recording_loop (Some (RecordingComplete info) # rest) = (Done (Inr info), rest)"
| "stop_recording_loop (Some (CallHangup r) # rest) = (Done (Inl ''Call hung up while stopping recording''), rest)"
| "stop_recording_loop (None # rest) = (Done (Inl ''Event channel closed''), rest)"
| "stop_recording_loop (Some _ # rest) = stop_recording_loop rest"

definition stop_recording ::
  "controller_event option list \<Rightarrow> controller \<Rightarrow> (recording_info wait \<times> controller_event option list) \<times> controller" where
  "stop_recording inbox c =
     (case send_command CmdStopRecording c of
        (Inl e, c1) \<Rightarrow> ((Done (Inl e), inbox), c1)
      | (Inr _, c1) \<Rightarrow> (stop_recording_loop inbox, c1))"

definition originate_call :: "string \<Rightarrow> string option \<Rightarrow> controller \<Rightarrow> string result \<times> controller" where
  "originate_call target caller_id c =
     (let (call_id, c1) = new_uuid c
      in case send_command (CmdLegAdd target call_id) c1 of
           (Inl e, c2) \<Rightarrow> (Inl e, c2)
         | (Inr _, c2) \<Rightarrow> (Inr call_id, c2))"

definition notify_event :: "string \<Rightarrow> json_data \<Rightarrow> controller \<Rightarrow> unit result \<times> controller" where
  "notify_event name data = send_command (CmdInjectAppEvent name data)"

section \<open>Collecting digits\<close>

record dtmf_collect_config =
  min_digits :: nat
  max_digits :: nat
  dc_timeout :: duration
  terminator :: "char option"
  play_prompt :: "string option"
  inter_digit_timeout :: "duration option"

text \<open>
  The inbox carries the arrival times; an event that arrives before the loop looks is taken at once.  The result is the
  collected text or an error, and the time at which the collection ends.
\<close>

definition digit_wait :: "dtmf_collect_config \<Rightarrow> string \<Rightarrow> duration \<Rightarrow> duration" where
  "digit_wait cfg collected remaining =
     (if collected \<noteq> []
      then (case inter_digit_timeout cfg of Some idt \<Rightarrow> min idt remaining | None \<Rightarrow> remaining)
      else remaining)"

fun collect_loop :: "dtmf_collect_config \<Rightarrow> instant \<Rightarrow> instant \<Rightarrow> string \<Rightarrow> (instant \<times> controller_event option) list \<Rightarrow> string result \<times> instant" where
  "collect_loop cfg deadline now collected inbox =
     (let remaining = deadline - now; wait = digit_wait cfg collected remaining
      in if remaining = 0 then (Inr collected, now)
         else case inbox of
           [] \<Rightarrow> (Inr collected, now + wait)
         | (t, ev) # rest \<Rightarrow>
             if now + wait \<le> t then (Inr collected, now + wait)
             else let now' = max now t in
               (case ev of
                  Some (DtmfReceived digit) \<Rightarrow>
                    (if (case terminator cfg of Some c \<Rightarrow> c \<in> set digit | None \<Rightarrow> False) then (Inr collected, now')
                     else let collected' = collected @ digit in
                          if max_digits cfg \<le> length collected' then (Inr collected', now')
                          else collect_loop cfg deadline now' collected' rest)
                | Some (CallHangup r) \<Rightarrow> (Inl ''call hung up during DTMF collection'', now')
                | None \<Rightarrow> (Inl ''event channel closed'', now')
                | Some _ \<Rightarrow> collect_loop cfg deadline now' collected rest))"

definition collect_dtmf ::
  "dtmf_collect_config \<Rightarrow> instant \<Rightarrow> (instant \<times> controller_event option) list \<Rightarrow> controller \<Rightarrow> (string result \<times> instant) \<times> controller" where
  "collect_dtmf cfg now inbox c =
     (case (case play_prompt cfg of Some p \<Rightarrow> map_prod (map_sum id (\<lambda>_. ())) id (play_audio p True c) | None \<Rightarrow> (Inr (), c)) of
        (Inl e, c1) \<Rightarrow> ((Inl e, now), c1)
      | (Inr _, c1) \<Rightarrow> (collect_loop cfg (now + dc_timeout cfg) now [] inbox, c1))"

section \<open>Applications and the event loop\<close>

type_synonym 's handler = "'s \<times> controller \<Rightarrow> 's app_action result \<times> ('s \<times> controller)"

record 's call_app =
  on_enter :: "instant \<Rightarrow> 's handler"
  on_dtmf :: "instant \<Rightarrow> string \<Rightarrow> 's handler"
  on_audio_complete :: "instant \<Rightarrow> string \<Rightarrow> 's handler"
  on_record_complete :: "instant \<Rightarrow> recording_info \<Rightarrow> 's handler"
  on_external_event :: "instant \<Rightarrow> string \<Rightarrow> json_data \<Rightarrow> 's handler"
  on_timeout :: "instant \<Rightarrow> string \<Rightarrow> 's handler"
  on_exit :: "instant \<Rightarrow> exit_reason \<Rightarrow> 's \<Rightarrow> unit result \<times> 's"

text \<open>What the loop waits for: an event of the controller (\<open>None\<close> when its channel is closed), a fired timer, or the
  cancellation of the application.\<close>

datatype loop_event = FromController "controller_event option" | TimerFired string | CancelToken

definition leave :: "'s call_app \<Rightarrow> instant \<Rightarrow> exit_reason \<Rightarrow> 's \<times> controller \<Rightarrow> unit result \<times> ('s \<times> controller)" where
  "leave app now reason = (\<lambda>(s, c). let (res, s') = on_exit app now reason s in (res, (s', c)))"

text \<open>\<open>?\<close>: an error ends the function, otherwise it goes on.\<close>

fun and_then :: "'a result \<times> 'w \<Rightarrow> ('a \<Rightarrow> 'w \<Rightarrow> 'b result \<times> 'w) \<Rightarrow> 'b result \<times> 'w" where
  "and_then (Inl e, w) f = (Inl e, w)"
| "and_then (Inr a, w) f = f a w"

definition handle_next_event :: "'s call_app \<Rightarrow> instant \<Rightarrow> loop_event \<Rightarrow> 's handler" where
  "handle_next_event app now ev sc =
     (case ev of
        FromController (Some (DtmfReceived digit)) \<Rightarrow> on_dtmf app now digit sc
      | FromController (Some (AudioComplete track interrupted)) \<Rightarrow>
          if interrupted then (Inr Continue, sc) else on_audio_complete app now track sc
      | FromController (Some (RecordingComplete info)) \<Rightarrow> on_record_complete app now info sc
      | FromController (Some (CallHangup reason)) \<Rightarrow>
          and_then (leave app now (ExRemoteHangup reason) sc) (\<lambda>_ sc. (Inr Exit, sc))
      | FromController (Some (Timeout i)) \<Rightarrow> on_timeout app now i sc
      | FromController (Some (CustomEvent name data)) \<Rightarrow> on_external_event app now name data sc
      | FromController None \<Rightarrow> (Inr Exit, sc)
      | TimerFired i \<Rightarrow> on_timeout app now i sc
      | CancelToken \<Rightarrow> and_then (leave app now ExCancelled sc) (\<lambda>_ sc. (Inr Exit, sc)))"

datatype 's outcome = Ended "unit result" "'s \<times> controller" | StillWaiting "'s \<times> controller"

definition control :: "(controller \<Rightarrow> unit result \<times> controller) \<Rightarrow> 's \<times> controller \<Rightarrow> unit result \<times> ('s \<times> controller)" where
  "control f = (\<lambda>(s, c). let (res, c') = f c in (res, (s, c')))"

definition ended :: "unit result \<times> ('s \<times> controller) \<Rightarrow> 's outcome option" where
  "ended r = Some (Ended (fst r) (snd r))"

text \<open>
  The loop, by fuel: an application could chain to itself for ever.  The input of one round is its time, what happened,
  and whether the token has been cancelled when the handler is done.
\<close>

fun app_loop :: "nat \<Rightarrow> 's call_app \<Rightarrow> (instant \<times> loop_event \<times> bool) list \<Rightarrow> 's app_action \<Rightarrow> instant \<Rightarrow> bool \<Rightarrow> 's \<times> controller
    \<Rightarrow> 's outcome option" where
  "app_loop 0 app evs action now cancelled sc = None"
| "app_loop (Suc n) app evs action now cancelled sc =
     (if cancelled then ended (leave app now ExCancelled sc)
      else case action of
        Continue \<Rightarrow>
          (case evs of
             [] \<Rightarrow> Some (StillWaiting sc)
           | (t, ev, cancelled') # rest \<Rightarrow>
               (case handle_next_event app t ev sc of
                  (Inl e, sc') \<Rightarrow> Some (Ended (Inl e) sc')
                | (Inr action', sc') \<Rightarrow> app_loop n app rest action' t (cancelled' \<or> ev = CancelToken) sc'))
      | Exit \<Rightarrow> ended (leave app now ExNormal sc)
      | HangupCall reason code \<Rightarrow>
          ended (and_then (control (ctl_hangup reason code) sc) (\<lambda>_. leave app now ExHangup))
      | TransferTo target \<Rightarrow>
          ended (and_then (control (ctl_transfer target) sc) (\<lambda>_. leave app now ExTransferred))
      | Chain s' \<Rightarrow>
          (case and_then (leave app now ExChained sc) (\<lambda>_ (s, c). on_enter app now (s', c)) of
             (Inl e, sc') \<Rightarrow> Some (Ended (Inl e) sc')
           | (Inr action', sc') \<Rightarrow> app_loop n app evs action' now False sc')
      | Sleep d \<Rightarrow> app_loop n app evs Continue (now + d) False sc)"

definition app_run :: "nat \<Rightarrow> 's call_app \<Rightarrow> (instant \<times> loop_event \<times> bool) list \<Rightarrow> instant \<Rightarrow> bool \<Rightarrow> 's \<times> controller \<Rightarrow> 's outcome option" where
  "app_run n app evs now cancelled sc =
     (case on_enter app now sc of
        (Inl e, sc') \<Rightarrow> Some (Ended (Inl e) sc')
      | (Inr action, sc') \<Rightarrow> app_loop n app evs action now cancelled sc')"

declare collect_loop.simps [simp del]

section \<open>Collected digits\<close>

fun digits_of :: "(instant \<times> controller_event option) list \<Rightarrow> string" where
  "digits_of [] = []"
| "digits_of ((t, Some (DtmfReceived d)) # rest) = d @ digits_of rest"
| "digits_of ((t, _) # rest) = digits_of rest"

definition single_digits :: "(instant \<times> controller_event option) list \<Rightarrow> bool" where
  "single_digits inbox \<longleftrightarrow> (\<forall>(t, ev) \<in> set inbox. \<forall>d. ev = Some (DtmfReceived d) \<longrightarrow> length d = 1)"

lemma digit_wait_le: "digit_wait cfg collected remaining \<le> remaining"
  by (simp add: digit_wait_def split: option.split)

lemma collect_loop_Nil:
  "collect_loop cfg deadline now collected [] =
     (Inr collected, if deadline - now = 0 then now else now + digit_wait cfg collected (deadline - now))"
  by (subst collect_loop.simps) (simp add: Let_def)

lemma collect_loop_Cons:
  "collect_loop cfg deadline now collected ((t, ev) # rest) =
     (if deadline - now = 0 then (Inr collected, now)
      else if now + digit_wait cfg collected (deadline - now) \<le> t
        then (Inr collected, now + digit_wait cfg collected (deadline - now))
      else case ev of
             Some (DtmfReceived digit) \<Rightarrow>
               if (case terminator cfg of Some c \<Rightarrow> c \<in> set digit | None \<Rightarrow> False) then (Inr collected, max now t)
               else if max_digits cfg \<le> length (collected @ digit) then (Inr (collected @ digit), max now t)
               else collect_loop cfg deadline (max now t) (collected @ digit) rest
           | Some (CallHangup r) \<Rightarrow> (Inl ''call hung up during DTMF collection'', max now t)
           | None \<Rightarrow> (Inl ''event channel closed'', max now t)
           | Some _ \<Rightarrow> collect_loop cfg deadline (max now t) collected rest)"
  by (subst collect_loop.simps) (simp add: Let_def split: option.split controller_event.split)

lemma single_digits_Cons:
  "single_digits ((t, ev) # rest) \<longleftrightarrow> (\<forall>d. ev = Some (DtmfReceived d) \<longrightarrow> length d = 1) \<and> single_digits rest"
  by (auto simp: single_digits_def)

definition collected_ok :: "dtmf_collect_config \<Rightarrow> instant \<Rightarrow> string \<Rightarrow> (instant \<times> controller_event option) list \<Rightarrow> string result \<times> instant \<Rightarrow> bool" where
  "collected_ok cfg deadline collected inbox rt \<longleftrightarrow> snd rt \<le> deadline
     \<and> (case fst rt of Inl e \<Rightarrow> True
        | Inr s \<Rightarrow> (\<exists>k. s = collected @ take k (digits_of inbox))
            \<and> (single_digits inbox \<longrightarrow> length s \<le> max (length collected) (max 1 (max_digits cfg))))"

lemma collected_ok_self: "t \<le> deadline \<Longrightarrow> collected_ok cfg deadline collected inbox (Inr collected, t)"
  by (auto simp: collected_ok_def intro: exI [of _ 0])

lemma collected_ok_skip:
  "collected_ok cfg deadline collected rest rt \<Longrightarrow> digits_of ((t, ev) # rest) = digits_of rest \<Longrightarrow>
     collected_ok cfg deadline collected ((t, ev) # rest) rt"
  by (simp add: collected_ok_def single_digits_Cons split: sum.splits)

lemma collected_ok_digit:
  assumes "collected_ok cfg deadline (collected @ d) rest rt" and "length (collected @ d) < max_digits cfg"
  shows "collected_ok cfg deadline collected ((t, Some (DtmfReceived d)) # rest) rt"
proof -
  have "\<exists>k. (collected @ d) @ take m (digits_of rest) = collected @ take k (d @ digits_of rest)" for m
    by (rule exI [of _ "length d + m"]) simp
  then show ?thesis
    using assms by (auto simp: collected_ok_def single_digits_Cons split: sum.splits)
qed

lemma collected_ok_last:
  "t \<le> deadline \<Longrightarrow> \<not> max_digits cfg \<le> length collected \<or> collected = [] \<Longrightarrow>
     collected_ok cfg deadline collected ((t0, Some (DtmfReceived d)) # rest) (Inr (collected @ d), t)"
  by (auto simp: collected_ok_def single_digits_Cons intro: exI [of _ "length d"])

lemma collect_loop_ok:
  "now \<le> deadline \<Longrightarrow> length collected < max_digits cfg \<or> collected = [] \<Longrightarrow>
     collected_ok cfg deadline collected inbox (collect_loop cfg deadline now collected inbox)"
proof (induction inbox arbitrary: now collected)
  case Nil
  then show ?case
    using digit_wait_le [of cfg collected "deadline - now"] by (simp add: collect_loop_Nil collected_ok_self)
next
  case (Cons te rest)
  obtain t ev where te: "te = (t, ev)" by fastforce
  let ?wait = "digit_wait cfg collected (deadline - now)"
  have w: "now + ?wait \<le> deadline" using digit_wait_le [of cfg collected "deadline - now"] Cons.prems(1) by simp
  show ?case
  proof (cases "deadline - now = 0 \<or> now + ?wait \<le> t")
    case True
    then show ?thesis using Cons.prems(1) w by (auto simp: te collect_loop_Cons collected_ok_self)
  next
    case False
    then have now': "max now t \<le> deadline" using w Cons.prems(1) by auto
    have skip: "collected_ok cfg deadline collected ((t, ev) # rest) (collect_loop cfg deadline (max now t) collected rest)"
      if "digits_of ((t, ev) # rest) = digits_of rest"
      using Cons.IH [OF now' Cons.prems(2)] that by (rule collected_ok_skip)
    show ?thesis
    proof (cases "\<exists>d. ev = Some (DtmfReceived d)")
      case True
      then obtain d where ev: "ev = Some (DtmfReceived d)" by blast
      show ?thesis
      proof (cases "max_digits cfg \<le> length (collected @ d)")
        case True
        then show ?thesis using False now' Cons.prems(2)
            collected_ok_last [of "max now t" deadline cfg collected t d rest]
          by (auto simp: te ev collect_loop_Cons collected_ok_self)
      next
        case False': False
        then have "collected_ok cfg deadline collected ((t, ev) # rest)
            (collect_loop cfg deadline (max now t) (collected @ d) rest)"
          unfolding ev using Cons.IH [OF now'] by (intro collected_ok_digit) simp_all
        then show ?thesis using False False' now' by (auto simp: te ev collect_loop_Cons collected_ok_self)
      qed
    next
      case ev: False
      then show ?thesis using False now' skip
        by (auto simp: te collect_loop_Cons collected_ok_def split: option.splits controller_event.splits)
    qed
  qed
qed

text \<open>Collecting digits ends in time with digits that were pressed.  Whatever arrives, the collection ends at the
  deadline at the latest; what it returns is the beginning of the digits that arrived, and if digits arrive one by one
  it is no longer than asked for (or one digit, when none was asked for).\<close>

theorem collect_dtmf_in_time:
  assumes "collect_dtmf cfg now inbox c = ((r, t), c')"
  shows "t \<le> now + dc_timeout cfg
     \<and> (\<forall>s. r = Inr s \<longrightarrow> (\<exists>k. s = take k (digits_of inbox)) \<and> (single_digits inbox \<longrightarrow> length s \<le> max 1 (max_digits cfg)))"
proof -
  have "collected_ok cfg (now + dc_timeout cfg) [] inbox (collect_loop cfg (now + dc_timeout cfg) now [] inbox)"
    by (rule collect_loop_ok) simp_all
  then show ?thesis
    using assms by (auto simp: collect_dtmf_def collected_ok_def split: prod.splits sum.splits)
qed

section \<open>The loop ends\<close>

definition no_chain :: "'s app_action result \<times> ('s \<times> controller) \<Rightarrow> bool" where
  "no_chain r \<longleftrightarrow> (\<forall>s. fst r \<noteq> Inr (Chain s))"

text \<open>An application that never chains to another one.\<close>

definition never_chains :: "'s call_app \<Rightarrow> bool" where
  "never_chains app \<longleftrightarrow> (\<forall>now sc. no_chain (on_enter app now sc)
     \<and> (\<forall>d. no_chain (on_dtmf app now d sc)) \<and> (\<forall>t. no_chain (on_audio_complete app now t sc))
     \<and> (\<forall>i. no_chain (on_record_complete app now i sc)) \<and> (\<forall>n d. no_chain (on_external_event app now n d sc))
     \<and> (\<forall>i. no_chain (on_timeout app now i sc)))"

lemma and_then_no_chain: "no_chain (and_then r (\<lambda>_ sc. (Inr Exit, sc)))"
  by (cases r; cases "fst r") (auto simp: no_chain_def)

lemma no_chain_simps [simp]: "no_chain (Inr Continue, sc)" "no_chain (Inr Exit, sc)"
  by (simp_all add: no_chain_def)

lemma handle_no_chain: "never_chains app \<Longrightarrow> no_chain (handle_next_event app now ev sc)"
  unfolding handle_next_event_def never_chains_def
  by (auto simp: and_then_no_chain simp del: split_paired_All split: loop_event.split option.split controller_event.split)

lemma app_loop_result:
  assumes "never_chains app"
  shows "2 * length evs + 2 \<le> n \<Longrightarrow> (\<forall>s. action \<noteq> Chain s) \<Longrightarrow>
    app_loop n app evs action now cancelled sc \<noteq> None"
proof (induction evs arbitrary: n action now cancelled sc)
  case Nil
  then obtain m where "n = Suc (Suc m)" by (auto dest: le_Suc_ex)
  then show ?case using Nil.prems(2) by (cases action) (auto simp: ended_def)
next
  case (Cons te evs)
  obtain t ev c where te: "te = (t, ev, c)" by (metis prod_cases3)
  have step: "app_loop (Suc m) app (te # evs) Continue now' b sc \<noteq> None" if "2 * length evs + 2 \<le> m" for m now' b
  proof -
    obtain r sc' where Pair: "handle_next_event app t ev sc = (r, sc')" by (rule prod.exhaust)
    have "\<forall>s. r \<noteq> Inr (Chain s)" using handle_no_chain [OF assms, of t ev sc] by (simp add: no_chain_def Pair)
    then show ?thesis using Cons.IH [OF that] by (cases r) (simp_all add: te Pair ended_def)
  qed
  obtain m where m: "n = Suc (Suc m)" "2 * length evs + 2 \<le> m" using Cons.prems(1) by (auto dest!: le_Suc_ex)
  show ?case
  proof (cases action)
    case Continue
    then show ?thesis unfolding m(1) Continue by (intro step) (use m(2) in simp)
  next
    case (Sleep d)
    then show ?thesis using step [OF m(2), of "now + d" False] by (simp only: m(1) app_loop.simps(2)) (simp add: ended_def)
  next
    case (Chain s)
    then show ?thesis using Cons.prems(2) by blast
  qed (simp_all add: m(1) ended_def)
qed


section \<open>Leaving twice\<close>

text \<open>When the caller hangs up, the application is told twice that it ends.  The handler of the hangup calls
  \<open>on_exit\<close> and returns \<open>Exit\<close>, for which the loop calls \<open>on_exit\<close> again, with the reason of a normal end.\<close>

theorem hangup_exits_twice:
  assumes "on_exit app t (ExRemoteHangup reason) s = (Inr (), s1)" and "on_exit app t ExNormal s1 = (res, s2)"
  shows "app_loop (Suc (Suc n)) app ((t, FromController (Some (CallHangup reason)), False) # evs) Continue now False (s, c)
         = Some (Ended res (s2, c))"
  using assms by (simp add: handle_next_event_def leave_def ended_def)

section \<open>Timers\<close>

text \<open>Setting a timer again does not replace it.  After a timer is set twice under one name both tasks report it,
  the older one at its old time, although setting it again is documented to cancel the previous one.\<close>

theorem timer_set_again_fires_twice:
  assumes "c' = set_timeout t2 i d2 (set_timeout t1 i d1 c)" and "k = length (ctl_timers c)"
  shows "ctl_timers c' ! k = (i, t1 + d1) \<and> ctl_timers c' ! Suc k = (i, t2 + d2)
     \<and> fst (timer_wakes k c') = Some i \<and> fst (timer_wakes k (snd (timer_wakes k c'))) = Some i"
proof -
  let ?ts = "ctl_timers c"
  have ts: "ctl_timers c' = ?ts @ [(i, t1 + d1), (i, t2 + d2)]" "i \<notin> set (ctl_cancelled c')"
    by (simp_all add: assms(1) set_timeout_def)
  have "remove_at k (ctl_timers c') = ?ts @ [(i, t2 + d2)]" by (simp add: ts assms(2) remove_at_def)
  then show ?thesis
    using ts by (simp add: assms(2) timer_wakes_def Let_def nth_append)
qed

text \<open>A timer that is cancelled while it is pending is not reported.\<close>

lemma cancelled_timer_is_silent:
  "k < length (ctl_timers c) \<Longrightarrow> fst (timer_wakes k (cancel_timeout (fst (ctl_timers c ! k)) c)) = None"
  by (simp add: timer_wakes_def cancel_timeout_def Let_def)

section \<open>Contracts of applications\<close>

text \<open>
  The contract of an application: an invariant of its state that every handler keeps, the errors a handler may end
  with, and that it does not chain.  It carries over to whole runs: with enough fuel the application has ended or waits,
  the invariant holds, and if it ended with an error, it is one of those.
\<close>

definition handled :: "('s \<Rightarrow> bool) \<Rightarrow> err set \<Rightarrow> 'a result \<times> ('s \<times> controller) \<Rightarrow> bool" where
  "handled I E r \<longleftrightarrow> I (fst (snd r)) \<and> (\<forall>e. fst r = Inl e \<longrightarrow> e \<in> E)"

definition good_outcome :: "('s \<Rightarrow> bool) \<Rightarrow> err set \<Rightarrow> 's outcome \<Rightarrow> bool" where
  "good_outcome I E out = (case out of Ended r sc \<Rightarrow> handled I E (r, sc) | StillWaiting sc \<Rightarrow> I (fst sc))"

lemma handled_and_then:
  "handled I E r \<Longrightarrow> (\<And>x sc. I (fst sc) \<Longrightarrow> handled I E (f x sc)) \<Longrightarrow> handled I E (and_then r f)"
  by (cases r; cases "fst r") (auto simp: handled_def)

lemma handled_Inr [simp]: "handled I E (Inr x, sc) = I (fst sc)"
  by (simp add: handled_def)

locale app_contract =
  fixes app :: "'s call_app" and I :: "'s \<Rightarrow> bool" and E :: "err set"
  assumes enter_ok: "I (fst sc) \<Longrightarrow> handled I E (on_enter app now sc) \<and> no_chain (on_enter app now sc)"
    and dtmf_ok: "I (fst sc) \<Longrightarrow> handled I E (on_dtmf app now d sc) \<and> no_chain (on_dtmf app now d sc)"
    and audio_ok: "I (fst sc) \<Longrightarrow> handled I E (on_audio_complete app now t sc) \<and> no_chain (on_audio_complete app now t sc)"
    and record_ok: "I (fst sc) \<Longrightarrow> handled I E (on_record_complete app now i sc) \<and> no_chain (on_record_complete app now i sc)"
    and external_ok: "I (fst sc) \<Longrightarrow>
      handled I E (on_external_event app now name data sc) \<and> no_chain (on_external_event app now name data sc)"
    and timeout_ok: "I (fst sc) \<Longrightarrow> handled I E (on_timeout app now tid sc) \<and> no_chain (on_timeout app now tid sc)"
    and exit_ok: "I s \<Longrightarrow> I (snd (on_exit app now reason s)) \<and> (\<forall>e. fst (on_exit app now reason s) = Inl e \<longrightarrow> e \<in> E)"
    and closed_ok: "''channel closed'' \<in> E"
begin

lemma leave_handled: "I (fst sc) \<Longrightarrow> handled I E (leave app now reason sc)"
  using exit_ok [of "fst sc" now reason] by (cases sc) (auto simp: leave_def handled_def split: prod.split)

lemma send_handled: "I (fst sc) \<Longrightarrow> handled I E (control (send_command cmd) sc)"
  using closed_ok by (cases sc) (simp add: control_def send_command_def handled_def)

lemma event_handled:
  "I (fst sc) \<Longrightarrow> handled I E (handle_next_event app now ev sc) \<and> no_chain (handle_next_event app now ev sc)"
  using dtmf_ok [of sc] audio_ok [of sc] record_ok [of sc] external_ok [of sc] timeout_ok [of sc] leave_handled [of sc]
  by (auto simp: handle_next_event_def and_then_no_chain intro!: handled_and_then
      split: loop_event.split option.split controller_event.split)

lemma final_outcome:
  assumes "I (fst sc)"
  shows "good_outcome I E (Ended (fst (leave app now reason sc)) (snd (leave app now reason sc)))"
    "good_outcome I E (Ended (fst (and_then (control (send_command cmd) sc) (\<lambda>_. leave app now reason)))
       (snd (and_then (control (send_command cmd) sc) (\<lambda>_. leave app now reason))))"
  using leave_handled [OF assms] handled_and_then [OF send_handled [OF assms, of cmd], of "\<lambda>_. leave app now reason"] leave_handled
  by (simp_all add: good_outcome_def)

lemma loop_contract:
  "I (fst sc) \<Longrightarrow> 2 * length evs + 2 \<le> n \<Longrightarrow> (\<forall>s. action \<noteq> Chain s) \<Longrightarrow>
     \<exists>out. app_loop n app evs action now cancelled sc = Some out \<and> good_outcome I E out"
proof (induction evs arbitrary: n action now cancelled sc)
  case Nil
  then obtain m where "n = Suc (Suc m)" by (auto dest: le_Suc_ex)
  then show ?case using Nil.prems final_outcome [OF Nil.prems(1)]
    by (cases action) (auto simp: ended_def ctl_hangup_def ctl_transfer_def good_outcome_def)
next
  case (Cons te evs)
  obtain t ev b where te: "te = (t, ev, b)" by (metis prod_cases3)
  have step: "\<exists>out. app_loop (Suc m) app (te # evs) Continue now' False sc = Some out \<and> good_outcome I E out"
    if "2 * length evs + 2 \<le> m" for m now'
  proof -
    obtain r sc' where r: "handle_next_event app t ev sc = (r, sc')" by (rule prod.exhaust)
    then have "handled I E (r, sc')" "\<forall>s. r \<noteq> Inr (Chain s)"
      using event_handled [OF Cons.prems(1), of t ev] by (simp_all add: no_chain_def)
    then show ?thesis using Cons.IH [OF _ that, of sc'] by (cases r) (simp_all add: te r good_outcome_def handled_def)
  qed
  obtain m where m: "n = Suc (Suc m)" "2 * length evs + 2 \<le> m" using Cons.prems(2) by (auto dest!: le_Suc_ex)
  show ?case
  proof (cases "cancelled \<or> action = Continue \<or> (\<exists>d. action = Sleep d)")
    case True
    moreover have "\<exists>out. app_loop n app (te # evs) Continue now False sc = Some out \<and> good_outcome I E out"
      unfolding m(1) by (rule step) (use m(2) in simp)
    moreover have "\<exists>out. app_loop (Suc m) app (te # evs) Continue now' False sc = Some out \<and> good_outcome I E out" for now'
      by (rule step) (rule m(2))
    ultimately show ?thesis
      using final_outcome [OF Cons.prems(1)] by (cases cancelled) (auto simp: m(1) ended_def)
  next
    case False
    then show ?thesis using Cons.prems(3) final_outcome [OF Cons.prems(1)]
      by (cases action) (auto simp: m(1) ended_def ctl_hangup_def ctl_transfer_def)
  qed
qed

lemma run_contract:
  assumes "I (fst sc)" "2 * length evs + 2 \<le> n"
  shows "\<exists>out. app_run n app evs now cancelled sc = Some out \<and> good_outcome I E out"
proof -
  obtain r sc' where r: "on_enter app now sc = (r, sc')" by (rule prod.exhaust)
  then have "handled I E (r, sc')" "\<forall>s. r \<noteq> Inr (Chain s)" using enter_ok [OF assms(1), of now] by (simp_all add: no_chain_def)
  then show ?thesis using loop_contract [of sc' evs n] assms(2) by (cases r) (auto simp: app_run_def r good_outcome_def handled_def)
qed

end

section \<open>Evaluation of the framework\<close>

definition demo_app :: "nat call_app" where
  "demo_app =
     \<lparr>on_enter = \<lambda>now sc. (Inr Continue, sc), on_dtmf = \<lambda>now d sc. (Inr (Sleep 1), sc),
      on_audio_complete = \<lambda>now t sc. (Inr Continue, sc), on_record_complete = \<lambda>now i sc. (Inr Continue, sc),
      on_external_event = \<lambda>now n d sc. (Inr Continue, sc), on_timeout = \<lambda>now i sc. (Inr Exit, sc),
      on_exit = \<lambda>now r s. (Inr (), s + 1)\<rparr>"

theorem collect_dtmf_in_time_witness:
  "\<exists>t c'. collect_dtmf \<lparr>min_digits = 1, max_digits = 2, dc_timeout = 10, terminator = None, play_prompt = None,
      inter_digit_timeout = None\<rparr> 0 [(3, Some (DtmfReceived ''7'')), (4, Some (DtmfReceived ''8'')), (5, Some (DtmfReceived ''9''))]
      (controller_new (\<lambda>n. [])) = ((Inr ''78'', t), c') \<and> t \<le> 10"
proof -
  let ?cfg = "\<lparr>min_digits = 1, max_digits = 2, dc_timeout = 10, terminator = None, play_prompt = None, inter_digit_timeout = None\<rparr>"
  let ?in = "[(3, Some (DtmfReceived ''7'')), (4, Some (DtmfReceived ''8'')), (5, Some (DtmfReceived ''9''))]"
  have eq: "collect_dtmf ?cfg 0 ?in (controller_new (\<lambda>n. [])) = ((Inr ''78'', 4), controller_new (\<lambda>n. []))"
    by (simp add: collect_dtmf_def collect_loop_Cons digit_wait_def)
  from collect_dtmf_in_time [OF eq] show ?thesis by (simp only: eq) simp
qed


theorem hangup_exits_twice_witness:
  "app_loop 2 demo_app [(3, FromController (Some (CallHangup None)), False)] Continue 0 False (0, controller_new (\<lambda>n. []))
     = Some (Ended (Inr ()) (2, controller_new (\<lambda>n. [])))"
  using hangup_exits_twice [of demo_app 3 None 0 1 "Inr ()" 2 0 "[]" 0 "controller_new (\<lambda>n. [])"]
  by (simp add: demo_app_def numeral_2_eq_2)

theorem timer_set_again_fires_twice_witness:
  "fst (timer_wakes 0 (set_timeout 5 ''t'' 10 (set_timeout 0 ''t'' 10 (controller_new (\<lambda>n. []))))) = Some ''t''"
  using timer_set_again_fires_twice [OF refl refl, of 5 "''t''" 10 0 10 "controller_new (\<lambda>n. [])"]
  by (simp add: controller_new_def)

end
