(* ===== verification/Agents.thy ===== *)
theory Agents
  imports Prelude "HOL-Library.Multiset"
begin

text \<open>
  The agents of a call centre, \<open>src/src/call/app/agent_registry.rs\<close>: presence states, agent records, selection
  strategies, and the trait \<open>AgentRegistry\<close> with its implementations in memory and on a database
  (\<open>agent_registry/memory.rs\<close>, \<open>agent_registry/db.rs\<close>).  The contract of the trait is the locale
  \<open>agent_registry\<close>; both implementations are instances of it, and what a call queue relies on (a selected agent is
  free and skilled, an agent on a call is not selected) is proved once in the locale.  Counters of calls are natural
  numbers: they are far from their width of 32 and 64 bits.
\<close>

section \<open>Presence\<close>

datatype presence_state = Offline | Away | Available | PsRinging | Busy | Wrapup | Dnd | Custom string

definition can_receive_calls :: "presence_state \<Rightarrow> bool" where
  "can_receive_calls p \<longleftrightarrow> p = Available"

definition is_call_active :: "presence_state \<Rightarrow> bool" where
  "is_call_active p \<longleftrightarrow> p = PsRinging \<or> p = Busy"

fun is_custom :: "presence_state \<Rightarrow> bool" where
  "is_custom (Custom _) = True"
| "is_custom _ = False"

fun custom_name :: "presence_state \<Rightarrow> string option" where
  "custom_name (Custom name) = Some name"
| "custom_name _ = None"

fun presence_as_str :: "presence_state \<Rightarrow> string" where
  "presence_as_str Offline = ''offline''"
| "presence_as_str Away = ''away''"
| "presence_as_str Available = ''available''"
| "presence_as_str PsRinging = ''ringing''"
| "presence_as_str Busy = ''busy''"
| "presence_as_str Wrapup = ''wrapup''"
| "presence_as_str Dnd = ''dnd''"
| "presence_as_str (Custom name) = ''custom:'' @ name"

definition parse_state :: "string \<Rightarrow> presence_state option" where
  "parse_state s =
     (if s = ''offline'' then Some Offline
      else if s = ''away'' then Some Away
      else if s = ''available'' then Some Available
      else if s = ''ringing'' then Some PsRinging
      else if s = ''busy'' then Some Busy
      else if s = ''wrapup'' then Some Wrapup
      else if s = ''dnd'' then Some Dnd
      else case strip_prefix ''custom:'' s of
             Some name \<Rightarrow> if name \<noteq> [] then Some (Custom name) else None
           | None \<Rightarrow> None)"

fun presence_display_name :: "presence_state \<Rightarrow> string" where
  "presence_display_name Offline = ''Offline''"
| "presence_display_name Away = ''Away''"
| "presence_display_name Available = ''Available''"
| "presence_display_name PsRinging = ''Ringing''"
| "presence_display_name Busy = ''Busy''"
| "presence_display_name Wrapup = ''Wrap-up''"
| "presence_display_name Dnd = ''Do Not Disturb''"
| "presence_display_name (Custom name) = name"

definition is_valid_transition :: "presence_state \<Rightarrow> presence_state \<Rightarrow> bool" where
  "is_valid_transition from to =
     (case (from, to) of
        (_, Offline) \<Rightarrow> True
      | (Away, Available) \<Rightarrow> True | (Wrapup, Available) \<Rightarrow> True | (Dnd, Available) \<Rightarrow> True | (Custom _, Available) \<Rightarrow> True
      | (Available, PsRinging) \<Rightarrow> True
      | (PsRinging, Busy) \<Rightarrow> True
      | (Busy, Wrapup) \<Rightarrow> True
      | (Available, Away) \<Rightarrow> True | (Available, Dnd) \<Rightarrow> True | (Custom _, Away) \<Rightarrow> True | (Custom _, Dnd) \<Rightarrow> True
      | (Available, Custom _) \<Rightarrow> True | (Away, Custom _) \<Rightarrow> True | (Dnd, Custom _) \<Rightarrow> True | (Wrapup, Custom _) \<Rightarrow> True
      | (a, b) \<Rightarrow> a = b)"

section \<open>Agents and strategies\<close>

record agent_record =
  agent_id :: string
  display_name :: string
  agent_uri :: string
  skills :: "string list"
  max_concurrency :: nat
  current_calls :: nat
  presence :: presence_state
  last_state_change :: instant
  total_calls_handled :: nat
  total_talk_time_secs :: nat
  last_call_end :: "instant option"
  custom_data :: "(string, string) hmap"

definition has_capacity :: "agent_record \<Rightarrow> bool" where
  "has_capacity a \<longleftrightarrow> current_calls a < max_concurrency a \<and> can_receive_calls (presence a)"

definition has_skills :: "string list \<Rightarrow> agent_record \<Rightarrow> bool" where
  "has_skills required a \<longleftrightarrow> required = [] \<or> (\<forall>s \<in> set required. s \<in> set (skills a))"

definition idle_duration :: "instant \<Rightarrow> agent_record \<Rightarrow> duration" where
  "idle_duration now a = (case last_call_end a of Some t \<Rightarrow> now - t | None \<Rightarrow> secs u64_max)"

datatype routing_strategy = LongestIdle | RoundRobin | SkillBased | LeastCalls | External

fun strategy_as_str :: "routing_strategy \<Rightarrow> string" where
  "strategy_as_str LongestIdle = ''longest_idle''"
| "strategy_as_str RoundRobin = ''round_robin''"
| "strategy_as_str SkillBased = ''skill_based''"
| "strategy_as_str LeastCalls = ''least_calls''"
| "strategy_as_str External = ''external''"

text \<open>\<open>sort_by\<close> is stable; the orders that put the greatest first sort by the negated key.\<close>

definition select_best_agent ::
  "instant \<Rightarrow> agent_record list \<Rightarrow> routing_strategy \<Rightarrow> nat \<Rightarrow> agent_record option \<times> nat" where
  "select_best_agent now candidates strategy rr_counter =
     (if candidates = [] then (None, rr_counter)
      else case strategy of
        LongestIdle \<Rightarrow> (Some (hd (sort_key (\<lambda>a. - int (idle_duration now a)) candidates)), rr_counter)
      | RoundRobin \<Rightarrow> (Some (candidates ! (rr_counter mod length candidates)), rr_counter + 1)
      | SkillBased \<Rightarrow> (Some (hd (sort_key (\<lambda>a. - int (length (skills a))) candidates)), rr_counter)
      | LeastCalls \<Rightarrow> (Some (hd (sort_key total_calls_handled candidates)), rr_counter)
      | External \<Rightarrow> (Some (hd candidates), rr_counter))"

section \<open>The registry in memory\<close>

text \<open>The handlers are named by numbers; \<open>ag_notified\<close> is the list of the calls of handlers so far.\<close>

record agent_store =
  ag_agents :: "(string, agent_record) hmap"
  ag_rr_counter :: nat
  ag_handlers :: "nat list"
  ag_notified :: "(nat \<times> agent_record) list"

definition store_new :: agent_store where
  "store_new = \<lparr>ag_agents = [], ag_rr_counter = 0, ag_handlers = [], ag_notified = []\<rparr>"

definition notify_handlers :: "agent_record \<Rightarrow> agent_store \<Rightarrow> agent_store" where
  "notify_handlers a s = s\<lparr>ag_notified := ag_notified s @ map (\<lambda>h. (h, a)) (ag_handlers s)\<rparr>"

definition agent_not_found :: "string \<Rightarrow> err" where
  "agent_not_found i = ''Agent '' @ i @ '' not found''"

definition agent_new :: "instant \<Rightarrow> string \<Rightarrow> string \<Rightarrow> string \<Rightarrow> string list \<Rightarrow> nat \<Rightarrow> agent_record" where
  "agent_new now i name uri sk maxc =
     \<lparr>agent_id = i, display_name = name, agent_uri = uri, skills = sk, max_concurrency = maxc, current_calls = 0,
      presence = Available, last_state_change = now, total_calls_handled = 0, total_talk_time_secs = 0,
      last_call_end = None, custom_data = []\<rparr>"

definition mem_register ::
  "instant \<Rightarrow> string \<Rightarrow> string \<Rightarrow> string \<Rightarrow> string list \<Rightarrow> nat \<Rightarrow> agent_store \<Rightarrow> unit result \<times> agent_store" where
  "mem_register now i name uri sk maxc s =
     (if hm_get (ag_agents s) i \<noteq> None then (Inl (''Agent '' @ i @ '' already registered''), s)
      else let a = agent_new now i name uri sk maxc
           in (Inr (), notify_handlers a (s\<lparr>ag_agents := hm_insert i a (ag_agents s)\<rparr>)))"

definition mem_unregister :: "string \<Rightarrow> agent_store \<Rightarrow> unit result \<times> agent_store" where
  "mem_unregister i s =
     (if hm_get (ag_agents s) i \<noteq> None then (Inr (), s\<lparr>ag_agents := hm_remove i (ag_agents s)\<rparr>)
      else (Inl (agent_not_found i), s))"

definition mem_get_agent :: "agent_store \<Rightarrow> string \<Rightarrow> agent_record option" where
  "mem_get_agent s i = hm_get (ag_agents s) i"

definition mem_list_agents :: "agent_store \<Rightarrow> agent_record list" where
  "mem_list_agents s = hm_values (ag_agents s)"

text \<open>The common frame of the operations on one agent: look it up, change it, notify the handlers.\<close>

definition modify_agent :: "string \<Rightarrow> (agent_record \<Rightarrow> agent_record) \<Rightarrow> agent_store \<Rightarrow> unit result \<times> agent_store" where
  "modify_agent i f s =
     (case hm_get (ag_agents s) i of
        None \<Rightarrow> (Inl (agent_not_found i), s)
      | Some a \<Rightarrow> (Inr (), notify_handlers (f a) (s\<lparr>ag_agents := hm_insert i (f a) (ag_agents s)\<rparr>)))"

definition mem_update_presence :: "instant \<Rightarrow> string \<Rightarrow> presence_state \<Rightarrow> agent_store \<Rightarrow> unit result \<times> agent_store" where
  "mem_update_presence now i p = modify_agent i (\<lambda>a. a\<lparr>presence := p, last_state_change := now\<rparr>)"

definition mem_start_call :: "instant \<Rightarrow> string \<Rightarrow> agent_store \<Rightarrow> unit result \<times> agent_store" where
  "mem_start_call now i =
     modify_agent i (\<lambda>a. a\<lparr>current_calls := current_calls a + 1, presence := Busy, last_state_change := now\<rparr>)"

definition mem_end_call :: "instant \<Rightarrow> string \<Rightarrow> nat \<Rightarrow> agent_store \<Rightarrow> unit result \<times> agent_store" where
  "mem_end_call now i talk =
     modify_agent i (\<lambda>a.
       let calls = (if current_calls a > 0 then current_calls a - 1 else current_calls a);
           a = a\<lparr>current_calls := calls, total_calls_handled := total_calls_handled a + 1,
                 total_talk_time_secs := total_talk_time_secs a + talk, last_call_end := Some now\<rparr>
       in if calls = 0 then a\<lparr>presence := Wrapup\<rparr> else a)"

definition mem_find_available_agents :: "string list \<Rightarrow> agent_store \<Rightarrow> agent_record list" where
  "mem_find_available_agents required s = filter (\<lambda>a. has_capacity a \<and> has_skills required a) (hm_values (ag_agents s))"

definition mem_select_agent ::
  "instant \<Rightarrow> string list \<Rightarrow> routing_strategy \<Rightarrow> agent_store \<Rightarrow> agent_record option \<times> agent_store" where
  "mem_select_agent now required strategy s =
     (let (choice, rr) = select_best_agent now (mem_find_available_agents required s) strategy (ag_rr_counter s)
      in (choice, s\<lparr>ag_rr_counter := rr\<rparr>))"

definition mem_on_state_change :: "nat \<Rightarrow> agent_store \<Rightarrow> agent_store" where
  "mem_on_state_change h s = s\<lparr>ag_handlers := ag_handlers s @ [h]\<rparr>"

definition mem_resolve_target :: "string \<Rightarrow> agent_store \<Rightarrow> string list" where
  "mem_resolve_target uri s = []"

section \<open>The registry on a database\<close>

text \<open>The database itself is not used yet: the registry works on its cache, which is never expired.\<close>

record db_store =
  db_cache :: agent_store
  db_cache_ttl_secs :: nat

definition db_new :: db_store where
  "db_new = \<lparr>db_cache = store_new, db_cache_ttl_secs = 30\<rparr>"

definition with_cache_ttl :: "nat \<Rightarrow> db_store \<Rightarrow> db_store" where
  "with_cache_ttl ttl s = s\<lparr>db_cache_ttl_secs := ttl\<rparr>"

definition db_register ::
  "instant \<Rightarrow> string \<Rightarrow> string \<Rightarrow> string \<Rightarrow> string list \<Rightarrow> nat \<Rightarrow> db_store \<Rightarrow> unit result \<times> db_store" where
  "db_register now i name uri sk maxc s =
     (let a = agent_new now i name uri sk maxc; c = db_cache s
      in (Inr (), s\<lparr>db_cache := notify_handlers a (c\<lparr>ag_agents := hm_insert i a (ag_agents c)\<rparr>)\<rparr>))"

definition db_unregister :: "string \<Rightarrow> db_store \<Rightarrow> unit result \<times> db_store" where
  "db_unregister i s =
     (let c = db_cache s in
      if hm_get (ag_agents c) i \<noteq> None then (Inr (), s\<lparr>db_cache := c\<lparr>ag_agents := hm_remove i (ag_agents c)\<rparr>\<rparr>)
      else (Inl (agent_not_found i), s))"

definition db_get_agent :: "db_store \<Rightarrow> string \<Rightarrow> agent_record option" where
  "db_get_agent s i = hm_get (ag_agents (db_cache s)) i"

definition db_list_agents :: "db_store \<Rightarrow> agent_record list" where
  "db_list_agents s = hm_values (ag_agents (db_cache s))"

definition db_modify :: "string \<Rightarrow> (agent_record \<Rightarrow> agent_record) \<Rightarrow> db_store \<Rightarrow> unit result \<times> db_store" where
  "db_modify i f s = (let (res, c) = modify_agent i f (db_cache s) in (res, s\<lparr>db_cache := c\<rparr>))"

definition db_update_presence :: "instant \<Rightarrow> string \<Rightarrow> presence_state \<Rightarrow> db_store \<Rightarrow> unit result \<times> db_store" where
  "db_update_presence now i p = db_modify i (\<lambda>a. a\<lparr>presence := p, last_state_change := now\<rparr>)"

definition db_start_call :: "instant \<Rightarrow> string \<Rightarrow> db_store \<Rightarrow> unit result \<times> db_store" where
  "db_start_call now i =
     db_modify i (\<lambda>a. a\<lparr>current_calls := current_calls a + 1, presence := Busy, last_state_change := now\<rparr>)"

definition db_end_call :: "instant \<Rightarrow> string \<Rightarrow> nat \<Rightarrow> db_store \<Rightarrow> unit result \<times> db_store" where
  "db_end_call now i talk =
     db_modify i (\<lambda>a.
       let calls = (if current_calls a > 0 then current_calls a - 1 else current_calls a);
           a = a\<lparr>current_calls := calls, total_calls_handled := total_calls_handled a + 1,
                 total_talk_time_secs := total_talk_time_secs a + talk, last_call_end := Some now\<rparr>
       in if calls = 0 then a\<lparr>presence := Wrapup\<rparr> else a)"

definition db_find_available_agents :: "string list \<Rightarrow> db_store \<Rightarrow> agent_record list" where
  "db_find_available_agents required s =
     filter (\<lambda>a. has_capacity a \<and> has_skills required a) (hm_values (ag_agents (db_cache s)))"

definition db_select_agent ::
  "instant \<Rightarrow> string list \<Rightarrow> routing_strategy \<Rightarrow> db_store \<Rightarrow> agent_record option \<times> db_store" where
  "db_select_agent now required strategy s =
     (let (choice, rr) = select_best_agent now (db_find_available_agents required s) strategy (ag_rr_counter (db_cache s))
      in (choice, s\<lparr>db_cache := (db_cache s)\<lparr>ag_rr_counter := rr\<rparr>\<rparr>))"

definition db_on_state_change :: "nat \<Rightarrow> db_store \<Rightarrow> db_store" where
  "db_on_state_change h s = s\<lparr>db_cache := mem_on_state_change h (db_cache s)\<rparr>"

definition db_resolve_target :: "string \<Rightarrow> db_store \<Rightarrow> string list" where
  "db_resolve_target uri s = []"

section \<open>Presence states as text\<close>

text \<open>The text of a presence state reads back as the state, and only texts of states are read: a text is parsed as
  a state exactly if it is that state's text, except that the custom state without a name is not read.\<close>

theorem presence_roundtrip:
  "parse_state s = Some p \<longleftrightarrow> s = presence_as_str p \<and> p \<noteq> Custom []"
proof
  assume "parse_state s = Some p"
  then show "s = presence_as_str p \<and> p \<noteq> Custom []"
    by (auto simp: parse_state_def strip_prefix_Some_iff split: if_splits option.splits)
next
  assume "s = presence_as_str p \<and> p \<noteq> Custom []"
  then show "parse_state s = Some p"
    by (cases p) (simp_all add: parse_state_def)
qed

text \<open>The table of transitions leads nowhere from \<open>Offline\<close>; the operations of the registries do not consult it.\<close>

lemma offline_is_final: "is_valid_transition Offline p \<longleftrightarrow> p = Offline"
  by (cases p) (simp_all add: is_valid_transition_def)

section \<open>Selection\<close>

lemma hd_sort_key:
  assumes "xs \<noteq> []"
  shows "hd (sort_key f xs) \<in> set xs \<and> (\<forall>y \<in> set xs. f (hd (sort_key f xs)) \<le> f y)"
proof (cases "sort_key f xs")
  case Nil
  then have "length (sort_key f xs) = 0" by simp
  then show ?thesis using assms by simp
next
  case (Cons z zs)
  have "sorted (map f (sort_key f xs))" by (rule sorted_sort_key)
  then have "\<forall>y \<in> set (z # zs). f z \<le> f y" by (auto simp: Cons)
  moreover have "z \<in> set (z # zs)" by simp
  moreover have "set (sort_key f xs) = set xs" by simp
  ultimately show ?thesis by (simp only: Cons list.sel)
qed

lemma select_best_member: "select_best_agent now cs st rr = (Some a, rr') \<Longrightarrow> a \<in> set cs"
  using hd_sort_key [of cs total_calls_handled] hd_sort_key [of cs "\<lambda>a. - int (idle_duration now a)"]
    hd_sort_key [of cs "\<lambda>a. - int (length (skills a))"]
  by (auto simp: select_best_agent_def split: if_splits routing_strategy.splits)

lemma select_best_None_iff: "fst (select_best_agent now cs st rr) = None \<longleftrightarrow> cs = []"
  by (simp add: select_best_agent_def split: routing_strategy.split)

text \<open>Each strategy chooses what it promises.  Of a non-empty list of candidates, the longest idle one, the one that
  has handled the fewest calls or the one with the most skills is chosen, and the choice is one of the candidates.\<close>

theorem strategies_choose_best:
  assumes "cs \<noteq> []"
  shows "\<exists>a. fst (select_best_agent now cs st rr) = Some a \<and> a \<in> set cs
     \<and> (st = LongestIdle \<longrightarrow> (\<forall>b \<in> set cs. idle_duration now b \<le> idle_duration now a))
     \<and> (st = LeastCalls \<longrightarrow> (\<forall>b \<in> set cs. total_calls_handled a \<le> total_calls_handled b))
     \<and> (st = SkillBased \<longrightarrow> (\<forall>b \<in> set cs. length (skills b) \<le> length (skills a)))"
  using hd_sort_key [OF assms, of "\<lambda>a. - int (idle_duration now a)"] hd_sort_key [OF assms, of total_calls_handled]
    hd_sort_key [OF assms, of "\<lambda>a. - int (length (skills a))"] assms
  by (cases st) (simp_all add: select_best_agent_def)

text \<open>The choices of a number of selections by turns from the same candidates.\<close>

fun turns :: "instant \<Rightarrow> agent_record list \<Rightarrow> nat \<Rightarrow> nat \<Rightarrow> agent_record option list" where
  "turns now cs rr 0 = []"
| "turns now cs rr (Suc k) = (let (a, rr') = select_best_agent now cs RoundRobin rr in a # turns now cs rr' k)"

lemma turns_nth: "cs \<noteq> [] \<Longrightarrow> turns now cs rr k = map (\<lambda>i. Some (cs ! ((rr + i) mod length cs))) [0..<k]"
proof (induction k arbitrary: rr)
  case (Suc k)
  then show ?case
    by (simp add: select_best_agent_def upt_conv_Cons map_Suc_upt [symmetric] comp_def del: upt_Suc)
qed simp

text \<open>Taking turns is fair.  As many selections by turns as there are candidates, from the same candidates, choose
  each of them exactly once, wherever the counter stands.\<close>

theorem turns_fair:
  assumes "cs \<noteq> []"
  shows "mset (turns now cs rr (length cs)) = image_mset Some (mset cs)"
proof -
  let ?n = "length cs" and ?r = "rr mod length cs"
  have "map (\<lambda>i. cs ! ((rr + i) mod ?n)) [0..<?n] = rotate rr cs"
    by (rule nth_equalityI) (simp_all add: nth_rotate)
  then have "turns now cs rr ?n = map Some (rotate rr cs)"
    unfolding turns_nth [OF assms] by (metis (no_types, lifting) comp_apply list.map_comp map_eq_conv)
  moreover have "mset (rotate rr cs) = mset cs"
    by (metis append_take_drop_id mset_append rotate_drop_take union_commute)
  ultimately show ?thesis by simp
qed

section \<open>The contract of the trait\<close>

definition begin_call :: "instant \<Rightarrow> agent_record \<Rightarrow> agent_record" where
  "begin_call now a = a\<lparr>current_calls := current_calls a + 1, presence := Busy, last_state_change := now\<rparr>"

definition finish_call :: "instant \<Rightarrow> nat \<Rightarrow> agent_record \<Rightarrow> agent_record" where
  "finish_call now talk a =
     a\<lparr>current_calls := current_calls a - 1, total_calls_handled := total_calls_handled a + 1,
       total_talk_time_secs := total_talk_time_secs a + talk, last_call_end := Some now,
       presence := (if current_calls a \<le> 1 then Wrapup else presence a)\<rparr>"

text \<open>The traffic a registry sees while no agent changes its presence.\<close>

datatype traffic = StartCall instant string | EndCall instant string nat | Select instant "string list" routing_strategy

fun traffic_step ::
  "(instant \<Rightarrow> string \<Rightarrow> 's \<Rightarrow> unit result \<times> 's) \<Rightarrow> (instant \<Rightarrow> string \<Rightarrow> nat \<Rightarrow> 's \<Rightarrow> unit result \<times> 's)
     \<Rightarrow> (instant \<Rightarrow> string list \<Rightarrow> routing_strategy \<Rightarrow> 's \<Rightarrow> agent_record option \<times> 's) \<Rightarrow> traffic \<Rightarrow> 's \<Rightarrow> 's" where
  "traffic_step start_call end_call select_agent (StartCall now i) s = snd (start_call now i s)"
| "traffic_step start_call end_call select_agent (EndCall now i talk) s = snd (end_call now i talk s)"
| "traffic_step start_call end_call select_agent (Select now req st) s = snd (select_agent now req st s)"

locale agent_registry =
  fixes inv :: "'s \<Rightarrow> bool"
    and get_agent :: "'s \<Rightarrow> string \<Rightarrow> agent_record option"
    and start_call :: "instant \<Rightarrow> string \<Rightarrow> 's \<Rightarrow> unit result \<times> 's"
    and end_call :: "instant \<Rightarrow> string \<Rightarrow> nat \<Rightarrow> 's \<Rightarrow> unit result \<times> 's"
    and select_agent :: "instant \<Rightarrow> string list \<Rightarrow> routing_strategy \<Rightarrow> 's \<Rightarrow> agent_record option \<times> 's"
  assumes get_agent_id: "inv s \<Longrightarrow> get_agent s i = Some a \<Longrightarrow> agent_id a = i"
    and start_call_get: "inv s \<Longrightarrow> get_agent (snd (start_call now i s)) j =
          (if j = i then map_option (begin_call now) (get_agent s i) else get_agent s j)"
    and end_call_get: "inv s \<Longrightarrow> get_agent (snd (end_call now i talk s)) j =
          (if j = i then map_option (finish_call now talk) (get_agent s i) else get_agent s j)"
    and select_get: "inv s \<Longrightarrow> get_agent (snd (select_agent now req st s)) = get_agent s"
    and select_sound: "inv s \<Longrightarrow> fst (select_agent now req st s) = Some a \<Longrightarrow>
          get_agent s (agent_id a) = Some a \<and> has_capacity a \<and> has_skills req a"
    and select_complete: "inv s \<Longrightarrow> get_agent s i = Some a \<Longrightarrow> has_capacity a \<Longrightarrow> has_skills req a \<Longrightarrow>
          fst (select_agent now req st s) \<noteq> None"
    and start_call_inv: "inv s \<Longrightarrow> inv (snd (start_call now i s))"
    and end_call_inv: "inv s \<Longrightarrow> inv (snd (end_call now i talk s))"
    and select_inv: "inv s \<Longrightarrow> inv (snd (select_agent now req st s))"
begin

abbreviation "tstep \<equiv> traffic_step start_call end_call select_agent"

lemma traffic_inv: "inv s \<Longrightarrow> inv (tstep t s)"
  by (cases t) (simp_all add: start_call_inv end_call_inv select_inv)

definition engaged :: "'s \<Rightarrow> string \<Rightarrow> bool" where
  "engaged s i \<longleftrightarrow> (case get_agent s i of Some a \<Rightarrow> presence a = Busy \<or> presence a = Wrapup | None \<Rightarrow> False)"

lemma traffic_engaged: "inv s \<Longrightarrow> engaged s i \<Longrightarrow> engaged (tstep t s) i"
  by (cases t) (simp_all add: engaged_def start_call_get end_call_get select_get begin_call_def finish_call_def
      split: option.splits, fastforce+)

lemma run_engaged: "inv s \<Longrightarrow> engaged s i \<Longrightarrow> inv (fold tstep ts s) \<and> engaged (fold tstep ts s) i"
  by (induction ts arbitrary: s) (simp_all add: traffic_inv traffic_engaged)

lemma started_agent_not_selected:
  assumes "inv s" and "get_agent s i = Some a"
    and "fst (select_agent now' req st (fold tstep ts (snd (start_call now i s)))) = Some b"
  shows "agent_id b \<noteq> i"
proof
  let ?s = "fold tstep ts (snd (start_call now i s))"
  assume b: "agent_id b = i"
  have "engaged (snd (start_call now i s)) i"
    using assms(1,2) by (simp add: engaged_def start_call_get begin_call_def)
  then have run: "inv ?s" "engaged ?s i" using run_engaged start_call_inv [OF assms(1)] by auto
  then have "get_agent ?s i = Some b" "has_capacity b" using select_sound assms(3) b by auto
  then show False using run(2) by (simp add: engaged_def has_capacity_def can_receive_calls_def)
qed

lemma select_exact:
  assumes "inv s"
  shows "case fst (select_agent now req st s) of
           Some a \<Rightarrow> get_agent s (agent_id a) = Some a \<and> has_capacity a \<and> has_skills req a
         | None \<Rightarrow> \<forall>i a. get_agent s i = Some a \<longrightarrow> \<not> (has_capacity a \<and> has_skills req a)"
proof (cases "fst (select_agent now req st s)")
  case None
  then show ?thesis using select_complete [OF assms, of _ _ req now st] by auto
next
  case (Some a)
  then show ?thesis using select_sound [OF assms Some] by simp
qed

end

section \<open>The two implementations\<close>

definition store_inv :: "agent_store \<Rightarrow> bool" where
  "store_inv s \<longleftrightarrow> hm_wf (ag_agents s) \<and> (\<forall>i a. hm_get (ag_agents s) i = Some a \<longrightarrow> agent_id a = i)"

definition db_inv :: "db_store \<Rightarrow> bool" where
  "db_inv s \<longleftrightarrow> store_inv (db_cache s)"

lemma modify_agent_get:
  "mem_get_agent (snd (modify_agent i f s)) j = (if j = i then map_option f (mem_get_agent s i) else mem_get_agent s j)"
  by (simp add: modify_agent_def mem_get_agent_def notify_handlers_def split: option.split)

lemma modify_agent_inv: "store_inv s \<Longrightarrow> (\<And>a. agent_id (f a) = agent_id a) \<Longrightarrow> store_inv (snd (modify_agent i f s))"
  by (auto simp: store_inv_def modify_agent_def notify_handlers_def split: option.split)

lemma finish_call_body:
  "(\<lambda>a. let calls = (if current_calls a > 0 then current_calls a - 1 else current_calls a);
            a = a\<lparr>current_calls := calls, total_calls_handled := total_calls_handled a + 1,
                  total_talk_time_secs := total_talk_time_secs a + talk, last_call_end := Some now\<rparr>
        in if calls = 0 then a\<lparr>presence := Wrapup\<rparr> else a) = finish_call now talk"
  by (rule ext) (auto simp: finish_call_def Let_def)

lemma find_available_iff:
  assumes "store_inv s"
  shows "a \<in> set (mem_find_available_agents req s) \<longleftrightarrow>
           mem_get_agent s (agent_id a) = Some a \<and> has_capacity a \<and> has_skills req a"
proof -
  have wf: "hm_wf (ag_agents s)" using assms by (simp add: store_inv_def)
  have key: "agent_id b = i" if "(i, b) \<in> set (ag_agents s)" for i b
  proof -
    have "hm_get (ag_agents s) i = Some b" using that hm_get_in_set [OF wf, of i b] by blast
    then show ?thesis using assms unfolding store_inv_def by blast
  qed
  have "a \<in> snd ` set (ag_agents s) \<longleftrightarrow> (agent_id a, a) \<in> set (ag_agents s)"
  proof
    assume "a \<in> snd ` set (ag_agents s)"
    then obtain i where "(i, a) \<in> set (ag_agents s)" by auto
    then show "(agent_id a, a) \<in> set (ag_agents s)" using key by blast
  qed (simp add: rev_image_eqI)
  then show ?thesis
    unfolding mem_find_available_agents_def mem_get_agent_def set_filter set_map hm_get_in_set [OF wf] mem_Collect_eq
    by blast
qed

lemma mem_select:
  assumes "store_inv s"
  shows "mem_get_agent (snd (mem_select_agent now req st s)) = mem_get_agent s"
    "store_inv (snd (mem_select_agent now req st s))"
    "fst (mem_select_agent now req st s) = Some a \<Longrightarrow> mem_get_agent s (agent_id a) = Some a \<and> has_capacity a \<and> has_skills req a"
    "mem_get_agent s i = Some a \<Longrightarrow> has_capacity a \<Longrightarrow> has_skills req a \<Longrightarrow> fst (mem_select_agent now req st s) \<noteq> None"
proof -
  obtain c rr where sel: "select_best_agent now (mem_find_available_agents req s) st (ag_rr_counter s) = (c, rr)" by fastforce
  then have eq: "mem_select_agent now req st s = (c, s\<lparr>ag_rr_counter := rr\<rparr>)" by (simp add: mem_select_agent_def)
  show "mem_get_agent (snd (mem_select_agent now req st s)) = mem_get_agent s"
    "store_inv (snd (mem_select_agent now req st s))"
    using assms by (simp_all add: eq mem_get_agent_def store_inv_def fun_eq_iff)
  show "mem_get_agent s (agent_id a) = Some a \<and> has_capacity a \<and> has_skills req a"
    if "fst (mem_select_agent now req st s) = Some a"
  proof -
    have "a \<in> set (mem_find_available_agents req s)"
      using that sel select_best_member [of now "mem_find_available_agents req s" st "ag_rr_counter s" a rr] by (simp add: eq)
    then show ?thesis using find_available_iff [OF assms] by blast
  qed
  show "fst (mem_select_agent now req st s) \<noteq> None"
    if a: "mem_get_agent s i = Some a" "has_capacity a" "has_skills req a"
  proof -
    have "agent_id a = i" using a(1) assms by (simp add: store_inv_def mem_get_agent_def)
    then have "a \<in> set (mem_find_available_agents req s)" using a find_available_iff [OF assms] by simp
    then have "mem_find_available_agents req s \<noteq> []" by auto
    then have "fst (c, rr) \<noteq> None" unfolding sel [symmetric] select_best_None_iff .
    then show ?thesis by (simp add: eq)
  qed
qed

lemma start_call_body: "(\<lambda>a. a\<lparr>current_calls := current_calls a + 1, presence := Busy, last_state_change := now\<rparr>) = begin_call now"
  by (rule ext) (simp add: begin_call_def)

lemma call_keeps_id [simp]: "agent_id (begin_call now a) = agent_id a" "agent_id (finish_call now talk a) = agent_id a"
  by (simp_all add: begin_call_def finish_call_def)

interpretation mem: agent_registry store_inv mem_get_agent mem_start_call mem_end_call mem_select_agent
proof
  show "agent_id a = i" if "store_inv s" "mem_get_agent s i = Some a" for s i a
    using that by (simp add: store_inv_def mem_get_agent_def)
  show "fst (mem_select_agent now req st s) \<noteq> None"
    if "store_inv s" "mem_get_agent s i = Some a" "has_capacity a" "has_skills req a" for s i a now req st
    using mem_select(4) that by blast
qed (simp_all only: mem_start_call_def mem_end_call_def finish_call_body start_call_body modify_agent_get
      modify_agent_inv mem_select call_keeps_id)

lemma db_modify_snd: "db_cache (snd (db_modify i f s)) = snd (modify_agent i f (db_cache s))"
  by (simp add: db_modify_def split: prod.split)

lemma db_get: "db_get_agent s = mem_get_agent (db_cache s)"
  by (simp add: fun_eq_iff db_get_agent_def mem_get_agent_def)

lemma db_select:
  "db_select_agent now req st s =
     (let (c, m) = mem_select_agent now req st (db_cache s) in (c, s\<lparr>db_cache := m\<rparr>))"
  by (simp add: db_select_agent_def mem_select_agent_def db_find_available_agents_def mem_find_available_agents_def
      split: prod.split)

lemma db_select_simps [simp]:
  "fst (db_select_agent now req st s) = fst (mem_select_agent now req st (db_cache s))"
  "db_cache (snd (db_select_agent now req st s)) = snd (mem_select_agent now req st (db_cache s))"
  by (simp_all add: db_select split: prod.split)

interpretation db: agent_registry db_inv db_get_agent db_start_call db_end_call db_select_agent
proof
  show "agent_id a = i" if "db_inv s" "db_get_agent s i = Some a" for s i a
    using that by (simp add: db_inv_def db_get mem.get_agent_id)
  show "fst (db_select_agent now req st s) \<noteq> None"
    if "db_inv s" "db_get_agent s i = Some a" "has_capacity a" "has_skills req a" for s i a now req st
    using mem_select(4) that unfolding db_inv_def db_get db_select_simps by blast
qed (simp_all only: db_inv_def db_get db_modify_snd db_select_simps db_start_call_def db_end_call_def
      finish_call_body start_call_body modify_agent_get modify_agent_inv mem_select call_keeps_id)

section \<open>Runs of the registries\<close>

datatype agent_op =
    Register instant string string string "string list" nat
  | UnregisterAgent string
  | UpdatePresence instant string presence_state
  | Traffic traffic
  | OnStateChange nat

fun mem_step :: "agent_op \<Rightarrow> agent_store \<Rightarrow> agent_store" where
  "mem_step (Register now i name uri sk maxc) s = snd (mem_register now i name uri sk maxc s)"
| "mem_step (UnregisterAgent i) s = snd (mem_unregister i s)"
| "mem_step (UpdatePresence now i p) s = snd (mem_update_presence now i p s)"
| "mem_step (Traffic t) s = traffic_step mem_start_call mem_end_call mem_select_agent t s"
| "mem_step (OnStateChange h) s = mem_on_state_change h s"

fun db_step :: "agent_op \<Rightarrow> db_store \<Rightarrow> db_store" where
  "db_step (Register now i name uri sk maxc) s = snd (db_register now i name uri sk maxc s)"
| "db_step (UnregisterAgent i) s = snd (db_unregister i s)"
| "db_step (UpdatePresence now i p) s = snd (db_update_presence now i p s)"
| "db_step (Traffic t) s = traffic_step db_start_call db_end_call db_select_agent t s"
| "db_step (OnStateChange h) s = db_on_state_change h s"

lemma mem_step_inv: "store_inv s \<Longrightarrow> store_inv (mem_step op s)"
proof (cases op)
  case (Register now i name uri sk maxc)
  assume "store_inv s"
  then show ?thesis
    by (simp add: Register mem_register_def store_inv_def notify_handlers_def Let_def agent_new_def)
next
  case (UnregisterAgent i)
  assume "store_inv s"
  then show ?thesis by (simp add: UnregisterAgent mem_unregister_def store_inv_def)
next
  case (UpdatePresence now i p)
  assume "store_inv s"
  then show ?thesis by (simp add: UpdatePresence mem_update_presence_def modify_agent_inv)
next
  case (Traffic t)
  assume "store_inv s"
  then show ?thesis by (simp add: Traffic mem.traffic_inv)
next
  case (OnStateChange h)
  assume "store_inv s"
  then show ?thesis by (simp add: OnStateChange mem_on_state_change_def store_inv_def)
qed

lemma mem_run_inv: "store_inv (fold mem_step ops store_new)"
proof -
  have run: "store_inv s \<Longrightarrow> store_inv (fold mem_step ops s)" for s
    by (induction ops arbitrary: s) (simp_all add: mem_step_inv)
  show ?thesis by (rule run) (simp add: store_inv_def store_new_def)
qed


text \<open>An agent on a call is not given a second one.  From the start of a call on, however many calls start and end and
  whoever is selected meanwhile, the agent is not selected again before its presence is set: neither during the call,
  whatever its \<open>max_concurrency\<close>, nor after it, since the end of the last call leads to wrap-up.\<close>

theorem engaged_agent_not_selected:
  assumes "s = fold mem_step ops store_new" and "mem_get_agent s i = Some a"
    and "fst (mem_select_agent now' req st (fold (traffic_step mem_start_call mem_end_call mem_select_agent) ts
           (snd (mem_start_call now i s)))) = Some b"
  shows "agent_id b \<noteq> i"
  using mem.started_agent_not_selected [OF mem_run_inv, of ops i a now' req st ts now b] assms by simp

section \<open>The database behaves like the memory\<close>

fun registers_once :: "agent_op list \<Rightarrow> agent_store \<Rightarrow> bool" where
  "registers_once [] s = True"
| "registers_once (op # ops) s =
     ((case op of Register _ i _ _ _ _ \<Rightarrow> mem_get_agent s i = None | _ \<Rightarrow> True) \<and> registers_once ops (mem_step op s))"

lemma db_traffic: "db_cache (traffic_step db_start_call db_end_call db_select_agent t s)
    = traffic_step mem_start_call mem_end_call mem_select_agent t (db_cache s)"
  by (cases t) (simp_all only: traffic_step.simps db_select_simps db_start_call_def db_end_call_def mem_start_call_def
      mem_end_call_def db_modify_snd)

lemma db_step_cache: "registers_once [op] (db_cache s) \<Longrightarrow> db_cache (db_step op s) = mem_step op (db_cache s)"
  by (cases op) (simp_all add: db_traffic db_register_def mem_register_def mem_get_agent_def db_unregister_def mem_unregister_def
      Let_def db_update_presence_def mem_update_presence_def db_modify_snd db_on_state_change_def)

text \<open>The two registries agree.  As long as no registered agent is registered again, the registry on a database goes
  through the same states as the one in memory; registering an agent again is refused in memory, but on a database
  it replaces the agent by a fresh one.\<close>

theorem db_registry_like_memory:
  assumes "registers_once ops store_new"
  shows "db_cache (fold db_step ops db_new) = fold mem_step ops store_new"
proof -
  have "db_cache (fold db_step ops s) = fold mem_step ops (db_cache s)" if "registers_once ops (db_cache s)" for s
    using that by (induction ops arbitrary: s) (simp_all add: db_step_cache)
  from this [of db_new] show ?thesis using assms by (simp add: db_new_def)
qed

text \<open>An agent on calls that is registered again on a database loses them and counts as free.\<close>

lemma db_reregistered_is_free:
  "0 < maxc \<Longrightarrow> \<exists>b. db_get_agent (snd (db_register now i name uri sk maxc s)) i = Some b \<and> current_calls b = 0 \<and> has_capacity b"
  by (simp add: db_register_def db_get_agent_def notify_handlers_def Let_def agent_new_def has_capacity_def can_receive_calls_def)

section \<open>Evaluation\<close>

definition demo_agents :: "agent_op list" where
  "demo_agents = [Register 0 ''a'' ''Ann'' ''sip:a'' [''s''] 2, Register 1 ''b'' ''Bob'' ''sip:b'' [''s'', ''t''] 1]"

lemmas demo_agents_defs = demo_agents_def store_new_def mem_register_def notify_handlers_def agent_new_def Let_def
  mem_get_agent_def mem_start_call_def modify_agent_def mem_select_agent_def mem_find_available_agents_def
  select_best_agent_def has_capacity_def can_receive_calls_def has_skills_def

theorem strategies_choose_best_witness:
  "\<exists>a. fst (select_best_agent 9 [agent_new 0 ''a'' ''A'' ''u'' [] 1, agent_new 0 ''b'' ''B'' ''u'' [''s''] 1] SkillBased 0) = Some a
     \<and> length (skills a) = 1"
  using strategies_choose_best [of "[agent_new 0 ''a'' ''A'' ''u'' [] 1, agent_new 0 ''b'' ''B'' ''u'' [''s''] 1]" 9 SkillBased 0]
  by (auto simp: agent_new_def)

theorem turns_fair_witness:
  "size (mset (turns 0 [agent_new 0 ''a'' ''A'' ''u'' [] 1, agent_new 0 ''b'' ''B'' ''u'' [] 1] 7 2)) = 2"
  using turns_fair [of "[agent_new 0 ''a'' ''A'' ''u'' [] 1, agent_new 0 ''b'' ''B'' ''u'' [] 1]" 0 7]
  by (simp add: numeral_2_eq_2 del: turns.simps)


theorem engaged_agent_not_selected_witness:
  "\<exists>b. fst (mem_select_agent 9 [''s''] External (fold (traffic_step mem_start_call mem_end_call mem_select_agent) [EndCall 4 ''a'' 2]
           (snd (mem_start_call 3 ''a'' (fold mem_step demo_agents store_new))))) = Some b \<and> agent_id b \<noteq> ''a''"
proof -
  let ?s = "fold (traffic_step mem_start_call mem_end_call mem_select_agent) [EndCall 4 ''a'' 2]
           (snd (mem_start_call 3 ''a'' (fold mem_step demo_agents store_new)))"
  obtain a where a: "mem_get_agent (fold mem_step demo_agents store_new) ''a'' = Some a" by (simp add: demo_agents_defs)
  obtain b where b: "fst (mem_select_agent 9 [''s''] External ?s) = Some b"
    by (simp add: demo_agents_defs mem_end_call_def)
  then show ?thesis using engaged_agent_not_selected [OF refl a b] by blast
qed

theorem db_registry_like_memory_witness:
  "length (db_list_agents (fold db_step demo_agents db_new)) = 2"
  using db_registry_like_memory [of demo_agents]
  by (simp add: db_list_agents_def demo_agents_defs)

end
