(* ===== verification/Queue_App.thy ===== *)
theory Queue_App
  imports Call_App Agents Dialplan
begin

text \<open>
  The queue application, \<open>src/src/call/app/queue.rs\<close>: it answers a call, plays hold music, asks an agent and falls back
  when no agent takes the call.  It is an instance of the framework of call applications; agents come from the plan of
  the queue or from a registry of agents, here the one in memory.  The state has the application, the queue's name in
  the context of the call, the registry and the statistics, which other calls share.
\<close>

section \<open>Configuration and statistics\<close>

record queue_stat =
  qs_queue_id :: string
  calls_offered :: nat
  calls_answered :: nat
  calls_abandoned :: nat
  total_wait_secs :: nat
  total_handle_secs :: nat
  current_waiting :: nat
  available_agents :: nat

definition default_stat :: "string \<Rightarrow> queue_stat" where
  "default_stat queue_id =
     \<lparr>qs_queue_id = queue_id, calls_offered = 0, calls_answered = 0, calls_abandoned = 0, total_wait_secs = 0,
      total_handle_secs = 0, current_waiting = 0, available_agents = 0\<rparr>"

datatype no_answer_action = NaVoicemail | NaHangup | NaCallback | NaFallbackSkill | NaBackToIvr

record queue_config =
  qc_name :: string
  qc_accept_immediately :: bool
  qc_hold :: "queue_hold_config option"
  qc_fallback :: "queue_fallback_action option"
  qc_agents :: "location list"
  qc_strategy :: dial_strategy
  qc_ring_timeout :: "duration option"
  qc_skill_routing_enabled :: bool
  qc_required_skills :: "string list"
  qc_sla_threshold_secs :: nat
  qc_max_wait_secs :: nat
  qc_announce_position :: bool
  qc_announce_wait_time :: bool
  qc_retry_interval_secs :: nat
  qc_max_retries :: nat
  qc_autonomous_routing :: bool
  qc_routing_strategy :: routing_strategy
  qc_acd_policy :: "string option"
  qc_no_answer_action :: no_answer_action
  qc_fallback_skill_group :: "string option"
  qc_sla_monitoring :: bool
  qc_metrics_enabled :: bool
  qc_callback_enabled :: bool
  qc_callback_retry_secs :: nat
  qc_voice_prompts :: "voice_prompts option"

definition default_config :: queue_config where
  "default_config =
     \<lparr>qc_name = [], qc_accept_immediately = True, qc_hold = None, qc_fallback = None, qc_agents = [],
      qc_strategy = Sequential [], qc_ring_timeout = Some (secs 20), qc_skill_routing_enabled = False,
      qc_required_skills = [], qc_sla_threshold_secs = 20, qc_max_wait_secs = 300, qc_announce_position = False,
      qc_announce_wait_time = False, qc_retry_interval_secs = 5, qc_max_retries = 2, qc_autonomous_routing = False,
      qc_routing_strategy = LongestIdle, qc_acd_policy = None, qc_no_answer_action = NaVoicemail,
      qc_fallback_skill_group = None, qc_sla_monitoring = False, qc_metrics_enabled = False,
      qc_callback_enabled = False, qc_callback_retry_secs = 300, qc_voice_prompts = None\<rparr>"

definition to_plan :: "queue_config \<Rightarrow> queue_plan" where
  "to_plan cfg =
     \<lparr>accept_immediately = qc_accept_immediately cfg, passthrough_ringback = False, hold = qc_hold cfg,
      fallback = qc_fallback cfg, plan_strategy = Some (qc_strategy cfg), ring_timeout = qc_ring_timeout cfg,
      acd_policy = qc_acd_policy cfg, label = Some (qc_name cfg), retry_codes = None, no_trying_timeout = None,
      plan_prompts = qc_voice_prompts cfg, queue_name = qc_name cfg, failure_audio = None\<rparr>"

section \<open>The application\<close>

datatype queue_state =
    QInit
  | Answering
  | PlayingHold nat
  | PlayingTransferPrompt string
  | PlayingBusyPrompt
  | PlayingNoAnswerPrompt
  | DialingAgents nat
  | Connected string
  | ExecutingFallback
  | QDone

datatype agent_unavailable_reason = ReasonBusy | ReasonNoAnswer

record queue_app =
  q_plan :: queue_plan
  q_config :: queue_config
  q_state :: queue_state
  q_hold_playback :: "string option"
  q_answered :: bool
  q_agent_idx :: nat
  q_dial_attempts :: nat
  q_dynamic_agents :: "location list option"
  q_registry :: "agent_store option"
  q_call_id :: string
  q_enqueued_at :: "instant option"
  q_stats :: "(string, queue_stat) hmap"
  q_context_name :: "string option"

definition queue_app_new :: "queue_plan \<Rightarrow> queue_config \<Rightarrow> queue_app" where
  "queue_app_new plan config =
     \<lparr>q_plan = plan, q_config = config, q_state = QInit, q_hold_playback = None, q_answered = False, q_agent_idx = 0,
      q_dial_attempts = 0, q_dynamic_agents = None, q_registry = None, q_call_id = [], q_enqueued_at = None,
      q_stats = [], q_context_name = None\<rparr>"

definition with_agent_registry :: "agent_store \<Rightarrow> queue_app \<Rightarrow> queue_app" where
  "with_agent_registry registry q = q\<lparr>q_registry := Some registry\<rparr>"

definition with_call_id :: "string \<Rightarrow> queue_app \<Rightarrow> queue_app" where
  "with_call_id call_id q = q\<lparr>q_call_id := call_id\<rparr>"

definition with_stats :: "(string, queue_stat) hmap \<Rightarrow> queue_app \<Rightarrow> queue_app" where
  "with_stats stats q = q\<lparr>q_stats := stats\<rparr>"

definition update_stats :: "(queue_stat \<Rightarrow> queue_stat) \<Rightarrow> queue_app \<Rightarrow> queue_app" where
  "update_stats f q =
     (let queue_id = qc_name (q_config q);
          stat = (case hm_get (q_stats q) queue_id of Some s \<Rightarrow> s | None \<Rightarrow> default_stat queue_id)
      in q\<lparr>q_stats := hm_insert queue_id (f stat) (q_stats q)\<rparr>)"

definition get_fallback_action :: "failure_action \<Rightarrow> queue_app app_action" where
  "get_fallback_action action =
     (case action of
        Hangup code reason \<Rightarrow> HangupCall (map_option (\<lambda>_. ServerUnavailable) reason) code
      | PlayThenHangup _ _ status_code reason \<Rightarrow> HangupCall (map_option (\<lambda>_. ServerUnavailable) reason) (Some status_code)
      | Transfer (EpUri u) \<Rightarrow> TransferTo u
      | Transfer (EpQueue name) \<Rightarrow> TransferTo (''queue:'' @ name)
      | Transfer (EpIvr name) \<Rightarrow> TransferTo (''ivr:'' @ name))"

definition fallback_action :: "sip_lib \<Rightarrow> queue_plan \<Rightarrow> queue_app app_action" where
  "fallback_action lib plan =
     (case fallback plan of
        Some (FbFailure action) \<Rightarrow> get_fallback_action action
      | Some (FbRedirect target) \<Rightarrow> TransferTo (uri_show lib target)
      | Some (FbQueue name) \<Rightarrow>
          (case strip_prefix ''skill-group:'' name of
             Some skill_group \<Rightarrow> TransferTo (''skill-group:'' @ trim skill_group)
           | None \<Rightarrow> TransferTo (''queue:'' @ name))
      | None \<Rightarrow> HangupCall (Some ServerUnavailable) (Some 486))"

definition execute_fallback :: "sip_lib \<Rightarrow> queue_app handler" where
  "execute_fallback lib = (\<lambda>(q, c). (Inr (fallback_action lib (q_plan q)), (q\<lparr>q_state := ExecutingFallback\<rparr>, c)))"

definition start_hold_music :: "queue_app \<times> controller \<Rightarrow> unit result \<times> (queue_app \<times> controller)" where
  "start_hold_music = (\<lambda>(q, c).
     case hold (q_plan q) of
       None \<Rightarrow> (Inr (), (q, c))
     | Some h \<Rightarrow>
         (case hold_audio_file h of
            None \<Rightarrow> (Inr (), (q, c))
          | Some file \<Rightarrow>
              (case play_audio file True c of
                 (Inl e, c1) \<Rightarrow> (Inl e, (q, c1))
               | (Inr track, c1) \<Rightarrow> (Inr (), (q\<lparr>q_hold_playback := Some track\<rparr>, c1)))))"

definition stop_hold_music :: "queue_app \<Rightarrow> queue_app" where
  "stop_hold_music q = q\<lparr>q_hold_playback := None\<rparr>"

definition get_agents :: "queue_app \<Rightarrow> location list" where
  "get_agents q =
     (case q_dynamic_agents q of
        Some agents \<Rightarrow> agents
      | None \<Rightarrow> (case plan_strategy (q_plan q) of Some st \<Rightarrow> strategy_targets st | None \<Rightarrow> []))"

definition is_parallel :: "queue_app \<Rightarrow> bool" where
  "is_parallel q = (case plan_strategy (q_plan q) of Some (Parallel _) \<Rightarrow> True | _ \<Rightarrow> False)"

definition agent_location :: "sip_lib \<Rightarrow> agent_record \<Rightarrow> location" where
  "agent_location lib a =
     default_location\<lparr>aor := (case uri_parse lib (agent_uri a) of Some u \<Rightarrow> u | None \<Rightarrow> default_uri),
                      contact_raw := Some (agent_uri a)\<rparr>"

definition resolve_agents :: "sip_lib \<Rightarrow> queue_app \<Rightarrow> queue_app" where
  "resolve_agents lib q =
     (case q_registry q of
        None \<Rightarrow> q
      | Some registry \<Rightarrow>
          let agents = mem_find_available_agents (qc_required_skills (q_config q)) registry
          in if agents \<noteq> [] then q\<lparr>q_dynamic_agents := Some (map (agent_location lib) agents)\<rparr> else q)"

definition prompts_of :: "queue_app \<Rightarrow> voice_prompts option" where
  "prompts_of q = (case plan_prompts (q_plan q) of Some p \<Rightarrow> Some p | None \<Rightarrow> qc_voice_prompts (q_config q))"

text \<open>Playing a prompt and then going on in a state, as the last act of a handler.\<close>

definition play_and_wait :: "string \<Rightarrow> queue_state \<Rightarrow> queue_app handler" where
  "play_and_wait path st = (\<lambda>(q, c).
     case play_audio path False c of
       (Inl e, c1) \<Rightarrow> (Inl e, (q\<lparr>q_state := st\<rparr>, c1))
     | (Inr _, c1) \<Rightarrow> (Inr Continue, (q\<lparr>q_state := st\<rparr>, c1)))"

definition count_abandoned :: "queue_app \<Rightarrow> queue_app" where
  "count_abandoned = update_stats (\<lambda>s. s\<lparr>calls_abandoned := calls_abandoned s + 1\<rparr>)"

definition play_busy_and_then_fallback :: "sip_lib \<Rightarrow> queue_app handler" where
  "play_busy_and_then_fallback lib = (\<lambda>(q, c).
     let q1 = count_abandoned q in
     case Option.bind (prompts_of q1) busy_prompt of
       Some path \<Rightarrow> play_and_wait path PlayingBusyPrompt (q1, c)
     | None \<Rightarrow> execute_fallback lib (q1, c))"

definition play_no_answer_and_then_fallback :: "sip_lib \<Rightarrow> queue_app handler" where
  "play_no_answer_and_then_fallback lib = (\<lambda>(q, c).
     let q1 = count_abandoned q in
     case Option.bind (prompts_of q1) no_answer_prompt of
       Some path \<Rightarrow> play_and_wait path PlayingNoAnswerPrompt (q1, c)
     | None \<Rightarrow> execute_fallback lib (q1, c))"

definition handle_agent_unavailable :: "sip_lib \<Rightarrow> agent_unavailable_reason \<Rightarrow> queue_app handler" where
  "handle_agent_unavailable lib reason = (\<lambda>(q, c).
     let q1 = (if is_parallel q then q else q\<lparr>q_agent_idx := q_agent_idx q + 1\<rparr>);
         q2 = q1\<lparr>q_dial_attempts := q_dial_attempts q1 + 1\<rparr>
     in if length (get_agents q2) \<le> q_agent_idx q2
        then (case reason of
                ReasonBusy \<Rightarrow> play_busy_and_then_fallback lib (q2, c)
              | ReasonNoAnswer \<Rightarrow> play_no_answer_and_then_fallback lib (q2, c))
        else (Inr Continue, (q2\<lparr>q_state := DialingAgents (q_dial_attempts q2)\<rparr>, c)))"

section \<open>The handlers\<close>

text \<open>A busy prompt needs a media path: the call is answered before it is played.\<close>

definition answer_for_prompt :: "queue_app \<times> controller \<Rightarrow> unit result \<times> (queue_app \<times> controller)" where
  "answer_for_prompt = (\<lambda>(q, c).
     if \<not> q_answered q \<and> Option.bind (prompts_of q) busy_prompt \<noteq> None
     then (case ctl_answer c of
             (Inl e, c1) \<Rightarrow> (Inl e, (q, c1))
           | (Inr _, c1) \<Rightarrow> (Inr (), (q\<lparr>q_answered := True\<rparr>, c1)))
     else (Inr (), (q, c)))"

definition answer_immediately :: "queue_app \<times> controller \<Rightarrow> unit result \<times> (queue_app \<times> controller)" where
  "answer_immediately = (\<lambda>(q, c).
     if accept_immediately (q_plan q)
     then (case ctl_answer c of
             (Inl e, c1) \<Rightarrow> (Inl e, (q, c1))
           | (Inr _, c1) \<Rightarrow> (Inr (), (q\<lparr>q_answered := True\<rparr>, c1)))
     else (Inr (), (q, c)))"

definition registry_presence :: "instant \<Rightarrow> string \<Rightarrow> presence_state \<Rightarrow> queue_app \<Rightarrow> queue_app" where
  "registry_presence now i p q = q\<lparr>q_registry := map_option (\<lambda>r. snd (mem_update_presence now i p r)) (q_registry q)\<rparr>"

definition ring_agent :: "instant \<Rightarrow> agent_record \<Rightarrow> queue_app handler" where
  "ring_agent now agent = (\<lambda>(q, c).
     let q1 = registry_presence now (agent_id agent) PsRinging q in
     and_then (map_prod id (\<lambda>c. (q1, c)) (originate_call (agent_uri agent) (Some (q_call_id q1)) c)) (\<lambda>_ (q1, c).
     and_then (map_prod id (\<lambda>c. (q1, c)) (notify_event ''queue.agent_ringing''
        [(''call_id'', JStr (q_call_id q1)), (''agent_id'', JStr (agent_id agent)),
         (''agent_uri'', JStr (agent_uri agent)), (''queue_id'', JStr (qc_name (q_config q1)))] c)) (\<lambda>_ (q1, c).
     (Inr Continue,
      (q1\<lparr>q_state := DialingAgents 1, q_dial_attempts := 1\<rparr>,
       set_timeout now ''agent_ring_timeout''
         (case qc_ring_timeout (q_config q1) of Some d \<Rightarrow> d | None \<Rightarrow> secs 20) c)))))"

definition queue_on_enter :: "sip_lib \<Rightarrow> instant \<Rightarrow> queue_app handler" where
  "queue_on_enter lib now = (\<lambda>(q0, c).
     let cfg = q_config q0;
         q1 = update_stats (\<lambda>s. s\<lparr>calls_offered := calls_offered s + 1, current_waiting := current_waiting s + 1\<rparr>)
                (q0\<lparr>q_state := Answering, q_enqueued_at := Some now, q_context_name := Some (qc_name cfg)\<rparr>);
         q2 = (if qc_skill_routing_enabled cfg then resolve_agents lib q1 else q1)
     in if get_agents q2 = []
        then and_then (answer_for_prompt (q2, c)) (\<lambda>_. play_busy_and_then_fallback lib)
        else
          and_then (answer_immediately (q2, c)) (\<lambda>_ qc.
          and_then (start_hold_music qc) (\<lambda>_ (q3, c).
          case (qc_autonomous_routing cfg, q_registry q3) of
            (True, Some registry) \<Rightarrow>
              (case mem_select_agent now (qc_required_skills cfg) (qc_routing_strategy cfg) registry of
                 (Some agent, registry') \<Rightarrow> ring_agent now agent (q3\<lparr>q_registry := Some registry'\<rparr>, c)
               | (None, registry') \<Rightarrow>
                   and_then (answer_for_prompt (q3\<lparr>q_registry := Some registry'\<rparr>, c)) (\<lambda>_. play_busy_and_then_fallback lib))
          | _ \<Rightarrow> (Inr Continue, (q3\<lparr>q_state := DialingAgents 1, q_dial_attempts := 1\<rparr>, c)))))"

definition queue_on_audio_complete :: "sip_lib \<Rightarrow> instant \<Rightarrow> string \<Rightarrow> queue_app handler" where
  "queue_on_audio_complete lib now track = (\<lambda>(q, c).
     case q_state q of
       PlayingHold _ \<Rightarrow> and_then (start_hold_music (q, c)) (\<lambda>_ qc. (Inr Continue, qc))
     | PlayingTransferPrompt uri \<Rightarrow> (Inr (TransferTo uri), (q\<lparr>q_state := Connected uri\<rparr>, c))
     | PlayingBusyPrompt \<Rightarrow> execute_fallback lib (q, c)
     | PlayingNoAnswerPrompt \<Rightarrow> execute_fallback lib (q, c)
     | _ \<Rightarrow> (Inr Continue, (q, c)))"

definition wait_secs :: "instant \<Rightarrow> queue_app \<Rightarrow> nat" where
  "wait_secs now q = (case q_enqueued_at q of Some t \<Rightarrow> as_secs (now - t) | None \<Rightarrow> 0)"

definition agent_connected :: "instant \<Rightarrow> json_data \<Rightarrow> queue_app handler" where
  "agent_connected now data = (\<lambda>(q, c).
     case get_str ''agent_uri'' data of
       None \<Rightarrow> (Inr Continue, (q, c))
     | Some uri \<Rightarrow>
         let q1 = update_stats (\<lambda>s. s\<lparr>calls_answered := calls_answered s + 1,
                     total_wait_secs := total_wait_secs s + wait_secs now q,
                     current_waiting := current_waiting s - 1\<rparr>) (stop_hold_music q);
             agent = (case get_str ''agent_id'' data of Some i \<Rightarrow> i | None \<Rightarrow> uri);
             q2 = q1\<lparr>q_registry := map_option (\<lambda>r. snd (mem_start_call now agent r)) (q_registry q1)\<rparr>
         in case Option.bind (prompts_of q2) transfer_prompt of
              Some path \<Rightarrow> play_and_wait path (PlayingTransferPrompt uri) (q2, c)
            | None \<Rightarrow> (Inr (TransferTo uri), (q2\<lparr>q_state := Connected uri\<rparr>, c)))"

definition agent_presence_event :: "instant \<Rightarrow> json_data \<Rightarrow> presence_state \<Rightarrow> queue_app \<Rightarrow> queue_app" where
  "agent_presence_event now data p q =
     (case get_str ''agent_id'' data of Some i \<Rightarrow> registry_presence now i p q | None \<Rightarrow> q)"

definition queue_on_external_event :: "sip_lib \<Rightarrow> instant \<Rightarrow> string \<Rightarrow> json_data \<Rightarrow> queue_app handler" where
  "queue_on_external_event lib now name data = (\<lambda>(q, c).
     if name = ''agent_connected'' then agent_connected now data (q, c)
     else if name = ''agent_ringing'' then (Inr Continue, (agent_presence_event now data PsRinging q, c))
     else if name = ''agent_busy''
       then handle_agent_unavailable lib ReasonBusy (agent_presence_event now data Busy q, c)
     else if name = ''agent_no_answer''
       then handle_agent_unavailable lib ReasonNoAnswer (agent_presence_event now data Available q, c)
     else if name = ''all_agents_busy'' then play_busy_and_then_fallback lib (q, c)
     else (Inr Continue, (q, c)))"

text \<open>The first agent of the registry that is ringing, whichever call it rings for, becomes available again.\<close>

definition release_ringing_agent :: "instant \<Rightarrow> queue_app \<times> controller \<Rightarrow> unit result \<times> (queue_app \<times> controller)" where
  "release_ringing_agent now = (\<lambda>(q, c).
     case Option.bind (q_registry q) (\<lambda>r. find (\<lambda>a. presence a = PsRinging) (mem_list_agents r)) of
       None \<Rightarrow> (Inr (), (q, c))
     | Some agent \<Rightarrow>
         map_prod id (\<lambda>c. (registry_presence now (agent_id agent) Available q, c))
           (notify_event ''queue.agent_no_answer''
              [(''call_id'', JStr (q_call_id q)), (''agent_id'', JStr (agent_id agent)), (''queue_id'', JStr (qc_name (q_config q)))] c))"

definition queue_on_timeout :: "sip_lib \<Rightarrow> instant \<Rightarrow> string \<Rightarrow> queue_app handler" where
  "queue_on_timeout lib now i = (\<lambda>(q, c).
     if i = ''agent_ring_timeout''
     then and_then (release_ringing_agent now (q, c)) (\<lambda>_. handle_agent_unavailable lib ReasonNoAnswer)
     else if i = ''max_wait_timeout''
     then and_then (map_prod id (\<lambda>c. (q, c)) (notify_event ''queue.timeout''
            [(''call_id'', JStr (q_call_id q)), (''queue_id'', JStr (qc_name (q_config q))), (''wait_secs'', JNum (wait_secs now q))] c))
          (\<lambda>_. play_busy_and_then_fallback lib)
     else (Inr Continue, (q, c)))"

definition queue_on_exit :: "instant \<Rightarrow> exit_reason \<Rightarrow> queue_app \<Rightarrow> unit result \<times> queue_app" where
  "queue_on_exit now reason q =
     (let q1 = (case q_state q of
                  Connected _ \<Rightarrow> q
                | PlayingTransferPrompt _ \<Rightarrow> q
                | _ \<Rightarrow> update_stats (\<lambda>s. s\<lparr>current_waiting := current_waiting s - 1\<rparr>) q)
      in (Inr (), q1\<lparr>q_state := QDone\<rparr>))"

text \<open>Digits and recordings are left to the default handlers of the trait, which go on.\<close>

definition queue_call_app :: "sip_lib \<Rightarrow> queue_app call_app" where
  "queue_call_app lib =
     \<lparr>on_enter = queue_on_enter lib, on_dtmf = \<lambda>now d sc. (Inr Continue, sc),
      on_audio_complete = queue_on_audio_complete lib, on_record_complete = \<lambda>now i sc. (Inr Continue, sc),
      on_external_event = queue_on_external_event lib, on_timeout = queue_on_timeout lib, on_exit = queue_on_exit\<rparr>"

definition queue_app_name :: "queue_app \<Rightarrow> string" where
  "queue_app_name q = (case label (q_plan q) of Some l \<Rightarrow> l | None \<Rightarrow> ''queue'')"

section \<open>Trying the agents in turn\<close>

text \<open>The application hears of one unavailable agent after the other; the run ends with the first action that is not
  \<open>Continue\<close>.\<close>

fun unavailable_run :: "sip_lib \<Rightarrow> agent_unavailable_reason list \<Rightarrow> queue_app handler" where
  "unavailable_run lib [] qc = (Inr Continue, qc)"
| "unavailable_run lib (r # rs) qc =
     and_then (handle_agent_unavailable lib r qc) (\<lambda>action qc'.
       if action = Continue then unavailable_run lib rs qc' else (Inr action, qc'))"

definition falls_back :: "queue_app \<Rightarrow> bool" where
  "falls_back q \<longleftrightarrow> q_state q \<in> {ExecutingFallback, PlayingBusyPrompt, PlayingNoAnswerPrompt}"

lemma play_and_wait_state: "q_state (fst (snd (play_and_wait path st (q, c)))) = st"
  by (simp add: play_and_wait_def split: prod.split sum.split)

lemma play_busy_falls_back: "falls_back (fst (snd (play_busy_and_then_fallback lib (q, c))))"
  by (simp add: play_busy_and_then_fallback_def falls_back_def Let_def play_and_wait_state execute_fallback_def split: option.split)

lemma play_no_answer_falls_back: "falls_back (fst (snd (play_no_answer_and_then_fallback lib (q, c))))"
  by (simp add: play_no_answer_and_then_fallback_def falls_back_def Let_def play_and_wait_state execute_fallback_def split: option.split)

lemma get_agents_simps [simp]:
  "get_agents (q\<lparr>q_agent_idx := i\<rparr>) = get_agents q" "get_agents (q\<lparr>q_dial_attempts := n\<rparr>) = get_agents q"
  "get_agents (q\<lparr>q_state := st\<rparr>) = get_agents q" "get_agents (q\<lparr>q_registry := r\<rparr>) = get_agents q"
  by (simp_all add: get_agents_def cong: option.case_cong)

lemma handle_unavailable_last:
  "length (get_agents q) \<le> q_agent_idx q + (if is_parallel q then 0 else 1) \<Longrightarrow>
     falls_back (fst (snd (handle_agent_unavailable lib r (q, c))))"
  by (simp add: handle_agent_unavailable_def Let_def play_busy_falls_back play_no_answer_falls_back
      split: agent_unavailable_reason.split if_splits)

lemma handle_unavailable_next:
  assumes "q_agent_idx q + (if is_parallel q then 0 else 1) < length (get_agents q)"
  shows "handle_agent_unavailable lib r (q, c) =
     (Inr Continue, (q\<lparr>q_agent_idx := q_agent_idx q + (if is_parallel q then 0 else 1), q_dial_attempts := q_dial_attempts q + 1,
        q_state := DialingAgents (q_dial_attempts q + 1)\<rparr>, c))"
  using assms by (simp add: handle_agent_unavailable_def Let_def split: if_splits)

lemma sequential_run:
  "\<not> is_parallel q \<Longrightarrow> rs \<noteq> [] \<Longrightarrow> q_agent_idx q + length rs \<le> length (get_agents q) \<Longrightarrow>
     (if q_agent_idx q + length rs = length (get_agents q)
      then falls_back (fst (snd (unavailable_run lib rs (q, c))))
      else \<exists>q'. unavailable_run lib rs (q, c) = (Inr Continue, (q', c)) \<and> q_state q' = DialingAgents (q_dial_attempts q + length rs))"
proof (induction rs arbitrary: q)
  case (Cons r rs)
  show ?case
  proof (cases "rs = []")
    case True
    show ?thesis
    proof (cases "q_agent_idx q + 1 = length (get_agents q)")
      case last: True
      have "falls_back (fst (snd (handle_agent_unavailable lib r (q, c))))"
        by (rule handle_unavailable_last) (use Cons.prems(1) last in simp)
      then show ?thesis using True last
        by (cases "handle_agent_unavailable lib r (q, c)"; cases "fst (handle_agent_unavailable lib r (q, c))") auto
    next
      case False
      then show ?thesis using True Cons.prems handle_unavailable_next [of q lib r c] by simp
    qed
  next
    case False
    let ?q = "q\<lparr>q_agent_idx := q_agent_idx q + 1, q_dial_attempts := q_dial_attempts q + 1, q_state := DialingAgents (q_dial_attempts q + 1)\<rparr>"
    have step: "handle_agent_unavailable lib r (q, c) = (Inr Continue, (?q, c))"
      using handle_unavailable_next [of q lib r c] Cons.prems False by (cases rs) simp_all
    have "\<not> is_parallel ?q" "q_agent_idx ?q + length rs \<le> length (get_agents ?q)"
      using Cons.prems by (simp_all add: is_parallel_def cong: option.case_cong)
    from Cons.IH [OF this(1) False this(2)] show ?thesis using Cons.prems by (simp add: step split: if_splits)
  qed
qed simp


text \<open>A queue that asks all its agents at once never gives up.  The index of the agent is not advanced in a
  parallel queue, so however many agents report busy or do not answer, the call goes on dialling and does not fall
  back.\<close>

theorem parallel_queue_never_falls_back:
  assumes "is_parallel q" and "q_agent_idx q = 0" and "get_agents q \<noteq> []" and "rs \<noteq> []"
  shows "\<exists>q'. unavailable_run lib rs (q, c) = (Inr Continue, (q', c)) \<and> q_state q' = DialingAgents (q_dial_attempts q + length rs)"
  using assms
proof (induction rs arbitrary: q)
  case (Cons r rs)
  let ?q = "q\<lparr>q_agent_idx := q_agent_idx q, q_dial_attempts := q_dial_attempts q + 1, q_state := DialingAgents (q_dial_attempts q + 1)\<rparr>"
  have step: "handle_agent_unavailable lib r (q, c) = (Inr Continue, (?q, c))"
    using handle_unavailable_next [of q lib r c] Cons.prems by simp
  have "is_parallel ?q" using Cons.prems(1) by (simp add: is_parallel_def cong: option.case_cong)
  from Cons.IH [OF this] show ?case using Cons.prems by (cases "rs = []") (simp_all add: step)
qed simp

section \<open>An agent that does not answer\<close>

lemma registry_presence_simps [simp]:
  "q_plan (registry_presence now i p q) = q_plan q" "q_dynamic_agents (registry_presence now i p q) = q_dynamic_agents q"
  "q_agent_idx (registry_presence now i p q) = q_agent_idx q" "q_config (registry_presence now i p q) = q_config q"
  "get_agents (registry_presence now i p q) = get_agents q" "is_parallel (registry_presence now i p q) = is_parallel q"
  by (simp_all add: registry_presence_def get_agents_def is_parallel_def cong: option.case_cong)

lemma release_ringing_result:
  assumes "ctl_open c"
  shows "\<exists>q' evs. release_ringing_agent now (q, c) = (Inr (), (q', c\<lparr>ctl_sent := ctl_sent c @ evs\<rparr>))
     \<and> get_agents q' = get_agents q \<and> is_parallel q' = is_parallel q \<and> q_agent_idx q' = q_agent_idx q
     \<and> (\<forall>e \<in> set evs. \<exists>n d. e = CmdInjectAppEvent n d)"
  using assms
  by (cases "Option.bind (q_registry q) (\<lambda>r. find (\<lambda>a. presence a = PsRinging) (mem_list_agents r))")
    (auto simp: release_ringing_agent_def notify_event_def send_command_def intro: exI [of _ "[]"])

text \<open>After the first agent does not answer nobody else is called.  When the ring timeout of a queue with further
  agents expires, the application counts the attempt and waits: it sends no command that would call the next agent and
  sets no timer, so without an event from outside the caller waits for ever.\<close>

theorem ring_timeout_calls_nobody:
  assumes "\<not> is_parallel q" and "Suc (q_agent_idx q) < length (get_agents q)" and "ctl_open c"
  shows "\<exists>q' evs. queue_on_timeout lib now ''agent_ring_timeout'' (q, c) = (Inr Continue, (q', c\<lparr>ctl_sent := ctl_sent c @ evs\<rparr>))
     \<and> (\<forall>target leg. CmdLegAdd target leg \<notin> set evs)"
proof -
  obtain q1 evs where rel: "release_ringing_agent now (q, c) = (Inr (), (q1, c\<lparr>ctl_sent := ctl_sent c @ evs\<rparr>))"
    and q1: "get_agents q1 = get_agents q" "is_parallel q1 = is_parallel q" "q_agent_idx q1 = q_agent_idx q"
    and evs: "\<forall>e \<in> set evs. \<exists>n d. e = CmdInjectAppEvent n d"
    using release_ringing_result [OF assms(3), of now q] by blast
  have "queue_on_timeout lib now ''agent_ring_timeout'' (q, c) = handle_agent_unavailable lib ReasonNoAnswer (q1, c\<lparr>ctl_sent := ctl_sent c @ evs\<rparr>)"
    by (simp add: queue_on_timeout_def rel)
  moreover have "\<forall>target leg. CmdLegAdd target leg \<notin> set evs" using evs by blast
  ultimately show ?thesis using handle_unavailable_next [of q1] assms(1,2) q1 by simp blast
qed

text \<open>The ring timeout of a call releases whichever agent rings first in the registry.  The application does not
  remember whom it called: when another call's agent comes first among the ringing ones, that agent becomes available
  although its phone is ringing, and the agent of this call keeps the state ringing.\<close>

theorem ring_timeout_releases_first_ringing:
  assumes "q_registry q = Some r" and "store_inv r" and "ctl_open c"
    and "find (\<lambda>a. presence a = PsRinging) (mem_list_agents r) = Some other"
    and "mem_get_agent r mine = Some a" and "presence a = PsRinging" and "mine \<noteq> agent_id other"
  shows "\<exists>q' c' r'. release_ringing_agent now (q, c) = (Inr (), (q', c')) \<and> q_registry q' = Some r'
     \<and> map_option presence (mem_get_agent r' (agent_id other)) = Some Available
     \<and> map_option presence (mem_get_agent r' mine) = Some PsRinging"
proof -
  let ?r = "snd (mem_update_presence now (agent_id other) Available r)"
  have "other \<in> set (hm_values (ag_agents r))"
    using assms(4) by (auto simp: find_Some_iff mem_list_agents_def)
  then obtain i where "(i, other) \<in> set (ag_agents r)" by auto
  then have i: "hm_get (ag_agents r) i = Some other" "agent_id other = i"
    using assms(2) hm_get_in_set [of "ag_agents r" i other] by (auto simp: store_inv_def)
  then have "mem_get_agent ?r (agent_id other) = Some (other\<lparr>presence := Available, last_state_change := now\<rparr>)"
    by (simp add: mem_update_presence_def modify_agent_get) (simp add: mem_get_agent_def)
  moreover have "mem_get_agent ?r mine = Some a"
    using assms(5,7) by (simp add: mem_update_presence_def modify_agent_get)
  ultimately show ?thesis
    using assms(1,3,4,6) by (simp add: release_ringing_agent_def notify_event_def send_command_def registry_presence_def)
qed

section \<open>The statistics\<close>

abbreviation stat_of :: "queue_app \<Rightarrow> queue_stat" where
  "stat_of q \<equiv> (case hm_get (q_stats q) (qc_name (q_config q)) of Some s \<Rightarrow> s | None \<Rightarrow> default_stat (qc_name (q_config q)))"

lemma update_stats_simps [simp]:
  "q_state (update_stats f q) = q_state q" "q_config (update_stats f q) = q_config q" "q_plan (update_stats f q) = q_plan q"
  "hm_get (q_stats (update_stats f q)) (qc_name (q_config q)) = Some (f (stat_of q))"
  "q_enqueued_at (update_stats f q) = q_enqueued_at q" "q_registry (update_stats f q) = q_registry q"
  "q_dynamic_agents (update_stats f q) = q_dynamic_agents q" "q_answered (update_stats f q) = q_answered q"
  "q_hold_playback (update_stats f q) = q_hold_playback q" "q_agent_idx (update_stats f q) = q_agent_idx q"
  by (simp_all add: update_stats_def Let_def)

definition counts_as_waiting :: "queue_app \<Rightarrow> bool" where
  "counts_as_waiting q = (case q_state q of Connected _ \<Rightarrow> False | PlayingTransferPrompt _ \<Rightarrow> False | _ \<Rightarrow> True)"

lemma queue_on_exit_waiting:
  assumes "counts_as_waiting q" and "hm_get (q_stats q) (qc_name (q_config q)) = Some s"
  shows "\<exists>q'. queue_on_exit now reason q = (Inr (), q') \<and> q_config q' = q_config q \<and> q_state q' = QDone
     \<and> hm_get (q_stats q') (qc_name (q_config q)) = Some (s\<lparr>current_waiting := current_waiting s - 1\<rparr>)"
  using assms by (cases "q_state q") (simp_all add: queue_on_exit_def counts_as_waiting_def Let_def)

text \<open>A caller who hangs up while waiting is subtracted twice.  Because the application is told twice that it ends,
  the number of waiting calls of the queue, which all calls share, goes down by two for one caller.\<close>

theorem hangup_counted_twice:
  assumes "counts_as_waiting q" and "hm_get (q_stats q) (qc_name (q_config q)) = Some s"
  shows "\<exists>q'. app_loop 2 (queue_call_app lib) [(t, FromController (Some (CallHangup reason)), False)] Continue now False (q, c)
           = Some (Ended (Inr ()) (q', c))
     \<and> hm_get (q_stats q') (qc_name (q_config q)) = Some (s\<lparr>current_waiting := current_waiting s - 2\<rparr>)"
proof -
  obtain q1 where q1: "queue_on_exit t (ExRemoteHangup reason) q = (Inr (), q1)" "q_config q1 = q_config q" "q_state q1 = QDone"
    "hm_get (q_stats q1) (qc_name (q_config q)) = Some (s\<lparr>current_waiting := current_waiting s - 1\<rparr>)"
    using queue_on_exit_waiting [OF assms] by blast
  obtain q2 where q2: "queue_on_exit t ExNormal q1 = (Inr (), q2)"
    "hm_get (q_stats q2) (qc_name (q_config q)) = Some (s\<lparr>current_waiting := current_waiting s - 2\<rparr>)"
    using queue_on_exit_waiting [of q1 "s\<lparr>current_waiting := current_waiting s - 1\<rparr>" t ExNormal] q1
    by (auto simp: counts_as_waiting_def)
  show ?thesis
    using q1(1) q2 by (simp add: numeral_2_eq_2 handle_next_event_def leave_def ended_def queue_call_app_def)
qed

section \<open>A call from the queue to its agent\<close>

lemma send_open [simp]:
  "ctl_open c \<Longrightarrow> send_command cmd c = (Inr (), c\<lparr>ctl_sent := ctl_sent c @ [cmd]\<rparr>)"
  by (simp add: send_command_def)

lemma play_open:
  "ctl_open c \<Longrightarrow> \<exists>track c'. play_audio file b c = (Inr track, c') \<and> ctl_open c'"
  by (simp add: play_audio_def play_audio_with_options_def new_uuid_def)

lemma hold_music_open:
  assumes "ctl_open c"
  shows "\<exists>h c'. start_hold_music (q, c) = (Inr (), (q\<lparr>q_hold_playback := h\<rparr>, c')) \<and> ctl_open c'"
proof -
  have same: "\<exists>h. q = q\<lparr>q_hold_playback := h\<rparr>" by (rule exI [of _ "q_hold_playback q"]) simp
  show ?thesis
  proof (cases "Option.bind (hold (q_plan q)) hold_audio_file")
    case None
    then show ?thesis using assms same by (auto simp: start_hold_music_def split: option.splits)
  next
    case (Some path)
    then obtain track c' where "play_audio path True c = (Inr track, c')" "ctl_open c'" using play_open [OF assms] by blast
    then show ?thesis using Some by (auto simp: start_hold_music_def split: option.splits)
  qed
qed

lemma answer_open:
  "ctl_open c \<Longrightarrow> \<exists>a c'. answer_immediately (q, c) = (Inr (), (q\<lparr>q_answered := a\<rparr>, c')) \<and> ctl_open c'"
proof -
  assume "ctl_open c"
  moreover have "\<exists>a. q = q\<lparr>q_answered := a\<rparr>" by (rule exI [of _ "q_answered q"]) simp
  ultimately show ?thesis by (auto simp: answer_immediately_def ctl_answer_def)
qed

abbreviation offer :: "queue_stat \<Rightarrow> queue_stat" where
  "offer s \<equiv> s\<lparr>calls_offered := calls_offered s + 1, current_waiting := current_waiting s + 1\<rparr>"

lemma queue_enter_static:
  assumes "ctl_open c" and stat: "hm_get (q_stats q) (qc_name (q_config q)) = Some s"
    and "\<not> qc_skill_routing_enabled (q_config q)" and "\<not> qc_autonomous_routing (q_config q)" and "get_agents q \<noteq> []"
  shows "\<exists>q' c'. queue_on_enter lib now (q, c) = (Inr Continue, (q', c')) \<and> ctl_open c'
     \<and> q_config q' = q_config q \<and> q_plan q' = q_plan q \<and> hm_get (q_stats q') (qc_name (q_config q)) = Some (offer s)"
proof -
  let ?q0 = "q\<lparr>q_state := Answering, q_enqueued_at := Some now, q_context_name := Some (qc_name (q_config q))\<rparr>"
  let ?q1 = "update_stats offer ?q0"
  have ag: "get_agents ?q1 \<noteq> []" using assms(5) by (simp add: get_agents_def cong: option.case_cong)
  obtain a c1 where ans: "answer_immediately (?q1, c) = (Inr (), (?q1\<lparr>q_answered := a\<rparr>, c1))" "ctl_open c1"
    using answer_open [OF assms(1)] by blast
  obtain h c2 where hold: "ctl_open c2"
    "start_hold_music (?q1\<lparr>q_answered := a\<rparr>, c1) = (Inr (), (?q1\<lparr>q_answered := a, q_hold_playback := h\<rparr>, c2))"
    using hold_music_open [OF ans(2), of "?q1\<lparr>q_answered := a\<rparr>"] by auto
  have "queue_on_enter lib now (q, c) =
      (Inr Continue, (?q1\<lparr>q_answered := a, q_hold_playback := h, q_state := DialingAgents 1, q_dial_attempts := 1\<rparr>, c2))"
    using assms(3,4) ag ans hold by (simp add: queue_on_enter_def Let_def)
  then show ?thesis using hold(1) stat update_stats_simps(4) [of offer ?q0] by simp
qed

lemma agent_connected_plain:
  assumes stat: "hm_get (q_stats q) (qc_name (q_config q)) = Some s"
    and "Option.bind (prompts_of q) transfer_prompt = None" and "get_str ''agent_uri'' data = Some uri"
  shows "\<exists>q'. queue_on_external_event lib t ''agent_connected'' data (q, c) = (Inr (TransferTo uri), (q', c)) \<and> q_state q' = Connected uri
     \<and> hm_get (q_stats q') (qc_name (q_config q)) = Some (s\<lparr>calls_answered := calls_answered s + 1,
          total_wait_secs := total_wait_secs s + wait_secs t q, current_waiting := current_waiting s - 1\<rparr>)"
proof -
  let ?conn = "\<lambda>s. s\<lparr>calls_answered := calls_answered s + 1, total_wait_secs := total_wait_secs s + wait_secs t q,
                 current_waiting := current_waiting s - 1\<rparr>"
  let ?q3 = "update_stats ?conn (stop_hold_music q)"
  have "prompts_of (?q3\<lparr>q_registry := r\<rparr>) = prompts_of q" for r
    by (simp add: prompts_of_def stop_hold_music_def cong: option.case_cong)
  moreover have "hm_get (q_stats ?q3) (qc_name (q_config q)) = Some (?conn s)"
    using update_stats_simps(4) [of ?conn "stop_hold_music q"] stat by (simp add: stop_hold_music_def)
  ultimately show ?thesis
    using assms(2,3) by (simp add: queue_on_external_event_def agent_connected_def Let_def)
qed

text \<open>An answered call leaves the queue as it was, with one more answered call.  A call that enters a queue with
  configured agents and is then connected to an agent is transferred to that agent; at the end the number of
  waiting calls is what it was before, and the call is counted once as offered and once as answered.\<close>

theorem answered_call_is_counted:
  assumes "ctl_open c" and "hm_get (q_stats q) (qc_name (q_config q)) = Some s"
    and "\<not> qc_skill_routing_enabled (q_config q)" and "\<not> qc_autonomous_routing (q_config q)"
    and "get_agents q \<noteq> []" and "Option.bind (prompts_of q) transfer_prompt = None"
    and "get_str ''agent_uri'' data = Some uri"
  shows "\<exists>q' c'. app_run 2 (queue_call_app lib) [(t, FromController (Some (CustomEvent ''agent_connected'' data)), False)] now False (q, c)
           = Some (Ended (Inr ()) (q', c'))
     \<and> CmdTransfer ''caller'' uri False \<in> set (ctl_sent c')
     \<and> (\<exists>s'. hm_get (q_stats q') (qc_name (q_config q)) = Some s' \<and> current_waiting s' = current_waiting s
          \<and> calls_offered s' = calls_offered s + 1 \<and> calls_answered s' = calls_answered s + 1
          \<and> calls_abandoned s' = calls_abandoned s)"
proof -
  obtain q1 c1 where enter: "queue_on_enter lib now (q, c) = (Inr Continue, (q1, c1))" "ctl_open c1"
    and q1: "q_config q1 = q_config q" "q_plan q1 = q_plan q" "hm_get (q_stats q1) (qc_name (q_config q)) = Some (offer s)"
    using queue_enter_static [OF assms(1-5)] by blast
  have "prompts_of q1 = prompts_of q" by (simp add: prompts_of_def q1(1,2) cong: option.case_cong)
  then obtain q2 where conn: "queue_on_external_event lib t ''agent_connected'' data (q1, c1) = (Inr (TransferTo uri), (q2, c1))"
      "q_state q2 = Connected uri"
    and stat: "hm_get (q_stats q2) (qc_name (q_config q)) = Some ((offer s)\<lparr>calls_answered := calls_answered (offer s) + 1,
          total_wait_secs := total_wait_secs (offer s) + wait_secs t q1, current_waiting := current_waiting (offer s) - 1\<rparr>)"
    using agent_connected_plain [of q1 "offer s" data uri lib t c1] q1 assms(6,7) by auto
  have "queue_on_exit t ExTransferred q2 = (Inr (), q2\<lparr>q_state := QDone\<rparr>)" by (simp add: queue_on_exit_def conn(2))
  then have "app_run 2 (queue_call_app lib) [(t, FromController (Some (CustomEvent ''agent_connected'' data)), False)] now False (q, c)
      = Some (Ended (Inr ()) (q2\<lparr>q_state := QDone\<rparr>, c1\<lparr>ctl_sent := ctl_sent c1 @ [CmdTransfer ''caller'' uri False]\<rparr>))"
    using enter conn(1)
    by (simp add: app_run_def numeral_2_eq_2 queue_call_app_def handle_next_event_def control_def ctl_transfer_def leave_def ended_def)
  then show ?thesis using stat by simp
qed

section \<open>Evaluation of the queue\<close>

definition demo_lib :: sip_lib where
  "demo_lib = \<lparr>uri_show = u_host, uri_parse = \<lambda>s. None, uri_eq = \<lambda>a b. a = b, host_port_parse = \<lambda>s. None\<rparr>"

definition demo_queue :: "dial_strategy \<Rightarrow> queue_app" where
  "demo_queue st = (queue_app_new (default_plan\<lparr>plan_strategy := Some st\<rparr>) default_config)\<lparr>q_stats := [([], default_stat [])]\<rparr>"

definition demo_ctl :: controller where
  "demo_ctl = controller_new (\<lambda>n. [])"

lemmas demo_queue_defs = demo_queue_def demo_ctl_def queue_app_new_def controller_new_def default_config_def default_plan_def
  is_parallel_def get_agents_def


theorem parallel_queue_never_falls_back_witness:
  "fst (unavailable_run demo_lib (replicate 5 ReasonBusy) (demo_queue (Parallel [default_location]), demo_ctl)) = Inr Continue"
  using parallel_queue_never_falls_back [of "demo_queue (Parallel [default_location])" "replicate 5 ReasonBusy" demo_lib demo_ctl]
  by (auto simp: demo_queue_defs)

theorem ring_timeout_calls_nobody_witness:
  "\<exists>q' c'. queue_on_timeout demo_lib 9 ''agent_ring_timeout'' (demo_queue (Sequential [default_location, default_location]), demo_ctl)
     = (Inr Continue, (q', c')) \<and> ctl_timers c' = []"
  using ring_timeout_calls_nobody [of "demo_queue (Sequential [default_location, default_location])" demo_ctl demo_lib 9]
  by (auto simp: demo_queue_defs)

definition demo_ringing :: agent_store where
  "demo_ringing = fold mem_step (demo_agents @ [UpdatePresence 2 ''a'' PsRinging, UpdatePresence 3 ''b'' PsRinging]) store_new"

lemma demo_ringing_get:
  "find (\<lambda>a. presence a = PsRinging) (mem_list_agents demo_ringing) =
     Some ((agent_new 0 ''a'' ''Ann'' ''sip:a'' [''s''] 2)\<lparr>presence := PsRinging, last_state_change := 2\<rparr>)"
  "mem_get_agent demo_ringing ''b'' =
     Some ((agent_new 1 ''b'' ''Bob'' ''sip:b'' [''s'', ''t''] 1)\<lparr>presence := PsRinging, last_state_change := 3\<rparr>)"
  by (simp_all add: demo_ringing_def demo_agents_defs mem_update_presence_def mem_list_agents_def)

theorem ring_timeout_releases_first_ringing_witness:
  "\<exists>q' c' r'. release_ringing_agent 9 (with_agent_registry demo_ringing (demo_queue (Sequential [])), demo_ctl) = (Inr (), (q', c'))
     \<and> q_registry q' = Some r' \<and> map_option presence (mem_get_agent r' ''a'') = Some Available
     \<and> map_option presence (mem_get_agent r' ''b'') = Some PsRinging"
proof -
  have "store_inv demo_ringing" unfolding demo_ringing_def by (rule mem_run_inv)
  from ring_timeout_releases_first_ringing [OF _ this _ demo_ringing_get, of _ demo_ctl 9] show ?thesis
    by (simp add: with_agent_registry_def demo_ctl_def controller_new_def agent_new_def)
qed

theorem hangup_counted_twice_witness:
  "\<exists>q'. app_loop 2 (queue_call_app demo_lib) [(3, FromController (Some (CallHangup None)), False)] Continue 0 False
       ((demo_queue (Sequential []))\<lparr>q_stats := [([], (default_stat [])\<lparr>current_waiting := 5\<rparr>)]\<rparr>, demo_ctl) = Some (Ended (Inr ()) (q', demo_ctl))
     \<and> map_option current_waiting (hm_get (q_stats q') []) = Some 3"
  using hangup_counted_twice [of "(demo_queue (Sequential []))\<lparr>q_stats := [([], (default_stat [])\<lparr>current_waiting := 5\<rparr>)]\<rparr>"
      "(default_stat [])\<lparr>current_waiting := 5\<rparr>" demo_lib 3 None 0 demo_ctl]
  by (auto simp: demo_queue_def queue_app_new_def default_config_def counts_as_waiting_def)

theorem answered_call_is_counted_witness:
  "\<exists>q' c'. app_run 2 (queue_call_app demo_lib)
       [(7, FromController (Some (CustomEvent ''agent_connected'' [(''agent_uri'', JStr ''sip:a'')])), False)] 0 False
       (demo_queue (Sequential [default_location]), demo_ctl) = Some (Ended (Inr ()) (q', c'))
     \<and> CmdTransfer ''caller'' ''sip:a'' False \<in> set (ctl_sent c')"
  using answered_call_is_counted [of demo_ctl "demo_queue (Sequential [default_location])" "default_stat []"
      "[(''agent_uri'', JStr ''sip:a'')]" "''sip:a''" demo_lib 7 0]
  by (auto simp: demo_queue_defs prompts_of_def get_str_def)

end
