(* ===== verification/Ivr_App.thy ===== *)
theory Ivr_App
  imports Call_App
begin

text \<open>
  The interactive voice response, \<open>src/src/call/app/ivr_config.rs\<close> and \<open>src/src/call/app/ivr.rs\<close>: a definition of
  menus, and an application that plays their greetings, waits for a key and executes the action of the key.  It is an
  instance of the framework of call applications.  What the application asks of the outside is an environment: the
  local time, the synthesis of speech, the answers of web hooks, and the events that arrive while digits are collected.
  The theory shows that a validated definition keeps the application on menus that exist, that a silent caller is sent
  away, and what the retries and the direct dialling really do.
\<close>

section \<open>Speech synthesis\<close>

datatype body_format = BodyQuery | BodyForm | BodyJson

record http_tts_config =
  ht_url :: string
  ht_method :: string
  ht_param_name :: string
  ht_extra_params :: "(string, string) hmap"
  ht_headers :: "(string, string) hmap"
  ht_output_format :: string
  ht_timeout_seconds :: nat
  ht_body_format :: body_format

record cli_tts_config =
  ct_command :: string
  ct_args :: "string list"
  ct_output_format :: string

datatype tts_driver_config = TtsHttp http_tts_config | TtsCli cli_tts_config

record tts_config =
  tts_cache_dir :: string
  tts_cache_ttl_seconds :: nat
  tts_driver :: tts_driver_config

section \<open>Definitions of menus\<close>

datatype entry_action =
    EaTransfer string
  | EaQueue string "bool option"
  | EaMenu string
  | EaVoicemail string
  | EaPlay string "string option" "string option"
  | EaRepeat
  | EaHangup "string option" "string option" "string option"
  | EaCollectExtension string "string option" "string option" nat nat nat
  | EaCollect string "string option" "string option" "string option" nat nat "string option" nat
  | EaWebhook string "string option" "(string, string) hmap" "string option" nat
  | EaPlayAndHangup "string option" "string option" "string option" "nat option"
  | EaBack

record menu_entry =
  me_key :: string
  me_label :: "string option"
  me_action :: entry_action

record menu_node =
  mn_greeting :: string
  mn_greeting_text :: "string option"
  mn_greeting_voice :: "string option"
  mn_timeout_ms :: nat
  mn_max_retries :: nat
  mn_invalid_prompt :: "string option"
  mn_invalid_text :: "string option"
  mn_invalid_voice :: "string option"
  mn_timeout_action :: "entry_action option"
  mn_max_retries_action :: "entry_action option"
  mn_unknown_key_action :: "entry_action option"
  mn_entries :: "menu_entry list"

definition default_menu :: menu_node where
  "default_menu =
     \<lparr>mn_greeting = [], mn_greeting_text = None, mn_greeting_voice = None, mn_timeout_ms = 5000, mn_max_retries = 3,
      mn_invalid_prompt = None, mn_invalid_text = None, mn_invalid_voice = None, mn_timeout_action = None,
      mn_max_retries_action = None, mn_unknown_key_action = None, mn_entries = []\<rparr>"

record business_hours_schedule =
  sch_days :: "string list"
  sch_start :: string
  sch_end :: string

record business_hours =
  bh_enabled :: bool
  bh_timezone :: string
  bh_work_days :: "nat list option"
  bh_work_start :: "string option"
  bh_work_end :: "string option"
  bh_break_start :: "string option"
  bh_break_end :: "string option"
  bh_closed_text :: "string option"
  bh_schedules :: "business_hours_schedule list"
  bh_closed_action :: "entry_action option"
  bh_closed_greeting :: "string option"

record ivr_definition =
  ivr_name :: string
  ivr_description :: "string option"
  ivr_lang :: "string option"
  ivr_default_voice :: "string option"
  ivr_dynamic_build :: bool
  ivr_business_hours :: "business_hours option"
  ivr_tts :: "tts_config option"
  ivr_root :: menu_node
  ivr_menus :: "(string, menu_node) hmap"

datatype webhook_response =
    WrTransfer string
  | WrQueue string "bool option"
  | WrMenu string
  | WrVoicemail string
  | WrPlay string "string option"
  | WrRepeat
  | WrHangup "string option"
  | WrCollectExtension string "nat option" "nat option" "nat option"
  | WrCollect string "string option" "nat option" "nat option" "string option" "nat option"
  | WrPlayAndHangup "string option" "nat option"
  | WrBack

definition default_min_digits :: nat where "default_min_digits = 3"
definition default_max_digits :: nat where "default_max_digits = 4"
definition default_inter_digit_timeout_ms :: nat where "default_inter_digit_timeout_ms = 3000"

fun unwrap_or :: "'a option \<Rightarrow> 'a \<Rightarrow> 'a" where
  "unwrap_or (Some x) _ = x"
| "unwrap_or None d = d"

fun into_entry_action :: "webhook_response \<Rightarrow> entry_action" where
  "into_entry_action (WrTransfer target) = EaTransfer target"
| "into_entry_action (WrQueue target return_to_ivr) = EaQueue target return_to_ivr"
| "into_entry_action (WrMenu menu) = EaMenu menu"
| "into_entry_action (WrVoicemail target) = EaVoicemail target"
| "into_entry_action (WrPlay prompt _) = EaPlay prompt None None"
| "into_entry_action WrRepeat = EaRepeat"
| "into_entry_action (WrHangup prompt) = EaHangup prompt None None"
| "into_entry_action (WrCollectExtension prompt mn mx idt) =
     EaCollectExtension prompt None None (unwrap_or mn default_min_digits) (unwrap_or mx default_max_digits)
       (unwrap_or idt default_inter_digit_timeout_ms)"
| "into_entry_action (WrCollect variable prompt mn mx end_key idt) =
     EaCollect variable prompt None None (unwrap_or mn default_min_digits) (unwrap_or mx default_max_digits) end_key
       (unwrap_or idt default_inter_digit_timeout_ms)"
| "into_entry_action (WrPlayAndHangup prompt code) = EaPlayAndHangup prompt None None code"
| "into_entry_action WrBack = EaBack"

definition get_menu :: "ivr_definition \<Rightarrow> string \<Rightarrow> menu_node option" where
  "get_menu d key = (if key = ''root'' then Some (ivr_root d) else hm_get (ivr_menus d) key)"

text \<open>A text between apostrophes, as in the messages.\<close>

definition quoted :: "string \<Rightarrow> string" where
  "quoted s = CHR 0x27 # s @ [CHR 0x27]"

fun unknown_menu :: "(string, menu_node) hmap \<Rightarrow> entry_action \<Rightarrow> string option" where
  "unknown_menu menus (EaMenu target) =
     (if target \<noteq> ''root'' \<and> hm_get menus target = None then Some target else None)"
| "unknown_menu menus _ = None"

fun validate_entries :: "string \<Rightarrow> (string, menu_node) hmap \<Rightarrow> menu_entry list \<Rightarrow> unit result" where
  "validate_entries menu_key menus [] = Inr ()"
| "validate_entries menu_key menus (entry # rest) =
     (case unknown_menu menus (me_action entry) of
        Some target \<Rightarrow> Inl (''menu '' @ quoted menu_key @ '' entry key '' @ quoted (me_key entry) @ '' references unknown menu '' @ quoted target)
      | None \<Rightarrow> validate_entries menu_key menus rest)"

definition validate_menu_refs :: "menu_node \<Rightarrow> string \<Rightarrow> (string, menu_node) hmap \<Rightarrow> unit result" where
  "validate_menu_refs menu menu_key menus =
     (case validate_entries menu_key menus (mn_entries menu) of
        Inl e \<Rightarrow> Inl e
      | Inr _ \<Rightarrow>
          (case Option.bind (mn_timeout_action menu) (unknown_menu menus) of
             Some target \<Rightarrow> Inl (''menu '' @ quoted menu_key @ '' timeout_action references unknown menu '' @ quoted target)
           | None \<Rightarrow>
               (case Option.bind (mn_max_retries_action menu) (unknown_menu menus) of
                  Some target \<Rightarrow> Inl (''menu '' @ quoted menu_key @ '' max_retries_action references unknown menu '' @ quoted target)
                | None \<Rightarrow> Inr ())))"

fun validate_menus :: "(string, menu_node) hmap \<Rightarrow> (string \<times> menu_node) list \<Rightarrow> unit result" where
  "validate_menus menus [] = Inr ()"
| "validate_menus menus ((key, menu) # rest) =
     (case validate_menu_refs menu key menus of Inl e \<Rightarrow> Inl e | Inr _ \<Rightarrow> validate_menus menus rest)"

definition ivr_validate :: "ivr_definition \<Rightarrow> unit result" where
  "ivr_validate d =
     (case validate_menu_refs (ivr_root d) ''root'' (ivr_menus d) of
        Inl e \<Rightarrow> Inl e
      | Inr _ \<Rightarrow> validate_menus (ivr_menus d) (ivr_menus d))"

section \<open>The application\<close>

datatype ivr_state =
    IvrInit
  | PlayingGreeting string
  | WaitingDtmf string nat
  | PlayingInvalid string nat
  | PlayingAnnouncement string
  | PlayingHangup
  | PlayingAndHangup "nat option"
  | CollectingExtension
  | IvrDone

record ivr_app =
  iv_definition :: ivr_definition
  iv_state :: ivr_state
  iv_menu_stack :: "string list"
  iv_pending_retry_count :: nat
  iv_collected_variables :: "(string, string) hmap"
  iv_pending_unknown_digit :: "string option"
  iv_tts_service :: "tts_config option"

definition ivr_app_new :: "ivr_definition \<Rightarrow> ivr_app" where
  "ivr_app_new d =
     \<lparr>iv_definition = d, iv_state = IvrInit, iv_menu_stack = [''root''], iv_pending_retry_count = 0,
      iv_collected_variables = [], iv_pending_unknown_digit = None, iv_tts_service = ivr_tts d\<rparr>"

definition with_tts :: "tts_config option \<Rightarrow> ivr_app \<Rightarrow> ivr_app" where
  "with_tts tts a = a\<lparr>iv_tts_service := tts\<rparr>"

text \<open>Loading a file: the reader of the file and of its format are given.\<close>

definition ivr_from_file :: "(string \<Rightarrow> ivr_definition result) \<Rightarrow> string \<Rightarrow> ivr_app result" where
  "ivr_from_file load path =
     (case load path of
        Inl e \<Rightarrow> Inl e
      | Inr d \<Rightarrow> (case ivr_validate d of
                    Inl e \<Rightarrow> Inl (''IVR config validation failed '' @ quoted path @ '': '' @ e)
                  | Inr _ \<Rightarrow> Inr (ivr_app_new d)))"

text \<open>
  The outside of the application.  The times of day of the clock and of the schedules are in one unit, from midnight.
  A web hook may not answer in time, fail, or answer with a status and a body, which may not be readable; the answer
  comes after some time.
\<close>

record call_info =
  ci_session_id :: string
  ci_caller :: string
  ci_callee :: string
  ci_direction :: string

record webhook_payload =
  wp_session_id :: string
  wp_caller :: string
  wp_callee :: string
  wp_direction :: string
  wp_ivr_name :: string
  wp_menu :: string
  wp_variables :: "(string, string) hmap"

datatype webhook_request =
    GetQuery string "(string \<times> string) list" "(string, string) hmap"
  | PostJson string webhook_payload "(string, string) hmap"

datatype http_outcome = HttpTimedOut | HttpFailed string | HttpReply nat "webhook_response result"

record ivr_env =
  env_call_info :: call_info
  env_known_tz :: "string \<Rightarrow> bool"
  env_local_time :: "string \<Rightarrow> instant \<Rightarrow> string \<times> nat"
  env_parse_time :: "string \<Rightarrow> nat option"
  env_url_decode :: "string \<Rightarrow> string result"
  env_temp_cache_dir :: string
  env_synthesize :: "tts_config \<Rightarrow> string \<Rightarrow> string option \<Rightarrow> string result"
  env_http :: "instant \<Rightarrow> nat \<Rightarrow> webhook_request \<Rightarrow> http_outcome \<times> duration"
  env_arrivals :: "instant \<Rightarrow> (instant \<times> controller_event option) list"

definition schedule_open :: "ivr_env \<Rightarrow> string \<Rightarrow> nat \<Rightarrow> business_hours_schedule \<Rightarrow> bool" where
  "schedule_open env weekday current_time schedule =
     (list_ex (\<lambda>d. eq_ignore_ascii_case d weekday) (sch_days schedule)
      \<and> (case env_parse_time env (sch_start schedule) of
           None \<Rightarrow> False
         | Some start \<Rightarrow>
             (case env_parse_time env (sch_end schedule) of
                None \<Rightarrow> False
              | Some end_time \<Rightarrow> start \<le> current_time \<and> current_time \<le> end_time)))"

definition is_within_business_hours :: "ivr_env \<Rightarrow> instant \<Rightarrow> business_hours \<Rightarrow> bool" where
  "is_within_business_hours env now bh =
     (let tz = (if env_known_tz env (bh_timezone bh) then bh_timezone bh else ''UTC'');
          (weekday, current_time) = env_local_time env tz now
      in list_ex (schedule_open env weekday current_time) (bh_schedules bh) \<or> bh_schedules bh = [])"

definition current_menu_key :: "ivr_app \<Rightarrow> string" where
  "current_menu_key a = (if iv_menu_stack a = [] then ''root'' else last (iv_menu_stack a))"

definition navigate_to_menu :: "string \<Rightarrow> ivr_app \<Rightarrow> ivr_app" where
  "navigate_to_menu menu_key a =
     (if menu_key = ''root'' then a\<lparr>iv_menu_stack := [''root'']\<rparr>
      else if current_menu_key a \<noteq> menu_key then a\<lparr>iv_menu_stack := iv_menu_stack a @ [menu_key]\<rparr>
      else a)"

definition navigate_back :: "ivr_app \<Rightarrow> string \<times> ivr_app" where
  "navigate_back a =
     (let a1 = (if 1 < length (iv_menu_stack a) then a\<lparr>iv_menu_stack := butlast (iv_menu_stack a)\<rparr> else a)
      in (current_menu_key a1, a1))"

definition fallback_tts :: "ivr_env \<Rightarrow> tts_config" where
  "fallback_tts env =
     \<lparr>tts_cache_dir = env_temp_cache_dir env, tts_cache_ttl_seconds = 86400,
      tts_driver = TtsCli \<lparr>ct_command = ''edge-cli'',
        ct_args = [''speak'', ''--text'', ''{text}'', ''--voice'', ''{voice}'', ''--output'', ''{output}''],
        ct_output_format = ''mp3''\<rparr>\<rparr>"

fun ok_of :: "'a result \<Rightarrow> 'a option" where
  "ok_of (Inr x) = Some x"
| "ok_of (Inl _) = None"

text \<open>The text and the voice of a \<open>tts://\<close> address, with the prefix taken off.\<close>

definition tts_parts :: "string \<Rightarrow> string \<times> string option" where
  "tts_parts rest =
     (case find_char (CHR ''?'') rest of
        Some i \<Rightarrow> (take i rest,
                  (case strip_prefix ''voice='' (drop (i + 1) rest) of
                     Some v \<Rightarrow> if v = [] then None else Some v
                   | None \<Rightarrow> None))
      | None \<Rightarrow> (rest, None))"

definition resolve_tts_uri :: "ivr_env \<Rightarrow> ivr_app \<Rightarrow> string \<Rightarrow> string option" where
  "resolve_tts_uri env a rest =
     (let (encoded_text, tts_voice) = tts_parts rest;
          tts_text = (case env_url_decode env encoded_text of Inr t \<Rightarrow> t | Inl _ \<Rightarrow> encoded_text)
      in case iv_tts_service a of
           Some service \<Rightarrow> ok_of (env_synthesize env service tts_text tts_voice)
         | None \<Rightarrow> ok_of (env_synthesize env (fallback_tts env) tts_text
                          (Some (unwrap_or tts_voice ''zh-CN-XiaoxiaoNeural''))))"

definition resolve_audio :: "ivr_env \<Rightarrow> ivr_app \<Rightarrow> string option \<Rightarrow> string option \<Rightarrow> string option \<Rightarrow> string option" where
  "resolve_audio env a path txt voice =
     (case path of
        Some (c # cs) \<Rightarrow>
          (case strip_prefix ''tts://'' (c # cs) of
             Some rest \<Rightarrow> resolve_tts_uri env a rest
           | None \<Rightarrow> Some (c # cs))
      | _ \<Rightarrow>
          (case (txt, iv_tts_service a) of
             (Some t, Some service) \<Rightarrow> ok_of (env_synthesize env service t voice)
           | _ \<Rightarrow> None))"

definition millis :: "nat \<Rightarrow> duration" where
  "millis n = n * 1000000"

type_synonym ivr_world = "ivr_app \<times> controller"

definition play :: "string \<Rightarrow> ivr_world \<Rightarrow> unit result \<times> ivr_world" where
  "play path = control (\<lambda>c. map_prod (map_sum id (\<lambda>_. ())) id (play_audio path False c))"

definition play_and_continue :: "string \<Rightarrow> ivr_app handler" where
  "play_and_continue path w = and_then (play path w) (\<lambda>_ w. (Inr Continue, w))"

definition dtmf_timer :: string where
  "dtmf_timer = ''ivr_dtmf_timeout''"

definition start_waiting_dtmf :: "instant \<Rightarrow> string \<Rightarrow> nat \<Rightarrow> ivr_world \<Rightarrow> ivr_world" where
  "start_waiting_dtmf now menu_key retry_count = (\<lambda>(a, c).
     let timeout_ms = (case get_menu (iv_definition a) menu_key of Some m \<Rightarrow> mn_timeout_ms m | None \<Rightarrow> 5000)
     in (a\<lparr>iv_state := WaitingDtmf menu_key retry_count\<rparr>, set_timeout now dtmf_timer (millis timeout_ms) c))"

definition menu_greeting :: "ivr_env \<Rightarrow> ivr_app \<Rightarrow> menu_node \<Rightarrow> string option" where
  "menu_greeting env a menu =
     resolve_audio env a (Some (mn_greeting menu)) (mn_greeting_text menu) (mn_greeting_voice menu)"

definition enter_menu :: "ivr_env \<Rightarrow> instant \<Rightarrow> string \<Rightarrow> ivr_app handler" where
  "enter_menu env now menu_key = (\<lambda>(a, c).
     let a1 = navigate_to_menu menu_key a
     in case get_menu (iv_definition a1) menu_key of
          None \<Rightarrow> (Inl (''IVR menu '' @ quoted menu_key @ '' not found''), (a1, c))
        | Some menu \<Rightarrow>
            let a2 = a1\<lparr>iv_state := PlayingGreeting menu_key\<rparr>
            in case menu_greeting env a1 menu of
                 Some path \<Rightarrow> play_and_continue path (a2, c)
               | None \<Rightarrow> (Inr Continue, start_waiting_dtmf now menu_key (iv_pending_retry_count a2) (a2, c)))"

definition enter_current_menu :: "ivr_env \<Rightarrow> instant \<Rightarrow> ivr_app handler" where
  "enter_current_menu env now w = enter_menu env now (current_menu_key (fst w)) w"

section \<open>Actions\<close>

definition finish :: "ivr_app app_action \<Rightarrow> ivr_app handler" where
  "finish action = (\<lambda>(a, c). (Inr action, (a\<lparr>iv_state := IvrDone\<rparr>, c)))"

definition queue_target :: "ivr_app \<Rightarrow> string \<Rightarrow> bool option \<Rightarrow> string" where
  "queue_target a target return_to_ivr =
     (if unwrap_or return_to_ivr False then ''queue:'' @ target @ ''?return_ivr='' @ ivr_name (iv_definition a)
      else ''queue:'' @ target)"

definition act_back :: "ivr_env \<Rightarrow> instant \<Rightarrow> ivr_app handler" where
  "act_back env now = (\<lambda>(a, c). let (target, a1) = navigate_back a in enter_menu env now target (a1, c))"

definition act_play :: "ivr_env \<Rightarrow> instant \<Rightarrow> string \<Rightarrow> string option \<Rightarrow> string option \<Rightarrow> ivr_app handler" where
  "act_play env now prompt txt voice = (\<lambda>(a, c).
     let return_menu = current_menu_key a; a1 = a\<lparr>iv_state := PlayingAnnouncement return_menu\<rparr>
     in case resolve_audio env a1 (Some prompt) txt voice of
          Some path \<Rightarrow> play_and_continue path (a1, c)
        | None \<Rightarrow> enter_menu env now return_menu (a1, c))"

definition act_hangup :: "ivr_env \<Rightarrow> string option \<Rightarrow> string option \<Rightarrow> string option \<Rightarrow> ivr_app handler" where
  "act_hangup env prompt txt voice = (\<lambda>(a, c).
     case resolve_audio env a prompt txt voice of
       Some path \<Rightarrow> play_and_continue path (a\<lparr>iv_state := PlayingHangup\<rparr>, c)
     | None \<Rightarrow> finish (HangupCall None None) (a, c))"

definition act_play_and_hangup ::
  "ivr_env \<Rightarrow> string option \<Rightarrow> string option \<Rightarrow> string option \<Rightarrow> nat option \<Rightarrow> ivr_app handler" where
  "act_play_and_hangup env prompt txt voice code = (\<lambda>(a, c).
     let a1 = a\<lparr>iv_state := PlayingAndHangup code\<rparr>
     in case resolve_audio env a1 prompt txt voice of
          Some path \<Rightarrow> play_and_continue path (a1, c)
        | None \<Rightarrow> finish (HangupCall None code) (a1, c))"

text \<open>The product of the timeout between digits and their number is one of 64 bits.\<close>

definition collect_config :: "nat \<Rightarrow> nat \<Rightarrow> nat \<Rightarrow> char option \<Rightarrow> string option \<Rightarrow> nat \<Rightarrow> dtmf_collect_config" where
  "collect_config mn mx mx_all term prompt idt =
     \<lparr>min_digits = mn, max_digits = mx, dc_timeout = millis ((idt * (mx_all + 1)) mod 2 ^ 64), terminator = term,
      play_prompt = prompt, inter_digit_timeout = Some (millis idt)\<rparr>"

text \<open>The digits of an action that collects, with the digit that is pending from an unknown key; the time when done.\<close>

definition collect_digits ::
  "ivr_env \<Rightarrow> instant \<Rightarrow> nat \<Rightarrow> nat \<Rightarrow> char option \<Rightarrow> string option \<Rightarrow> nat \<Rightarrow> ivr_world \<Rightarrow> (string \<times> instant) result \<times> ivr_world" where
  "collect_digits env now mn mx term prompt idt = (\<lambda>(a, c).
     let a1 = a\<lparr>iv_pending_unknown_digit := None\<rparr>
     in case iv_pending_unknown_digit a of
          Some first \<Rightarrow>
            if mn \<le> length first then (Inr (first, now), (a1, c))
            else (case collect_dtmf (collect_config 1 (mx - length first) mx term prompt idt) now (env_arrivals env now) c of
                    ((Inl e, t), c1) \<Rightarrow> (Inl e, (a1, c1))
                  | ((Inr further, t), c1) \<Rightarrow> (Inr (first @ further, t), (a1, c1)))
        | None \<Rightarrow>
            (case collect_dtmf (collect_config mn mx mx term prompt idt) now (env_arrivals env now) c of
               ((Inl e, t), c1) \<Rightarrow> (Inl e, (a1, c1))
             | ((Inr digits, t), c1) \<Rightarrow> (Inr (digits, t), (a1, c1))))"

definition act_collect_extension ::
  "ivr_env \<Rightarrow> instant \<Rightarrow> string \<Rightarrow> string option \<Rightarrow> string option \<Rightarrow> nat \<Rightarrow> nat \<Rightarrow> nat \<Rightarrow> ivr_app handler" where
  "act_collect_extension env now prompt txt voice mn mx idt = (\<lambda>(a, c).
     let a1 = a\<lparr>iv_state := CollectingExtension\<rparr>
     in and_then (collect_digits env now mn mx (Some (CHR ''#'')) (resolve_audio env a1 (Some prompt) txt voice) idt (a1, c))
          (\<lambda>(digits, t) w. if digits = [] then enter_current_menu env t w else finish (TransferTo digits) w))"

definition act_collect ::
  "ivr_env \<Rightarrow> instant \<Rightarrow> string \<Rightarrow> string option \<Rightarrow> string option \<Rightarrow> string option \<Rightarrow> nat \<Rightarrow> nat \<Rightarrow> string option \<Rightarrow> nat
     \<Rightarrow> ivr_app handler" where
  "act_collect env now variable prompt txt voice mn mx end_key idt = (\<lambda>(a, c).
     let term = Option.bind end_key (\<lambda>k. case k of [] \<Rightarrow> None | ch # _ \<Rightarrow> Some ch)
     in and_then (collect_digits env now mn mx term (resolve_audio env a prompt txt voice) idt (a, c))
          (\<lambda>(digits, t) (a1, c1).
             enter_current_menu env t
               ((if digits = [] then a1
                 else a1\<lparr>iv_collected_variables := hm_insert variable digits (iv_collected_variables a1)\<rparr>), c1)))"

section \<open>Web hooks\<close>

definition filtered_vars :: "string option \<Rightarrow> (string, string) hmap \<Rightarrow> (string, string) hmap" where
  "filtered_vars flt vars =
     (case flt of
        Some f \<Rightarrow>
          (let names = filter (\<lambda>s. s \<noteq> []) (map trim (split_on (CHR '','') f))
           in filter (\<lambda>(k, v). k \<in> set names) vars)
      | None \<Rightarrow> vars)"

definition webhook_request_of ::
  "ivr_env \<Rightarrow> ivr_app \<Rightarrow> string \<Rightarrow> string \<Rightarrow> (string, string) hmap \<Rightarrow> string option \<Rightarrow> webhook_request" where
  "webhook_request_of env a url meth headers flt =
     (let ci = env_call_info env; vars = filtered_vars flt (iv_collected_variables a)
      in if eq_ignore_ascii_case meth ''GET'' then
           GetQuery url
             ([(''session_id'', ci_session_id ci), (''caller'', ci_caller ci), (''callee'', ci_callee ci),
               (''direction'', ci_direction ci), (''ivr_name'', ivr_name (iv_definition a)), (''menu'', current_menu_key a)]
              @ vars) headers
         else
           PostJson url
             \<lparr>wp_session_id = ci_session_id ci, wp_caller = ci_caller ci, wp_callee = ci_callee ci,
              wp_direction = ci_direction ci, wp_ivr_name = ivr_name (iv_definition a), wp_menu = current_menu_key a,
              wp_variables = vars\<rparr> headers)"

definition call_webhook ::
  "ivr_env \<Rightarrow> instant \<Rightarrow> ivr_app \<Rightarrow> string \<Rightarrow> string \<Rightarrow> (string, string) hmap \<Rightarrow> string option \<Rightarrow> nat
     \<Rightarrow> webhook_response result \<times> instant" where
  "call_webhook env now a url meth headers flt timeout_secs =
     (case env_http env now timeout_secs (webhook_request_of env a url meth headers flt) of
        (HttpTimedOut, d) \<Rightarrow> (Inl (''Webhook request timed out after '' @ string_of_nat timeout_secs @ '' seconds''), now + d)
      | (HttpFailed e, d) \<Rightarrow> (Inl (''Webhook request failed: '' @ e), now + d)
      | (HttpReply status body, d) \<Rightarrow>
          if \<not> (200 \<le> status \<and> status < 300)
          then (Inl (''Webhook returned non-success status: '' @ string_of_nat status), now + d)
          else (case body of
                  Inl e \<Rightarrow> (Inl (''Failed to parse webhook response: '' @ e), now + d)
                | Inr response \<Rightarrow> (Inr response, now + d)))"

fun is_webhook :: "entry_action \<Rightarrow> bool" where
  "is_webhook (EaWebhook _ _ _ _ _) = True"
| "is_webhook _ = False"

lemma into_entry_action_direct [simp]: "\<not> is_webhook (into_entry_action r)"
  by (cases r) simp_all

definition no_timer :: "ivr_world \<Rightarrow> ivr_world" where
  "no_timer = (\<lambda>(a, c). (a, cancel_timeout dtmf_timer c))"

function execute_action :: "ivr_env \<Rightarrow> instant \<Rightarrow> entry_action \<Rightarrow> ivr_app handler" where
  "execute_action env now action w0 =
     (let w = no_timer w0 in
      case action of
        EaTransfer target \<Rightarrow> finish (TransferTo target) w
      | EaQueue target return_to_ivr \<Rightarrow> finish (TransferTo (queue_target (fst w) target return_to_ivr)) w
      | EaMenu menu \<Rightarrow> enter_menu env now menu w
      | EaBack \<Rightarrow> act_back env now w
      | EaVoicemail target \<Rightarrow> finish (TransferTo (''voicemail:'' @ target)) w
      | EaPlay prompt txt voice \<Rightarrow> act_play env now prompt txt voice w
      | EaRepeat \<Rightarrow> enter_current_menu env now w
      | EaHangup prompt txt voice \<Rightarrow> act_hangup env prompt txt voice w
      | EaPlayAndHangup prompt txt voice code \<Rightarrow> act_play_and_hangup env prompt txt voice code w
      | EaCollectExtension prompt txt voice mn mx idt \<Rightarrow> act_collect_extension env now prompt txt voice mn mx idt w
      | EaCollect variable prompt txt voice mn mx end_key idt \<Rightarrow> act_collect env now variable prompt txt voice mn mx end_key idt w
      | EaWebhook url meth headers variables timeout \<Rightarrow>
          (case call_webhook env now (fst w) url (unwrap_or meth ''POST'') headers variables timeout of
             (Inr response, t) \<Rightarrow> execute_action env t (into_entry_action response) w
           | (Inl e, t) \<Rightarrow> enter_current_menu env t w))"
  by pat_completeness auto
termination
  by (relation "measure (\<lambda>(env, now, action, w). if is_webhook action then 1 else 0)") simp_all

section \<open>Retries\<close>

definition retries_exceeded :: "ivr_env \<Rightarrow> instant \<Rightarrow> menu_node \<Rightarrow> ivr_app handler" where
  "retries_exceeded env now menu w =
     (case mn_max_retries_action menu of
        Some action \<Rightarrow> execute_action env now action w
      | None \<Rightarrow> finish (HangupCall None None) w)"

text \<open>The greeting of the menu is played again, and the retries are remembered until it is over.\<close>

definition replay_greeting :: "ivr_env \<Rightarrow> instant \<Rightarrow> string \<Rightarrow> menu_node \<Rightarrow> nat \<Rightarrow> ivr_app handler" where
  "replay_greeting env now menu_key menu new_retry = (\<lambda>(a, c).
     let a1 = a\<lparr>iv_state := PlayingGreeting menu_key, iv_pending_retry_count := new_retry\<rparr>
     in case menu_greeting env a1 menu of
          Some path \<Rightarrow> play_and_continue path (a1, c)
        | None \<Rightarrow> (Inr Continue, start_waiting_dtmf now menu_key new_retry (a1, c)))"

definition handle_timeout :: "ivr_env \<Rightarrow> instant \<Rightarrow> string \<Rightarrow> nat \<Rightarrow> ivr_app handler" where
  "handle_timeout env now menu_key retry_count = (\<lambda>(a, c).
     case get_menu (iv_definition a) menu_key of
       None \<Rightarrow> (Inl (''menu '' @ quoted menu_key @ '' not found''), (a, c))
     | Some menu \<Rightarrow>
         let new_retry = retry_count + 1
         in if mn_max_retries menu < new_retry then retries_exceeded env now menu (a, c)
            else case mn_timeout_action menu of
                   Some EaRepeat \<Rightarrow> replay_greeting env now menu_key menu new_retry (a, c)
                 | Some other \<Rightarrow> execute_action env now other (a, c)
                 | None \<Rightarrow> replay_greeting env now menu_key menu new_retry (a, c))"

definition handle_invalid_key :: "ivr_env \<Rightarrow> instant \<Rightarrow> string \<Rightarrow> nat \<Rightarrow> string \<Rightarrow> ivr_app handler" where
  "handle_invalid_key env now menu_key retry_count digit w0 =
     (let (a, c) = no_timer w0
      in case get_menu (iv_definition a) menu_key of
           None \<Rightarrow> (Inl (''menu '' @ quoted menu_key @ '' not found''), (a, c))
         | Some menu \<Rightarrow>
             let new_retry = retry_count + 1
             in if mn_max_retries menu < new_retry then retries_exceeded env now menu (a, c)
                else case resolve_audio env a (mn_invalid_prompt menu) (mn_invalid_text menu) (mn_invalid_voice menu) of
                       Some path \<Rightarrow> play_and_continue path (a\<lparr>iv_state := PlayingInvalid menu_key new_retry\<rparr>, c)
                     | None \<Rightarrow> (Inr Continue, start_waiting_dtmf now menu_key new_retry (a, c)))"

section \<open>Handlers\<close>

definition closed_hours :: "ivr_env \<Rightarrow> instant \<Rightarrow> business_hours \<Rightarrow> ivr_app handler" where
  "closed_hours env now bh = (\<lambda>(a, c).
     case resolve_audio env a (bh_closed_greeting bh) (bh_closed_text bh) None of
       Some path \<Rightarrow> play_and_continue path (a\<lparr>iv_state := PlayingHangup\<rparr>, c)
     | None \<Rightarrow>
         (case bh_closed_action bh of
            Some action \<Rightarrow> execute_action env now action (a, c)
          | None \<Rightarrow> finish (HangupCall (Some (HangupOther ''closed'')) None) (a, c)))"

definition ivr_on_enter :: "ivr_env \<Rightarrow> instant \<Rightarrow> ivr_app handler" where
  "ivr_on_enter env now w0 =
     and_then (control ctl_answer w0) (\<lambda>_ w.
       case ivr_business_hours (iv_definition (fst w)) of
         Some bh \<Rightarrow>
           if bh_enabled bh \<and> \<not> is_within_business_hours env now bh then closed_hours env now bh w
           else enter_menu env now ''root'' w
       | None \<Rightarrow> enter_menu env now ''root'' w)"

definition key_action :: "ivr_definition \<Rightarrow> string \<Rightarrow> string \<Rightarrow> entry_action option" where
  "key_action d menu_key digit =
     Option.bind (get_menu d menu_key) (\<lambda>m. map_option me_action (List.find (\<lambda>e. me_key e = digit) (mn_entries m)))"

definition barge_in :: "ivr_env \<Rightarrow> instant \<Rightarrow> entry_action \<Rightarrow> ivr_app handler" where
  "barge_in env now action w = execute_action env now action (snd (control stop_audio (no_timer w)))"

definition ivr_on_dtmf :: "ivr_env \<Rightarrow> instant \<Rightarrow> string \<Rightarrow> ivr_app handler" where
  "ivr_on_dtmf env now digit = (\<lambda>(a, c).
     case iv_state a of
       PlayingGreeting menu_key \<Rightarrow>
         (case key_action (iv_definition a) menu_key digit of
            Some action \<Rightarrow> barge_in env now action (a, c)
          | None \<Rightarrow> (Inr Continue, (a, c)))
     | WaitingDtmf menu_key retry_count \<Rightarrow>
         (case key_action (iv_definition a) menu_key digit of
            Some action \<Rightarrow> execute_action env now action (a, c)
          | None \<Rightarrow>
              (case get_menu (iv_definition a) menu_key of
                 Some menu \<Rightarrow>
                   (case mn_unknown_key_action menu of
                      Some unknown_action \<Rightarrow>
                        execute_action env now unknown_action (a\<lparr>iv_pending_unknown_digit := Some digit\<rparr>, c)
                    | None \<Rightarrow> handle_invalid_key env now menu_key retry_count digit (a, c))
               | None \<Rightarrow> finish (HangupCall None None) (a, c)))
     | _ \<Rightarrow> (Inr Continue, (a, c)))"

definition ivr_on_audio_complete :: "ivr_env \<Rightarrow> instant \<Rightarrow> string \<Rightarrow> ivr_app handler" where
  "ivr_on_audio_complete env now track = (\<lambda>(a, c).
     case iv_state a of
       PlayingGreeting menu_key \<Rightarrow>
         (Inr Continue, start_waiting_dtmf now menu_key (iv_pending_retry_count a) (a\<lparr>iv_pending_retry_count := 0\<rparr>, c))
     | PlayingInvalid menu_key retry_count \<Rightarrow>
         (case get_menu (iv_definition a) menu_key of
            Some menu \<Rightarrow> replay_greeting env now menu_key menu retry_count (a, c)
          | None \<Rightarrow> (Inr Continue, (a, c)))
     | PlayingAnnouncement return_menu \<Rightarrow> enter_menu env now return_menu (a, c)
     | PlayingHangup \<Rightarrow> finish (HangupCall None None) (a, c)
     | PlayingAndHangup code \<Rightarrow> finish (HangupCall None code) (a, c)
     | _ \<Rightarrow> (Inr Continue, (a, c)))"

definition ivr_on_timeout :: "ivr_env \<Rightarrow> instant \<Rightarrow> string \<Rightarrow> ivr_app handler" where
  "ivr_on_timeout env now timeout_id = (\<lambda>(a, c).
     if timeout_id \<noteq> dtmf_timer then (Inr Continue, (a, c))
     else case iv_state a of
            WaitingDtmf menu_key retry_count \<Rightarrow> handle_timeout env now menu_key retry_count (a, c)
          | _ \<Rightarrow> (Inr Continue, (a, c)))"

text \<open>The handlers the application does not have are those of the trait: they do nothing.\<close>

definition ivr_call_app :: "ivr_env \<Rightarrow> ivr_app call_app" where
  "ivr_call_app env =
     \<lparr>on_enter = ivr_on_enter env, on_dtmf = ivr_on_dtmf env, on_audio_complete = ivr_on_audio_complete env,
      on_record_complete = \<lambda>now info w. (Inr Continue, w), on_external_event = \<lambda>now name data w. (Inr Continue, w),
      on_timeout = ivr_on_timeout env, on_exit = \<lambda>now reason a. (Inr (), a)\<rparr>"

declare execute_action.simps [simp del]

section \<open>What a validated definition guarantees\<close>

lemma unknown_menu_None: "unknown_menu (ivr_menus d) act = None \<longleftrightarrow> (\<forall>m. act = EaMenu m \<longrightarrow> get_menu d m \<noteq> None)"
  by (cases act) (auto simp: get_menu_def)

text \<open>An action names only menus of the definition.\<close>

definition refers_ok :: "ivr_definition \<Rightarrow> entry_action \<Rightarrow> bool" where
  "refers_ok d act \<longleftrightarrow> unknown_menu (ivr_menus d) act = None"

definition checked_actions :: "menu_node \<Rightarrow> entry_action set" where
  "checked_actions menu = me_action ` set (mn_entries menu) \<union> set_option (mn_timeout_action menu)
     \<union> set_option (mn_max_retries_action menu)"

lemma validate_entries_ok:
  "validate_entries key (ivr_menus d) es = Inr () \<longleftrightarrow> (\<forall>e \<in> set es. refers_ok d (me_action e))"
  by (induction es) (auto simp: refers_ok_def split: option.split)

lemma validate_menu_refs_ok:
  "validate_menu_refs menu key (ivr_menus d) = Inr () \<longleftrightarrow> (\<forall>act \<in> checked_actions menu. refers_ok d act)"
  using validate_entries_ok [of key d "mn_entries menu"]
  by (cases "mn_timeout_action menu"; cases "mn_max_retries_action menu";
      auto simp: validate_menu_refs_def checked_actions_def refers_ok_def split: sum.splits option.splits)

lemma validate_menus_ok:
  "validate_menus (ivr_menus d) ms = Inr () \<longleftrightarrow> (\<forall>(key, menu) \<in> set ms. \<forall>act \<in> checked_actions menu. refers_ok d act)"
proof (induction ms)
  case (Cons km ms)
  then show ?case
    using validate_menu_refs_ok [of "snd km" "fst km" d] by (cases km) (auto split: sum.splits)
qed simp

lemma validate_ok:
  assumes "ivr_validate d = Inr ()" "get_menu d key = Some menu" "act \<in> checked_actions menu"
  shows "refers_ok d act"
proof (cases "key = ''root''")
  case True
  then show ?thesis using assms validate_menu_refs_ok [of "ivr_root d" "''root''" d]
    by (auto simp: ivr_validate_def get_menu_def split: sum.splits)
next
  case False
  then have "(key, menu) \<in> set (ivr_menus d)" using assms(2) by (auto simp: get_menu_def dest: map_of_SomeD)
  then show ?thesis using assms validate_menus_ok [of d "ivr_menus d"]
    by (fastforce simp: ivr_validate_def split: sum.splits)
qed

text \<open>
  What is checked are the keys, the timeout and the retries.  The actions of unknown keys and of closed hours, and what
  a web hook answers, are not.
\<close>

definition unchecked_ok :: "ivr_env \<Rightarrow> ivr_definition \<Rightarrow> bool" where
  "unchecked_ok env d \<longleftrightarrow>
     (\<forall>key menu act. get_menu d key = Some menu \<longrightarrow> mn_unknown_key_action menu = Some act \<longrightarrow> refers_ok d act)
     \<and> (\<forall>bh act. ivr_business_hours d = Some bh \<longrightarrow> bh_closed_action bh = Some act \<longrightarrow> refers_ok d act)
     \<and> (\<forall>now t req status r dur. env_http env now t req = (HttpReply status (Inr r), dur) \<longrightarrow> refers_ok d (into_entry_action r))"

section \<open>The menus of the state\<close>

fun state_menu :: "ivr_state \<Rightarrow> string option" where
  "state_menu (PlayingGreeting k) = Some k"
| "state_menu (WaitingDtmf k _) = Some k"
| "state_menu (PlayingInvalid k _) = Some k"
| "state_menu (PlayingAnnouncement k) = Some k"
| "state_menu _ = None"

text \<open>The stack begins with the root, which is not on it again, and has only known menus, and the menu of the state is on its top.\<close>

definition stack_ok :: "ivr_app \<Rightarrow> bool" where
  "stack_ok a \<longleftrightarrow> iv_menu_stack a \<noteq> [] \<and> hd (iv_menu_stack a) = ''root'' \<and> ''root'' \<notin> set (tl (iv_menu_stack a))
     \<and> (\<forall>k \<in> set (iv_menu_stack a). get_menu (iv_definition a) k \<noteq> None)"

definition ivr_inv :: "ivr_app \<Rightarrow> bool" where
  "ivr_inv a \<longleftrightarrow> stack_ok a \<and> (\<forall>k. state_menu (iv_state a) = Some k \<longrightarrow> k = current_menu_key a)"

definition session_errors :: "string set" where
  "session_errors = {''channel closed'', ''call hung up during DTMF collection'', ''event channel closed''}"

text \<open>A handler keeps the definition and the invariant, does not chain, and fails only when the session is gone.\<close>

definition keeps :: "ivr_definition \<Rightarrow> 'a result \<times> ivr_world \<Rightarrow> bool" where
  "keeps d r \<longleftrightarrow> iv_definition (fst (snd r)) = d \<and> ivr_inv (fst (snd r)) \<and> (\<forall>e. fst r = Inl e \<longrightarrow> e \<in> session_errors)"

lemma keeps_Inr [simp]: "keeps d (Inr x, w) \<longleftrightarrow> iv_definition (fst w) = d \<and> ivr_inv (fst w)"
  by (simp add: keeps_def)

lemma keeps_and_then:
  "keeps d r \<Longrightarrow> (\<And>x w. fst r = Inr x \<Longrightarrow> snd r = w \<Longrightarrow> iv_definition (fst w) = d \<Longrightarrow> ivr_inv (fst w) \<Longrightarrow> keeps d (f x w)) \<Longrightarrow>
     keeps d (and_then r f)"
  by (cases r; cases "fst r") (auto simp: keeps_def)

lemma play_frame: "fst (snd (play path w)) = fst w" "fst (play path w) = Inl e \<Longrightarrow> e \<in> session_errors"
  by (cases w; auto simp: play_def control_def play_audio_def play_audio_with_options_def send_command_def new_uuid_def
      session_errors_def Let_def split: if_splits)+

lemma play_and_continue_keeps:
  "iv_definition (fst w) = d \<Longrightarrow> ivr_inv (fst w) \<Longrightarrow> keeps d (play_and_continue path w)"
  unfolding play_and_continue_def using play_frame [of path w]
  by (intro keeps_and_then) (auto simp: keeps_def)

lemma state_frame [simp]:
  "stack_ok (a\<lparr>iv_state := s\<rparr>) = stack_ok a" "current_menu_key (a\<lparr>iv_state := s\<rparr>) = current_menu_key a"
  "stack_ok (a\<lparr>iv_pending_retry_count := n\<rparr>) = stack_ok a" "current_menu_key (a\<lparr>iv_pending_retry_count := n\<rparr>) = current_menu_key a"
  "stack_ok (a\<lparr>iv_pending_unknown_digit := u\<rparr>) = stack_ok a"
  "current_menu_key (a\<lparr>iv_pending_unknown_digit := u\<rparr>) = current_menu_key a"
  "stack_ok (a\<lparr>iv_collected_variables := v\<rparr>) = stack_ok a"
  "current_menu_key (a\<lparr>iv_collected_variables := v\<rparr>) = current_menu_key a"
  by (simp_all add: stack_ok_def current_menu_key_def)

lemma current_menu_known: "stack_ok a \<Longrightarrow> get_menu (iv_definition a) (current_menu_key a) \<noteq> None"
  by (auto simp: stack_ok_def current_menu_key_def)

lemma ivr_inv_stack: "ivr_inv a \<Longrightarrow> stack_ok a"
  by (simp add: ivr_inv_def)

lemma navigate_frame:
  assumes "stack_ok a" "get_menu (iv_definition a) key \<noteq> None"
  shows "stack_ok (navigate_to_menu key a)" "current_menu_key (navigate_to_menu key a) = key"
    "iv_definition (navigate_to_menu key a) = iv_definition a"
  using assms by (auto simp: navigate_to_menu_def stack_ok_def current_menu_key_def)

lemma start_waiting_inv:
  assumes "stack_ok (fst w)" "current_menu_key (fst w) = key"
  shows "ivr_inv (fst (start_waiting_dtmf now key n w))"
    "iv_definition (fst (start_waiting_dtmf now key n w)) = iv_definition (fst w)"
  using assms by (auto simp: start_waiting_dtmf_def ivr_inv_def split: prod.split)

lemma enter_menu_keeps:
  assumes "stack_ok (fst w)" "iv_definition (fst w) = d" "get_menu d key \<noteq> None"
  shows "keeps d (enter_menu env now key w)"
proof -
  obtain a c where w: "w = (a, c)" by fastforce
  let ?a = "navigate_to_menu key a"
  have nav: "stack_ok ?a" "current_menu_key ?a = key" "iv_definition ?a = d"
    using navigate_frame [of a key] assms by (simp_all add: w)
  then have inv: "ivr_inv (?a\<lparr>iv_state := PlayingGreeting key\<rparr>)" by (simp add: ivr_inv_def)
  obtain menu where "get_menu d key = Some menu" using assms(3) by blast
  then show ?thesis
    using nav inv start_waiting_inv [of "(?a\<lparr>iv_state := PlayingGreeting key\<rparr>, c)" key now]
    by (auto simp: w enter_menu_def Let_def intro!: play_and_continue_keeps split: option.split)
qed

lemma enter_current_menu_keeps:
  "stack_ok (fst w) \<Longrightarrow> iv_definition (fst w) = d \<Longrightarrow> keeps d (enter_current_menu env now w)"
  unfolding enter_current_menu_def using current_menu_known by (blast intro: enter_menu_keeps)

lemma finish_keeps: "stack_ok (fst w) \<Longrightarrow> iv_definition (fst w) = d \<Longrightarrow> keeps d (finish action w)"
  by (cases w) (simp add: finish_def ivr_inv_def)

lemma act_back_keeps: "stack_ok (fst w) \<Longrightarrow> iv_definition (fst w) = d \<Longrightarrow> keeps d (act_back env now w)"
proof -
  assume prems: "stack_ok (fst w)" "iv_definition (fst w) = d"
  obtain a c where w: "w = (a, c)" by fastforce
  let ?a = "snd (navigate_back a)"
  have "iv_menu_stack ?a \<noteq> [] \<and> hd (iv_menu_stack ?a) = ''root'' \<and> ''root'' \<notin> set (tl (iv_menu_stack ?a))
     \<and> set (iv_menu_stack ?a) \<subseteq> set (iv_menu_stack a)"
    using prems(1) by (cases "iv_menu_stack a") (auto simp: w stack_ok_def navigate_back_def Let_def dest: in_set_butlastD)
  moreover have "iv_definition ?a = d" using prems(2) by (simp add: w navigate_back_def Let_def)
  ultimately have "stack_ok ?a" using prems by (auto simp: stack_ok_def w)
  then show ?thesis
    using \<open>iv_definition ?a = d\<close> current_menu_known [of ?a]
    by (auto simp: w act_back_def navigate_back_def Let_def intro!: enter_menu_keeps)
qed

lemma act_play_keeps:
  "stack_ok (fst w) \<Longrightarrow> iv_definition (fst w) = d \<Longrightarrow> keeps d (act_play env now prompt txt voice w)"
  using current_menu_known [of "fst w"]
  by (cases w) (auto simp: act_play_def Let_def ivr_inv_def intro!: play_and_continue_keeps enter_menu_keeps split: option.split)

lemma act_hangup_keeps:
  "stack_ok (fst w) \<Longrightarrow> iv_definition (fst w) = d \<Longrightarrow> keeps d (act_hangup env prompt txt voice w)"
  by (cases w) (auto simp: act_hangup_def ivr_inv_def intro!: play_and_continue_keeps finish_keeps split: option.split)

lemma act_play_and_hangup_keeps:
  "stack_ok (fst w) \<Longrightarrow> iv_definition (fst w) = d \<Longrightarrow> keeps d (act_play_and_hangup env prompt txt voice code w)"
  by (cases w) (auto simp: act_play_and_hangup_def Let_def ivr_inv_def intro!: play_and_continue_keeps finish_keeps split: option.split)

lemma play_prompt_error:
  "map_prod (map_sum id (\<lambda>_. ())) id (play_audio p True c) = (Inl e, c') \<Longrightarrow> e \<in> session_errors"
  by (auto simp: play_audio_def play_audio_with_options_def send_command_def new_uuid_def Let_def session_errors_def split: if_splits)

lemma collect_loop_error:
  "fst (collect_loop cfg deadline now collected inbox) = Inl e \<Longrightarrow> e \<in> session_errors"
proof (induction inbox arbitrary: now collected)
  case (Cons te rest)
  then show ?case
    by (cases te) (auto simp: collect_loop_Cons session_errors_def split: if_splits option.splits controller_event.splits)
qed (simp add: collect_loop_Nil)

lemma collect_dtmf_error: "fst (fst (collect_dtmf cfg now inbox c)) = Inl e \<Longrightarrow> e \<in> session_errors"
  by (auto simp: collect_dtmf_def dest: play_prompt_error collect_loop_error split: option.splits prod.splits sum.splits)


definition collected :: "ivr_app \<Rightarrow> (string \<times> instant) result \<times> ivr_world \<Rightarrow> bool" where
  "collected a r \<longleftrightarrow> fst (snd r) = a\<lparr>iv_pending_unknown_digit := None\<rparr> \<and> (\<forall>e. fst r = Inl e \<longrightarrow> e \<in> session_errors)"

lemma collect_digits_collected: "collected (fst w) (collect_digits env now mn mx term prompt idt w)"
proof -
  obtain a c where w: "w = (a, c)" by fastforce
  show ?thesis
  proof (cases "iv_pending_unknown_digit a")
    case None
    let ?r = "collect_dtmf (collect_config mn mx mx term prompt idt) now (env_arrivals env now) c"
    show ?thesis using collect_dtmf_error [of "collect_config mn mx mx term prompt idt" now "env_arrivals env now" c]
      by (cases ?r; cases "fst (fst ?r)") (auto simp: w None collect_digits_def Let_def collected_def)
  next
    case (Some first)
    let ?cfg = "collect_config 1 (mx - length first) mx term prompt idt"
    let ?r = "collect_dtmf ?cfg now (env_arrivals env now) c"
    show ?thesis using collect_dtmf_error [of ?cfg now "env_arrivals env now" c]
      by (cases ?r; cases "fst (fst ?r)") (auto simp: w Some collect_digits_def Let_def collected_def)
  qed
qed

lemma collected_keeps:
  assumes "stack_ok a" "iv_definition a = d" "collected a r"
    "\<And>x w. stack_ok (fst w) \<Longrightarrow> iv_definition (fst w) = d \<Longrightarrow> keeps d (f x w)" "state_menu (iv_state a) = None \<or> ivr_inv a"
  shows "keeps d (and_then r f)"
proof -
  obtain res w where Pair: "r = (res, w)" by (rule prod.exhaust)
  then have "stack_ok (fst w)" "iv_definition (fst w) = d" "ivr_inv (fst w)"
    using assms by (auto simp: collected_def ivr_inv_def)
  then show ?thesis
  proof (cases res)
    case (Inl e)
    then show ?thesis using assms(3) Pair \<open>iv_definition (fst w) = d\<close> \<open>ivr_inv (fst w)\<close> by (simp add: collected_def keeps_def)
  next
    case (Inr x)
    then show ?thesis using assms(4) Pair \<open>iv_definition (fst w) = d\<close> \<open>stack_ok (fst w)\<close> by simp
  qed
qed

lemma act_collect_extension_keeps:
  assumes "stack_ok (fst w)" "iv_definition (fst w) = d"
  shows "keeps d (act_collect_extension env now prompt txt voice mn mx idt w)"
proof -
  obtain a c where w: "w = (a, c)" by fastforce
  let ?a = "a\<lparr>iv_state := CollectingExtension\<rparr>"
  have "keeps d (and_then (collect_digits env now mn mx tm q idt (?a, c))
     (\<lambda>(digits, t) w. if digits = [] then enter_current_menu env t w else finish (TransferTo digits) w))" for tm q
    by (rule collected_keeps [of ?a])
      (use assms collect_digits_collected [of "(?a, c)"] in
        \<open>auto simp: w intro: enter_current_menu_keeps finish_keeps split: prod.split\<close>)
  then show ?thesis by (simp add: w act_collect_extension_def Let_def)
qed

lemma act_collect_keeps:
  assumes "ivr_inv (fst w)" "iv_definition (fst w) = d"
  shows "keeps d (act_collect env now variable prompt txt voice mn mx end_key idt w)"
proof -
  obtain a c where w: "w = (a, c)" by fastforce
  have "keeps d (and_then (collect_digits env now mn mx tm q idt (a, c))
     (\<lambda>(digits, t) (a1, c1). enter_current_menu env t
        ((if digits = [] then a1 else a1\<lparr>iv_collected_variables := hm_insert variable digits (iv_collected_variables a1)\<rparr>), c1)))"
    for tm q
    by (rule collected_keeps [of a])
      (use assms collect_digits_collected [of "(a, c)"] in
        \<open>auto simp: w ivr_inv_stack intro!: enter_current_menu_keeps split: prod.split\<close>)
  then show ?thesis by (simp add: w act_collect_def Let_def)
qed

lemma no_timer_frame [simp]: "fst (no_timer w) = fst w"
  by (cases w) (simp add: no_timer_def)

lemmas action_keeps = enter_menu_keeps enter_current_menu_keeps finish_keeps act_back_keeps act_play_keeps act_hangup_keeps
  act_play_and_hangup_keeps act_collect_extension_keeps act_collect_keeps

lemma direct_action_keeps:
  assumes "ivr_inv (fst w)" "iv_definition (fst w) = d" "refers_ok d action" "\<not> is_webhook action"
  shows "keeps d (execute_action env now action w)"
proof -
  have "stack_ok (fst (no_timer w))" "iv_definition (fst (no_timer w)) = d" "ivr_inv (fst (no_timer w))"
    using assms by (simp_all add: ivr_inv_stack)
  moreover have "get_menu d m \<noteq> None" if "action = EaMenu m" for m
    using that assms(3) unknown_menu_None [of d action] by (simp add: refers_ok_def)
  ultimately show ?thesis using assms(4)
    by (cases action) (simp_all add: execute_action.simps Let_def action_keeps)
qed

lemma execute_action_keeps:
  assumes "ivr_inv (fst w)" "iv_definition (fst w) = d" "refers_ok d action" "unchecked_ok env d"
  shows "keeps d (execute_action env now action w)"
proof (cases action)
  case (EaWebhook url meth headers variables timeout)
  let ?call = "call_webhook env now (fst w) url (unwrap_or meth ''POST'') headers variables timeout"
  have ok: "refers_ok d (into_entry_action r)" if "fst ?call = Inr r" for r
    using that assms(4) unfolding unchecked_ok_def
    by (auto simp: call_webhook_def split: prod.splits http_outcome.splits sum.splits if_splits) blast
  obtain res t where call: "?call = (res, t)" by fastforce
  show ?thesis
  proof (cases res)
    case (Inl e)
    then show ?thesis using assms(1,2) by (simp add: EaWebhook execute_action.simps Let_def call enter_current_menu_keeps ivr_inv_stack)
  next
    case (Inr r)
    then have "keeps d (execute_action env t (into_entry_action r) (no_timer w))"
      using ok call assms(1,2) by (intro direct_action_keeps) simp_all
    then show ?thesis using Inr by (subst execute_action.simps) (simp add: EaWebhook Let_def call)
  qed
qed (use assms in \<open>simp_all add: direct_action_keeps\<close>)


section \<open>Handlers keep the menus\<close>

lemma checked_cases:
  "key_action d key digit = Some act \<Longrightarrow> \<exists>menu. get_menu d key = Some menu \<and> act \<in> checked_actions menu"
  "get_menu d key = Some menu \<Longrightarrow> mn_timeout_action menu = Some act \<Longrightarrow> act \<in> checked_actions menu"
  "get_menu d key = Some menu \<Longrightarrow> mn_max_retries_action menu = Some act \<Longrightarrow> act \<in> checked_actions menu"
  by (auto simp: key_action_def checked_actions_def bind_eq_Some_conv find_Some_iff)

text \<open>A definition that is validated, with nothing wrong in what the validation does not look at.\<close>

definition sound :: "ivr_env \<Rightarrow> ivr_definition \<Rightarrow> bool" where
  "sound env d \<longleftrightarrow> ivr_validate d = Inr () \<and> unchecked_ok env d"

lemma sound_actions:
  assumes "sound env d" "get_menu d key = Some menu"
  shows "act \<in> checked_actions menu \<Longrightarrow> refers_ok d act" "mn_unknown_key_action menu = Some act \<Longrightarrow> refers_ok d act"
  using assms validate_ok unfolding sound_def unchecked_ok_def by blast+

lemma sound_execute:
  "sound env d \<Longrightarrow> ivr_inv (fst w) \<Longrightarrow> iv_definition (fst w) = d \<Longrightarrow> refers_ok d act \<Longrightarrow> keeps d (execute_action env now act w)"
  unfolding sound_def by (blast intro: execute_action_keeps)

lemma retries_exceeded_keeps:
  assumes "sound env d" "ivr_inv (fst w)" "iv_definition (fst w) = d" "get_menu d key = Some menu"
  shows "keeps d (retries_exceeded env now menu w)"
  using assms sound_actions(1) [OF assms(1,4)] checked_cases(3) [OF assms(4)]
  by (auto simp: retries_exceeded_def intro!: finish_keeps sound_execute ivr_inv_stack split: option.split)

lemma replay_keeps:
  "stack_ok (fst w) \<Longrightarrow> iv_definition (fst w) = d \<Longrightarrow> key = current_menu_key (fst w) \<Longrightarrow>
     keeps d (replay_greeting env now key menu n w)"
  by (cases w) (auto simp: replay_greeting_def Let_def ivr_inv_def start_waiting_dtmf_def
      intro!: play_and_continue_keeps split: option.split)

lemma handle_timeout_keeps:
  assumes "sound env d" "ivr_inv (fst w)" "iv_definition (fst w) = d" "key = current_menu_key (fst w)"
  shows "keeps d (handle_timeout env now key n w)"
proof -
  obtain a c where w: "w = (a, c)" by fastforce
  obtain menu where menu: "get_menu d key = Some menu" using assms current_menu_known ivr_inv_stack by blast
  have "keeps d (execute_action env now act w)" if "mn_timeout_action menu = Some act" for act
    using that assms menu by (blast intro: sound_execute sound_actions(1) checked_cases(2))
  then show ?thesis
    using assms menu retries_exceeded_keeps [OF assms(1-3) menu] replay_keeps [of w d key]
    by (auto simp: w handle_timeout_def ivr_inv_stack split: option.split entry_action.split)
qed

lemma handle_invalid_key_keeps:
  assumes "sound env d" "ivr_inv (fst w)" "iv_definition (fst w) = d" "key = current_menu_key (fst w)"
  shows "keeps d (handle_invalid_key env now key n digit w)"
proof -
  obtain a c where w: "no_timer w = (a, c)" by fastforce
  then have a: "a = fst w" by (metis fst_conv no_timer_frame)
  obtain menu where menu: "get_menu d key = Some menu" using assms current_menu_known ivr_inv_stack by blast
  have st: "stack_ok a" using assms(2) by (simp add: a ivr_inv_stack)
  then show ?thesis
    using assms menu retries_exceeded_keeps [of env d "(a, c)" key menu now] start_waiting_inv [of "(a, c)" key]
    by (auto simp: handle_invalid_key_def w Let_def a ivr_inv_def intro!: play_and_continue_keeps split: option.split)
qed

lemma ivr_on_dtmf_keeps:
  assumes "sound env d" "ivr_inv (fst w)" "iv_definition (fst w) = d"
  shows "keeps d (ivr_on_dtmf env now digit w)"
proof -
  obtain a c where w: "w = (a, c)" by fastforce
  have key: "keeps d (execute_action env now act (a, c'))" if "key_action d k digit = Some act" for k act c'
  proof (rule sound_execute)
    show "refers_ok d act" using that sound_actions(1) [OF assms(1)] checked_cases(1) by blast
  qed (use assms in \<open>simp_all add: w\<close>)
  have barge: "keeps d (barge_in env now act (a, c))" if "key_action d k digit = Some act" for k act
    using key [OF that] by (simp add: barge_in_def control_def no_timer_def split: prod.split)
  have unknown: "keeps d (execute_action env now act (a\<lparr>iv_pending_unknown_digit := Some digit\<rparr>, c))"
    if "get_menu d k = Some menu" "mn_unknown_key_action menu = Some act" for k menu act
    using assms sound_actions(2) [OF assms(1) that] by (intro sound_execute) (auto simp: w ivr_inv_def)
  have invalid: "keeps d (handle_invalid_key env now k n digit (a, c))" if "iv_state a = WaitingDtmf k n" for k n
    using assms that by (intro handle_invalid_key_keeps) (auto simp: w ivr_inv_def)
  show ?thesis
    using assms key barge unknown invalid finish_keeps [of "(a, c)" d]
    by (auto simp: w ivr_on_dtmf_def ivr_inv_stack split: ivr_state.split option.split)
qed

lemma ivr_on_audio_complete_keeps:
  assumes "ivr_inv (fst w)" "iv_definition (fst w) = d"
  shows "keeps d (ivr_on_audio_complete env now track w)"
proof -
  obtain a c where w: "w = (a, c)" by fastforce
  have st: "stack_ok a" and k: "\<And>k. state_menu (iv_state a) = Some k \<Longrightarrow> k = current_menu_key a \<and> get_menu d k \<noteq> None"
    using assms current_menu_known by (auto simp: w ivr_inv_def)
  show ?thesis
  proof (cases "iv_state a")
    case (PlayingGreeting key)
    then show ?thesis using st k assms(2) start_waiting_inv [of "(a\<lparr>iv_pending_retry_count := 0\<rparr>, c)" key now]
      by (simp add: w ivr_on_audio_complete_def)
  next
    case (PlayingAnnouncement key)
    then have "keeps d (enter_menu env now key (a, c))" using st k [of key] assms(2) by (intro enter_menu_keeps) (auto simp: w)
    then show ?thesis by (simp add: w ivr_on_audio_complete_def PlayingAnnouncement)
  qed (use st k assms in \<open>auto simp: w ivr_on_audio_complete_def finish_keeps replay_keeps split: option.split\<close>)
qed

lemma ivr_on_timeout_keeps:
  "sound env d \<Longrightarrow> ivr_inv (fst w) \<Longrightarrow> iv_definition (fst w) = d \<Longrightarrow> keeps d (ivr_on_timeout env now i w)"
  by (cases w) (auto simp: ivr_on_timeout_def ivr_inv_def intro!: handle_timeout_keeps split: ivr_state.split)

lemma answer_keeps:
  "ivr_inv (fst w) \<Longrightarrow> iv_definition (fst w) = d \<Longrightarrow> keeps d (control ctl_answer w)"
  by (cases w) (auto simp: keeps_def control_def ctl_answer_def send_command_def session_errors_def)

lemma closed_hours_keeps:
  assumes "sound env d" "ivr_inv (fst w)" "iv_definition (fst w) = d" "ivr_business_hours d = Some bh"
  shows "keeps d (closed_hours env now bh w)"
proof -
  obtain a c where w: "w = (a, c)" by fastforce
  have "refers_ok d act" if "bh_closed_action bh = Some act" for act
    using assms(1,4) that unfolding sound_def unchecked_ok_def by blast
  then have "keeps d (execute_action env now act w)" if "bh_closed_action bh = Some act" for act
    using that assms by (intro sound_execute) simp_all
  then show ?thesis using assms finish_keeps [of "(a, c)" d]
    by (auto simp: w closed_hours_def ivr_inv_def intro!: play_and_continue_keeps split: option.split)
qed

lemma ivr_on_enter_keeps:
  assumes "sound env d" "ivr_inv (fst w)" "iv_definition (fst w) = d"
  shows "keeps d (ivr_on_enter env now w)"
proof -
  have enter: "keeps d (enter_menu env now ''root'' w)" if "iv_definition (fst w) = d" "ivr_inv (fst w)" for w
    using that by (intro enter_menu_keeps) (simp_all add: ivr_inv_stack get_menu_def)
  show ?thesis unfolding ivr_on_enter_def
    by (rule keeps_and_then [OF answer_keeps])
      (use assms enter closed_hours_keeps [OF assms(1)] in \<open>auto split: option.split\<close>)
qed

section \<open>The contract of the application\<close>

lemma ivr_no_chain_basic:
  "no_chain (play_and_continue path w)" "no_chain (enter_menu env now key w)" "no_chain (enter_current_menu env now w)"
  "(\<And>s. action \<noteq> Chain s) \<Longrightarrow> no_chain (finish action w)"
proof -
  show play: "no_chain (play_and_continue path w)" for path w
    unfolding play_and_continue_def by (cases "play path w"; cases "fst (play path w)") (auto simp: no_chain_def)
  show enter: "no_chain (enter_menu env now key w)" for key
    using play by (cases w) (auto simp: enter_menu_def Let_def no_chain_def split: option.split)
  show "no_chain (enter_current_menu env now w)" using enter by (simp add: enter_current_menu_def)
  show "(\<And>s. action \<noteq> Chain s) \<Longrightarrow> no_chain (finish action w)" by (cases w) (auto simp: finish_def no_chain_def)
qed

lemma and_then_chain:
  "(\<And>x w. no_chain (f x w)) \<Longrightarrow> no_chain (and_then r f)"
  by (cases r; cases "fst r") (auto simp: no_chain_def)

lemma ivr_no_chain_acts:
  "no_chain (act_back env now w)" "no_chain (act_play env now prompt txt voice w)"
  "no_chain (act_hangup env p txt voice w)" "no_chain (act_play_and_hangup env p txt voice code w)"
  "no_chain (act_collect_extension env now prompt txt voice mn mx idt w)"
  "no_chain (act_collect env now variable p txt voice mn mx end_key idt w)"
  by (cases w; auto simp: act_back_def act_play_def act_hangup_def act_play_and_hangup_def act_collect_extension_def
      act_collect_def Let_def ivr_no_chain_basic intro!: and_then_chain split: prod.split option.split)+

lemma direct_no_chain: "\<not> is_webhook action \<Longrightarrow> no_chain (execute_action env now action w)"
  by (cases action) (simp_all add: execute_action.simps Let_def ivr_no_chain_basic ivr_no_chain_acts)

lemma execute_no_chain: "no_chain (execute_action env now action w)"
proof (cases action)
  case (EaWebhook url meth headers variables timeout)
  then show ?thesis
    by (subst execute_action.simps) (auto simp: Let_def ivr_no_chain_basic direct_no_chain split: prod.split sum.split)
qed (simp_all add: direct_no_chain)

lemmas ivr_no_chain = ivr_no_chain_basic execute_no_chain

lemma retry_no_chain:
  "no_chain (retries_exceeded env now menu w)" "no_chain (replay_greeting env now key menu n w)"
  by (cases w; auto simp: retries_exceeded_def replay_greeting_def Let_def ivr_no_chain split: option.split)+

lemma handle_no_chain_retry: "no_chain (handle_timeout env now key n w)" "no_chain (handle_invalid_key env now key n digit w)"
proof -
  show "no_chain (handle_timeout env now key n w)"
    by (cases w; cases "get_menu (iv_definition (fst w)) key"; cases "mn_timeout_action (the (get_menu (iv_definition (fst w)) key))")
      (auto simp: handle_timeout_def Let_def ivr_no_chain retry_no_chain no_chain_def [of "(Inl _, _)"] split: entry_action.split)
  show "no_chain (handle_invalid_key env now key n digit w)"
    by (cases w) (auto simp: handle_invalid_key_def Let_def ivr_no_chain retry_no_chain no_timer_def no_chain_def [of "(Inl _, _)"] split: option.split)
qed

lemma ivr_handlers_no_chain:
  "no_chain (ivr_on_enter env now w)" "no_chain (ivr_on_dtmf env now d w)" "no_chain (ivr_on_audio_complete env now t w)"
  "no_chain (ivr_on_timeout env now i w)"
proof -
  have "no_chain (closed_hours env now bh w)" for bh w
    by (cases w) (simp add: closed_hours_def ivr_no_chain split: option.split)
  then show "no_chain (ivr_on_enter env now w)"
    unfolding ivr_on_enter_def by (intro and_then_chain) (simp add: ivr_no_chain split: option.split)
  show "no_chain (ivr_on_dtmf env now d w)"
    by (cases w) (simp add: ivr_on_dtmf_def barge_in_def ivr_no_chain handle_no_chain_retry split: option.split ivr_state.split)
  show "no_chain (ivr_on_audio_complete env now t w)"
    by (cases w) (simp add: ivr_on_audio_complete_def ivr_no_chain retry_no_chain split: option.split ivr_state.split)
  show "no_chain (ivr_on_timeout env now i w)"
    by (cases w) (simp add: ivr_on_timeout_def handle_no_chain_retry split: ivr_state.split)
qed

definition ivr_contract :: "ivr_env \<Rightarrow> ivr_app \<Rightarrow> bool" where
  "ivr_contract env a \<longleftrightarrow> sound env (iv_definition a) \<and> ivr_inv a"

lemma keeps_handled: "keeps d r \<Longrightarrow> sound env d \<Longrightarrow> handled (ivr_contract env) session_errors r"
  by (auto simp: keeps_def handled_def ivr_contract_def)

lemmas handlers_handled = keeps_handled [OF ivr_on_enter_keeps] keeps_handled [OF ivr_on_dtmf_keeps]
  keeps_handled [OF ivr_on_audio_complete_keeps] keeps_handled [OF ivr_on_timeout_keeps]

interpretation ivr: app_contract "ivr_call_app env" "ivr_contract env" session_errors for env
proof
  show "''channel closed'' \<in> session_errors" by (simp add: session_errors_def)
qed (auto simp: ivr_call_app_def ivr_handlers_no_chain ivr_contract_def [abs_def] intro: handlers_handled [unfolded ivr_contract_def [abs_def]])

section \<open>Properties of the application\<close>

lemma new_app_contract: "sound env d \<Longrightarrow> ivr_contract env (ivr_app_new d)"
  by (simp add: ivr_contract_def ivr_inv_def stack_ok_def ivr_app_new_def get_menu_def)

text \<open>C25: A validated voice menu does not lose its way.  Whatever the caller presses and whatever happens in whatever
  order, the application ends or waits after at most two rounds per event; the stack of its menus begins with the root
  and has only menus of the definition, the menu of its state is on the top, and it ends with an error only when the
  session is gone.  The actions the validation does not look at must not name missing menus either.\<close>

theorem ivr_stays_on_known_menus:
  assumes "sound env d" and "2 * length evs + 2 \<le> n"
  shows "\<exists>out. app_run n (ivr_call_app env) evs now cancelled (ivr_app_new d, c) = Some out
     \<and> good_outcome (ivr_contract env) session_errors out"
  using ivr.run_contract [of env "(ivr_app_new d, c)" evs n now cancelled] new_app_contract [OF assms(1)] assms(2) by simp

text \<open>The validation accepts exactly the definitions whose keys, timeouts and retries name existing menus.\<close>

theorem ivr_validate_exact:
  assumes "hm_wf (ivr_menus d)"
  shows "ivr_validate d = Inr () \<longleftrightarrow>
     (\<forall>key menu. (key = ''root'' \<and> menu = ivr_root d \<or> hm_get (ivr_menus d) key = Some menu) \<longrightarrow>
        (\<forall>m. EaMenu m \<in> checked_actions menu \<longrightarrow> get_menu d m \<noteq> None))"
proof -
  have refs: "(\<forall>act \<in> checked_actions menu. refers_ok d act) \<longleftrightarrow> (\<forall>m. EaMenu m \<in> checked_actions menu \<longrightarrow> get_menu d m \<noteq> None)"
    for menu by (auto simp: refers_ok_def unknown_menu_None)
  have "ivr_validate d = Inr () \<longleftrightarrow> (\<forall>act \<in> checked_actions (ivr_root d). refers_ok d act)
     \<and> (\<forall>(key, menu) \<in> set (ivr_menus d). \<forall>act \<in> checked_actions menu. refers_ok d act)"
    using validate_menu_refs_ok [of "ivr_root d" "''root''" d] validate_menus_ok [of d "ivr_menus d"]
    by (auto simp: ivr_validate_def split: sum.splits)
  then show ?thesis unfolding refs using hm_get_in_set [OF assms] by auto
qed

section \<open>Going back\<close>

lemma play_and_continue_frame [simp]: "fst (snd (play_and_continue path w)) = fst w"
  using play_frame(1) [of path w] unfolding play_and_continue_def by (cases "play path w"; cases "fst (play path w)") auto

text \<open>The controller when a prompt has been requested.\<close>

definition after_play :: "string \<Rightarrow> controller \<Rightarrow> controller" where
  "after_play path c = snd (play_audio path False c)"

lemma play_and_continue_open:
  "ctl_open c \<Longrightarrow> play_and_continue path (a, c) = (Inr Continue, (a, after_play path c))"
  by (simp add: play_and_continue_def play_def control_def after_play_def play_audio_def play_audio_with_options_def
      send_command_def new_uuid_def Let_def)

lemma after_play_frame [simp]:
  "ctl_open (after_play path c) = ctl_open c" "ctl_timers (after_play path c) = ctl_timers c"
  "ctl_cancelled (after_play path c) = ctl_cancelled c"
  by (simp_all add: after_play_def play_audio_def play_audio_with_options_def send_command_def new_uuid_def Let_def)

lemma timer_frame [simp]:
  "ctl_open (set_timeout now i d c) = ctl_open c" "ctl_open (cancel_timeout i c) = ctl_open c"
  "ctl_sent (set_timeout now i d c) = ctl_sent c" "ctl_sent (cancel_timeout i c) = ctl_sent c"
  by (simp_all add: set_timeout_def cancel_timeout_def)

lemma enter_menu_stack:
  assumes "get_menu (iv_definition a) key \<noteq> None"
  shows "iv_menu_stack (fst (snd (enter_menu env now key (a, c)))) = iv_menu_stack (navigate_to_menu key a)"
    "iv_definition (fst (snd (enter_menu env now key (a, c)))) = iv_definition a"
    "state_menu (iv_state (fst (snd (enter_menu env now key (a, c))))) = Some key"
  using assms by (auto simp: enter_menu_def Let_def navigate_to_menu_def start_waiting_dtmf_def split: option.splits)

text \<open>Back undoes the choice of a menu.  When a key leads from the current menu to another one of the definition, and
  the next action is to go back, the stack of the menus is what it was, and the application is on the menu it came from;
  only a choice of the root menu forgets the way.\<close>

theorem menu_back_roundtrip:
  assumes "ivr_inv a" and "get_menu (iv_definition a) m \<noteq> None" and "m \<noteq> ''root''" and "m \<noteq> current_menu_key a"
    and "execute_action env now (EaMenu m) (a, c) = (r1, (a1, c1))" and "execute_action env t EaBack (a1, c1) = (r2, (a2, c2))"
  shows "iv_menu_stack a1 = iv_menu_stack a @ [m] \<and> iv_menu_stack a2 = iv_menu_stack a
     \<and> state_menu (iv_state a2) = Some (current_menu_key a)"
proof -
  have ne: "iv_menu_stack a \<noteq> []" "hd (iv_menu_stack a) = ''root''" using assms(1) by (simp_all add: ivr_inv_def stack_ok_def)
  have "snd (enter_menu env now m (a, cancel_timeout dtmf_timer c)) = (a1, c1)"
    using assms(5) by (simp add: execute_action.simps no_timer_def)
  then have s1: "iv_menu_stack a1 = iv_menu_stack a @ [m]" "iv_definition a1 = iv_definition a"
    using enter_menu_stack [OF assms(2), of env now "cancel_timeout dtmf_timer c"] assms(3,4) by (simp_all add: navigate_to_menu_def)
  let ?b = "a1\<lparr>iv_menu_stack := iv_menu_stack a\<rparr>"
  let ?k = "current_menu_key a"
  have k: "current_menu_key ?b = ?k" using ne by (simp add: current_menu_key_def)
  have kn: "get_menu (iv_definition ?b) ?k \<noteq> None"
    using current_menu_known [OF ivr_inv_stack [OF assms(1)]] by (simp add: s1)
  have enter: "enter_menu env t ?k (?b, cancel_timeout dtmf_timer c1) = (r2, (a2, c2))"
    using assms(6) ne k by (simp add: execute_action.simps no_timer_def act_back_def navigate_back_def s1 Let_def)
  have nav: "iv_menu_stack (navigate_to_menu ?k ?b) = iv_menu_stack a"
  proof (cases "?k = ''root''")
    case True
    then have "iv_menu_stack a = [''root'']" using assms(1)
      by (cases "iv_menu_stack a") (auto simp: ivr_inv_def stack_ok_def current_menu_key_def dest: last_in_set split: if_splits)
    then show ?thesis using True by (simp add: navigate_to_menu_def)
  next
    case False
    then show ?thesis using k by (simp add: navigate_to_menu_def)
  qed
  show ?thesis using enter_menu_stack [OF kn, of env t "cancel_timeout dtmf_timer c1"] by (simp add: enter nav s1)
qed


section \<open>A silent caller\<close>

text \<open>Rounds of silence: the timer fires, and the greeting that is played again comes to its end.\<close>

fun silence :: "(instant \<times> instant \<times> string) list \<Rightarrow> (instant \<times> loop_event \<times> bool) list" where
  "silence [] = []"
| "silence ((t1, t2, track) # rest) =
     (t1, TimerFired dtmf_timer, False) # (t2, FromController (Some (AudioComplete track False)), False) # silence rest"

definition waits :: "ivr_definition \<Rightarrow> string \<Rightarrow> nat \<Rightarrow> ivr_world \<Rightarrow> bool" where
  "waits d key n w \<longleftrightarrow> iv_definition (fst w) = d \<and> iv_state (fst w) = WaitingDtmf key n \<and> ctl_open (snd w)"

lemma silent_round:
  assumes "waits d key n w" "get_menu d key = Some menu" "n < mn_max_retries menu"
    "mn_timeout_action menu \<in> {None, Some EaRepeat}"
  obtains w1 where "waits d key (Suc n) w1"
    "\<And>m rest now b. app_loop (Suc (Suc m)) (ivr_call_app env) (silence [(t1, t2, track)] @ rest) Continue now False w
       = app_loop m (ivr_call_app env) rest Continue t2 False w1"
proof -
  obtain a c where w: "w = (a, c)" by fastforce
  let ?a1 = "a\<lparr>iv_state := PlayingGreeting key, iv_pending_retry_count := Suc n\<rparr>"
  have timer: "ivr_on_timeout env t1 dtmf_timer w = replay_greeting env t1 key menu (Suc n) w"
    using assms by (auto simp: w waits_def ivr_on_timeout_def handle_timeout_def)
  show thesis
  proof (cases "menu_greeting env ?a1 menu")
    case None
    let ?w = "start_waiting_dtmf t1 key (Suc n) (?a1, c)"
    have "waits d key (Suc n) ?w" using assms(1) by (simp add: w waits_def start_waiting_dtmf_def)
    moreover have "ivr_on_audio_complete env t2 track ?w = (Inr Continue, ?w)"
      by (simp add: ivr_on_audio_complete_def start_waiting_dtmf_def)
    ultimately show thesis using that [of ?w] timer None
      by (simp add: handle_next_event_def ivr_call_app_def replay_greeting_def w)
  next
    case (Some path)
    let ?w = "start_waiting_dtmf t2 key (Suc n) (?a1\<lparr>iv_pending_retry_count := 0\<rparr>, after_play path c)"
    have "waits d key (Suc n) ?w" using assms(1) by (simp add: w waits_def start_waiting_dtmf_def)
    moreover have "ctl_open c" using assms(1) by (simp add: w waits_def)
    ultimately show thesis using that [of ?w] timer Some
      by (simp add: handle_next_event_def ivr_call_app_def replay_greeting_def w play_and_continue_open ivr_on_audio_complete_def)
  qed
qed

lemma silence_counts:
  assumes "get_menu d key = Some menu" "mn_timeout_action menu \<in> {None, Some EaRepeat}"
  shows "waits d key n w \<Longrightarrow> n + length ts \<le> mn_max_retries menu \<Longrightarrow>
    \<exists>w1 now1. waits d key (n + length ts) w1 \<and>
      app_loop (2 * length ts + m) (ivr_call_app env) (silence ts @ rest) Continue now False w
        = app_loop m (ivr_call_app env) rest Continue now1 False w1"
proof (induction ts arbitrary: n w now)
  case (Cons t ts)
  obtain t1 t2 track where t: "t = (t1, t2, track)" by (metis prod_cases3)
  have "n < mn_max_retries menu" using Cons.prems(2) by simp
  then obtain w1 where w1: "waits d key (Suc n) w1"
    "app_loop (Suc (Suc (2 * length ts + m))) (ivr_call_app env) (silence [(t1, t2, track)] @ silence ts @ rest) Continue now False w
       = app_loop (2 * length ts + m) (ivr_call_app env) (silence ts @ rest) Continue t2 False w1"
    using silent_round [OF Cons.prems(1) assms(1) _ assms(2), of env t1 t2 track] by metis
  have "\<exists>w' now'. waits d key (Suc n + length ts) w' \<and>
      app_loop (2 * length ts + m) (ivr_call_app env) (silence ts @ rest) Continue t2 False w1
        = app_loop m (ivr_call_app env) rest Continue now' False w'"
    by (rule Cons.IH [OF w1(1)]) (use Cons.prems(2) in simp)
  then show ?case using w1(2) by (simp add: t del: app_loop.simps)
qed auto

text \<open>C26: A silent caller is sent away.  On a menu whose timeout repeats the greeting, which is the default, and which has no
  other action for too many retries, the call is hung up when the timer has fired once more than the menu has retries:
  the hangup is sent to the session and the application ends.\<close>

theorem silent_caller_hung_up:
  assumes "iv_definition a = d" and "iv_state a = WaitingDtmf key 0" and "ctl_open c" and "get_menu d key = Some menu"
    and "mn_timeout_action menu \<in> {None, Some EaRepeat}" and "mn_max_retries_action menu = None"
    and "length ts = mn_max_retries menu" and "2 * length ts + 2 \<le> n"
  shows "\<exists>a' c'. app_loop n (ivr_call_app env) (silence ts @ [(t, TimerFired dtmf_timer, False)]) Continue now False (a, c)
       = Some (Ended (Inr ()) (a', c')) \<and> iv_state a' = IvrDone \<and> last (ctl_sent c') = CmdHangup None None"
proof -
  obtain m where n: "n = 2 * length ts + Suc (Suc m)" using assms(8) by (auto dest: le_Suc_ex)
  have "waits d key 0 (a, c)" using assms by (simp add: waits_def)
  then obtain w1 now1 where w1: "waits d key (0 + length ts) w1"
    "app_loop n (ivr_call_app env) (silence ts @ [(t, TimerFired dtmf_timer, False)]) Continue now False (a, c)
       = app_loop (Suc (Suc m)) (ivr_call_app env) [(t, TimerFired dtmf_timer, False)] Continue now1 False w1"
    unfolding n using silence_counts [OF assms(4,5), of 0 "(a, c)" ts "Suc (Suc m)" env "[(t, TimerFired dtmf_timer, False)]" now] assms(7)
    by (metis add_0 order_refl)
  obtain a1 c1 where w: "w1 = (a1, c1)" by fastforce
  have "ivr_on_timeout env t dtmf_timer w1 = (Inr (HangupCall None None), (a1\<lparr>iv_state := IvrDone\<rparr>, c1))"
    using w1(1) assms by (simp add: w waits_def ivr_on_timeout_def handle_timeout_def retries_exceeded_def finish_def)
  then show ?thesis using w1
    by (simp add: w waits_def handle_next_event_def ivr_call_app_def ended_def control_def ctl_hangup_def send_command_def leave_def)
qed


section \<open>What the retries and the timers really do\<close>

text \<open>Rounds of silence on a menu that plays an announcement when its timer fires: the announcement ends, and the greeting
  after it.\<close>

fun announced_silence :: "(instant \<times> instant \<times> instant) list \<Rightarrow> (instant \<times> loop_event \<times> bool) list" where
  "announced_silence [] = []"
| "announced_silence ((t1, t2, t3) # rest) =
     (t1, TimerFired dtmf_timer, False) # (t2, FromController (Some (AudioComplete [] False)), False)
     # (t3, FromController (Some (AudioComplete [] False)), False) # announced_silence rest"

definition idles :: "ivr_definition \<Rightarrow> string \<Rightarrow> ivr_world \<Rightarrow> bool" where
  "idles d key w \<longleftrightarrow> waits d key 0 w \<and> iv_pending_retry_count (fst w) = 0 \<and> current_menu_key (fst w) = key
     \<and> (key = ''root'' \<longrightarrow> iv_menu_stack (fst w) = [''root''])"

lemma announced_round:
  assumes "idles d key w" "get_menu d key = Some menu" "mn_timeout_action menu = Some (EaPlay (p # ps) txt voice)"
    "strip_prefix ''tts://'' (p # ps) = None" "mn_greeting menu = g # gs" "strip_prefix ''tts://'' (g # gs) = None"
    "0 < mn_max_retries menu"
  obtains w1 where "idles d key w1"
    "\<And>m rest now. app_loop (Suc (Suc (Suc m))) (ivr_call_app env) (announced_silence [(t1, t2, t3)] @ rest) Continue now False w
       = app_loop m (ivr_call_app env) rest Continue t3 False w1"
proof -
  obtain a c where w: "w = (a, c)" by fastforce
  have a: "iv_definition a = d" "iv_state a = WaitingDtmf key 0" "ctl_open c" "iv_pending_retry_count a = 0"
    "current_menu_key a = key" "key = ''root'' \<longrightarrow> iv_menu_stack a = [''root'']"
    using assms(1) by (simp_all add: w idles_def waits_def)
  let ?a1 = "a\<lparr>iv_state := PlayingAnnouncement key\<rparr>" and ?c1 = "after_play (p # ps) (cancel_timeout dtmf_timer c)"
  let ?a2 = "a\<lparr>iv_state := PlayingGreeting key\<rparr>" and ?c2 = "after_play (g # gs) ?c1"
  let ?w3 = "start_waiting_dtmf t3 key 0 (?a2\<lparr>iv_pending_retry_count := 0\<rparr>, ?c2)"
  have e1: "ivr_on_timeout env t1 dtmf_timer w = (Inr Continue, (?a1, ?c1))"
    using assms(2,3,4,7) a by (simp add: w ivr_on_timeout_def handle_timeout_def execute_action.simps no_timer_def act_play_def
        resolve_audio_def play_and_continue_open Let_def)
  have "navigate_to_menu key ?a1 = ?a1"
  proof (cases "key = ''root''")
    case True
    then show ?thesis using a(6) by (cases a) (simp add: navigate_to_menu_def)
  qed (use a(5) in \<open>simp add: navigate_to_menu_def\<close>)
  then have e2: "ivr_on_audio_complete env t2 [] (?a1, ?c1) = (Inr Continue, (?a2, ?c2))"
    using assms(2,5,6) a(1,3) by (simp add: ivr_on_audio_complete_def enter_menu_def Let_def menu_greeting_def resolve_audio_def
        play_and_continue_open)
  have e3: "ivr_on_audio_complete env t3 [] (?a2, ?c2) = (Inr Continue, ?w3)"
    using a(4) by (simp add: ivr_on_audio_complete_def)
  have "idles d key ?w3" using a by (simp add: idles_def waits_def start_waiting_dtmf_def)
  then show thesis using that [of ?w3] e1 e2 e3 by (simp add: handle_next_event_def ivr_call_app_def)
qed

text \<open>A menu that plays an announcement at a timeout never gives up a silent caller: the greeting after the announcement
  starts with no retries, so the number of retries of the menu is without effect and the application waits for ever.\<close>

theorem announced_timeout_never_gives_up:
  assumes "get_menu d key = Some menu" "mn_timeout_action menu = Some (EaPlay (p # ps) txt voice)"
    "strip_prefix ''tts://'' (p # ps) = None" "mn_greeting menu = g # gs" "strip_prefix ''tts://'' (g # gs) = None"
    "0 < mn_max_retries menu"
  shows "idles d key w \<Longrightarrow> \<exists>w'. app_loop (3 * length ts + 1) (ivr_call_app env) (announced_silence ts) Continue now False w
     = Some (StillWaiting w') \<and> idles d key w'"
proof (induction ts arbitrary: w now)
  case (Cons t ts)
  obtain t1 t2 t3 where t: "t = (t1, t2, t3)" by (metis prod_cases3)
  obtain w1 where w1: "idles d key w1"
    "app_loop (Suc (Suc (Suc (3 * length ts + 1)))) (ivr_call_app env) (announced_silence [(t1, t2, t3)] @ announced_silence ts) Continue now False w
       = app_loop (3 * length ts + 1) (ivr_call_app env) (announced_silence ts) Continue t3 False w1"
    using announced_round [OF Cons.prems assms, of env t1 t2 t3] by metis
  have "3 * length (t # ts) + 1 = Suc (Suc (Suc (3 * length ts + 1)))" "announced_silence (t # ts) = announced_silence [(t1, t2, t3)] @ announced_silence ts"
    by (simp_all add: t)
  then show ?case using Cons.IH [OF w1(1), of t3] w1(2) by (simp only:)
qed auto


text \<open>A wrong key does not restart the timer.  When a key is wrong, there are retries left and there is no prompt for wrong
  keys, the application waits again, with a new timer; the old timer, which was just cancelled, is set again by that
  and fires at its old time, as the timeout of the new wait.\<close>

theorem wrong_key_leaves_old_timer:
  assumes "iv_state a = WaitingDtmf key n" and "get_menu (iv_definition a) key = Some menu"
    and "key_action (iv_definition a) key digit = None" and "mn_unknown_key_action menu = None"
    and "n < mn_max_retries menu" and "mn_invalid_prompt menu = None" and "mn_invalid_text menu = None"
    and "k < length (ctl_timers c)" and "ctl_timers c ! k = (dtmf_timer, t)"
  shows "\<exists>a' c'. ivr_on_dtmf env now digit (a, c) = (Inr Continue, (a', c')) \<and> iv_state a' = WaitingDtmf key (n + 1)
     \<and> ctl_timers c' = ctl_timers c @ [(dtmf_timer, now + millis (mn_timeout_ms menu))] \<and> fst (timer_wakes k c') = Some dtmf_timer"
  using assms by (simp add: ivr_on_dtmf_def handle_invalid_key_def no_timer_def resolve_audio_def start_waiting_dtmf_def
      set_timeout_def cancel_timeout_def timer_wakes_def nth_append)

lemma enter_menu_digit:
  "iv_pending_unknown_digit (fst (snd (enter_menu env now key (a, c)))) = iv_pending_unknown_digit a"
  by (simp add: enter_menu_def Let_def navigate_to_menu_def start_waiting_dtmf_def split: option.split)

text \<open>A digit pressed long ago is dialled.  A key that a menu does not have is remembered for direct dialling even if
  the action of unknown keys does not collect digits; the next extension that is collected begins with it.\<close>

theorem stale_digit_is_dialled:
  assumes "iv_state a = WaitingDtmf key n" and "get_menu (iv_definition a) key = Some menu"
    and "key_action (iv_definition a) key digit = None" and "mn_unknown_key_action menu = Some EaRepeat"
    and "ivr_on_dtmf env now digit (a, c) = (r1, (a1, c1))" and "length digit < mn"
    and "collect_dtmf (collect_config 1 (mx - length digit) mx (Some (CHR ''#'')) None idt) t (env_arrivals env t)
           (cancel_timeout dtmf_timer c1) = ((Inr more_digits, t'), c2)" and "digit \<noteq> []"
  shows "\<exists>a2. execute_action env t (EaCollectExtension [] None None mn mx idt) (a1, c1) = (Inr (TransferTo (digit @ more_digits)), (a2, c2))"
proof -
  let ?a = "a\<lparr>iv_pending_unknown_digit := Some digit\<rparr>"
  have "snd (enter_current_menu env now (?a, cancel_timeout dtmf_timer c)) = (a1, c1)"
    using assms(1-5) by (simp add: ivr_on_dtmf_def execute_action.simps no_timer_def)
  then have "iv_pending_unknown_digit a1 = Some digit"
    using enter_menu_digit [of env now "current_menu_key ?a" ?a "cancel_timeout dtmf_timer c"] by (simp add: enter_current_menu_def)
  then show ?thesis using assms(6-8)
    by (simp add: execute_action.simps no_timer_def act_collect_extension_def resolve_audio_def collect_digits_def finish_def)
qed

text \<open>A greeting for closed hours replaces the action for closed hours: outside the hours, when there is such a greeting, the
  call is hung up after it, whatever the action is.\<close>

theorem closed_greeting_drops_action:
  assumes "ivr_business_hours d = Some bh" and "bh_enabled bh" and "\<not> is_within_business_hours env now bh"
    and "bh_closed_greeting bh = Some (g # gs)" and "strip_prefix ''tts://'' (g # gs) = None" and "ctl_open c" and "0 < n"
  shows "\<exists>w. app_run (Suc (Suc n)) (ivr_call_app env) [(t, FromController (Some (AudioComplete track False)), False)] now False (ivr_app_new d, c)
       = Some (Ended (Inr ()) w)
     \<and> ctl_sent (snd w) = ctl_sent c @ [CmdAnswer ''caller'', CmdPlay (g # gs) False False (ctl_uuid c (ctl_uuids_used c)), CmdHangup None None]"
  using assms by (simp add: app_run_def ivr_call_app_def ivr_on_enter_def control_def ctl_answer_def send_command_def ivr_app_new_def
      closed_hours_def resolve_audio_def play_and_continue_def play_def play_audio_def play_audio_with_options_def new_uuid_def
      handle_next_event_def ivr_on_audio_complete_def finish_def ended_def ctl_hangup_def leave_def)

text \<open>A schedule over midnight is never open.\<close>

theorem overnight_schedule_closed:
  assumes "env_parse_time env (sch_start s) = Some t1" and "env_parse_time env (sch_end s) = Some t2" and "t2 < t1"
  shows "\<not> schedule_open env weekday now s"
  using assms by (auto simp: schedule_open_def)


section \<open>Evaluation of the application\<close>

definition demo_ivr_env :: ivr_env where
  "demo_ivr_env =
     \<lparr>env_call_info = \<lparr>ci_session_id = ''s'', ci_caller = ''1'', ci_callee = ''2'', ci_direction = ''inbound''\<rparr>,
      env_known_tz = \<lambda>tz. True, env_local_time = \<lambda>tz now. (''mon'', now), env_parse_time = \<lambda>s. None, env_url_decode = Inr,
      env_temp_cache_dir = ''/tmp'', env_synthesize = \<lambda>cfg txt voice. Inl ''no service'',
      env_http = \<lambda>now t req. (HttpTimedOut, t), env_arrivals = \<lambda>now. []\<rparr>"

definition demo_sales :: menu_node where
  "demo_sales = default_menu\<lparr>mn_greeting := ''sales.wav'', mn_max_retries := 1,
     mn_entries := [\<lparr>me_key = ''9'', me_label = None, me_action = EaBack\<rparr>]\<rparr>"

definition demo_ivr :: ivr_definition where
  "demo_ivr =
     \<lparr>ivr_name = ''main'', ivr_description = None, ivr_lang = None, ivr_default_voice = None, ivr_dynamic_build = False,
      ivr_business_hours = None, ivr_tts = None,
      ivr_root = default_menu\<lparr>mn_greeting := ''welcome.wav'', mn_max_retries := 1,
        mn_entries := [\<lparr>me_key = ''1'', me_label = None, me_action = EaMenu ''sales''\<rparr>]\<rparr>,
      ivr_menus = [(''sales'', demo_sales)]\<rparr>"

lemma demo_ivr_sound: "sound demo_ivr_env demo_ivr"
proof -
  have "ivr_validate demo_ivr = Inr ()"
    by (simp add: ivr_validate_def demo_ivr_def validate_menu_refs_def default_menu_def demo_sales_def)
  moreover have "mn_unknown_key_action menu = None" if "get_menu demo_ivr key = Some menu" for key menu
    using that by (auto simp: get_menu_def demo_ivr_def demo_sales_def default_menu_def split: if_splits)
  moreover have "ivr_business_hours demo_ivr = None" by (simp add: demo_ivr_def)
  ultimately show ?thesis by (simp add: sound_def unchecked_ok_def demo_ivr_env_def)
qed

theorem ivr_stays_on_known_menus_witness:
  "\<exists>out. app_run 6 (ivr_call_app demo_ivr_env) [(1, FromController (Some (DtmfReceived ''1'')), False), (2, TimerFired ''x'', False)] 0 False
       (ivr_app_new demo_ivr, controller_new (\<lambda>n. [])) = Some out \<and> good_outcome (ivr_contract demo_ivr_env) session_errors out"
  by (rule ivr_stays_on_known_menus [OF demo_ivr_sound]) simp

definition demo_waiting :: ivr_app where
  "demo_waiting = (ivr_app_new demo_ivr)\<lparr>iv_state := WaitingDtmf ''root'' 0\<rparr>"

theorem menu_back_roundtrip_witness:
  "iv_menu_stack (fst (snd (execute_action demo_ivr_env 5 (EaMenu ''sales'') (demo_waiting, controller_new (\<lambda>n. []))))) = [''root'', ''sales'']
   \<and> iv_menu_stack (fst (snd (execute_action demo_ivr_env 6 EaBack
         (snd (execute_action demo_ivr_env 5 (EaMenu ''sales'') (demo_waiting, controller_new (\<lambda>n. []))))))) = [''root'']"
proof -
  let ?w = "(demo_waiting, controller_new (\<lambda>n. []))"
  obtain r1 a1 c1 where e1: "execute_action demo_ivr_env 5 (EaMenu ''sales'') ?w = (r1, (a1, c1))" by (metis prod_cases3)
  obtain r2 a2 c2 where e2: "execute_action demo_ivr_env 6 EaBack (a1, c1) = (r2, (a2, c2))" by (metis prod_cases3)
  have "ivr_inv demo_waiting" "get_menu (iv_definition demo_waiting) ''sales'' \<noteq> None" "''sales'' \<noteq> current_menu_key demo_waiting"
    "iv_menu_stack demo_waiting = [''root'']"
    by (simp_all add: demo_waiting_def ivr_app_new_def ivr_inv_def stack_ok_def current_menu_key_def get_menu_def demo_ivr_def)
  then show ?thesis using menu_back_roundtrip [OF _ _ _ _ e1 e2] by (simp add: e1 e2)
qed

theorem silent_caller_hung_up_witness:
  "\<exists>a' c'. app_loop 4 (ivr_call_app demo_ivr_env) [(5, TimerFired dtmf_timer, False), (6, FromController (Some (AudioComplete [] False)), False),
       (7, TimerFired dtmf_timer, False)] Continue 0 False (demo_waiting, controller_new (\<lambda>n. []))
     = Some (Ended (Inr ()) (a', c')) \<and> last (ctl_sent c') = CmdHangup None None"
proof -
  have "\<exists>a' c'. app_loop 4 (ivr_call_app demo_ivr_env) (silence [(5, 6, [])] @ [(7, TimerFired dtmf_timer, False)]) Continue 0 False
       (demo_waiting, controller_new (\<lambda>n. [])) = Some (Ended (Inr ()) (a', c')) \<and> iv_state a' = IvrDone
     \<and> last (ctl_sent c') = CmdHangup None None"
    by (rule silent_caller_hung_up [where d = demo_ivr and key = "''root''" and menu = "ivr_root demo_ivr"])
      (simp_all add: demo_waiting_def ivr_app_new_def controller_new_def get_menu_def demo_ivr_def default_menu_def)
  then show ?thesis by (simp del: app_loop.simps) blast
qed

end
