(* ===== verification/Voicemail.thy ===== *)
theory Voicemail
  imports Call_App
begin

text \<open>
  The voicemail application, \<open>src/src/call/app/voicemail.rs\<close>: it answers, plays a greeting and records a message until
  the caller presses \<open>#\<close> or the recorder is done.  It is another instance of the framework of call applications.  While
  a recording is stopped the handler reads the events of the session itself; the wait is over at the latest when the
  session closes its channel.
\<close>

section \<open>The application\<close>

datatype voicemail_state = VmGreeting | VmRecording | VmDone

record voicemail_app =
  vm_extension :: string
  vm_greeting_path :: string
  vm_state :: voicemail_state
  vm_recording_path :: "string option"

definition voicemail_new :: "string \<Rightarrow> voicemail_app" where
  "voicemail_new extension =
     \<lparr>vm_extension = extension, vm_greeting_path = ''sounds/voicemail/greeting.wav'', vm_state = VmGreeting,
      vm_recording_path = None\<rparr>"

definition with_greeting_path :: "string \<Rightarrow> voicemail_app \<Rightarrow> voicemail_app" where
  "with_greeting_path path v = v\<lparr>vm_greeting_path := path\<rparr>"

text \<open>What the application has from outside: the identifier of the session and the events that arrive.\<close>

record vm_env =
  vm_session_id :: string
  vm_arrivals :: "instant \<Rightarrow> controller_event list"

definition vm_on_enter :: "vm_env \<Rightarrow> instant \<Rightarrow> voicemail_app handler" where
  "vm_on_enter env now w =
     and_then (control ctl_answer w) (\<lambda>_ (v, c).
       case play_audio (vm_greeting_path v) False c of
         (Inl e, c1) \<Rightarrow> (Inl e, (v, c1))
       | (Inr _, c1) \<Rightarrow> (Inr Continue, (v, c1)))"

definition message_path :: "vm_env \<Rightarrow> voicemail_app \<Rightarrow> string" where
  "message_path env v = ''/tmp/voicemail_'' @ vm_extension v @ ''_'' @ vm_session_id env @ ''.wav''"

definition vm_on_audio_complete :: "vm_env \<Rightarrow> instant \<Rightarrow> string \<Rightarrow> voicemail_app handler" where
  "vm_on_audio_complete env now track = (\<lambda>(v, c).
     if vm_state v = VmGreeting then
       (let v1 = v\<lparr>vm_state := VmRecording\<rparr>; path = message_path env v
        in case start_recording path (Some (secs 300)) True c of
             (Inl e, c1) \<Rightarrow> (Inl e, (v1, c1))
           | (Inr _, c1) \<Rightarrow> (Inr Continue, (v1\<lparr>vm_recording_path := Some path\<rparr>, c1)))
     else (Inr Continue, (v, c)))"

text \<open>Stopping the recording, whatever comes of it, and hanging up.\<close>

definition stop_and_hang_up :: "vm_env \<Rightarrow> instant \<Rightarrow> voicemail_app handler" where
  "stop_and_hang_up env now = (\<lambda>(v, c).
     let (_, c1) = stop_recording (map Some (vm_arrivals env now) @ [None]) c
     in (Inr (HangupCall (Some BySystem) None), (v\<lparr>vm_state := VmDone\<rparr>, c1)))"

definition vm_on_dtmf :: "vm_env \<Rightarrow> instant \<Rightarrow> string \<Rightarrow> voicemail_app handler" where
  "vm_on_dtmf env now digit w =
     (if digit = ''#'' \<and> vm_state (fst w) = VmRecording then stop_and_hang_up env now w else (Inr Continue, w))"

definition vm_on_record_complete :: "vm_env \<Rightarrow> instant \<Rightarrow> recording_info \<Rightarrow> voicemail_app handler" where
  "vm_on_record_complete env now info = (\<lambda>(v, c).
     if vm_state v \<noteq> VmDone then (Inr (HangupCall (Some BySystem) None), (v\<lparr>vm_state := VmDone\<rparr>, c))
     else (Inr Continue, (v, c)))"

definition vm_on_timeout :: "vm_env \<Rightarrow> instant \<Rightarrow> string \<Rightarrow> voicemail_app handler" where
  "vm_on_timeout env now timeout_id w =
     (if vm_state (fst w) = VmRecording then stop_and_hang_up env now w else (Inr Continue, w))"

definition voicemail_call_app :: "vm_env \<Rightarrow> voicemail_app call_app" where
  "voicemail_call_app env =
     \<lparr>on_enter = vm_on_enter env, on_dtmf = vm_on_dtmf env, on_audio_complete = vm_on_audio_complete env,
      on_record_complete = vm_on_record_complete env, on_external_event = \<lambda>now name data w. (Inr Continue, w),
      on_timeout = vm_on_timeout env, on_exit = \<lambda>now reason v. (Inr (), v)\<rparr>"

section \<open>The contract of the application\<close>

text \<open>A message is in the file of the extension and the session, and only once the greeting is over.\<close>

definition vm_inv :: "vm_env \<Rightarrow> voicemail_app \<Rightarrow> bool" where
  "vm_inv env v \<longleftrightarrow> (\<forall>p. vm_recording_path v = Some p \<longrightarrow> vm_state v \<noteq> VmGreeting \<and> p = message_path env v)"

lemma message_path_frame [simp]:
  "message_path env (v\<lparr>vm_state := s\<rparr>) = message_path env v" "message_path env (v\<lparr>vm_recording_path := p\<rparr>) = message_path env v"
  by (simp_all add: message_path_def)

lemma no_chain_hangup [simp]: "no_chain (Inr (HangupCall r code), sc)"
  by (simp add: no_chain_def)

lemma stop_and_hang_up_ok:
  "vm_inv env (fst w) \<Longrightarrow> handled (vm_inv env) {''channel closed''} (stop_and_hang_up env now w)"
  "no_chain (stop_and_hang_up env now w)"
  by (auto simp: stop_and_hang_up_def vm_inv_def split: prod.split)

interpretation vm: app_contract "voicemail_call_app env" "vm_inv env" "{''channel closed''}" for env
proof
  fix sc now
  assume "vm_inv env (fst (sc :: voicemail_app \<times> controller))"
  then show "handled (vm_inv env) {''channel closed''} (on_enter (voicemail_call_app env) now sc) \<and> no_chain (on_enter (voicemail_call_app env) now sc)"
    by (cases sc) (auto simp: voicemail_call_app_def vm_on_enter_def control_def ctl_answer_def send_command_def play_audio_def
        play_audio_with_options_def new_uuid_def handled_def no_chain_def)
next
  fix sc now t
  assume "vm_inv env (fst (sc :: voicemail_app \<times> controller))"
  then show "handled (vm_inv env) {''channel closed''} (on_audio_complete (voicemail_call_app env) now t sc)
     \<and> no_chain (on_audio_complete (voicemail_call_app env) now t sc)"
    by (cases sc) (auto simp: voicemail_call_app_def vm_on_audio_complete_def start_recording_def send_command_def vm_inv_def
        handled_def no_chain_def Let_def)
qed (auto simp: voicemail_call_app_def vm_on_dtmf_def vm_on_timeout_def vm_on_record_complete_def stop_and_hang_up_ok vm_inv_def)

section \<open>Messages\<close>

text \<open>A caller who waits for the greeting, speaks and presses \<open>#\<close> leaves a message: the session is asked to answer, to
  play the greeting, to record at most five minutes into the file of the extension and the session after a beep, to stop,
  and to hang up, in this order and nothing else.\<close>

theorem message_is_recorded:
  assumes "ctl_open c"
  shows "\<exists>w. app_run (n + 3) (voicemail_call_app env)
       [(t1, FromController (Some (AudioComplete track False)), False), (t2, FromController (Some (DtmfReceived ''#'')), False)]
       now False (voicemail_new ext, c) = Some (Ended (Inr ()) w)
     \<and> vm_recording_path (fst w) = Some (''/tmp/voicemail_'' @ ext @ ''_'' @ vm_session_id env @ ''.wav'')
     \<and> ctl_sent (snd w) = ctl_sent c @ [CmdAnswer ''caller'',
          CmdPlay ''sounds/voicemail/greeting.wav'' False False (ctl_uuid c (ctl_uuids_used c)),
          CmdStartRecording (''/tmp/voicemail_'' @ ext @ ''_'' @ vm_session_id env @ ''.wav'') (Some 300) True,
          CmdStopRecording, CmdHangup (Some BySystem) None]"
  using assms
  by (simp add: numeral_3_eq_3 app_run_def voicemail_call_app_def vm_on_enter_def control_def ctl_answer_def send_command_def
      play_audio_def play_audio_with_options_def new_uuid_def voicemail_new_def handle_next_event_def vm_on_audio_complete_def
      start_recording_def Let_def message_path_def vm_on_dtmf_def stop_and_hang_up_def stop_recording_def ended_def ctl_hangup_def
      leave_def split: prod.split)

text \<open>Whatever happens, a voicemail call ends or waits for the next event, and a message is only in its own file.\<close>

theorem voicemail_run_ends:
  assumes "2 * length evs + 2 \<le> n"
  shows "\<exists>out. app_run n (voicemail_call_app env) evs now cancelled (voicemail_new ext, c) = Some out
     \<and> good_outcome (vm_inv env) {''channel closed''} out"
  using vm.run_contract [of env "(voicemail_new ext, c)" evs n now cancelled] assms by (simp add: vm_inv_def voicemail_new_def)

end
