(* ===== verification/Supervisor.thy ===== *)
theory Supervisor
  imports Complex_Main Prelude
begin

text \<open>
  Supervision of calls: the routing matrix of a mixer, \<open>src/src/media/mixer.rs\<close>, and the registry that finds a
  session's mixer, \<open>src/src/media/mixer_registry.rs\<close>.  Shown: who hears whom in each mode of supervision, and what the
  registry knows after any sequence of operations.  The mixer's loop is a placeholder in the sources and moves no
  audio; gains are real numbers, all of them 1 in the code.
\<close>

section \<open>The routing matrix\<close>

datatype supervisor_mode = ModeListen | ModeWhisper | ModeBarge

record mixer_route =
  mr_input :: string
  mr_outputs :: "(string, real) hmap"

record media_mixer =
  mm_id :: string
  mm_inputs :: "string list"
  mm_mixer_inputs :: "string list"
  mm_mixer_outputs :: "string list"
  mm_routes :: "(string, mixer_route) hmap"
  mm_output_routes :: "(string, string list) hmap"
  mm_mode :: supervisor_mode
  mm_started :: bool
  mm_cancelled :: bool
  mm_sample_rate :: nat

definition media_mixer_new :: "string \<Rightarrow> nat \<Rightarrow> media_mixer" where
  "media_mixer_new i rate =
     \<lparr>mm_id = i, mm_inputs = [], mm_mixer_inputs = [], mm_mixer_outputs = [], mm_routes = [], mm_output_routes = [],
      mm_mode = ModeListen, mm_started = False, mm_cancelled = False, mm_sample_rate = rate\<rparr>"

definition add_mixer_input :: "string \<Rightarrow> media_mixer \<Rightarrow> media_mixer" where
  "add_mixer_input i m = m\<lparr>mm_mixer_inputs := List.insert i (mm_mixer_inputs m)\<rparr>"

definition remove_mixer_input :: "string \<Rightarrow> media_mixer \<Rightarrow> media_mixer" where
  "remove_mixer_input i m =
     m\<lparr>mm_mixer_inputs := removeAll i (mm_mixer_inputs m),
       mm_output_routes := map (\<lambda>(k, ins). (k, removeAll i ins)) (mm_output_routes m)\<rparr>"

definition add_mixer_output :: "string \<Rightarrow> media_mixer \<Rightarrow> media_mixer" where
  "add_mixer_output i m = m\<lparr>mm_mixer_outputs := List.insert i (mm_mixer_outputs m)\<rparr>"

definition remove_mixer_output :: "string \<Rightarrow> media_mixer \<Rightarrow> media_mixer" where
  "remove_mixer_output i m =
     m\<lparr>mm_mixer_outputs := removeAll i (mm_mixer_outputs m), mm_output_routes := hm_remove i (mm_output_routes m)\<rparr>"

definition set_output_routing :: "string \<Rightarrow> string list \<Rightarrow> media_mixer \<Rightarrow> media_mixer" where
  "set_output_routing out ins m = m\<lparr>mm_output_routes := hm_insert out ins (mm_output_routes m)\<rparr>"

definition get_output_routing :: "string \<Rightarrow> media_mixer \<Rightarrow> string list option" where
  "get_output_routing out m = hm_get (mm_output_routes m) out"

definition add_input :: "string \<Rightarrow> media_mixer \<Rightarrow> media_mixer" where
  "add_input i m = m\<lparr>mm_inputs := List.insert i (mm_inputs m)\<rparr>"

definition remove_input :: "string \<Rightarrow> media_mixer \<Rightarrow> media_mixer" where
  "remove_input i m = m\<lparr>mm_inputs := removeAll i (mm_inputs m), mm_routes := hm_remove i (mm_routes m)\<rparr>"

definition set_route :: "mixer_route \<Rightarrow> media_mixer \<Rightarrow> media_mixer" where
  "set_route r m = m\<lparr>mm_routes := hm_insert (mr_input r) r (mm_routes m)\<rparr>"

definition clear_route :: "string \<Rightarrow> media_mixer \<Rightarrow> media_mixer" where
  "clear_route i m = m\<lparr>mm_routes := hm_remove i (mm_routes m)\<rparr>"

definition set_mode :: "supervisor_mode \<Rightarrow> media_mixer \<Rightarrow> media_mixer" where
  "set_mode mode m = m\<lparr>mm_mode := mode\<rparr>"

definition route_to :: "string \<Rightarrow> string list \<Rightarrow> mixer_route" where
  "route_to i outs = \<lparr>mr_input = i, mr_outputs = fold (\<lambda>out m. hm_insert out 1 m) outs []\<rparr>"

definition apply_supervisor_mode ::
  "string \<Rightarrow> string \<Rightarrow> string \<Rightarrow> string \<Rightarrow> string \<Rightarrow> string \<Rightarrow> media_mixer \<Rightarrow> media_mixer" where
  "apply_supervisor_mode customer_in agent_in supervisor_in customer_out agent_out supervisor_out m =
     (let m0 = m\<lparr>mm_routes := []\<rparr> in
      case mm_mode m of
        ModeListen \<Rightarrow>
          set_route (route_to agent_in [supervisor_out])
          (set_route (route_to customer_in [supervisor_out])
          (set_route (route_to supervisor_in [])
          (set_route (route_to agent_in [customer_out])
          (set_route (route_to customer_in [agent_out]) m0))))
      | ModeWhisper \<Rightarrow>
          set_route (route_to supervisor_in [agent_out])
          (set_route (route_to agent_in [customer_out, supervisor_out])
          (set_route (route_to customer_in [agent_out, supervisor_out]) m0))
      | ModeBarge \<Rightarrow>
          set_route (route_to supervisor_in [customer_out, agent_out])
          (set_route (route_to agent_in [customer_out, supervisor_out])
          (set_route (route_to customer_in [agent_out, supervisor_out]) m0)))"

text \<open>The mixing task itself is not modelled: starting and stopping change the flags.\<close>

definition mixer_start :: "media_mixer \<Rightarrow> media_mixer" where
  "mixer_start m = m\<lparr>mm_started := True\<rparr>"

definition mixer_stop :: "media_mixer \<Rightarrow> media_mixer" where
  "mixer_stop m = m\<lparr>mm_cancelled := True, mm_started := False\<rparr>"

section \<open>The registry of mixers\<close>

datatype participant_role = RoleSupervisor | RoleAgent | RoleCustomer | RoleConference

record mixer_participant =
  mp_session :: string
  mp_role :: participant_role
  mp_input_enabled :: bool
  mp_output_enabled :: bool
  mp_muted :: bool

datatype mixer_kind = SupervisorMixer string string supervisor_mode | ConferenceMixer string

record mixer_entry =
  me_mixer :: media_mixer
  me_participants :: "mixer_participant list"
  me_kind :: mixer_kind
  me_created_at :: instant

record mixer_registry =
  mreg_mixers :: "(string, mixer_entry) hmap"
  mreg_participants :: "(string, string) hmap"

definition mixer_registry_new :: mixer_registry where
  "mixer_registry_new = \<lparr>mreg_mixers = [], mreg_participants = []\<rparr>"

definition new_participant :: "string \<Rightarrow> participant_role \<Rightarrow> mixer_participant" where
  "new_participant s role = \<lparr>mp_session = s, mp_role = role, mp_input_enabled = True, mp_output_enabled = True, mp_muted = False\<rparr>"

definition create_supervisor_mixer ::
  "instant \<Rightarrow> string \<Rightarrow> string \<Rightarrow> string \<Rightarrow> supervisor_mode \<Rightarrow> mixer_registry \<Rightarrow> mixer_registry" where
  "create_supervisor_mixer now mixer_id supervisor target mode r =
     (let entry = \<lparr>me_mixer = set_mode mode (media_mixer_new mixer_id 8000),
                   me_participants = [new_participant supervisor RoleSupervisor, new_participant target RoleAgent],
                   me_kind = SupervisorMixer supervisor target mode, me_created_at = now\<rparr>
      in r\<lparr>mreg_mixers := hm_insert mixer_id entry (mreg_mixers r),
           mreg_participants := hm_insert target mixer_id (hm_insert supervisor mixer_id (mreg_participants r))\<rparr>)"

definition create_conference_mixer :: "instant \<Rightarrow> string \<Rightarrow> nat \<Rightarrow> mixer_registry \<Rightarrow> mixer_registry" where
  "create_conference_mixer now room rate r =
     r\<lparr>mreg_mixers := hm_insert room \<lparr>me_mixer = media_mixer_new room rate, me_participants = [],
          me_kind = ConferenceMixer room, me_created_at = now\<rparr> (mreg_mixers r)\<rparr>"

definition reg_add_participant :: "string \<Rightarrow> string \<Rightarrow> participant_role \<Rightarrow> mixer_registry \<Rightarrow> bool \<times> mixer_registry" where
  "reg_add_participant mixer_id session role r =
     (case hm_get (mreg_mixers r) mixer_id of
        None \<Rightarrow> (False, r)
      | Some e \<Rightarrow>
          (True, r\<lparr>mreg_mixers := hm_insert mixer_id (e\<lparr>me_participants := me_participants e @ [new_participant session role]\<rparr>) (mreg_mixers r),
                   mreg_participants := hm_insert session mixer_id (mreg_participants r)\<rparr>))"

definition reg_remove_participant :: "string \<Rightarrow> mixer_registry \<Rightarrow> bool \<times> mixer_registry" where
  "reg_remove_participant session r =
     (case hm_get (mreg_participants r) session of
        None \<Rightarrow> (False, r)
      | Some mixer_id \<Rightarrow>
          (case hm_get (mreg_mixers r) mixer_id of
             None \<Rightarrow> (False, r)
           | Some e \<Rightarrow>
               (True, r\<lparr>mreg_mixers := hm_insert mixer_id
                           (e\<lparr>me_participants := filter (\<lambda>p. mp_session p \<noteq> session) (me_participants e)\<rparr>) (mreg_mixers r),
                        mreg_participants := hm_remove session (mreg_participants r)\<rparr>)))"

definition get_mixer :: "string \<Rightarrow> mixer_registry \<Rightarrow> media_mixer option" where
  "get_mixer mixer_id r = map_option me_mixer (hm_get (mreg_mixers r) mixer_id)"

definition get_mixer_info :: "string \<Rightarrow> mixer_registry \<Rightarrow> mixer_entry option" where
  "get_mixer_info session r = Option.bind (hm_get (mreg_participants r) session) (hm_get (mreg_mixers r))"

definition get_mixer_by_session :: "string \<Rightarrow> mixer_registry \<Rightarrow> media_mixer option" where
  "get_mixer_by_session session r = Option.bind (hm_get (mreg_participants r) session) (\<lambda>i. get_mixer i r)"

definition sessions_of :: "mixer_registry \<Rightarrow> string \<Rightarrow> string list" where
  "sessions_of r mixer_id =
     (case hm_get (mreg_mixers r) mixer_id of Some e \<Rightarrow> map mp_session (me_participants e) | None \<Rightarrow> [])"

definition remove_mixer :: "string \<Rightarrow> mixer_registry \<Rightarrow> bool \<times> mixer_registry" where
  "remove_mixer mixer_id r =
     (if hm_get (mreg_mixers r) mixer_id = None then (False, r)
      else (True, r\<lparr>mreg_mixers := hm_remove mixer_id (mreg_mixers r),
                    mreg_participants := fold hm_remove (sessions_of r mixer_id) (mreg_participants r)\<rparr>))"

definition list_mixers :: "mixer_registry \<Rightarrow> (string \<times> mixer_entry) list" where
  "list_mixers r = mreg_mixers r"

definition reg_participant_count :: "string \<Rightarrow> mixer_registry \<Rightarrow> nat" where
  "reg_participant_count mixer_id r =
     (case hm_get (mreg_mixers r) mixer_id of Some e \<Rightarrow> length (me_participants e) | None \<Rightarrow> 0)"

definition is_in_mixer :: "string \<Rightarrow> mixer_registry \<Rightarrow> bool" where
  "is_in_mixer session r \<longleftrightarrow> hm_get (mreg_participants r) session \<noteq> None"

fun mute_first :: "string \<Rightarrow> bool \<Rightarrow> mixer_participant list \<Rightarrow> mixer_participant list" where
  "mute_first s b [] = []"
| "mute_first s b (p # ps) = (if mp_session p = s then p\<lparr>mp_muted := b\<rparr> # ps else p # mute_first s b ps)"

definition set_participant_muted :: "string \<Rightarrow> bool \<Rightarrow> mixer_registry \<Rightarrow> bool \<times> mixer_registry" where
  "set_participant_muted session muted r =
     (case hm_get (mreg_participants r) session of
        None \<Rightarrow> (False, r)
      | Some mixer_id \<Rightarrow>
          (case hm_get (mreg_mixers r) mixer_id of
             None \<Rightarrow> (False, r)
           | Some e \<Rightarrow>
               if session \<in> mp_session ` set (me_participants e)
               then (True, r\<lparr>mreg_mixers := hm_insert mixer_id (e\<lparr>me_participants := mute_first session muted (me_participants e)\<rparr>) (mreg_mixers r)\<rparr>)
               else (False, r)))"

definition is_participant_muted :: "string \<Rightarrow> mixer_registry \<Rightarrow> bool option" where
  "is_participant_muted session r =
     (case get_mixer_info session r of
        None \<Rightarrow> None
      | Some e \<Rightarrow> map_option mp_muted (find (\<lambda>p. mp_session p = session) (me_participants e)))"

section \<open>Who hears whom\<close>

datatype party = Customer | Agent | Supervising

fun may_hear :: "supervisor_mode \<Rightarrow> party \<Rightarrow> party \<Rightarrow> bool" where
  "may_hear ModeListen speaker listener = (speaker \<noteq> listener \<and> speaker \<noteq> Supervising)"
| "may_hear ModeWhisper speaker listener = (speaker \<noteq> listener \<and> \<not> (speaker = Supervising \<and> listener = Customer))"
| "may_hear ModeBarge speaker listener = (speaker \<noteq> listener)"

definition routed :: "media_mixer \<Rightarrow> string \<Rightarrow> string \<Rightarrow> bool" where
  "routed m i out = (case hm_get (mm_routes m) i of Some r \<Rightarrow> hm_get (mr_outputs r) out \<noteq> None | None \<Rightarrow> False)"

definition supervise :: "(party \<Rightarrow> string) \<Rightarrow> (party \<Rightarrow> string) \<Rightarrow> supervisor_mode \<Rightarrow> media_mixer \<Rightarrow> media_mixer" where
  "supervise ins outs mode m =
     apply_supervisor_mode (ins Customer) (ins Agent) (ins Supervising) (outs Customer) (outs Agent) (outs Supervising) (set_mode mode m)"

lemma routed_set_route [simp]:
  "routed (set_route r m) i out = (if i = mr_input r then hm_get (mr_outputs r) out \<noteq> None else routed m i out)"
  by (simp add: routed_def set_route_def)

lemma route_to_simps [simp]:
  "mr_input (route_to i outs) = i" "hm_get (mr_outputs (route_to i outs)) out = (if out \<in> set outs then Some 1 else None)"
proof -
  have "hm_get (fold (\<lambda>out m. hm_insert out 1 m) outs m) out = (if out \<in> set outs then Some 1 else hm_get m out)"
    for m :: "(string, real) hmap"
    by (induction outs arbitrary: m) auto
  then show "hm_get (mr_outputs (route_to i outs)) out = (if out \<in> set outs then Some 1 else None)"
    by (simp add: route_to_def)
qed (simp add: route_to_def)

text \<open>Whispering and barging let everybody hear what they should.  With three inputs and three outputs that are
  pairwise different, a party's voice is routed to another party exactly if the mode allows it: in whisper mode the
  customer does not hear the supervisor, in barge mode all hear each other, and nobody hears himself.\<close>

theorem supervision_matrix:
  assumes "inj ins" and "inj outs" and "mode \<noteq> ModeListen"
  shows "routed (supervise ins outs mode m) (ins speaker) (outs listener) = may_hear mode speaker listener"
  using assms(3)
  by (cases mode; cases speaker; cases listener)
    (simp_all add: inj_eq [OF assms(1)] inj_eq [OF assms(2)] supervise_def apply_supervisor_mode_def Let_def set_mode_def)

text \<open>Listening cuts the call.  In listen mode the routes of the customer and of the agent to the supervisor replace
  their routes to each other: the supervisor hears both, and they no longer hear each other.\<close>

theorem listening_cuts_the_call:
  assumes "inj ins" and "inj outs"
  shows "routed (supervise ins outs ModeListen m) (ins speaker) (outs listener)
           = (speaker \<noteq> Supervising \<and> listener = Supervising)"
  by (cases speaker; cases listener)
    (simp_all add: inj_eq [OF assms(1)] inj_eq [OF assms(2)] supervise_def apply_supervisor_mode_def Let_def set_mode_def)

section \<open>The registry knows the mixer of a session\<close>

definition mixer_of :: "mixer_registry \<Rightarrow> string \<Rightarrow> string option" where
  "mixer_of r session = hm_get (mreg_participants r) session"

lemma remove_mixer_simps [simp]:
  "mixer_of (snd (remove_mixer g r)) k = (if k \<in> set (sessions_of r g) then None else mixer_of r k)"
  "sessions_of (snd (remove_mixer g r)) h = (if h = g then [] else sessions_of r h)"
  by (auto simp: remove_mixer_def mixer_of_def sessions_of_def hm_get_fold_remove split: option.splits)

interpretation mreg: directory mixer_of sessions_of "\<lambda>g r. snd (remove_mixer g r)"
  by unfold_locales simp_all

datatype mixer_op =
    CreateSupervisor instant string string string supervisor_mode
  | CreateConference instant string nat
  | AddParticipant string string participant_role
  | RemoveParticipant string
  | RemoveMixer string
  | SetMuted string bool

fun mixer_step :: "mixer_op \<Rightarrow> mixer_registry \<Rightarrow> mixer_registry" where
  "mixer_step (CreateSupervisor now i chief target mode) r = create_supervisor_mixer now i chief target mode r"
| "mixer_step (CreateConference now i rate) r = create_conference_mixer now i rate r"
| "mixer_step (AddParticipant i s role) r = snd (reg_add_participant i s role r)"
| "mixer_step (RemoveParticipant s) r = snd (reg_remove_participant s r)"
| "mixer_step (RemoveMixer i) r = snd (remove_mixer i r)"
| "mixer_step (SetMuted s b) r = snd (set_participant_muted s b r)"

text \<open>New mixers have new names, and a session joins a mixer only while it is in none, or in that one.\<close>

fun orderly :: "mixer_op list \<Rightarrow> mixer_registry \<Rightarrow> bool" where
  "orderly [] r = True"
| "orderly (op # ops) r =
     ((case op of
         CreateSupervisor _ i chief target _ \<Rightarrow>
           hm_get (mreg_mixers r) i = None \<and> mixer_of r chief = None \<and> mixer_of r target = None
       | CreateConference _ i _ \<Rightarrow> hm_get (mreg_mixers r) i = None
       | AddParticipant i s _ \<Rightarrow> mixer_of r s = None \<or> mixer_of r s = Some i
       | _ \<Rightarrow> True)
      \<and> orderly ops (mixer_step op r))"

lemma create_simps [simp]:
  "mixer_of (create_supervisor_mixer now i chief target mode r) s = (if s = target \<or> s = chief then Some i else mixer_of r s)"
  "sessions_of (create_supervisor_mixer now i chief target mode r) g = (if g = i then [chief, target] else sessions_of r g)"
  "mixer_of (create_conference_mixer now i rate r) s = mixer_of r s"
  "sessions_of (create_conference_mixer now i rate r) g = (if g = i then [] else sessions_of r g)"
  by (simp_all add: mixer_of_def sessions_of_def create_supervisor_mixer_def create_conference_mixer_def Let_def new_participant_def)

lemma add_simps [simp]:
  "mixer_of (snd (reg_add_participant i s role r)) s' =
     (if s' = s \<and> hm_get (mreg_mixers r) i \<noteq> None then Some i else mixer_of r s')"
  "sessions_of (snd (reg_add_participant i s role r)) g =
     (if g = i \<and> hm_get (mreg_mixers r) i \<noteq> None then sessions_of r g @ [s] else sessions_of r g)"
  by (auto simp: mixer_of_def sessions_of_def reg_add_participant_def new_participant_def split: option.splits)

lemma absent_no_sessions: "hm_get (mreg_mixers r) i = None \<Longrightarrow> sessions_of r i = []"
  by (simp add: sessions_of_def)

lemma remove_participant_simps [simp]:
  assumes "mreg.tracked r"
  shows "mixer_of (snd (reg_remove_participant s r)) s' = (if s' = s then None else mixer_of r s')"
    "sessions_of (snd (reg_remove_participant s r)) g =
       (if mixer_of r s = Some g then filter (\<lambda>s'. s' \<noteq> s) (sessions_of r g) else sessions_of r g)"
proof -
  have "hm_get (mreg_mixers r) i \<noteq> None" if "mixer_of r s = Some i" for i
    using assms that absent_no_sessions [of r i] by (force simp: mreg.tracked_def)
  then show "mixer_of (snd (reg_remove_participant s r)) s' = (if s' = s then None else mixer_of r s')"
    "sessions_of (snd (reg_remove_participant s r)) g =
       (if mixer_of r s = Some g then filter (\<lambda>s'. s' \<noteq> s) (sessions_of r g) else sessions_of r g)"
    by (auto simp: mixer_of_def sessions_of_def reg_remove_participant_def filter_map comp_def split: option.splits)
qed

lemma mute_first_sessions [simp]: "map mp_session (mute_first s b ps) = map mp_session ps"
  by (induction ps) auto

lemma muted_simps [simp]:
  "mixer_of (snd (set_participant_muted s b r)) = mixer_of r" "sessions_of (snd (set_participant_muted s b r)) = sessions_of r"
  by (auto simp: fun_eq_iff mixer_of_def sessions_of_def set_participant_muted_def split: option.splits)

lemma mixer_step_inv:
  assumes "mreg.tracked r" and "mreg.owned r" and "orderly [op] r"
  shows "mreg.tracked (mixer_step op r) \<and> mreg.owned (mixer_step op r)"
proof -
  have t: "mixer_of r s = Some g \<Longrightarrow> s \<in> set (sessions_of r g)" for s g using assms(1) by (simp add: mreg.tracked_def)
  have o: "s \<in> set (sessions_of r g) \<Longrightarrow> mixer_of r s = Some g" for s g using assms(2) by (simp add: mreg.owned_def)
  show ?thesis
  proof (cases op)
    case (CreateSupervisor now i chief target mode)
    then have free: "sessions_of r i = []" "mixer_of r chief = None" "mixer_of r target = None"
      using assms(3) by (simp_all add: absent_no_sessions)
    have "mreg.tracked (mixer_step op r)"
      unfolding mreg.tracked_def CreateSupervisor mixer_step.simps create_simps using free(1) by (auto split: if_splits dest: t)
    moreover have "mreg.owned (mixer_step op r)"
      unfolding mreg.owned_def CreateSupervisor mixer_step.simps create_simps using free(2,3) by (auto split: if_splits dest: o)
    ultimately show ?thesis ..
  next
    case (CreateConference now i rate)
    then have "sessions_of r i = []" using assms(3) by (simp add: absent_no_sessions)
    then have same: "sessions_of (mixer_step op r) = sessions_of r" "mixer_of (mixer_step op r) = mixer_of r"
      by (simp_all add: CreateConference fun_eq_iff)
    show ?thesis using assms(1,2) unfolding mreg.tracked_def mreg.owned_def same by blast
  next
    case (AddParticipant i s role)
    then have free: "mixer_of r s = None \<or> mixer_of r s = Some i" using assms(3) by simp
    have "mreg.tracked (mixer_step op r)"
      unfolding mreg.tracked_def AddParticipant mixer_step.simps add_simps using free by (auto split: if_splits dest: t)
    moreover have "mreg.owned (mixer_step op r)"
      unfolding mreg.owned_def AddParticipant mixer_step.simps add_simps using free by (auto split: if_splits dest: o)
    ultimately show ?thesis ..
  next
    case (RemoveParticipant s)
    have "mreg.tracked (mixer_step op r)"
      unfolding mreg.tracked_def RemoveParticipant mixer_step.simps remove_participant_simps [OF assms(1)] by (auto split: if_splits dest: t)
    moreover have "mreg.owned (mixer_step op r)"
      unfolding mreg.owned_def RemoveParticipant mixer_step.simps remove_participant_simps [OF assms(1)] by (auto split: if_splits dest: o)
    ultimately show ?thesis ..
  next
    case (RemoveMixer i)
    then show ?thesis using assms mreg.drop_tracked mreg.drop_owned by simp
  next
    case (SetMuted s b)
    show ?thesis
      using assms(1,2) unfolding SetMuted mixer_step.simps mreg.tracked_def mreg.owned_def muted_simps by blast
  qed
qed

lemma mixer_run_inv:
  "mreg.tracked r \<Longrightarrow> mreg.owned r \<Longrightarrow> orderly ops r \<Longrightarrow>
     mreg.tracked (fold mixer_step ops r) \<and> mreg.owned (fold mixer_step ops r)"
proof (induction ops arbitrary: r)
  case (Cons op ops)
  then show ?case using mixer_step_inv [of r op] by simp
qed simp

lemma mixer_registry_new_inv: "mreg.tracked mixer_registry_new" "mreg.owned mixer_registry_new"
  by (simp_all add: mreg.tracked_def mreg.owned_def mixer_registry_new_def mixer_of_def sessions_of_def)

text \<open>Removing a mixer frees its sessions and no others.  After any orderly sequence of operations (mixers get new
  names, a session is in at most one mixer) exactly the participants of the removed mixer are no longer in a mixer.\<close>

theorem remove_mixer_exact:
  assumes "orderly ops mixer_registry_new" and "r = fold mixer_step ops mixer_registry_new"
  shows "mixer_of (snd (remove_mixer g r)) s = (if mixer_of r s = Some g then None else mixer_of r s)
         \<and> (mixer_of r s = Some g \<longleftrightarrow> s \<in> set (sessions_of r g))"
proof -
  have inv: "mreg.tracked r" "mreg.owned r"
    using mixer_run_inv [OF mixer_registry_new_inv assms(1)] by (simp_all add: assms(2))
  moreover have "mixer_of r s = Some g \<longleftrightarrow> s \<in> set (sessions_of r g)"
    using inv unfolding mreg.tracked_def mreg.owned_def by blast
  ultimately show ?thesis using mreg.drop_exact by blast
qed

text \<open>Two supervisors on one call: when the first one stops, the call is no longer found in the second one's mixer.\<close>

lemma second_supervisor_loses_call:
  assumes "i \<noteq> j"
  shows "let r' = snd (remove_mixer i (create_supervisor_mixer t2 j chief2 target mode2 (create_supervisor_mixer t1 i chief1 target mode1 r)))
         in target \<in> set (sessions_of r' j) \<and> mixer_of r' target = None"
  using assms by (simp add: Let_def)

text \<open>A mixer that is created again under its name forgets its further participants: they stay in the directory even
  after the mixer is removed.\<close>

lemma recreated_mixer_leaks:
  assumes "leg \<noteq> chief" and "leg \<noteq> target"
  shows "let r' = snd (remove_mixer i (create_supervisor_mixer t2 i chief target mode2
                   (snd (reg_add_participant i leg role (create_supervisor_mixer t1 i chief target mode1 r)))))
         in is_in_mixer leg r' \<and> get_mixer_by_session leg r' = None"
proof -
  let ?r1 = "snd (reg_add_participant i leg role (create_supervisor_mixer t1 i chief target mode1 r))"
  let ?r' = "snd (remove_mixer i (create_supervisor_mixer t2 i chief target mode2 ?r1))"
  have "hm_get (mreg_mixers (create_supervisor_mixer t1 i chief target mode1 r)) i \<noteq> None"
    by (simp add: create_supervisor_mixer_def Let_def)
  then have "mixer_of ?r' leg = Some i" using assms by simp
  moreover have "hm_get (mreg_mixers ?r') i = None" by (simp add: remove_mixer_def)
  ultimately show ?thesis by (simp add: is_in_mixer_def mixer_of_def get_mixer_by_session_def get_mixer_def Let_def)
qed

section \<open>Evaluation of supervision\<close>

definition demo_ports :: "string \<Rightarrow> party \<Rightarrow> string" where
  "demo_ports s p = (case p of Customer \<Rightarrow> ''c'' | Agent \<Rightarrow> ''a'' | Supervising \<Rightarrow> ''s'') @ s"

lemma inj_demo_ports: "inj (demo_ports s)"
  by (rule injI) (simp add: demo_ports_def split: party.splits)

theorem supervision_matrix_witness:
  "\<not> routed (supervise (demo_ports ''in'') (demo_ports ''out'') ModeWhisper (media_mixer_new ''m'' 8000)) ''sin'' ''cout''"
  using supervision_matrix [OF inj_demo_ports [of "''in''"] inj_demo_ports [of "''out''"], of ModeWhisper "media_mixer_new ''m'' 8000" Supervising Customer]
  by (simp add: demo_ports_def)

theorem listening_cuts_the_call_witness:
  "\<not> routed (supervise (demo_ports ''in'') (demo_ports ''out'') ModeListen (media_mixer_new ''m'' 8000)) ''cin'' ''aout''"
  using listening_cuts_the_call [OF inj_demo_ports [of "''in''"] inj_demo_ports [of "''out''"], of "media_mixer_new ''m'' 8000" Customer Agent]
  by (simp add: demo_ports_def)

definition demo_mixers :: "mixer_op list" where
  "demo_mixers = [CreateSupervisor 0 ''m'' ''chief'' ''call'' ModeListen, CreateConference 0 ''room'' 8000, AddParticipant ''room'' ''x'' RoleConference]"

theorem remove_mixer_exact_witness:
  "mixer_of (snd (remove_mixer ''m'' (fold mixer_step demo_mixers mixer_registry_new))) ''call'' = None
   \<and> mixer_of (snd (remove_mixer ''m'' (fold mixer_step demo_mixers mixer_registry_new))) ''x'' = Some ''room''"
proof -
  let ?r = "fold mixer_step demo_mixers mixer_registry_new"
  have room: "hm_get (mreg_mixers (create_conference_mixer 0 ''room'' 8000 r)) ''room'' \<noteq> None" for r
    by (simp add: create_conference_mixer_def)
  have o: "orderly demo_mixers mixer_registry_new"
    by (simp add: demo_mixers_def) (simp add: mixer_registry_new_def mixer_of_def create_supervisor_mixer_def Let_def)
  have "mixer_of ?r ''call'' = Some ''m''" "mixer_of ?r ''x'' = Some ''room''"
    using room by (simp_all add: demo_mixers_def)
  then show ?thesis
    using remove_mixer_exact [OF o refl, of "''m''" "''call''"] remove_mixer_exact [OF o refl, of "''m''" "''x''"] by simp
qed

end
