(* ===== verification/Wire.thy ===== *)
theory Wire
  imports Ip_Addr
begin

text \<open>
  What the gateway writes to the wire and reads from it in its own formats: the packets that carry SIP and RTP messages
  to a flow recorder, \<open>src/src/sipflow/protocol.rs\<close>, the codes of telephone events, \<open>src/src/media/telephone_event.rs\<close>,
  and the detector that makes digits of the repeated RTP packets of an event, \<open>src/src/proxy/proxy_call/dtmf.rs\<close>.
  Bytes are words of 8 bits; numbers are written with the most significant byte first.
\<close>

section \<open>Numbers as bytes\<close>

type_synonym byte = "8 word"

fun be_bytes :: "nat \<Rightarrow> nat \<Rightarrow> byte list" where
  "be_bytes 0 x = []"
| "be_bytes (Suc n) x = word_of_nat (x div 256 ^ n) # be_bytes n x"

fun be_val :: "byte list \<Rightarrow> nat" where
  "be_val [] = 0"
| "be_val (b # bs) = unat b * 256 ^ length bs + be_val bs"

definition take_bytes :: "nat \<Rightarrow> byte list \<Rightarrow> (byte list \<times> byte list) result" where
  "take_bytes n bs = (if length bs < n then Inl ''failed to fill whole buffer'' else Inr (take n bs, drop n bs))"

definition read_be :: "nat \<Rightarrow> byte list \<Rightarrow> (nat \<times> byte list) result" where
  "read_be n bs = map_sum id (\<lambda>(v, rest). (be_val v, rest)) (take_bytes n bs)"

fun bind_sum :: "'a result \<Rightarrow> ('a \<Rightarrow> 'b result) \<Rightarrow> 'b result" where
  "bind_sum (Inl e) f = Inl e"
| "bind_sum (Inr a) f = f a"

section \<open>Flow packets\<close>

datatype msg_type = MsgSip | MsgRtp

record packet =
  p_msg_type :: msg_type
  p_src :: "ip_addr \<times> 16 word"
  p_dst :: "ip_addr \<times> 16 word"
  p_timestamp :: "64 word"
  p_payload :: "byte list"

fun segments :: "byte list \<Rightarrow> 16 word list" where
  "segments (a # b # bs) = word_of_nat (be_val [a, b]) # segments bs"
| "segments _ = []"

definition read_ip :: "nat \<Rightarrow> byte list \<Rightarrow> (ip_addr \<times> byte list) result" where
  "read_ip ip_family bs =
     (if ip_family = 4
      then map_sum id (\<lambda>(addr, rest). (V4 (word_of_nat (be_val addr)), rest)) (take_bytes 4 bs)
      else map_sum id (\<lambda>(addr, rest). (V6 (segments addr), rest)) (take_bytes 16 bs))"

definition parse_packet :: "byte list \<Rightarrow> packet result" where
  "parse_packet bs =
     bind_sum (read_be 2 bs) (\<lambda>(magic, bs).
     if magic \<noteq> 0x5346 then Inl ''Invalid magic header''
     else bind_sum (read_be 1 bs) (\<lambda>(version, bs).
     bind_sum (read_be 1 bs) (\<lambda>(raw, bs).
     bind_sum (if raw = 0 then Inr MsgSip else if raw = 1 then Inr MsgRtp else Inl ''Invalid msg type'') (\<lambda>msg_type.
     bind_sum (read_be 1 bs) (\<lambda>(ip_family, bs).
     bind_sum (read_ip ip_family bs) (\<lambda>(src_ip, bs).
     bind_sum (read_be 2 bs) (\<lambda>(src_port, bs).
     bind_sum (read_ip ip_family bs) (\<lambda>(dst_ip, bs).
     bind_sum (read_be 2 bs) (\<lambda>(dst_port, bs).
     bind_sum (read_be 8 bs) (\<lambda>(timestamp, bs).
     bind_sum (read_be 4 bs) (\<lambda>(payload_len, bs).
     bind_sum (take_bytes payload_len bs) (\<lambda>(payload, bs).
     Inr \<lparr>p_msg_type = msg_type, p_src = (src_ip, word_of_nat src_port), p_dst = (dst_ip, word_of_nat dst_port),
          p_timestamp = word_of_nat timestamp, p_payload = payload\<rparr>))))))))))))"

fun msg_type_code :: "msg_type \<Rightarrow> nat" where
  "msg_type_code MsgSip = 0"
| "msg_type_code MsgRtp = 1"

fun ip_family_code :: "ip_addr \<Rightarrow> nat" where
  "ip_family_code (V4 _) = 4"
| "ip_family_code (V6 _) = 6"

fun ip_octets :: "ip_addr \<Rightarrow> byte list" where
  "ip_octets (V4 w) = be_bytes 4 (unat w)"
| "ip_octets (V6 ss) = concat (map (\<lambda>s. be_bytes 2 (unat s)) ss)"

definition encode_packet :: "packet \<Rightarrow> byte list" where
  "encode_packet p =
     be_bytes 2 0x5346 @ be_bytes 1 1 @ be_bytes 1 (msg_type_code (p_msg_type p))
     @ be_bytes 1 (ip_family_code (fst (p_src p)))
     @ ip_octets (fst (p_src p)) @ be_bytes 2 (unat (snd (p_src p)))
     @ ip_octets (fst (p_dst p)) @ be_bytes 2 (unat (snd (p_dst p)))
     @ be_bytes 8 (unat (p_timestamp p)) @ be_bytes 4 (length (p_payload p) mod 2 ^ 32) @ p_payload p"

section \<open>Telephone events\<close>

definition dtmf_code_to_char :: "nat \<Rightarrow> char option" where
  "dtmf_code_to_char code =
     (if code \<le> 9 then Some (char_of (48 + code))
      else if code = 10 then Some CHR ''*''
      else if code = 11 then Some CHR ''#''
      else if 12 \<le> code \<and> code \<le> 15 then Some (char_of (65 + (code - 12)))
      else None)"

definition dtmf_char_to_code :: "char \<Rightarrow> nat option" where
  "dtmf_char_to_code c =
     (let n = (of_char c :: nat) in
      if 48 \<le> n \<and> n \<le> 57 then Some (n - 48)
      else if c = CHR ''*'' then Some 10
      else if c = CHR ''#'' then Some 11
      else if c = CHR ''A'' \<or> c = CHR ''a'' then Some 12
      else if c = CHR ''B'' \<or> c = CHR ''b'' then Some 13
      else if c = CHR ''C'' \<or> c = CHR ''c'' then Some 14
      else if c = CHR ''D'' \<or> c = CHR ''d'' then Some 15
      else None)"

type_synonym event_key = "nat \<times> 32 word"

record dtmf_detector =
  last_event :: "event_key option"

definition observe :: "byte list \<Rightarrow> 32 word \<Rightarrow> dtmf_detector \<Rightarrow> char option \<times> dtmf_detector" where
  "observe payload rtp_timestamp d =
     (if length payload < 4 then (None, d)
      else case dtmf_code_to_char (unat (hd payload)) of
        None \<Rightarrow> (None, d)
      | Some digit \<Rightarrow>
          let event = (unat (hd payload), rtp_timestamp) in
          if last_event d = Some event then (None, d)
          else (Some digit, d\<lparr>last_event := Some event\<rparr>))"

section \<open>The round trip of a packet\<close>

lemma length_be_bytes [simp]: "length (be_bytes n x) = n"
  by (induction n) simp_all

lemma be_val_be_bytes: "be_val (be_bytes n x) = x mod 256 ^ n"
proof (induction n)
  case (Suc n)
  have "unat (word_of_nat (x div 256 ^ n) :: byte) = x div 256 ^ n mod 256" by (simp add: unat_of_nat)
  then show ?case using Suc by (simp add: mod_mult2_eq [of x "256 ^ n" 256, simplified mult.commute] mult.commute)
qed simp

lemma take_bytes_append [simp]: "length a = n \<Longrightarrow> take_bytes n (a @ b) = Inr (a, b)"
  by (simp add: take_bytes_def)

lemma read_be_append [simp]: "x < 256 ^ n \<Longrightarrow> read_be n (be_bytes n x @ rest) = Inr (x, rest)"
  by (simp add: read_be_def be_val_be_bytes)

lemma unat_bounds: "unat (w :: 16 word) < 256 ^ 2" "unat (v :: 32 word) < 256 ^ 4" "unat (u :: 64 word) < 256 ^ 8"
  using unsigned_less [of w, where ?'a = nat] unsigned_less [of v, where ?'a = nat] unsigned_less [of u, where ?'a = nat] by simp_all

lemma segments_octets: "segments (concat (map (\<lambda>s. be_bytes 2 (unat s)) ss)) = ss"
proof (induction ss)
  case (Cons s ss)
  have "be_bytes 2 (unat s) = [word_of_nat (unat s div 256), word_of_nat (unat s)]"
    by (simp add: numeral_2_eq_2)
  moreover from this have "be_val [word_of_nat (unat s div 256), word_of_nat (unat s)] = unat s"
    using be_val_be_bytes [of 2 "unat s"] unat_bounds(1) [of s] by simp
  ultimately show ?case using Cons by simp
qed simp

lemma length_ip_octets: "ip_wf a \<Longrightarrow> length (ip_octets a) = (if ip_family_code a = 4 then 4 else 16)"
  by (cases a) (simp_all add: length_concat comp_def sum_list_triv)

lemma read_ip_octets:
  assumes "ip_wf a" and "same_family b a"
  shows "read_ip (ip_family_code b) (ip_octets a @ rest) = Inr (a, rest)"
proof (cases a)
  case (V4 w)
  then show ?thesis using assms unat_bounds(2) [of w] by (cases b) (simp_all add: read_ip_def be_val_be_bytes)
next
  case (V6 ss)
  then have "length (ip_octets a) = 16" using length_ip_octets [OF assms(1)] by simp
  then show ?thesis using V6 assms by (cases b) (simp_all add: read_ip_def segments_octets)
qed

text \<open>C20: A flow packet reads back as it was written.  A packet whose two addresses are of one family and whose payload
  is shorter than \<open>2 ^ 32\<close> bytes is recovered from its encoding, whatever follows it in the datagram.\<close>

theorem packet_roundtrip:
  assumes "ip_wf (fst (p_src p))" and "ip_wf (fst (p_dst p))" and "same_family (fst (p_src p)) (fst (p_dst p))"
    and "length (p_payload p) < 2 ^ 32"
  shows "parse_packet (encode_packet p @ rest) = Inr p"
proof -
  have fam: "same_family (fst (p_src p)) (fst (p_src p))" by (cases "fst (p_src p)") simp_all
  have "msg_type_code (p_msg_type p) < 256 ^ 1" "ip_family_code (fst (p_src p)) < 256 ^ 1"
    by (cases "p_msg_type p", simp_all) (cases "fst (p_src p)", simp_all)
  moreover have "length (p_payload p) mod 2 ^ 32 < 256 ^ 4" by simp
  moreover have "bind_sum (if msg_type_code (p_msg_type p) = 0 then Inr MsgSip else if msg_type_code (p_msg_type p) = 1 then Inr MsgRtp
        else Inl ''Invalid msg type'') f = f (p_msg_type p)" for f :: "msg_type \<Rightarrow> packet result"
    by (cases "p_msg_type p") simp_all
  ultimately show ?thesis
    using assms(4) unat_bounds(1) [of "snd (p_src p)"] unat_bounds(1) [of "snd (p_dst p)"] unat_bounds(3) [of "p_timestamp p"]
      read_ip_octets [OF assms(1) fam] read_ip_octets [OF assms(2,3)]
    by (simp add: parse_packet_def encode_packet_def del: be_bytes.simps)
qed

lemma bind_sum_Inr_iff: "bind_sum m f = Inr b \<longleftrightarrow> (\<exists>a. m = Inr a \<and> f a = Inr b)"
  by (cases m) simp_all

lemma read_ip_family: "read_ip fam bs = Inr (a, rest) \<Longrightarrow> ip_family_code a = (if fam = 4 then 4 else 6)"
  by (auto simp: read_ip_def take_bytes_def split: if_splits)

text \<open>The family of the source is written once for both addresses: whatever is parsed has addresses of one family, so a
  packet between families does not read back.\<close>

lemma parsed_packet_one_family:
  assumes "parse_packet bs = Inr p"
  shows "ip_family_code (fst (p_src p)) = ip_family_code (fst (p_dst p))"
  using assms
  by (auto simp: parse_packet_def bind_sum_Inr_iff dest!: read_ip_family split: prod.splits if_splits)

lemma mixed_packet_is_garbled:
  "ip_family_code (fst (p_src p)) \<noteq> ip_family_code (fst (p_dst p)) \<Longrightarrow> parse_packet (encode_packet p @ rest) \<noteq> Inr p"
  using parsed_packet_one_family by blast

section \<open>Digits\<close>

lemma dtmf_code_small: "dtmf_code_to_char code \<noteq> None \<longleftrightarrow> code < 16"
  by (auto simp: dtmf_code_to_char_def)

lemma dtmf_table: "\<forall>code \<in> set [0..<16]. \<exists>c. dtmf_code_to_char code = Some c \<and> dtmf_char_to_code c = Some code"
  by code_simp

section \<open>One digit for one event\<close>

text \<open>An event is sent in many RTP packets with its code and its start time; shorter payloads and unknown codes are not events.\<close>

definition event_of :: "byte list \<times> 32 word \<Rightarrow> event_key option" where
  "event_of = (\<lambda>(payload, ts). if length payload < 4 \<or> dtmf_code_to_char (unat (hd payload)) = None then None
                              else Some (unat (hd payload), ts))"

fun observe_all :: "(byte list \<times> 32 word) list \<Rightarrow> dtmf_detector \<Rightarrow> char list" where
  "observe_all [] d = []"
| "observe_all ((payload, ts) # ps) d =
     (let (digit, d') = observe payload ts d
      in (case digit of Some c \<Rightarrow> [c] | None \<Rightarrow> []) @ observe_all ps d')"

definition event_digit :: "event_key \<Rightarrow> char" where
  "event_digit k = the (dtmf_code_to_char (fst k))"

lemma observe_event_of:
  "observe payload ts d =
     (case event_of (payload, ts) of
        None \<Rightarrow> (None, d)
      | Some k \<Rightarrow> if last_event d = Some k then (None, d) else (Some (event_digit k), d\<lparr>last_event := Some k\<rparr>))"
  by (auto simp: observe_def event_of_def event_digit_def Let_def split: option.split)

lemma observe_all_run:
  "observe_all ps d =
     (let ks = remdups_adj (List.map_filter event_of ps)
      in map event_digit (if ks \<noteq> [] \<and> last_event d = Some (hd ks) then tl ks else ks))"
proof (induction ps arbitrary: d)
  case (Cons p ps)
  obtain payload ts where p: "p = (payload, ts)" by fastforce
  show ?case
  proof (cases "event_of p")
    case None
    then show ?thesis using Cons.IH [of d] by (simp add: p observe_event_of List.map_filter_simps)
  next
    case (Some k)
    let ?ks = "List.map_filter event_of ps"
    have head: "remdups_adj (k # ?ks) \<noteq> []" "hd (remdups_adj (k # ?ks)) = k"
      by (simp_all add: hd_remdups_adj)
    have tl: "tl (remdups_adj (k # ?ks)) =
        (if remdups_adj ?ks \<noteq> [] \<and> hd (remdups_adj ?ks) = k then tl (remdups_adj ?ks) else remdups_adj ?ks)"
      by (cases "?ks") (auto simp: hd_remdups_adj remdups_adj_Cons split: list.split)
    show ?thesis
    proof (cases "last_event d = Some k")
      case True
      then show ?thesis using Cons.IH [of d] Some head tl
        by (auto simp: p observe_event_of List.map_filter_simps Let_def)
    next
      case False
      then show ?thesis using Cons.IH [of "d\<lparr>last_event := Some k\<rparr>"] Some head tl
        by (cases "remdups_adj (k # ?ks)") (auto simp: p observe_event_of List.map_filter_simps Let_def)
    qed
  qed
qed (simp add: List.map_filter_simps)

text \<open>Every pressed key gives one digit.  From the RTP packets of telephone events a new detector makes exactly the
  digits of the events, in their order, each once however often its packets are repeated, and packets that are too
  short or carry no digit change nothing.\<close>

theorem detector_one_digit_per_event:
  "observe_all ps \<lparr>last_event = None\<rparr> = map event_digit (remdups_adj (List.map_filter event_of ps))"
  by (simp add: observe_all_run Let_def)

theorem packet_roundtrip_witness:
  "parse_packet (encode_packet \<lparr>p_msg_type = MsgRtp, p_src = (V4 0x0A000001, 5060), p_dst = (V4 0x0A000002, 5062),
      p_timestamp = 77, p_payload = [1, 2, 3]\<rparr>) =
    Inr \<lparr>p_msg_type = MsgRtp, p_src = (V4 0x0A000001, 5060), p_dst = (V4 0x0A000002, 5062), p_timestamp = 77, p_payload = [1, 2, 3]\<rparr>"
  using packet_roundtrip [of "\<lparr>p_msg_type = MsgRtp, p_src = (V4 0x0A000001, 5060), p_dst = (V4 0x0A000002, 5062),
      p_timestamp = 77, p_payload = [1, 2, 3]\<rparr>" "[]"] by simp

end
