(* ===== verification/Negotiate.thy ===== *)
theory Negotiate
  imports Complex_Main Prelude
begin

text \<open>
  The negotiation of codecs, \<open>src/src/media/negotiate.rs\<close>: the codecs that an SDP offers, the codec that is chosen,
  the codecs that the gateway offers to the called party, and the SDP text that says so.
  Parsing and printing of SDP and the table of codecs are libraries and come as the record \<open>codec_lib\<close>; of their types the model
  has the variants and fields that the source uses. Payload types, clock rates and channels are naturals, read with the bound of their type.
\<close>

section \<open>Types of the libraries\<close>

datatype codec_type = PCMU | PCMA | G722 | G729 | Opus | TelephoneEvent

datatype sdp_type = Offer | Answer

datatype media_kind = Audio | Video | Application

datatype direction = SendRecv | SendOnly | RecvOnly | Inactive

record sdp_attribute =
  a_key :: string
  a_value :: "string option"

record media_section =
  kind :: media_kind
  formats :: "string list"
  attributes :: "sdp_attribute list"
  direction :: direction

record session_description =
  media_sections :: "media_section list"
  sd_rest :: string

record video_capability =
  v_codec_name :: string
  v_clock_rate :: nat
  v_payload_type :: nat

record audio_capability =
  ac_payload_type :: nat
  ac_codec_name :: string
  ac_clock_rate :: nat
  ac_channels :: nat
  ac_fmtp :: "string option"

record codec_lib =
  cl_opus :: bool
  cl_of_name :: "string \<Rightarrow> codec_type option"
  cl_of_payload :: "nat \<Rightarrow> codec_type option"
  cl_payload_type :: "codec_type \<Rightarrow> nat"
  cl_clock_rate :: "codec_type \<Rightarrow> nat"
  cl_channels :: "codec_type \<Rightarrow> nat"
  cl_is_audio :: "codec_type \<Rightarrow> bool"
  cl_rtpmap :: "codec_type \<Rightarrow> string"
  cl_fmtp :: "codec_type \<Rightarrow> string option"
  cl_debug :: "codec_type \<Rightarrow> string"
  cl_parse :: "sdp_type \<Rightarrow> string \<Rightarrow> session_description option"
  cl_print :: "session_description \<Rightarrow> string"
  cl_video_capabilities :: "session_description \<Rightarrow> video_capability list"

definition u16_max :: nat where "u16_max = 65535"

fun update_first :: "('a \<Rightarrow> bool) \<Rightarrow> ('a \<Rightarrow> 'a) \<Rightarrow> 'a list \<Rightarrow> 'a list" where
  "update_first P f [] = []"
| "update_first P f (x # xs) = (if P x then f x # xs else x # update_first P f xs)"

text \<open>A \<open>HashSet\<close> of keys seen so far, and the items whose key is new to it.\<close>

fun keep_first :: "('a \<Rightarrow> nat) \<Rightarrow> nat list \<Rightarrow> 'a list \<Rightarrow> 'a list" where
  "keep_first key seen [] = []"
| "keep_first key seen (x # xs) =
     (if key x \<in> set seen then keep_first key seen xs else x # keep_first key (key x # seen) xs)"

section \<open>Codecs of an SDP\<close>

record codec_info =
  payload_type :: nat
  codec :: codec_type
  clock_rate :: nat
  channels :: nat

record extracted_codecs =
  x_audio :: "codec_info list"
  x_video :: "codec_info list"
  x_dtmf :: "codec_info list"

record rtp_codec_parameters =
  rp_payload_type :: nat
  rp_clock_rate :: nat
  rp_channels :: nat

record negotiation_result =
  nr_codec :: codec_type
  nr_params :: rtp_codec_parameters
  nr_dtmf_pt :: "nat option"

record negotiated_leg_profile =
  lp_audio :: "codec_info option"
  lp_video :: "codec_info option"
  lp_dtmf :: "codec_info option"

record bridge_codec_lists =
  caller_side :: "codec_info list"
  callee_side :: "codec_info list"
  common :: "codec_info list"

definition to_params :: "codec_info \<Rightarrow> rtp_codec_parameters" where
  "to_params c = \<lparr>rp_payload_type = payload_type c, rp_clock_rate = clock_rate c,
                  rp_channels = (if 255 < channels c then 255 else channels c)\<rparr>"

definition is_dtmf :: "codec_info \<Rightarrow> bool" where
  "is_dtmf c = (codec c = TelephoneEvent)"

definition to_audio_capability :: "codec_lib \<Rightarrow> codec_info \<Rightarrow> audio_capability option" where
  "to_audio_capability lib c =
     map_option (\<lambda>(codec_name, default_fmtp).
         \<lparr>ac_payload_type = payload_type c, ac_codec_name = codec_name, ac_clock_rate = clock_rate c,
          ac_channels = (if u8_max < channels c then u8_max else channels c), ac_fmtp = default_fmtp\<rparr>)
       (case codec c of
          PCMU \<Rightarrow> Some (''PCMU'', None)
        | PCMA \<Rightarrow> Some (''PCMA'', None)
        | G722 \<Rightarrow> Some (''G722'', None)
        | G729 \<Rightarrow> Some (''G729'', None)
        | Opus \<Rightarrow> if cl_opus lib then Some (''opus'', Some ''minptime=10;useinbandfec=1'') else None
        | TelephoneEvent \<Rightarrow> Some (''telephone-event'', Some ''0-16''))"

definition parse_answer_or_offer :: "codec_lib \<Rightarrow> string \<Rightarrow> session_description option" where
  "parse_answer_or_offer lib sdp =
     (case cl_parse lib Answer sdp of Some d \<Rightarrow> Some d | None \<Rightarrow> cl_parse lib Offer sdp)"

definition parse_audio_section :: "codec_lib \<Rightarrow> string \<Rightarrow> media_section option" where
  "parse_audio_section lib sdp =
     Option.bind (parse_answer_or_offer lib sdp) (\<lambda>d. find (\<lambda>m. kind m = Audio) (media_sections d))"

definition parse_video_section :: "codec_lib \<Rightarrow> string \<Rightarrow> media_section option" where
  "parse_video_section lib sdp =
     Option.bind (parse_answer_or_offer lib sdp) (\<lambda>d. find (\<lambda>m. kind m = Video) (media_sections d))"

text \<open>One attribute: a payload type with its codec, or with \<open>None\<close> when the codec is unknown.\<close>

definition parse_rtpmap :: "codec_lib \<Rightarrow> sdp_attribute \<Rightarrow> (nat \<times> codec_info option) option" where
  "parse_rtpmap lib attr =
     (if a_key attr \<noteq> ''rtpmap'' then None
      else Option.bind (a_value attr) (\<lambda>value. Option.bind (split_once (CHR '' '') value) (\<lambda>(pt_str, codec_str).
        Option.bind (parse_u8 pt_str) (\<lambda>pt.
          let parts = split_on (CHR ''/'') codec_str in
          if length parts < 2 then None
          else Some (pt, map_option (\<lambda>c.
                 \<lparr>payload_type = pt, codec = c,
                  clock_rate = (case parse_unsigned u32_max (parts ! 1) of Some r \<Rightarrow> r | None \<Rightarrow> 8000),
                  channels = (if 3 \<le> length parts
                              then case parse_unsigned u16_max (parts ! 2) of Some n \<Rightarrow> n | None \<Rightarrow> 1
                              else 1)\<rparr>)
               (cl_of_name lib (parts ! 0)))))))"

fun parse_rtpmap_attributes ::
  "codec_lib \<Rightarrow> sdp_attribute list \<Rightarrow> (nat \<rightharpoonup> codec_info) \<times> nat list \<Rightarrow> (nat \<rightharpoonup> codec_info) \<times> nat list" where
  "parse_rtpmap_attributes lib [] (codec_by_pt, unrecognized_pts) = (codec_by_pt, unrecognized_pts)"
| "parse_rtpmap_attributes lib (attr # attrs) (codec_by_pt, unrecognized_pts) =
     parse_rtpmap_attributes lib attrs
       (case parse_rtpmap lib attr of
          None \<Rightarrow> (codec_by_pt, unrecognized_pts)
        | Some (pt, None) \<Rightarrow> (codec_by_pt, pt # unrecognized_pts)
        | Some (pt, Some c) \<Rightarrow> (codec_by_pt(pt \<mapsto> c), unrecognized_pts))"

definition static_codec_for_payload :: "codec_lib \<Rightarrow> media_section \<Rightarrow> nat \<Rightarrow> codec_info option" where
  "static_codec_for_payload lib section pt =
     map_option (\<lambda>(c, rate, chans). \<lparr>payload_type = pt, codec = c, clock_rate = rate, channels = chans\<rparr>)
       (case cl_of_payload lib pt of
          Some c \<Rightarrow>
            (if c \<in> {PCMU, PCMA, G722, G729} then Some (c, 8000, 1)
             else if c = Opus \<and> cl_opus lib then Some (c, 48000, 2)
             else None)
        | None \<Rightarrow>
            (if cl_opus lib \<and> (pt = 96 \<or> pt = 111) \<and> kind section = Audio then Some (Opus, 48000, 2) else None))"

fun ordered_codecs ::
  "codec_lib \<Rightarrow> media_section \<Rightarrow> nat list \<Rightarrow> string list \<Rightarrow> (nat \<rightharpoonup> codec_info) \<Rightarrow> nat list \<Rightarrow> codec_info list" where
  "ordered_codecs lib section unrecognized_pts [] codec_by_pt seen_pts = []"
| "ordered_codecs lib section unrecognized_pts (format # fs) codec_by_pt seen_pts =
     (case parse_u8 format of
        None \<Rightarrow> ordered_codecs lib section unrecognized_pts fs codec_by_pt seen_pts
      | Some pt \<Rightarrow>
          if pt \<in> set seen_pts then ordered_codecs lib section unrecognized_pts fs codec_by_pt seen_pts
          else if pt \<in> set unrecognized_pts then ordered_codecs lib section unrecognized_pts fs codec_by_pt (pt # seen_pts)
          else (case (case codec_by_pt pt of Some c \<Rightarrow> Some c | None \<Rightarrow> static_codec_for_payload lib section pt) of
                  Some c \<Rightarrow> [c] | None \<Rightarrow> [])
               @ ordered_codecs lib section unrecognized_pts fs (codec_by_pt(pt := None)) (pt # seen_pts))"

definition extract_ordered_codecs_from_section :: "codec_lib \<Rightarrow> media_section \<Rightarrow> codec_info list" where
  "extract_ordered_codecs_from_section lib section =
     (let (codec_by_pt, unrecognized_pts) = parse_rtpmap_attributes lib (attributes section) (Map.empty, [])
      in ordered_codecs lib section unrecognized_pts (formats section) codec_by_pt [])"

definition parse_rtp_map_from_section :: "codec_lib \<Rightarrow> media_section \<Rightarrow> (nat \<times> codec_type \<times> nat \<times> nat) list" where
  "parse_rtp_map_from_section lib section =
     map (\<lambda>c. (payload_type c, codec c, clock_rate c, channels c)) (extract_ordered_codecs_from_section lib section)"

definition extract_codec_params :: "codec_lib \<Rightarrow> string \<Rightarrow> extracted_codecs" where
  "extract_codec_params lib sdp =
     (let audio = (case parse_audio_section lib sdp of None \<Rightarrow> [] | Some section \<Rightarrow> extract_ordered_codecs_from_section lib section);
          video = (case parse_video_section lib sdp of None \<Rightarrow> [] | Some section \<Rightarrow> extract_ordered_codecs_from_section lib section)
      in \<lparr>x_audio = filter (\<lambda>c. \<not> is_dtmf c) audio, x_video = video, x_dtmf = filter is_dtmf audio\<rparr>)"

definition extract_dtmf_codecs :: "codec_lib \<Rightarrow> string \<Rightarrow> codec_info list" where
  "extract_dtmf_codecs lib sdp = x_dtmf (extract_codec_params lib sdp)"

definition select_best_codec :: "codec_info list \<Rightarrow> codec_type list \<Rightarrow> codec_info option" where
  "select_best_codec remote_codecs allowed_codecs =
     find (\<lambda>c. allowed_codecs = [] \<or> codec c \<in> set allowed_codecs)
       (filter (\<lambda>c. codec c \<noteq> TelephoneEvent) remote_codecs)"

definition extract_all_codecs :: "codec_lib \<Rightarrow> string \<Rightarrow> codec_info list" where
  "extract_all_codecs lib sdp = (let e = extract_codec_params lib sdp in x_audio e @ x_dtmf e)"

fun negotiate_among :: "codec_info list \<Rightarrow> codec_type list \<Rightarrow> negotiation_result result" where
  "negotiate_among remote_codecs [] = Inl ''No compatible codec found''"
| "negotiate_among remote_codecs (local_codec # local_codecs) =
     (case find (\<lambda>r. codec r = local_codec \<and> codec r \<noteq> TelephoneEvent) remote_codecs of
        Some remote \<Rightarrow>
          Inr \<lparr>nr_codec = codec remote, nr_params = to_params remote,
               nr_dtmf_pt = (case filter (\<lambda>r. codec r = TelephoneEvent) remote_codecs of
                               [] \<Rightarrow> None | d # _ \<Rightarrow> Some (payload_type d))\<rparr>
      | None \<Rightarrow> negotiate_among remote_codecs local_codecs)"

definition negotiate_codec :: "codec_lib \<Rightarrow> codec_type list \<Rightarrow> string \<Rightarrow> negotiation_result result" where
  "negotiate_codec lib local_codecs remote_sdp = negotiate_among (extract_all_codecs lib remote_sdp) local_codecs"

definition get_preferred_codec :: "codec_type list \<Rightarrow> codec_type option" where
  "get_preferred_codec codecs = find (\<lambda>c. c \<noteq> TelephoneEvent) codecs"

fun first_of :: "'a list \<Rightarrow> 'a option" where
  "first_of [] = None"
| "first_of (x # _) = Some x"

definition extract_leg_profile :: "codec_lib \<Rightarrow> string \<Rightarrow> negotiated_leg_profile" where
  "extract_leg_profile lib sdp =
     (let e = extract_codec_params lib sdp; audio = first_of (x_audio e);
          dtmf = (if length (x_dtmf e) = 0 then None
                  else if length (x_dtmf e) = 1 then first_of (x_dtmf e)
                  else let preferred_rate = (if cl_opus lib \<and> map_option codec audio = Some Opus then 48000 else 8000)
                       in case find (\<lambda>c. clock_rate c = preferred_rate) (x_dtmf e) of
                            Some c \<Rightarrow> Some c
                          | None \<Rightarrow> first_of (x_dtmf e))
      in \<lparr>lp_audio = audio, lp_video = first_of (x_video e), lp_dtmf = dtmf\<rparr>)"

section \<open>Codecs that the gateway offers\<close>

definition default_rtp_codecs :: "codec_lib \<Rightarrow> codec_type list" where
  "default_rtp_codecs lib = (if cl_opus lib then [Opus] else []) @ [G729, G722, PCMU, PCMA, TelephoneEvent]"

definition default_webrtc_codecs :: "codec_lib \<Rightarrow> codec_type list" where
  "default_webrtc_codecs lib = (if cl_opus lib then [Opus] else []) @ [G722, PCMU, PCMA, TelephoneEvent]"

definition supported_codecs_for_transport :: "codec_lib \<Rightarrow> bool \<Rightarrow> codec_type list" where
  "supported_codecs_for_transport lib is_webrtc = (if is_webrtc then default_webrtc_codecs lib else default_rtp_codecs lib)"

definition allowed_supported_codecs :: "codec_lib \<Rightarrow> bool \<Rightarrow> codec_type list \<Rightarrow> codec_type list" where
  "allowed_supported_codecs lib is_webrtc allow_codecs =
     filter (\<lambda>c. allow_codecs = [] \<or> c \<in> set allow_codecs) (supported_codecs_for_transport lib is_webrtc)"

definition codec_info_for_type :: "codec_lib \<Rightarrow> codec_type \<Rightarrow> codec_info" where
  "codec_info_for_type lib c =
     \<lparr>payload_type = cl_payload_type lib c, codec = c, clock_rate = cl_clock_rate lib c, channels = cl_channels lib c\<rparr>"

fun append_extras :: "codec_lib \<Rightarrow> codec_type list \<Rightarrow> codec_type list \<Rightarrow> codec_info list" where
  "append_extras lib seen_codecs [] = []"
| "append_extras lib seen_codecs (c # cs) =
     (if c = TelephoneEvent \<or> c \<in> set seen_codecs then append_extras lib seen_codecs cs
      else codec_info_for_type lib c # append_extras lib (c # seen_codecs) cs)"

definition free_payload_type :: "codec_lib \<Rightarrow> nat list \<Rightarrow> nat" where
  "free_payload_type lib used_pts =
     (let default_pt = cl_payload_type lib TelephoneEvent
      in if default_pt \<notin> set used_pts then default_pt
         else case find (\<lambda>p. p \<notin> set used_pts) [96..<128] of Some p \<Rightarrow> p | None \<Rightarrow> default_pt)"

fun append_needed :: "codec_lib \<Rightarrow> nat list \<Rightarrow> nat list \<Rightarrow> codec_info list" where
  "append_needed lib used_pts [] = []"
| "append_needed lib used_pts (rate # rates) =
     (let pt = free_payload_type lib used_pts
      in \<lparr>payload_type = pt, codec = TelephoneEvent, clock_rate = rate, channels = 1\<rparr>
         # append_needed lib (pt # used_pts) rates)"

definition offer_dtmf :: "codec_lib \<Rightarrow> codec_info list \<Rightarrow> codec_info list \<Rightarrow> codec_info list" where
  "offer_dtmf lib dtmf audio =
     (if dtmf = [] then []
      else let has_opus = (\<exists>c \<in> set audio. codec c = Opus);
               has_non_opus = (\<exists>c \<in> set audio. cl_is_audio lib (codec c) \<and> codec c \<noteq> Opus);
               kept = filter (\<lambda>d. if clock_rate d = 48000 then has_opus else has_non_opus) dtmf;
               seen_dtmf_rates = map clock_rate kept;
               needed_rates = (if has_non_opus \<and> 8000 \<notin> set seen_dtmf_rates then [8000] else [])
                              @ (if has_opus \<and> 48000 \<notin> set seen_dtmf_rates then [48000] else [])
           in kept @ append_needed lib (map payload_type (audio @ kept)) needed_rates)"

definition build_callee_codec_offer_with_allow :: "codec_lib \<Rightarrow> string \<Rightarrow> bool \<Rightarrow> codec_type list \<Rightarrow> codec_info list" where
  "build_callee_codec_offer_with_allow lib caller_sdp is_webrtc allow_codecs =
     (let e = extract_codec_params lib caller_sdp;
          supported = allowed_supported_codecs lib is_webrtc allow_codecs;
          kept = filter (\<lambda>c. codec c \<in> set supported) (x_audio e);
          extras_order = (if allow_codecs = [] then supported else filter (\<lambda>c. c \<in> set supported) allow_codecs);
          audio = kept @ append_extras lib (map codec kept) extras_order
      in audio @ offer_dtmf lib (x_dtmf e) audio)"

definition build_callee_codec_offer :: "codec_lib \<Rightarrow> string \<Rightarrow> bool \<Rightarrow> codec_info list" where
  "build_callee_codec_offer lib caller_sdp is_webrtc = build_callee_codec_offer_with_allow lib caller_sdp is_webrtc []"

definition build_caller_answer_codec_list_with_allow ::
  "codec_lib \<Rightarrow> string \<Rightarrow> bool \<Rightarrow> codec_type list \<Rightarrow> codec_info list" where
  "build_caller_answer_codec_list_with_allow lib caller_sdp is_webrtc allow_codecs =
     (let e = extract_codec_params lib caller_sdp;
          supported = allowed_supported_codecs lib is_webrtc allow_codecs
      in filter (\<lambda>c. codec c \<in> set supported) (x_audio e) @ x_dtmf e)"

definition build_caller_answer_codec_list :: "codec_lib \<Rightarrow> string \<Rightarrow> bool \<Rightarrow> codec_info list" where
  "build_caller_answer_codec_list lib caller_sdp is_webrtc =
     build_caller_answer_codec_list_with_allow lib caller_sdp is_webrtc []"

definition build_bridge_codec_lists :: "codec_lib \<Rightarrow> string \<Rightarrow> bool \<Rightarrow> bool \<Rightarrow> codec_type list \<Rightarrow> bridge_codec_lists" where
  "build_bridge_codec_lists lib caller_sdp caller_is_webrtc callee_is_webrtc allow_codecs =
     (let caller = build_caller_answer_codec_list_with_allow lib caller_sdp caller_is_webrtc allow_codecs;
          callee = build_callee_codec_offer_with_allow lib caller_sdp callee_is_webrtc allow_codecs
      in \<lparr>caller_side = caller, callee_side = callee,
          common = filter (\<lambda>c. \<exists>cc \<in> set callee. codec cc = codec c) caller\<rparr>)"

section \<open>Changes of an SDP\<close>

definition attr_payload_type :: "sdp_attribute \<Rightarrow> nat option" where
  "attr_payload_type attr =
     Option.bind (a_value attr) (\<lambda>value. Option.bind (first_of (split_whitespace value)) parse_u8)"

definition codec_signature :: "codec_lib \<Rightarrow> codec_info \<Rightarrow> string" where
  "codec_signature lib c =
     cl_debug lib (codec c) @ ''/'' @ string_of_nat (clock_rate c) @ ''/'' @ string_of_nat (channels c)"

definition retain_payloads :: "nat list \<Rightarrow> sdp_attribute list \<Rightarrow> sdp_attribute list" where
  "retain_payloads allowed_pts attrs =
     filter (\<lambda>a. if a_key a \<in> {''rtpmap'', ''fmtp'', ''rtcp-fb''}
                  then (case attr_payload_type a of None \<Rightarrow> True | Some pt \<Rightarrow> pt \<in> set allowed_pts)
                  else True) attrs"

definition restrict_audio_section ::
  "codec_lib \<Rightarrow> codec_info list \<Rightarrow> string list \<Rightarrow> media_section \<Rightarrow> media_section option" where
  "restrict_audio_section lib source_codecs accepted_by_reference section =
     (let allowed_pts = keep_first id []
            (map payload_type (filter (\<lambda>c. codec_signature lib c \<in> set accepted_by_reference) source_codecs))
      in if allowed_pts = [] then None
         else Some (section\<lparr>formats := map string_of_nat allowed_pts,
                            attributes := retain_payloads allowed_pts (attributes section)\<rparr>))"

definition retain_video_payloads :: "nat list \<Rightarrow> sdp_attribute list \<Rightarrow> sdp_attribute list" where
  "retain_video_payloads allowed_pts attrs =
     filter (\<lambda>a. if a_key a \<in> {''rtpmap'', ''fmtp''}
                  then (case attr_payload_type a of None \<Rightarrow> True | Some pt \<Rightarrow> pt \<in> set allowed_pts)
                  else if a_key a = ''rtcp-fb''
                  then (case Option.bind (a_value a) (\<lambda>value. first_of (split_whitespace value)) of
                          None \<Rightarrow> True
                        | Some pt \<Rightarrow> pt = ''*'' \<or> (case parse_u8 pt of None \<Rightarrow> False | Some n \<Rightarrow> n \<in> set allowed_pts))
                  else True) attrs"

definition to_ascii_uppercase :: "string \<Rightarrow> string" where
  "to_ascii_uppercase = map (\<lambda>c. if 97 \<le> (of_char c :: nat) \<and> (of_char c :: nat) \<le> 122 then char_of (of_char c - 32 :: nat) else c)"

definition video_signature :: "video_capability \<Rightarrow> string \<times> nat" where
  "video_signature cap = (to_ascii_uppercase (v_codec_name cap), v_clock_rate cap)"

definition restrict_video_section ::
  "video_capability list \<Rightarrow> (string \<times> nat) list \<Rightarrow> direction \<Rightarrow> media_section \<Rightarrow> media_section option" where
  "restrict_video_section source_caps accepted_by_reference dir section =
     (let allowed_pts = keep_first id []
            (map v_payload_type (filter (\<lambda>cap. video_signature cap \<in> set accepted_by_reference) source_caps))
      in if allowed_pts = [] then None
         else Some (section\<lparr>direction := dir,
                            formats := filter (\<lambda>f. case parse_u8 f of None \<Rightarrow> False | Some pt \<Rightarrow> pt \<in> set allowed_pts) (formats section),
                            attributes := retain_video_payloads allowed_pts (attributes section)\<rparr>))"

definition section_of :: "media_kind \<Rightarrow> session_description \<Rightarrow> media_section option" where
  "section_of k d = find (\<lambda>m. kind m = k) (media_sections d)"

definition set_section :: "media_kind \<Rightarrow> media_section \<Rightarrow> session_description \<Rightarrow> session_description" where
  "set_section k m d = d\<lparr>media_sections := update_first (\<lambda>x. kind x = k) (\<lambda>_. m) (media_sections d)\<rparr>"

definition restrict_audio ::
  "codec_lib \<Rightarrow> string \<Rightarrow> session_description \<Rightarrow> string \<Rightarrow> bool \<Rightarrow> session_description \<Rightarrow> session_description option" where
  "restrict_audio lib sdp reference_desc reference_sdp filter_audio_to_reference d =
     (case section_of Audio d of
        None \<Rightarrow> Some d
      | Some audio \<Rightarrow>
          let audio1 = (case section_of Audio reference_desc of
                          None \<Rightarrow> audio | Some r \<Rightarrow> audio\<lparr>direction := direction r\<rparr>);
              accepted = map (codec_signature lib) (extract_all_codecs lib reference_sdp)
          in if filter_audio_to_reference \<and> accepted \<noteq> []
             then map_option (\<lambda>m. set_section Audio m d)
                    (restrict_audio_section lib (extract_all_codecs lib sdp) accepted audio1)
             else Some (set_section Audio audio1 d))"

definition restrict_video ::
  "codec_lib \<Rightarrow> video_capability list \<Rightarrow> session_description \<Rightarrow> session_description \<Rightarrow> session_description option" where
  "restrict_video lib source_caps reference_desc d =
     (case (section_of Video reference_desc, section_of Video d) of
        (Some reference_video, Some video) \<Rightarrow>
          let accepted = map video_signature (cl_video_capabilities lib reference_desc)
          in if accepted \<noteq> []
             then map_option (\<lambda>m. set_section Video m d)
                    (restrict_video_section source_caps accepted (direction reference_video) video)
             else Some d
      | _ \<Rightarrow> Some d)"

definition restrict_sdp_to_reference_codecs ::
  "codec_lib \<Rightarrow> sdp_type \<Rightarrow> string \<Rightarrow> sdp_type \<Rightarrow> string \<Rightarrow> bool \<Rightarrow> string option" where
  "restrict_sdp_to_reference_codecs lib sdp_type sdp reference_sdp_type reference_sdp filter_audio_to_reference =
     Option.bind (cl_parse lib sdp_type sdp) (\<lambda>desc.
     Option.bind (cl_parse lib reference_sdp_type reference_sdp) (\<lambda>reference_desc.
     Option.bind (restrict_audio lib sdp reference_desc reference_sdp filter_audio_to_reference desc) (\<lambda>desc1.
     Option.bind (restrict_video lib (cl_video_capabilities lib desc) reference_desc desc1) (\<lambda>desc2.
     Some (cl_print lib desc2)))))"

definition codec_attributes :: "codec_lib \<Rightarrow> codec_info \<Rightarrow> sdp_attribute list" where
  "codec_attributes lib info =
     \<lparr>a_key = ''rtpmap'', a_value = Some (string_of_nat (payload_type info) @ '' '' @ cl_rtpmap lib (codec info))\<rparr>
     # (case cl_fmtp lib (codec info) of
          None \<Rightarrow> []
        | Some fmtp \<Rightarrow> [\<lparr>a_key = ''fmtp'', a_value = Some (string_of_nat (payload_type info) @ '' '' @ fmtp)\<rparr>])"

definition rewrite_section :: "codec_lib \<Rightarrow> codec_info list \<Rightarrow> media_section \<Rightarrow> media_section" where
  "rewrite_section lib new_codecs section =
     (let infos = keep_first payload_type [] new_codecs
      in section\<lparr>formats := map (\<lambda>i. string_of_nat (payload_type i)) infos,
                 attributes := filter (\<lambda>a. a_key a \<noteq> ''rtpmap'' \<and> a_key a \<noteq> ''fmtp'') (attributes section)
                               @ concat (map (codec_attributes lib) infos)\<rparr>)"

definition rewrite_sdp_codec_list :: "codec_lib \<Rightarrow> string \<Rightarrow> codec_info list \<Rightarrow> string option" where
  "rewrite_sdp_codec_list lib sdp new_codecs =
     (if new_codecs = [] then None
      else map_option (\<lambda>d. cl_print lib
               (d\<lparr>media_sections := update_first (\<lambda>m. kind m = Audio) (rewrite_section lib new_codecs) (media_sections d)\<rparr>))
             (case cl_parse lib Offer sdp of Some d \<Rightarrow> Some d | None \<Rightarrow> cl_parse lib Answer sdp))"

text \<open>The SSRC of the audio: an attribute without a value is skipped, one with a blank value ends the search.\<close>

fun find_ssrc :: "sdp_attribute list \<Rightarrow> nat option + unit" where
  "find_ssrc [] = Inr ()"
| "find_ssrc (a # as) =
     (if a_key a = ''ssrc''
      then case a_value a of
             None \<Rightarrow> find_ssrc as
           | Some value \<Rightarrow>
               (case first_of (split_whitespace value) of
                  None \<Rightarrow> Inl None
                | Some s \<Rightarrow> (case parse_unsigned u32_max s of Some n \<Rightarrow> Inl (Some n) | None \<Rightarrow> find_ssrc as))
      else find_ssrc as)"

fun find_ssrc_sections :: "media_section list \<Rightarrow> nat option" where
  "find_ssrc_sections [] = None"
| "find_ssrc_sections (m # ms) =
     (if kind m = Audio
      then case find_ssrc (attributes m) of Inl r \<Rightarrow> r | Inr _ \<Rightarrow> find_ssrc_sections ms
      else find_ssrc_sections ms)"

definition extract_ssrc :: "codec_lib \<Rightarrow> string \<Rightarrow> nat option" where
  "extract_ssrc lib sdp = Option.bind (parse_answer_or_offer lib sdp) (\<lambda>d. find_ssrc_sections (media_sections d))"

text \<open>The offer to the called party when the media does not pass the gateway, \<open>sip_session.rs\<close>.\<close>

definition bypass_callee_sdp :: "codec_lib \<Rightarrow> string option \<Rightarrow> bool \<Rightarrow> codec_type list \<Rightarrow> string option" where
  "bypass_callee_sdp lib caller_offer callee_is_webrtc allow_codecs =
     (let default_codecs = default_rtp_codecs lib;
          is_restricted = (length allow_codecs < length default_codecs
            \<or> (\<exists>c \<in> set allow_codecs. c \<notin> set default_codecs) \<or> (\<exists>c \<in> set default_codecs. c \<notin> set allow_codecs))
      in if is_restricted
         then case caller_offer of
                None \<Rightarrow> None
              | Some offer \<Rightarrow>
                  (case rewrite_sdp_codec_list lib offer
                          (build_callee_codec_offer_with_allow lib offer callee_is_webrtc allow_codecs) of
                     Some s \<Rightarrow> Some s
                   | None \<Rightarrow> caller_offer)
         else caller_offer)"

section \<open>What is extracted\<close>

lemma set_keep_first: "x \<in> set (keep_first key seen xs) \<Longrightarrow> x \<in> set xs \<and> key x \<notin> set seen"
  by (induction xs arbitrary: seen) (force split: if_splits)+

lemma distinct_keep_first: "distinct (map key (keep_first key seen xs))"
  by (induction xs arbitrary: seen) (auto dest: set_keep_first)

lemma keep_first_id: "\<lbrakk>distinct (map key xs); key ` set xs \<inter> set seen = {}\<rbrakk> \<Longrightarrow> keep_first key seen xs = xs"
  by (induction xs arbitrary: seen) auto

lemma keep_first_keys: "key ` set (keep_first key seen xs) = key ` set xs - set seen"
  by (induction xs arbitrary: seen) auto

definition codec_for :: "codec_lib \<Rightarrow> media_section \<Rightarrow> (nat \<rightharpoonup> codec_info) \<Rightarrow> nat list \<Rightarrow> nat \<Rightarrow> codec_info option" where
  "codec_for lib section m unrecognized_pts pt =
     (if pt \<in> set unrecognized_pts then None
      else case m pt of Some c \<Rightarrow> Some c | None \<Rightarrow> static_codec_for_payload lib section pt)"

lemma ordered_codecs_alt:
  assumes "\<And>pt. pt \<notin> set seen \<Longrightarrow> m pt = m0 pt"
  shows "ordered_codecs lib section un fs m seen =
           List.map_filter (codec_for lib section m0 un) (keep_first id seen (List.map_filter parse_u8 fs))"
  using assms
proof (induction fs arbitrary: m seen)
  case (Cons f fs)
  have IH: "ordered_codecs lib section un fs m' seen' =
      List.map_filter (codec_for lib section m0 un) (keep_first id seen' (List.map_filter parse_u8 fs))"
    if "\<forall>pt. pt \<notin> set seen' \<longrightarrow> m' pt = m0 pt" for m' seen'
    by (rule Cons.IH) (use that in blast)
  show ?case
  proof (cases "parse_u8 f")
    case (Some p)
    show ?thesis
    proof (cases "p \<in> set seen")
      case False
      then show ?thesis using Some Cons.prems [of p] Cons.prems
        by (cases "p \<in> set un"; cases "m0 p") (simp_all add: List.map_filter_simps codec_for_def [of lib "section" m0 un p] IH id_def split: option.split)
    qed (use Some Cons.prems in \<open>simp add: List.map_filter_simps IH id_def\<close>)
  qed (use Cons.prems in \<open>simp add: List.map_filter_simps IH id_def\<close>)
qed (simp add: List.map_filter_simps)

definition section_codec :: "codec_lib \<Rightarrow> media_section \<Rightarrow> nat \<Rightarrow> codec_info option" where
  "section_codec lib section =
     (let (m, un) = parse_rtpmap_attributes lib (attributes section) (Map.empty, []) in codec_for lib section m un)"

lemma extract_alt:
  "extract_ordered_codecs_from_section lib section =
     List.map_filter (section_codec lib section) (keep_first id [] (List.map_filter parse_u8 (formats section)))"
  by (simp add: extract_ordered_codecs_from_section_def section_codec_def ordered_codecs_alt split: prod.split)

lemma parse_rtpmap_payload: "parse_rtpmap lib a = Some (pt, Some c) \<Longrightarrow> payload_type c = pt"
  by (auto simp: parse_rtpmap_def Let_def bind_eq_Some_conv split: if_splits)

lemma parse_rtpmap_attributes_payload:
  assumes "\<And>pt c. m pt = Some c \<Longrightarrow> payload_type c = pt"
    and "fst (parse_rtpmap_attributes lib attrs (m, un)) pt = Some c"
  shows "payload_type c = pt"
  using assms
proof (induction attrs arbitrary: m un)
  case (Cons a attrs)
  show ?case
  proof (cases "parse_rtpmap lib a")
    case (Some r)
    obtain p oc where r: "r = (p, oc)" by (cases r)
    show ?thesis
    proof (cases oc)
      case None
      then show ?thesis using Cons.IH [of m "p # un"] Cons.prems Some r by simp
    next
      case (Some c')
      then have "payload_type c' = p" using parse_rtpmap_payload \<open>parse_rtpmap lib a = Some r\<close> r by blast
      then have "\<And>pt c. (m(p \<mapsto> c')) pt = Some c \<Longrightarrow> payload_type c = pt" using Cons.prems(1) by (auto split: if_splits)
      moreover have "fst (parse_rtpmap_attributes lib attrs (m(p \<mapsto> c'), un)) pt = Some c"
        using Cons.prems(2) Some r \<open>parse_rtpmap lib a = Some r\<close> by simp
      ultimately show ?thesis by (rule Cons.IH)
    qed
  qed (use Cons in auto)
qed simp

lemma section_codec_payload: "section_codec lib section pt = Some c \<Longrightarrow> payload_type c = pt"
  using parse_rtpmap_attributes_payload [of Map.empty lib "attributes section" "[]" pt c]
  by (auto simp: section_codec_def codec_for_def static_codec_for_payload_def split: prod.splits if_splits option.splits)

lemma map_filter_key:
  assumes "\<And>x y. f x = Some y \<Longrightarrow> k y = x" shows "map k (List.map_filter f xs) = filter (\<lambda>x. f x \<noteq> None) xs"
  using assms by (induction xs) (auto simp: List.map_filter_simps split: option.splits)

lemma extract_payloads:
  "map payload_type (extract_ordered_codecs_from_section lib section) =
     filter (\<lambda>pt. section_codec lib section pt \<noteq> None) (keep_first id [] (List.map_filter parse_u8 (formats section)))"
  unfolding extract_alt by (rule map_filter_key) (rule section_codec_payload)

lemma extract_distinct: "distinct (map payload_type (extract_ordered_codecs_from_section lib section))"
  unfolding extract_payloads using distinct_keep_first [of id "[]" "List.map_filter parse_u8 (formats section)"] by simp

lemma set_map_filter': "y \<in> set (List.map_filter f xs) \<longleftrightarrow> (\<exists>x \<in> set xs. f x = Some y)"
  by (induction xs) (auto simp: List.map_filter_simps split: option.splits)

lemma extracted_codec:
  assumes "c \<in> set (extract_ordered_codecs_from_section lib section)"
  shows "section_codec lib section (payload_type c) = Some c \<and> payload_type c \<le> 255"
proof -
  obtain pt where pt: "pt \<in> set (keep_first id [] (List.map_filter parse_u8 (formats section)))" "section_codec lib section pt = Some c"
    using assms unfolding extract_alt set_map_filter' by blast
  from set_keep_first [OF this(1)] obtain f where "parse_u8 f = Some pt" by (auto simp: set_map_filter')
  then have "pt \<le> u8_max" by (rule parse_unsigned_le)
  then show ?thesis using pt(2) section_codec_payload [OF pt(2)] by (simp add: u8_max_def)
qed

lemma map_filter_string_of_nat:
  "\<forall>p \<in> set ps. p \<le> 255 \<Longrightarrow> List.map_filter parse_u8 (map string_of_nat ps) = ps"
  by (induction ps) (simp_all add: List.map_filter_simps u8_max_def)

lemma map_filter_map:
  "(\<And>x. x \<in> set xs \<Longrightarrow> f (k x) = Some (g x)) \<Longrightarrow> List.map_filter f (map k xs) = map g xs"
  by (induction xs) (simp_all add: List.map_filter_simps)

text \<open>Codecs that are written in a section in a given order are read in this order.\<close>

lemma extract_written:
  assumes "formats section = map string_of_nat (map payload_type xs)" "distinct (map payload_type xs)"
    and "\<And>x. x \<in> set xs \<Longrightarrow> payload_type x \<le> 255 \<and> section_codec lib section (payload_type x) = Some (g x)"
  shows "extract_ordered_codecs_from_section lib section = map g xs"
proof -
  have "List.map_filter parse_u8 (formats section) = map payload_type xs"
    using map_filter_string_of_nat [of "map payload_type xs"] assms(1,3) by simp
  then have "extract_ordered_codecs_from_section lib section = List.map_filter (section_codec lib section) (map payload_type xs)"
    using assms(2) by (simp add: extract_alt keep_first_id)
  then show ?thesis using map_filter_map [of xs "section_codec lib section" payload_type g] assms(3) by simp
qed

section \<open>An SDP restricted to a reference\<close>

lemma parse_rtpmap_attributes_filter:
  assumes "\<And>a x. \<lbrakk>a \<in> set attrs; parse_rtpmap lib a = Some (pt, x)\<rbrakk> \<Longrightarrow> Q a"
    and "m pt = m' pt" "pt \<in> set un \<longleftrightarrow> pt \<in> set un'"
  shows "fst (parse_rtpmap_attributes lib (filter Q attrs) (m, un)) pt = fst (parse_rtpmap_attributes lib attrs (m', un')) pt
       \<and> (pt \<in> set (snd (parse_rtpmap_attributes lib (filter Q attrs) (m, un)))
          \<longleftrightarrow> pt \<in> set (snd (parse_rtpmap_attributes lib attrs (m', un'))))"
  using assms
proof (induction attrs arbitrary: m un m' un')
  case (Cons a attrs)
  have IH: "\<And>m un m' un'. \<lbrakk>m pt = m' pt; pt \<in> set un \<longleftrightarrow> pt \<in> set un'\<rbrakk> \<Longrightarrow>
      fst (parse_rtpmap_attributes lib (filter Q attrs) (m, un)) pt = fst (parse_rtpmap_attributes lib attrs (m', un')) pt
    \<and> (pt \<in> set (snd (parse_rtpmap_attributes lib (filter Q attrs) (m, un)))
        \<longleftrightarrow> pt \<in> set (snd (parse_rtpmap_attributes lib attrs (m', un'))))"
    by (rule Cons.IH) (use Cons.prems(1) in auto)
  show ?case
  proof (cases "parse_rtpmap lib a")
    case (Some r)
    obtain p oc where r: "r = (p, oc)" by (cases r)
    show ?thesis
    proof (cases "Q a")
      case True
      then show ?thesis
        using Some r Cons.prems(2,3) IH [of m m' "p # un" "p # un'"] IH [of "m(p \<mapsto> the oc)" "m'(p \<mapsto> the oc)" un un']
        by (cases oc) simp_all
    next
      case False
      then have "p \<noteq> pt" using Cons.prems(1) [of a oc] Some r by auto
      then show ?thesis
        using False Some r Cons.prems(2,3) IH [of m m' un "p # un'"] IH [of m "m'(p \<mapsto> the oc)" un un'] by (cases oc) simp_all
    qed
  qed (use IH Cons.prems(2,3) in auto)
qed simp

lemma split_ws_aux_skip:
  "\<forall>c \<in> set a. \<not> is_whitespace c \<Longrightarrow> split_ws_aux acc (a @ b) = split_ws_aux (rev a @ acc) b"
  by (induction a arbitrary: acc) auto

lemma digits_val_no_space: "\<lbrakk>digits_val acc s = Some n; c \<in> set s\<rbrakk> \<Longrightarrow> \<not> is_whitespace c"
  by (induction s arbitrary: acc)
    (auto simp: digit_val_def is_whitespace_def Let_def split: option.splits if_splits)

lemma parse_unsigned_no_space: "\<lbrakk>parse_unsigned k s = Some n; c \<in> set s\<rbrakk> \<Longrightarrow> \<not> is_whitespace c"
  using digits_val_no_space [of 0 s n c] digits_val_no_space [of 0 "tl s" n c]
  by (cases s) (auto simp: parse_unsigned_def Let_def is_whitespace_def simp del: digits_val.simps split: option.splits if_splits)

lemma rtpmap_attr_payload:
  assumes "parse_rtpmap lib a = Some (pt, x)" shows "attr_payload_type a = Some pt"
proof -
  obtain v p r where v: "a_value a = Some v" "split_once (CHR '' '') v = Some (p, r)" "parse_u8 p = Some pt"
    using assms by (auto simp: parse_rtpmap_def Let_def bind_eq_Some_conv split: if_splits)
  have s: "v = p @ CHR '' '' # r" using split_once_Some [OF v(2)] by simp
  have ns: "\<forall>c \<in> set p. \<not> is_whitespace c" using parse_unsigned_no_space [OF v(3)] by blast
  have ne: "p \<noteq> []" using v(3) by (auto simp: parse_unsigned_def)
  have "first_of (split_whitespace v) = Some p"
    using split_ws_aux_skip [OF ns, of "[]" "CHR '' '' # r"] ne by (simp add: s split_whitespace_def is_whitespace_def)
  then show ?thesis using v(1,3) by (simp add: attr_payload_type_def)
qed

lemma section_codec_retained:
  assumes "pt \<in> set allowed" "kind section' = kind section"
    "attributes section' = retain_payloads allowed (attributes section)"
  shows "section_codec lib section' pt = section_codec lib section pt"
proof -
  let ?Q = "\<lambda>a. if a_key a \<in> {''rtpmap'', ''fmtp'', ''rtcp-fb''}
                 then (case attr_payload_type a of None \<Rightarrow> True | Some pt \<Rightarrow> pt \<in> set allowed) else True"
  have "fst (parse_rtpmap_attributes lib (filter ?Q (attributes section)) (Map.empty, [])) pt =
          fst (parse_rtpmap_attributes lib (attributes section) (Map.empty, [])) pt
      \<and> (pt \<in> set (snd (parse_rtpmap_attributes lib (filter ?Q (attributes section)) (Map.empty, [])))
        \<longleftrightarrow> pt \<in> set (snd (parse_rtpmap_attributes lib (attributes section) (Map.empty, []))))"
    by (rule parse_rtpmap_attributes_filter) (use assms(1) in \<open>auto dest: rtpmap_attr_payload\<close>)
  moreover have "static_codec_for_payload lib section' pt = static_codec_for_payload lib section pt"
    using assms(2) by (simp add: static_codec_for_payload_def cong: option.case_cong)
  ultimately show ?thesis
    unfolding section_codec_def codec_for_def assms(3) retain_payloads_def
    by (simp add: case_prod_beta cong: option.case_cong)
qed

text \<open>The codecs of a section, telephone events last, as \<open>extract_all_codecs\<close> has them.\<close>

definition listed_codecs :: "codec_lib \<Rightarrow> media_section \<Rightarrow> codec_info list" where
  "listed_codecs lib sec =
     (let cs = extract_ordered_codecs_from_section lib sec in filter (\<lambda>c. \<not> is_dtmf c) cs @ filter is_dtmf cs)"

lemma set_listed_codecs: "set (listed_codecs lib sec) = set (extract_ordered_codecs_from_section lib sec)"
  by (auto simp: listed_codecs_def Let_def)

lemma listed_codecs_distinct: "distinct (map payload_type (listed_codecs lib sec))"
proof -
  have "inj_on payload_type (set (extract_ordered_codecs_from_section lib sec))"
    "distinct (extract_ordered_codecs_from_section lib sec)"
    using extract_distinct [of lib sec] unfolding distinct_map by auto
  then show ?thesis unfolding distinct_map set_listed_codecs by (auto simp: listed_codecs_def Let_def)
qed

lemma extract_all_codecs_listed:
  "extract_all_codecs lib sdp = (case parse_audio_section lib sdp of None \<Rightarrow> [] | Some sec \<Rightarrow> listed_codecs lib sec)"
  by (simp add: extract_all_codecs_def extract_codec_params_def listed_codecs_def Let_def split: option.split)

text \<open>The audio section that is restricted to the codecs of a reference offers exactly the codecs of the section whose name, clock rate and
  channels the reference has, each with the payload type and the parameters it had: what is read from the restricted section are the codecs
  before it that the reference accepts, telephone events last. There is no restricted section when the two have no codec in common.\<close>

theorem restricted_section_exact:
  "map_option (extract_ordered_codecs_from_section lib) (restrict_audio_section lib (listed_codecs lib sec) accepted sec) =
     (case filter (\<lambda>c. codec_signature lib c \<in> set accepted) (listed_codecs lib sec) of [] \<Rightarrow> None | cs \<Rightarrow> Some cs)"
proof -
  let ?ok = "filter (\<lambda>c. codec_signature lib c \<in> set accepted) (listed_codecs lib sec)"
  have dist: "distinct (map payload_type ?ok)" using listed_codecs_distinct [of lib sec] by (simp add: distinct_map_filter)
  have kf: "keep_first id [] (map payload_type ?ok) = map payload_type ?ok" using dist by (simp add: keep_first_id)
  let ?s = "sec\<lparr>formats := map string_of_nat (map payload_type ?ok), attributes := retain_payloads (map payload_type ?ok) (attributes sec)\<rparr>"
  have r: "restrict_audio_section lib (listed_codecs lib sec) accepted sec = (if ?ok = [] then None else Some ?s)"
    unfolding restrict_audio_section_def Let_def kf by (simp only: list.map_disc_iff)
  have "extract_ordered_codecs_from_section lib ?s = map id ?ok"
  proof (rule extract_written)
    show "payload_type x \<le> 255 \<and> section_codec lib ?s (payload_type x) = Some (id x)" if "x \<in> set ?ok" for x
    proof -
      have "x \<in> set (extract_ordered_codecs_from_section lib sec)" using that by (simp add: set_listed_codecs)
      moreover have "section_codec lib ?s (payload_type x) = section_codec lib sec (payload_type x)"
        by (rule section_codec_retained [of _ "map payload_type ?ok"]) (use that in auto)
      ultimately show ?thesis using extracted_codec [of x lib sec] by simp
    qed
  qed (use dist in simp_all)
  then show ?thesis unfolding r by (cases ?ok) simp_all
qed

section \<open>A codec list written to an SDP\<close>

text \<open>What the library documents of the text of a codec: its name, clock rate and, unless it is 1, its channels.\<close>

definition rtpmap_ok :: "codec_lib \<Rightarrow> bool" where
  "rtpmap_ok lib = (\<forall>c. cl_clock_rate lib c \<le> u32_max \<and> cl_channels lib c \<le> u16_max
     \<and> (\<exists>name. CHR ''/'' \<notin> set name \<and> cl_of_name lib name = Some c
         \<and> (cl_channels lib c = 1 \<and> cl_rtpmap lib c = name @ ''/'' @ string_of_nat (cl_clock_rate lib c)
            \<or> cl_rtpmap lib c = name @ ''/'' @ string_of_nat (cl_clock_rate lib c) @ ''/'' @ string_of_nat (cl_channels lib c))))"

definition as_written :: "codec_lib \<Rightarrow> codec_info \<Rightarrow> codec_info" where
  "as_written lib i = (codec_info_for_type lib (codec i))\<lparr>payload_type := payload_type i\<rparr>"

lemma parse_written_rtpmap:
  assumes "rtpmap_ok lib" "payload_type i \<le> 255"
  shows "parse_rtpmap lib \<lparr>a_key = ''rtpmap'', a_value = Some (string_of_nat (payload_type i) @ '' '' @ cl_rtpmap lib (codec i))\<rparr>
           = Some (payload_type i, Some (as_written lib i))"
proof -
  obtain name where name: "CHR ''/'' \<notin> set name" "cl_of_name lib name = Some (codec i)"
     "cl_channels lib (codec i) = 1 \<and> cl_rtpmap lib (codec i) = name @ ''/'' @ string_of_nat (cl_clock_rate lib (codec i))
      \<or> cl_rtpmap lib (codec i) = name @ ''/'' @ string_of_nat (cl_clock_rate lib (codec i)) @ ''/'' @ string_of_nat (cl_channels lib (codec i))"
    and le: "cl_clock_rate lib (codec i) \<le> u32_max" "cl_channels lib (codec i) \<le> u16_max"
    using assms(1) unfolding rtpmap_ok_def by blast
  have "CHR '' '' \<notin> set (string_of_nat (payload_type i))" by (rule not_in_string_of_nat) simp
  then have split: "split_once (CHR '' '') (string_of_nat (payload_type i) @ CHR '' '' # r) = Some (string_of_nat (payload_type i), r)" for r
    by (rule split_once_append)
  show ?thesis
    using name(3)
    by (elim disjE conjE)
      (simp_all add: parse_rtpmap_def split Let_def split_on_append split_on_absent name(1,2) le assms(2) u8_max_def
        as_written_def codec_info_for_type_def)
qed

lemma parse_other_attributes:
  "\<forall>a \<in> set as. a_key a \<noteq> ''rtpmap'' \<Longrightarrow> parse_rtpmap_attributes lib (as @ bs) (m, un) = parse_rtpmap_attributes lib bs (m, un)"
  by (induction as) (simp_all add: parse_rtpmap_def)

lemma parse_codec_attributes:
  assumes "rtpmap_ok lib" "payload_type i \<le> 255"
  shows "parse_rtpmap_attributes lib (codec_attributes lib i @ bs) (m, un) =
           parse_rtpmap_attributes lib bs (m(payload_type i \<mapsto> as_written lib i), un)"
proof -
  have "parse_rtpmap lib \<lparr>a_key = ''fmtp'', a_value = v\<rparr> = None" for v by (simp add: parse_rtpmap_def)
  then show ?thesis by (simp add: codec_attributes_def parse_written_rtpmap [OF assms, simplified] split: option.split)
qed

lemma parse_written_attributes:
  assumes "rtpmap_ok lib" "\<forall>i \<in> set xs. payload_type i \<le> 255"
  shows "parse_rtpmap_attributes lib (concat (map (codec_attributes lib) xs)) (m, un) =
           (m ++ map_of (rev (map (\<lambda>i. (payload_type i, as_written lib i)) xs)), un)"
  using assms(2)
  by (induction xs arbitrary: m) (simp_all add: parse_codec_attributes [OF assms(1)] map_add_upd_left)

definition demo_codecs :: codec_lib where
  "demo_codecs =
     \<lparr>cl_opus = True,
      cl_of_name = (\<lambda>n. map_of [(''PCMU'', PCMU), (''PCMA'', PCMA), (''G722'', G722), (''G729'', G729), (''opus'', Opus), (''telephone-event'', TelephoneEvent)] n),
      cl_of_payload = (\<lambda>p. map_of [(0, PCMU), (8, PCMA), (9, G722), (18, G729)] p),
      cl_payload_type = (\<lambda>c. case c of PCMU \<Rightarrow> 0 | PCMA \<Rightarrow> 8 | G722 \<Rightarrow> 9 | G729 \<Rightarrow> 18 | Opus \<Rightarrow> 111 | TelephoneEvent \<Rightarrow> 101),
      cl_clock_rate = (\<lambda>c. if c = Opus then 48000 else 8000),
      cl_channels = (\<lambda>c. if c = Opus then 2 else 1),
      cl_is_audio = (\<lambda>c. c \<noteq> TelephoneEvent),
      cl_rtpmap = (\<lambda>c. case c of PCMU \<Rightarrow> ''PCMU/8000'' | PCMA \<Rightarrow> ''PCMA/8000'' | G722 \<Rightarrow> ''G722/8000'' | G729 \<Rightarrow> ''G729/8000''
         | Opus \<Rightarrow> ''opus/48000/2'' | TelephoneEvent \<Rightarrow> ''telephone-event/8000''),
      cl_fmtp = (\<lambda>c. if c = TelephoneEvent then Some ''0-16'' else None),
      cl_debug = (\<lambda>c. case c of PCMU \<Rightarrow> ''PCMU'' | PCMA \<Rightarrow> ''PCMA'' | G722 \<Rightarrow> ''G722'' | G729 \<Rightarrow> ''G729''
         | Opus \<Rightarrow> ''Opus'' | TelephoneEvent \<Rightarrow> ''TelephoneEvent''),
      cl_parse = (\<lambda>_ s. Some \<lparr>media_sections = [\<lparr>kind = Audio, formats = [''0'', ''111''],
          attributes = [\<lparr>a_key = ''rtpmap'', a_value = Some ''111 telephone-event/8000''\<rparr>], direction = SendRecv\<rparr>], sd_rest = s\<rparr>),
      cl_print = (\<lambda>d. sd_rest d), cl_video_capabilities = (\<lambda>_. [])\<rparr>"

lemma demo_rtpmap_ok: "rtpmap_ok demo_codecs"
  unfolding rtpmap_ok_def
proof (intro allI conjI)
  fix c
  show "cl_clock_rate demo_codecs c \<le> u32_max" "cl_channels demo_codecs c \<le> u16_max"
    by (simp_all add: demo_codecs_def u32_max_def u16_max_def)
  show "\<exists>name. CHR ''/'' \<notin> set name \<and> cl_of_name demo_codecs name = Some c
         \<and> (cl_channels demo_codecs c = 1 \<and> cl_rtpmap demo_codecs c = name @ ''/'' @ string_of_nat (cl_clock_rate demo_codecs c)
            \<or> cl_rtpmap demo_codecs c = name @ ''/'' @ string_of_nat (cl_clock_rate demo_codecs c) @ ''/'' @ string_of_nat (cl_channels demo_codecs c))"
    by (rule exI [of _ "case c of PCMU \<Rightarrow> ''PCMU'' | PCMA \<Rightarrow> ''PCMA'' | G722 \<Rightarrow> ''G722'' | G729 \<Rightarrow> ''G729''
         | Opus \<Rightarrow> ''opus'' | TelephoneEvent \<Rightarrow> ''telephone-event''"])
      (cases c; simp add: demo_codecs_def string_of_nat.simps)
qed

text \<open>A codec list that is written to an audio section is read back in its order, the first codec of each payload type, with the clock
  rate and the channels that the library has for the type of the codec.\<close>

theorem codec_list_roundtrip:
  assumes "rtpmap_ok lib" "\<forall>i \<in> set infos. payload_type i \<le> 255"
  shows "extract_ordered_codecs_from_section lib (rewrite_section lib infos sec) =
           map (as_written lib) (keep_first payload_type [] infos)"
proof -
  let ?xs = "keep_first payload_type [] infos" and ?s = "rewrite_section lib infos sec"
  have le: "\<forall>i \<in> set ?xs. payload_type i \<le> 255" using assms(2) by (auto dest: set_keep_first)
  have dist: "distinct (map payload_type ?xs)" by (rule distinct_keep_first)
  have parse: "parse_rtpmap_attributes lib (attributes ?s) (Map.empty, []) =
      (map_of (rev (map (\<lambda>i. (payload_type i, as_written lib i)) ?xs)), [])"
    by (simp add: rewrite_section_def Let_def parse_other_attributes parse_written_attributes [OF assms(1) le])
  have "section_codec lib ?s (payload_type x) = Some (as_written lib x)" if "x \<in> set ?xs" for x
  proof -
    have "map_of (rev (map (\<lambda>i. (payload_type i, as_written lib i)) ?xs)) (payload_type x) = Some (as_written lib x)"
      using that dist by (intro map_of_is_SomeI) (auto simp: comp_def rev_map [symmetric])
    then show ?thesis by (simp add: section_codec_def parse codec_for_def)
  qed
  then show ?thesis
    by (intro extract_written) (use le dist in \<open>auto simp: rewrite_section_def Let_def\<close>)
qed

theorem codec_list_roundtrip_witness:
  "extract_ordered_codecs_from_section demo_codecs
     (rewrite_section demo_codecs [codec_info_for_type demo_codecs Opus, codec_info_for_type demo_codecs PCMA]
        \<lparr>kind = Audio, formats = [''0''], attributes = [], direction = SendRecv\<rparr>) =
     [codec_info_for_type demo_codecs Opus, codec_info_for_type demo_codecs PCMA]"
  by (subst codec_list_roundtrip [OF demo_rtpmap_ok]) (simp_all add: as_written_def codec_info_for_type_def demo_codecs_def)

text \<open>The text of a codec list does not depend on the clock rates and channels of its codecs: two lists with the same payload types and
  codecs are written alike. So the telephone events at 48000 Hz that the offer has for Opus are written like those at 8000 Hz.\<close>

theorem clock_rates_not_written:
  assumes "map (\<lambda>c. (payload_type c, codec c)) xs = map (\<lambda>c. (payload_type c, codec c)) ys"
  shows "rewrite_sdp_codec_list lib sdp xs = rewrite_sdp_codec_list lib sdp ys"
proof -
  have same: "length xs = length ys" using assms by (rule map_eq_imp_length_eq)
  have "map (\<lambda>c. (payload_type c, codec c)) (keep_first payload_type seen xs) =
        map (\<lambda>c. (payload_type c, codec c)) (keep_first payload_type seen ys)" for seen
    using same assms by (induction xs ys arbitrary: seen rule: list_induct2) auto
  then have eq: "map (\<lambda>c. (payload_type c, codec c)) (keep_first payload_type [] xs) =
        map (\<lambda>c. (payload_type c, codec c)) (keep_first payload_type [] ys)" .
  let ?attr = "\<lambda>(p, c). codec_attributes lib \<lparr>payload_type = p, codec = c, clock_rate = 0, channels = 0\<rparr>"
  have attr: "codec_attributes lib c = ?attr (payload_type c, codec c)" for c by (simp add: codec_attributes_def cong: option.case_cong)
  have attrs: "map (codec_attributes lib) zs = map ?attr (map (\<lambda>c. (payload_type c, codec c)) zs)" for zs
    unfolding map_map comp_def by (rule map_cong [OF refl]) (rule attr)
  have pts: "map (\<lambda>i. string_of_nat (payload_type i)) zs = map (string_of_nat \<circ> fst) (map (\<lambda>c. (payload_type c, codec c)) zs)" for zs
    by simp
  have "rewrite_section lib xs = rewrite_section lib ys" unfolding rewrite_section_def Let_def attrs pts eq by (rule refl)
  moreover have "xs = [] \<longleftrightarrow> ys = []" using same by auto
  ultimately show ?thesis by (simp add: rewrite_sdp_codec_list_def)
qed

theorem clock_rates_not_written_witness:
  "rewrite_sdp_codec_list demo_codecs ''v=0'' [\<lparr>payload_type = 101, codec = TelephoneEvent, clock_rate = 48000, channels = 1\<rparr>] =
   rewrite_sdp_codec_list demo_codecs ''v=0'' [\<lparr>payload_type = 101, codec = TelephoneEvent, clock_rate = 8000, channels = 1\<rparr>]"
  by (rule clock_rates_not_written) simp

section \<open>What the called party is offered\<close>

lemma set_append_extras:
  "codec ` set (append_extras lib seen cs) = set cs - set seen - {TelephoneEvent}"
  by (induction cs arbitrary: seen) (auto simp: codec_info_for_type_def)

lemma append_extras_in: "c \<in> set (append_extras lib seen cs) \<Longrightarrow> c = codec_info_for_type lib (codec c) \<and> codec c \<notin> set seen"
proof (induction cs arbitrary: seen)
  case (Cons a cs)
  show ?case
  proof (cases "a = TelephoneEvent \<or> a \<in> set seen")
    case True
    then show ?thesis using Cons.IH [of seen] Cons.prems by simp
  next
    case False
    then have "c = codec_info_for_type lib a \<or> c \<in> set (append_extras lib (a # seen) cs)" using Cons.prems by simp
    then show ?thesis
    proof
      assume c: "c \<in> set (append_extras lib (a # seen) cs)"
      show ?thesis using Cons.IH [OF c] by simp
    qed (use False in \<open>simp add: codec_info_for_type_def\<close>)
  qed
qed simp

lemma distinct_append_extras: "distinct (map codec (append_extras lib seen cs))"
  by (induction cs arbitrary: seen) (auto simp: codec_info_for_type_def dest: append_extras_in)

lemma append_needed_rates: "map clock_rate (append_needed lib used rates) = rates"
  by (induction rates arbitrary: used) (simp_all add: Let_def)

lemma append_needed_codec: "c \<in> set (append_needed lib used rates) \<Longrightarrow> codec c = TelephoneEvent"
  by (induction rates arbitrary: used) (auto simp: Let_def)

lemma supported_allowed: "\<lbrakk>allow \<noteq> []; c \<in> set (allowed_supported_codecs lib webrtc allow)\<rbrakk> \<Longrightarrow> c \<in> set allow"
  by (auto simp: allowed_supported_codecs_def)

lemma extracted_audio: "c \<in> set (x_audio (extract_codec_params lib sdp)) \<Longrightarrow> codec c \<noteq> TelephoneEvent"
  by (auto simp: extract_codec_params_def Let_def is_dtmf_def split: option.splits)

lemma extracted_dtmf: "c \<in> set (x_dtmf (extract_codec_params lib sdp)) \<Longrightarrow> codec c = TelephoneEvent"
  by (auto simp: extract_codec_params_def Let_def is_dtmf_def split: option.splits)

definition offered_audio :: "codec_lib \<Rightarrow> string \<Rightarrow> bool \<Rightarrow> codec_type list \<Rightarrow> codec_info list" where
  "offered_audio lib sdp webrtc allow = filter (\<lambda>c. \<not> is_dtmf c) (build_callee_codec_offer_with_allow lib sdp webrtc allow)"

lemma offer_dtmf_codec: "\<lbrakk>\<forall>d \<in> set dtmf. codec d = TelephoneEvent; c \<in> set (offer_dtmf lib dtmf audio)\<rbrakk> \<Longrightarrow> codec c = TelephoneEvent"
  by (auto simp: offer_dtmf_def Let_def dest: append_needed_codec split: if_splits)

text \<open>The parts of the offer: what the caller has and the gateway supports, what the gateway adds, telephone events.\<close>

lemma callee_offer_parts:
  fixes lib sdp webrtc allow
  defines "supported \<equiv> allowed_supported_codecs lib webrtc allow"
  defines "kept \<equiv> filter (\<lambda>c. codec c \<in> set supported) (x_audio (extract_codec_params lib sdp))"
  obtains extras where
    "build_callee_codec_offer_with_allow lib sdp webrtc allow = kept @ extras @ offer_dtmf lib (x_dtmf (extract_codec_params lib sdp)) (kept @ extras)"
    "codec ` set extras = set supported - codec ` set kept - {TelephoneEvent}" "distinct (map codec extras)"
    "\<forall>c \<in> set extras. c = codec_info_for_type lib (codec c)"
    "offered_audio lib sdp webrtc allow = kept @ extras"
proof -
  let ?order = "if allow = [] then supported else filter (\<lambda>c. c \<in> set supported) allow"
  let ?extras = "append_extras lib (map codec kept) ?order" and ?dtmf = "x_dtmf (extract_codec_params lib sdp)"
  have order: "set ?order = set supported" using supported_allowed [of allow _ lib webrtc] by (auto simp: supported_def)
  have build: "build_callee_codec_offer_with_allow lib sdp webrtc allow = kept @ ?extras @ offer_dtmf lib ?dtmf (kept @ ?extras)"
    by (simp add: build_callee_codec_offer_with_allow_def Let_def kept_def supported_def)
  have no_te: "filter (\<lambda>c. \<not> is_dtmf c) (offer_dtmf lib ?dtmf (kept @ ?extras)) = []"
    using offer_dtmf_codec [of ?dtmf _ lib "kept @ ?extras"] extracted_dtmf [of _ lib sdp] by (simp add: filter_empty_conv is_dtmf_def)
  have kept_audio: "filter (\<lambda>c. \<not> is_dtmf c) kept = kept"
    by (rule filter_True) (auto simp: kept_def is_dtmf_def dest: extracted_audio)
  have types: "codec ` set ?extras = set supported - codec ` set kept - {TelephoneEvent}" by (simp add: set_append_extras order)
  have extras_audio: "filter (\<lambda>c. \<not> is_dtmf c) ?extras = ?extras"
  proof (rule filter_True, rule ballI)
    fix c assume "c \<in> set ?extras"
    then have "codec c \<in> set supported - codec ` set kept - {TelephoneEvent}" unfolding types [symmetric] by (rule imageI)
    then show "\<not> is_dtmf c" by (simp add: is_dtmf_def)
  qed
  show ?thesis
  proof (rule that)
    show "offered_audio lib sdp webrtc allow = kept @ ?extras"
      by (simp add: offered_audio_def build kept_audio extras_audio no_te)
    show "\<forall>c \<in> set ?extras. c = codec_info_for_type lib (codec c)" using append_extras_in by blast
  qed (use build types distinct_append_extras in auto)
qed

lemma offer_dtmf_rates:
  assumes "\<forall>c. cl_is_audio lib c = (c \<noteq> TelephoneEvent)" "dtmf \<noteq> []" "\<forall>c \<in> set audio. codec c \<noteq> TelephoneEvent"
  shows "48000 \<in> clock_rate ` set (offer_dtmf lib dtmf audio) \<longleftrightarrow> Opus \<in> codec ` set audio"
    and "8000 \<in> clock_rate ` set (offer_dtmf lib dtmf audio) \<longleftrightarrow> (\<exists>c \<in> set audio. codec c \<noteq> Opus)"
proof -
  have needed: "clock_rate ` set (append_needed lib used rates) = set rates" for used rates
    using append_needed_rates [of lib used rates] by (metis list.set_map)
  define ho hn where "ho = (\<exists>c \<in> set audio. codec c = Opus)" and "hn = (\<exists>c \<in> set audio. codec c \<noteq> Opus)"
  have hn: "(\<exists>c \<in> set audio. cl_is_audio lib (codec c) \<and> codec c \<noteq> Opus) = hn" using assms(1,3) unfolding hn_def by blast
  have kept: "clock_rate ` set (filter (\<lambda>d. if clock_rate d = 48000 then ho else hn) dtmf) =
      {r \<in> clock_rate ` set dtmf. if r = 48000 then ho else hn}" by auto
  have "clock_rate ` set (offer_dtmf lib dtmf audio) = {r \<in> clock_rate ` set dtmf. if r = 48000 then ho else hn}
      \<union> (if hn then {8000} else {}) \<union> (if ho then {48000} else {})"
    using assms(2) unfolding offer_dtmf_def Let_def hn ho_def [symmetric] if_not_P [OF assms(2)] set_append image_Un needed kept set_map
    by auto
  then show "48000 \<in> clock_rate ` set (offer_dtmf lib dtmf audio) \<longleftrightarrow> Opus \<in> codec ` set audio"
    "8000 \<in> clock_rate ` set (offer_dtmf lib dtmf audio) \<longleftrightarrow> (\<exists>c \<in> set audio. codec c \<noteq> Opus)"
    by (auto simp: ho_def hn_def image_iff eq_commute [of Opus])
qed

text \<open>C21: The offer to the called party begins with the caller's audio codecs that the gateway supports and the configuration allows, in the
  caller's order and with the caller's payload types. Together with what follows they are all the codecs that are supported and allowed, those
  added once each. If the caller offers telephone events, the offer has them at 48000 Hz just when it has Opus and at 8000 Hz just when it has
  another codec; if the caller offers none, the offer has none.\<close>

theorem callee_offer_complete:
  assumes "\<forall>c. cl_is_audio lib c = (c \<noteq> TelephoneEvent)"
  shows "let e = extract_codec_params lib sdp; supported = allowed_supported_codecs lib webrtc allow;
             kept = filter (\<lambda>c. codec c \<in> set supported) (x_audio e);
             offer = build_callee_codec_offer_with_allow lib sdp webrtc allow;
             audio = filter (\<lambda>c. \<not> is_dtmf c) offer; dtmf = filter is_dtmf offer
         in take (length kept) offer = kept
            \<and> codec ` set audio = set supported - {TelephoneEvent}
            \<and> distinct (map codec (drop (length kept) audio))
            \<and> (if x_dtmf e = [] then dtmf = []
               else (48000 \<in> clock_rate ` set dtmf) = (Opus \<in> codec ` set audio)
                  \<and> (8000 \<in> clock_rate ` set dtmf) = (codec ` set audio - {Opus} \<noteq> {}))"
proof -
  let ?e = "extract_codec_params lib sdp" and ?supported = "allowed_supported_codecs lib webrtc allow"
  let ?kept = "filter (\<lambda>c. codec c \<in> set ?supported) (x_audio ?e)"
  obtain extras where parts:
    "build_callee_codec_offer_with_allow lib sdp webrtc allow = ?kept @ extras @ offer_dtmf lib (x_dtmf ?e) (?kept @ extras)"
    "codec ` set extras = set ?supported - codec ` set ?kept - {TelephoneEvent}" "distinct (map codec extras)"
    "offered_audio lib sdp webrtc allow = ?kept @ extras"
    by (rule callee_offer_parts [where lib = lib and webrtc = webrtc and allow = allow and sdp = sdp])
  let ?offer = "build_callee_codec_offer_with_allow lib sdp webrtc allow" and ?audio = "?kept @ extras"
  have audio: "filter (\<lambda>c. \<not> is_dtmf c) ?offer = ?audio" using parts(4) unfolding offered_audio_def .
  have types: "codec ` set ?audio = set ?supported - {TelephoneEvent}"
    using parts(2) extracted_audio [of _ lib sdp] unfolding set_append image_Un by auto
  then have no_te: "\<forall>c \<in> set ?audio. codec c \<noteq> TelephoneEvent" by blast
  then have "filter is_dtmf ?audio = []" by (simp add: filter_empty_conv is_dtmf_def)
  moreover have "filter is_dtmf (offer_dtmf lib (x_dtmf ?e) ?audio) = offer_dtmf lib (x_dtmf ?e) ?audio"
    unfolding is_dtmf_def using offer_dtmf_codec [of "x_dtmf ?e" _ lib ?audio] extracted_dtmf [of _ lib sdp] by (intro filter_True ballI) blast
  ultimately have dtmf: "filter is_dtmf ?offer = offer_dtmf lib (x_dtmf ?e) ?audio" unfolding parts(1) by simp
  have "(\<exists>c \<in> set ?audio. codec c \<noteq> Opus) = (codec ` set ?audio - {Opus} \<noteq> {})" by blast
  note rates = offer_dtmf_rates [OF assms _ no_te, of "x_dtmf ?e", unfolded this]
  have prefix: "take (length ?kept) ?offer = ?kept" unfolding parts(1) by (rule append_eq_conv_conj [THEN iffD1, THEN conjunct1, symmetric, OF refl])
  have none: "x_dtmf ?e = [] \<Longrightarrow> offer_dtmf lib (x_dtmf ?e) ?audio = []" by (simp add: offer_dtmf_def)
  show ?thesis
    unfolding Let_def audio dtmf using prefix types parts(3) none rates by simp
qed

lemma demo_fields:
  "cl_opus demo_codecs" "cl_payload_type demo_codecs PCMU = 0" "cl_payload_type demo_codecs Opus = 111"
  "cl_payload_type demo_codecs G729 = 18" "cl_payload_type demo_codecs TelephoneEvent = 101"
  "cl_is_audio demo_codecs c \<longleftrightarrow> c \<noteq> TelephoneEvent"
  "cl_clock_rate demo_codecs c = (if c = Opus then 48000 else 8000)" "cl_channels demo_codecs c = (if c = Opus then 2 else 1)"
  by (simp_all add: demo_codecs_def)

lemma demo_extract:
  "extract_codec_params demo_codecs s =
     \<lparr>x_audio = [\<lparr>payload_type = 0, codec = PCMU, clock_rate = 8000, channels = 1\<rparr>], x_video = [],
      x_dtmf = [\<lparr>payload_type = 111, codec = TelephoneEvent, clock_rate = 8000, channels = 1\<rparr>]\<rparr>"
proof -
  let ?a = "\<lparr>a_key = ''rtpmap'', a_value = Some ''111 telephone-event/8000''\<rparr>"
  let ?sec = "\<lparr>kind = Audio, formats = [''0'', ''111''], attributes = [?a], direction = SendRecv\<rparr>"
  have rtpmap: "parse_rtpmap demo_codecs ?a = Some (111, Some \<lparr>payload_type = 111, codec = TelephoneEvent, clock_rate = 8000, channels = 1\<rparr>)"
    by (simp add: parse_rtpmap_def split_once_def parse_unsigned_def digit_val_def u8_max_def u32_max_def) (simp add: demo_codecs_def)
  have numbers: "parse_u8 ''0'' = Some 0" "parse_u8 ''111'' = Some 111"
    by (simp_all add: parse_unsigned_def digit_val_def u8_max_def)
  have static: "static_codec_for_payload demo_codecs ?sec 0 = Some \<lparr>payload_type = 0, codec = PCMU, clock_rate = 8000, channels = 1\<rparr>"
    by (simp add: static_codec_for_payload_def) (simp add: demo_codecs_def)
  have "extract_ordered_codecs_from_section demo_codecs ?sec =
      [\<lparr>payload_type = 0, codec = PCMU, clock_rate = 8000, channels = 1\<rparr>,
       \<lparr>payload_type = 111, codec = TelephoneEvent, clock_rate = 8000, channels = 1\<rparr>]"
    by (simp add: extract_ordered_codecs_from_section_def rtpmap numbers static)
  moreover have "parse_audio_section demo_codecs s = Some ?sec" "parse_video_section demo_codecs s = None"
    by (simp_all add: parse_audio_section_def parse_video_section_def parse_answer_or_offer_def demo_codecs_def)
  ultimately show ?thesis by (simp add: extract_codec_params_def is_dtmf_def)
qed

lemma demo_supported:
  "allowed_supported_codecs demo_codecs False [PCMU, Opus, TelephoneEvent] = [Opus, PCMU, TelephoneEvent]"
  "allowed_supported_codecs demo_codecs False [PCMU, G729] = [G729, PCMU]"
  by (simp_all add: allowed_supported_codecs_def supported_codecs_for_transport_def default_rtp_codecs_def demo_fields)

theorem callee_offer_complete_witness:
  "let offer = build_callee_codec_offer_with_allow demo_codecs ''v=0'' False [PCMU, Opus, TelephoneEvent] in
   48000 \<in> clock_rate ` set (filter is_dtmf offer) \<longleftrightarrow> Opus \<in> codec ` set (filter (\<lambda>c. \<not> is_dtmf c) offer)"
proof -
  have "\<forall>c. cl_is_audio demo_codecs c = (c \<noteq> TelephoneEvent)" by (simp add: demo_codecs_def)
  note this [THEN callee_offer_complete, of "''v=0''" False "[PCMU, Opus, TelephoneEvent]"]
  moreover have "x_dtmf (extract_codec_params demo_codecs ''v=0'') \<noteq> []" by (simp add: demo_extract)
  ultimately show ?thesis unfolding Let_def by simp
qed

text \<open>An added codec comes with the payload type of the library, which the caller may use for something else: here the telephone events
  of the caller have the payload type of Opus, both are in the offer, and the second of them is not written.\<close>

lemma added_codec_takes_payload_type:
  "map (\<lambda>c. (payload_type c, codec c)) (build_callee_codec_offer_with_allow demo_codecs ''v=0'' False [PCMU, Opus, TelephoneEvent])
     = [(0, PCMU), (111, Opus), (111, TelephoneEvent), (101, TelephoneEvent)]"
  unfolding build_callee_codec_offer_with_allow_def Let_def demo_extract demo_supported
  by (simp add: codec_info_for_type_def demo_fields offer_dtmf_def free_payload_type_def)

text \<open>When the media does not pass the gateway, the offer to the called party still has codecs that the caller does not have.\<close>

lemma bypass_offers_foreign_codec:
  "build_callee_codec_offer_with_allow demo_codecs ''v=0'' False [PCMU, G729] =
     [\<lparr>payload_type = 0, codec = PCMU, clock_rate = 8000, channels = 1\<rparr>, codec_info_for_type demo_codecs G729,
      \<lparr>payload_type = 111, codec = TelephoneEvent, clock_rate = 8000, channels = 1\<rparr>]
   \<and> G729 \<notin> codec ` set (extract_all_codecs demo_codecs ''v=0'')"
  unfolding build_callee_codec_offer_with_allow_def Let_def demo_extract demo_supported
  by (simp add: codec_info_for_type_def demo_fields offer_dtmf_def free_payload_type_def extract_all_codecs_def demo_extract)

section \<open>The codec of a leg\<close>

text \<open>The codec that is agreed is the first of the local list that the remote side has; there is none just when the two share no audio codec.\<close>

lemma negotiated_codec_is_first_common:
  "case negotiate_codec lib local_codecs sdp of
     Inl _ \<Rightarrow> set local_codecs \<inter> codec ` set (extract_all_codecs lib sdp) \<subseteq> {TelephoneEvent}
   | Inr r \<Rightarrow> find (\<lambda>c. c \<noteq> TelephoneEvent \<and> c \<in> codec ` set (extract_all_codecs lib sdp)) local_codecs = Some (nr_codec r)"
  unfolding negotiate_codec_def
proof (induction local_codecs)
  case (Cons c cs)
  show ?case
  proof (cases "find (\<lambda>r. codec r = c \<and> codec r \<noteq> TelephoneEvent) (extract_all_codecs lib sdp)")
    case None
    then have "c = TelephoneEvent \<or> c \<notin> codec ` set (extract_all_codecs lib sdp)" by (auto simp: find_None_iff)
    then show ?thesis using Cons None by (auto split: sum.splits)
  next
    case (Some r)
    then have "codec r = c \<and> c \<noteq> TelephoneEvent \<and> r \<in> set (extract_all_codecs lib sdp)" by (auto simp: find_Some_iff)
    then show ?thesis using Some by auto
  qed
qed simp

text \<open>The telephone events of a leg have the clock rate of its audio codec whenever the SDP has such telephone events.\<close>

lemma leg_dtmf_follows_audio:
  assumes "lp_audio (extract_leg_profile lib sdp) = Some a" "codec a = Opus \<longrightarrow> cl_opus lib"
    and "d \<in> set (x_dtmf (extract_codec_params lib sdp))" "clock_rate d = (if codec a = Opus then 48000 else 8000)"
  shows "map_option clock_rate (lp_dtmf (extract_leg_profile lib sdp)) = Some (if codec a = Opus then 48000 else 8000)"
proof -
  let ?ds = "x_dtmf (extract_codec_params lib sdp)" and ?r = "if codec a = Opus then 48000 else 8000"
  have audio: "first_of (x_audio (extract_codec_params lib sdp)) = Some a" using assms(1) by (simp add: extract_leg_profile_def Let_def)
  have rate: "(if cl_opus lib \<and> map_option codec (Some a) = Some Opus then 48000 else 8000) = ?r" using assms(2) by simp
  obtain x where "find (\<lambda>c. clock_rate c = ?r) ?ds = Some x" "clock_rate x = ?r"
  proof (cases "find (\<lambda>c. clock_rate c = ?r) ?ds")
    case None
    then show thesis using assms(3,4) unfolding find_None_iff by blast
  next
    case (Some x)
    then have "clock_rate x = ?r" unfolding find_Some_iff by blast
    then show thesis using Some that by blast
  qed
  moreover have "first_of ?ds = Some d" if "length ?ds = 1" using that assms(3) by (cases ?ds) auto
  moreover have "?ds \<noteq> []" using assms(3) by auto
  ultimately show ?thesis
    unfolding extract_leg_profile_def Let_def audio rate using assms(4) by (cases "codec a = Opus") simp_all
qed

end
