(* ===== verification/Gateway.thy ===== *)
theory Gateway
  imports Complex_Main Prelude
begin

text \<open>
  The gateway of the real-time web interface, \<open>src/src/rwi/gateway.rs\<close>, with the ownership part of its sessions,
  \<open>src/src/rwi/session.rs\<close>, and its tokens, \<open>src/src/rwi/auth.rs\<close>. A session owns calls, supervises calls and
  subscribes contexts; the gateway keeps the same facts by call and by context, sends events to the sessions and keeps the latest events
  for a session that comes back. The type of the events is a parameter of the state, what is sent is a log of channels and events,
  and the hash maps are association lists.
\<close>

section \<open>Sessions\<close>

record rwi_identity =
  id_token :: string
  id_scopes :: "string list"

definition has_scope :: "string \<Rightarrow> rwi_identity \<Rightarrow> bool" where
  "has_scope scope i = list_ex (\<lambda>s. s = scope) (id_scopes i)"

definition has_any_scope :: "string list \<Rightarrow> rwi_identity \<Rightarrow> bool" where
  "has_any_scope scopes i = list_ex (\<lambda>s. has_scope s i) scopes"

record rwi_context_config =
  cx_name :: string
  cx_no_answer_timeout_secs :: "nat option"
  cx_no_answer_action :: "string option"
  cx_no_answer_transfer_target :: "string option"

record rwi_auth =
  au_tokens :: "(string, rwi_identity) hmap"
  au_contexts :: "(string, rwi_context_config) hmap"

definition rwi_auth_new :: "rwi_identity list \<Rightarrow> rwi_context_config list \<Rightarrow> rwi_auth" where
  "rwi_auth_new tokens contexts =
     \<lparr>au_tokens = fold (\<lambda>t. hm_insert (id_token t) t) tokens [], au_contexts = fold (\<lambda>c. hm_insert (cx_name c) c) contexts []\<rparr>"

definition validate_token :: "string \<Rightarrow> rwi_auth \<Rightarrow> rwi_identity option" where
  "validate_token token a = hm_get (au_tokens a) token"

definition get_context :: "string \<Rightarrow> rwi_auth \<Rightarrow> rwi_context_config option" where
  "get_context name a = hm_get (au_contexts a) name"

definition auth_is_enabled :: "rwi_auth \<Rightarrow> bool" where
  "auth_is_enabled a \<longleftrightarrow> au_tokens a \<noteq> []"

datatype ownership_mode = OwnControl | OwnListen | OwnWhisper | OwnBarge

datatype supervision = SvListen | SvWhisper | SvBarge

record call_ownership =
  co_call_id :: string
  co_mode :: ownership_mode
  co_created_at :: instant

record rwi_session =
  rs_id :: string
  rs_identity :: rwi_identity
  subscribed_contexts :: "string list"
  owned_calls :: "(string, call_ownership) hmap"
  supervisor_targets :: "(string, supervision) hmap"
  rs_created_at :: instant

definition rwi_session_new :: "string \<Rightarrow> instant \<Rightarrow> rwi_identity \<Rightarrow> rwi_session" where
  "rwi_session_new uuid now identity =
     \<lparr>rs_id = uuid, rs_identity = identity, subscribed_contexts = [], owned_calls = [], supervisor_targets = [], rs_created_at = now\<rparr>"

definition rs_subscribe :: "string list \<Rightarrow> rwi_session \<Rightarrow> rwi_session" where
  "rs_subscribe contexts s = s\<lparr>subscribed_contexts := fold List.insert contexts (subscribed_contexts s)\<rparr>"

definition rs_unsubscribe :: "string list \<Rightarrow> rwi_session \<Rightarrow> rwi_session" where
  "rs_unsubscribe contexts s = s\<lparr>subscribed_contexts := fold removeAll contexts (subscribed_contexts s)\<rparr>"

definition owns_call :: "string \<Rightarrow> rwi_session \<Rightarrow> bool" where
  "owns_call c s \<longleftrightarrow> hm_get (owned_calls s) c \<noteq> None"

definition owns_call_in_mode :: "string \<Rightarrow> ownership_mode \<Rightarrow> rwi_session \<Rightarrow> bool" where
  "owns_call_in_mode c mode s = (case hm_get (owned_calls s) c of Some o1 \<Rightarrow> co_mode o1 = mode | None \<Rightarrow> False)"

definition claim_call :: "instant \<Rightarrow> string \<Rightarrow> ownership_mode \<Rightarrow> rwi_session \<Rightarrow> bool \<times> rwi_session" where
  "claim_call now c mode s =
     (if owns_call c s then (False, s)
      else (True, s\<lparr>owned_calls := hm_insert c \<lparr>co_call_id = c, co_mode = mode, co_created_at = now\<rparr> (owned_calls s)\<rparr>))"

definition release_call :: "string \<Rightarrow> rwi_session \<Rightarrow> bool \<times> rwi_session" where
  "release_call c s = (owns_call c s, s\<lparr>owned_calls := hm_remove c (owned_calls s)\<rparr>)"

definition add_supervisor_target :: "string \<Rightarrow> supervision \<Rightarrow> rwi_session \<Rightarrow> rwi_session" where
  "add_supervisor_target c mode s = s\<lparr>supervisor_targets := hm_insert c mode (supervisor_targets s)\<rparr>"

definition is_supervisor_of :: "string \<Rightarrow> rwi_session \<Rightarrow> bool" where
  "is_supervisor_of c s \<longleftrightarrow> hm_get (supervisor_targets s) c \<noteq> None"

definition remove_supervisor_target :: "string \<Rightarrow> rwi_session \<Rightarrow> bool \<times> rwi_session" where
  "remove_supervisor_target c s = (is_supervisor_of c s, s\<lparr>supervisor_targets := hm_remove c (supervisor_targets s)\<rparr>)"

definition get_supervisor_mode :: "string \<Rightarrow> rwi_session \<Rightarrow> supervision option" where
  "get_supervisor_mode c s = hm_get (supervisor_targets s) c"

definition list_owned_calls :: "rwi_session \<Rightarrow> string list" where
  "list_owned_calls s = hm_keys (owned_calls s)"

definition can_control_call :: "string \<Rightarrow> rwi_session \<Rightarrow> bool" where
  "can_control_call c s = owns_call_in_mode c OwnControl s"

definition can_listen_to_call :: "string \<Rightarrow> rwi_session \<Rightarrow> bool" where
  "can_listen_to_call c s \<longleftrightarrow> owns_call c s \<or> is_supervisor_of c s"

section \<open>The gateway\<close>

record 'e event_cache_entry =
  ec_sequence :: nat
  ec_timestamp :: nat
  ec_call_id :: string
  ec_event :: 'e

record 'e rwi_gateway =
  gw_sessions :: "(string, rwi_session) hmap"
  session_event_senders :: "(string, nat) hmap"
  context_subscriptions :: "(string, string list) hmap"
  call_owners :: "(string, string) hmap"
  supervisor_calls :: "(string, string) hmap"
  event_cache :: "'e event_cache_entry list"
  next_sequence :: nat
  max_cache_size :: nat
  max_cache_age_secs :: nat
  sent :: "(nat \<times> 'e) list"

definition with_config :: "nat \<Rightarrow> nat \<Rightarrow> 'e rwi_gateway" where
  "with_config cap age =
     \<lparr>gw_sessions = [], session_event_senders = [], context_subscriptions = [], call_owners = [], supervisor_calls = [],
      event_cache = [], next_sequence = 1, max_cache_size = cap, max_cache_age_secs = age, sent = []\<rparr>"

definition gateway_new :: "'e rwi_gateway" where
  "gateway_new = with_config 1000 60"

definition create_session :: "string \<Rightarrow> instant \<Rightarrow> rwi_identity \<Rightarrow> 'e rwi_gateway \<Rightarrow> 'e rwi_gateway" where
  "create_session uuid now identity g =
     g\<lparr>gw_sessions := hm_insert uuid (rwi_session_new uuid now identity) (gw_sessions g)\<rparr>"

definition set_session_event_sender :: "string \<Rightarrow> nat \<Rightarrow> 'e rwi_gateway \<Rightarrow> 'e rwi_gateway" where
  "set_session_event_sender s sender g = g\<lparr>session_event_senders := hm_insert s sender (session_event_senders g)\<rparr>"

definition drop_subscriber :: "string \<Rightarrow> string \<Rightarrow> (string, string list) hmap \<Rightarrow> (string, string list) hmap" where
  "drop_subscriber s ctx m = (case hm_get m ctx of None \<Rightarrow> m | Some subs \<Rightarrow> hm_insert ctx (removeAll s subs) m)"

definition gw_remove_session :: "string \<Rightarrow> 'e rwi_gateway \<Rightarrow> 'e rwi_gateway" where
  "gw_remove_session s g =
     (let g1 = g\<lparr>session_event_senders := hm_remove s (session_event_senders g)\<rparr> in
      case hm_get (gw_sessions g1) s of
        None \<Rightarrow> g1
      | Some session \<Rightarrow>
          g1\<lparr>gw_sessions := hm_remove s (gw_sessions g1),
             context_subscriptions := fold (drop_subscriber s) (subscribed_contexts session) (context_subscriptions g1),
             call_owners := fold hm_remove (hm_keys (owned_calls session)) (call_owners g1),
             supervisor_calls := fold hm_remove (hm_keys (supervisor_targets session)) (supervisor_calls g1)\<rparr>)"

definition put_session :: "string \<Rightarrow> rwi_session \<Rightarrow> 'e rwi_gateway \<Rightarrow> 'e rwi_gateway" where
  "put_session s session g = g\<lparr>gw_sessions := hm_insert s session (gw_sessions g)\<rparr>"

definition add_subscriber :: "string \<Rightarrow> string \<Rightarrow> (string, string list) hmap \<Rightarrow> (string, string list) hmap" where
  "add_subscriber s ctx m =
     hm_insert ctx (List.insert s (case hm_get m ctx of Some subs \<Rightarrow> subs | None \<Rightarrow> [])) m"

definition gw_subscribe :: "string \<Rightarrow> string list \<Rightarrow> 'e rwi_gateway \<Rightarrow> bool \<times> 'e rwi_gateway" where
  "gw_subscribe s contexts g =
     (case hm_get (gw_sessions g) s of
        None \<Rightarrow> (False, g)
      | Some session \<Rightarrow>
          (True, (put_session s (rs_subscribe contexts session) g)
                   \<lparr>context_subscriptions := fold (add_subscriber s) contexts (context_subscriptions g)\<rparr>))"

definition gw_unsubscribe :: "string \<Rightarrow> string list \<Rightarrow> 'e rwi_gateway \<Rightarrow> bool \<times> 'e rwi_gateway" where
  "gw_unsubscribe s contexts g =
     (case hm_get (gw_sessions g) s of
        None \<Rightarrow> (False, g)
      | Some session \<Rightarrow>
          (True, (put_session s (rs_unsubscribe contexts session) g)
                   \<lparr>context_subscriptions := fold (drop_subscriber s) contexts (context_subscriptions g)\<rparr>))"

datatype claim_error = AlreadyOwned | SessionNotFound

definition claim_call_ownership ::
  "instant \<Rightarrow> string \<Rightarrow> string \<Rightarrow> ownership_mode \<Rightarrow> 'e rwi_gateway \<Rightarrow> (claim_error + unit) \<times> 'e rwi_gateway" where
  "claim_call_ownership now s c mode g =
     (if (case hm_get (call_owners g) c of Some current_owner \<Rightarrow> current_owner \<noteq> s | None \<Rightarrow> False)
      then (Inl AlreadyOwned, g)
      else case hm_get (gw_sessions g) s of
             None \<Rightarrow> (Inl SessionNotFound, g)
           | Some session \<Rightarrow>
               (case claim_call now c mode session of
                  (True, session') \<Rightarrow> (Inr (), (put_session s session' g)\<lparr>call_owners := hm_insert c s (call_owners g)\<rparr>)
                | (False, session') \<Rightarrow> (Inl AlreadyOwned, put_session s session' g)))"

definition release_call_ownership :: "string \<Rightarrow> string \<Rightarrow> 'e rwi_gateway \<Rightarrow> bool \<times> 'e rwi_gateway" where
  "release_call_ownership s c g =
     (if (case hm_get (call_owners g) c of Some current_owner \<Rightarrow> current_owner \<noteq> s | None \<Rightarrow> False)
      then (False, g)
      else case hm_get (gw_sessions g) s of
             None \<Rightarrow> (False, g)
           | Some session \<Rightarrow>
               (case release_call c session of
                  (True, session') \<Rightarrow> (True, (put_session s session' g)\<lparr>call_owners := hm_remove c (call_owners g)\<rparr>)
                | (False, session') \<Rightarrow> (False, put_session s session' g)))"

definition attach_supervisor :: "string \<Rightarrow> string \<Rightarrow> supervision \<Rightarrow> 'e rwi_gateway \<Rightarrow> bool \<times> 'e rwi_gateway" where
  "attach_supervisor s c mode g =
     (case hm_get (gw_sessions g) s of
        None \<Rightarrow> (False, g)
      | Some session \<Rightarrow>
          (True, (put_session s (add_supervisor_target c mode session) g)\<lparr>supervisor_calls := hm_insert c s (supervisor_calls g)\<rparr>))"

definition detach_supervisor :: "string \<Rightarrow> string \<Rightarrow> 'e rwi_gateway \<Rightarrow> bool \<times> 'e rwi_gateway" where
  "detach_supervisor s c g =
     (case hm_get (gw_sessions g) s of
        None \<Rightarrow> (False, g)
      | Some session \<Rightarrow>
          (case remove_supervisor_target c session of
             (True, session') \<Rightarrow> (True, (put_session s session' g)\<lparr>supervisor_calls := hm_remove c (supervisor_calls g)\<rparr>)
           | (False, session') \<Rightarrow> (False, put_session s session' g)))"

definition get_call_owner :: "string \<Rightarrow> 'e rwi_gateway \<Rightarrow> string option" where
  "get_call_owner c g = hm_get (call_owners g) c"

definition session_owns_call :: "string \<Rightarrow> string \<Rightarrow> 'e rwi_gateway \<Rightarrow> bool" where
  "session_owns_call s c g \<longleftrightarrow> hm_get (call_owners g) c = Some s"

definition is_supervisor :: "string \<Rightarrow> 'e rwi_gateway \<Rightarrow> bool" where
  "is_supervisor c g \<longleftrightarrow> hm_get (supervisor_calls g) c \<noteq> None"

definition get_supervisor_session :: "string \<Rightarrow> 'e rwi_gateway \<Rightarrow> string option" where
  "get_supervisor_session c g = hm_get (supervisor_calls g) c"

definition get_sessions_subscribed_to_context :: "string \<Rightarrow> 'e rwi_gateway \<Rightarrow> string list" where
  "get_sessions_subscribed_to_context ctx g = (case hm_get (context_subscriptions g) ctx of Some subs \<Rightarrow> subs | None \<Rightarrow> [])"

definition get_all_sessions :: "'e rwi_gateway \<Rightarrow> string list" where
  "get_all_sessions g = hm_keys (gw_sessions g)"

definition session_count :: "'e rwi_gateway \<Rightarrow> nat" where
  "session_count g = length (gw_sessions g)"

definition gw_call_count :: "'e rwi_gateway \<Rightarrow> nat" where
  "gw_call_count g = length (call_owners g)"

section \<open>Events\<close>

definition send_event_to_session :: "string \<Rightarrow> 'e \<Rightarrow> 'e rwi_gateway \<Rightarrow> 'e rwi_gateway" where
  "send_event_to_session s event g =
     (case hm_get (session_event_senders g) s of None \<Rightarrow> g | Some sender \<Rightarrow> g\<lparr>sent := sent g @ [(sender, event)]\<rparr>)"

text \<open>The age of an entry is a difference of unsigned numbers of 64 bits, which wraps around.\<close>

definition cache_age :: "nat \<Rightarrow> nat \<Rightarrow> nat" where
  "cache_age now timestamp = (now + 2 ^ 64 - timestamp) mod 2 ^ 64"

definition drop_old :: "nat \<Rightarrow> nat \<Rightarrow> 'e event_cache_entry list \<Rightarrow> 'e event_cache_entry list" where
  "drop_old now max_age cache = dropWhile (\<lambda>e. max_age < cache_age now (ec_timestamp e)) cache"

definition cache_event :: "nat \<Rightarrow> string \<Rightarrow> 'e \<Rightarrow> 'e rwi_gateway \<Rightarrow> nat \<times> 'e rwi_gateway" where
  "cache_event now c event g =
     (let cache = drop_old now (max_cache_age_secs g) (event_cache g)
                  @ [\<lparr>ec_sequence = next_sequence g, ec_timestamp = now, ec_call_id = c, ec_event = event\<rparr>]
      in (next_sequence g,
          g\<lparr>event_cache := drop (length cache - max_cache_size g) cache, next_sequence := next_sequence g + 1\<rparr>))"

definition get_events_since :: "nat \<Rightarrow> 'e rwi_gateway \<Rightarrow> 'e event_cache_entry list" where
  "get_events_since last_sequence g = filter (\<lambda>e. last_sequence < ec_sequence e) (event_cache g)"

definition get_events_for_call_since :: "string \<Rightarrow> nat \<Rightarrow> 'e rwi_gateway \<Rightarrow> 'e event_cache_entry list" where
  "get_events_for_call_since c last_sequence g =
     filter (\<lambda>e. ec_call_id e = c \<and> last_sequence < ec_sequence e) (event_cache g)"

definition is_sequence_in_cache :: "nat \<Rightarrow> 'e rwi_gateway \<Rightarrow> bool" where
  "is_sequence_in_cache sequence g =
     (case event_cache g of [] \<Rightarrow> False | e # _ \<Rightarrow> ec_sequence e \<le> sequence \<and> sequence < next_sequence g)"

definition current_sequence :: "'e rwi_gateway \<Rightarrow> nat" where
  "current_sequence g = next_sequence g"

definition send_event_to_call_owner :: "nat \<Rightarrow> string \<Rightarrow> 'e \<Rightarrow> 'e rwi_gateway \<Rightarrow> 'e rwi_gateway" where
  "send_event_to_call_owner now c event g =
     (let g1 = snd (cache_event now c event g) in
      case hm_get (call_owners g1) c of None \<Rightarrow> g1 | Some s \<Rightarrow> send_event_to_session s event g1)"

definition fan_out_event_to_context :: "nat \<Rightarrow> string \<Rightarrow> 'e \<Rightarrow> string \<Rightarrow> 'e rwi_gateway \<Rightarrow> 'e rwi_gateway" where
  "fan_out_event_to_context now ctx event c g =
     (let g1 = snd (cache_event now c event g)
      in fold (\<lambda>s. send_event_to_session s event) (get_sessions_subscribed_to_context ctx g1) g1)"

definition broadcast_event :: "'e \<Rightarrow> 'e rwi_gateway \<Rightarrow> 'e rwi_gateway" where
  "broadcast_event event g = fold (\<lambda>s. send_event_to_session s event) (hm_keys (session_event_senders g)) g"

definition resume_session :: "nat option \<Rightarrow> 'e rwi_gateway \<Rightarrow> 'e event_cache_entry list \<times> nat" where
  "resume_session last_sequence g =
     ((case last_sequence of Some seq \<Rightarrow> get_events_since seq g | None \<Rightarrow> event_cache g), current_sequence g)"

definition resume_call :: "string \<Rightarrow> nat option \<Rightarrow> 'e rwi_gateway \<Rightarrow> 'e event_cache_entry list \<times> nat" where
  "resume_call c last_sequence g =
     ((case last_sequence of Some seq \<Rightarrow> get_events_for_call_since c seq g
       | None \<Rightarrow> filter (\<lambda>e. ec_call_id e = c) (event_cache g)), current_sequence g)"

section \<open>Sessions and calls agree\<close>

definition session_calls :: "'e rwi_gateway \<Rightarrow> string \<Rightarrow> string list" where
  "session_calls g s = (case hm_get (gw_sessions g) s of None \<Rightarrow> [] | Some x \<Rightarrow> hm_keys (owned_calls x))"

definition session_targets :: "'e rwi_gateway \<Rightarrow> string \<Rightarrow> string list" where
  "session_targets g s = (case hm_get (gw_sessions g) s of None \<Rightarrow> [] | Some x \<Rightarrow> hm_keys (supervisor_targets x))"

definition session_contexts :: "'e rwi_gateway \<Rightarrow> string \<Rightarrow> string list" where
  "session_contexts g s = (case hm_get (gw_sessions g) s of None \<Rightarrow> [] | Some x \<Rightarrow> subscribed_contexts x)"

definition call_owner :: "'e rwi_gateway \<Rightarrow> string \<Rightarrow> string option" where
  "call_owner g c = get_call_owner c g"

definition call_supervisor :: "'e rwi_gateway \<Rightarrow> string \<Rightarrow> string option" where
  "call_supervisor g c = get_supervisor_session c g"

interpretation own: directory call_owner session_calls gw_remove_session
  by unfold_locales
    (auto simp: call_owner_def get_call_owner_def session_calls_def gw_remove_session_def hm_get_fold_remove Let_def split: option.split)

interpretation sup: directory call_supervisor session_targets gw_remove_session
  by unfold_locales
    (auto simp: call_supervisor_def get_supervisor_session_def session_targets_def gw_remove_session_def hm_get_fold_remove Let_def split: option.split)

text \<open>The subscribers of a context are the sessions that have subscribed it.\<close>

definition subscriptions_agree :: "'e rwi_gateway \<Rightarrow> bool" where
  "subscriptions_agree g \<longleftrightarrow>
     (\<forall>s ctx. s \<in> set (get_sessions_subscribed_to_context ctx g) \<longleftrightarrow> ctx \<in> set (session_contexts g s))"

text \<open>The cached events are the latest ones, without a gap, and no more than the size of the cache.\<close>

definition cache_ok :: "'e rwi_gateway \<Rightarrow> bool" where
  "cache_ok g \<longleftrightarrow>
     map ec_sequence (event_cache g) = [next_sequence g - length (event_cache g) ..< next_sequence g]
     \<and> length (event_cache g) \<le> max_cache_size g \<and> length (event_cache g) < next_sequence g"

definition gw_inv :: "'e rwi_gateway \<Rightarrow> bool" where
  "gw_inv g \<longleftrightarrow> own.tracked g \<and> own.owned g \<and> sup.tracked g \<and> subscriptions_agree g \<and> cache_ok g"

section \<open>The steps of the gateway\<close>

inductive gw_step :: "'e rwi_gateway \<Rightarrow> 'e rwi_gateway \<Rightarrow> bool" where
  step_create: "hm_get (gw_sessions g) uuid = None \<Longrightarrow> gw_step g (create_session uuid now identity g)"
| step_sender: "gw_step g (set_session_event_sender s sender g)"
| step_remove: "gw_step g (gw_remove_session s g)"
| step_subscribe: "gw_step g (snd (gw_subscribe s contexts g))"
| step_unsubscribe: "gw_step g (snd (gw_unsubscribe s contexts g))"
| step_claim: "gw_step g (snd (claim_call_ownership now s c mode g))"
| step_release: "gw_step g (snd (release_call_ownership s c g))"
| step_attach: "gw_step g (snd (attach_supervisor s c sm g))"
| step_detach: "gw_step g (snd (detach_supervisor s c g))"
| step_owner_event: "gw_step g (send_event_to_call_owner now c event g)"
| step_fan_out: "gw_step g (fan_out_event_to_context now ctx event c g)"
| step_broadcast: "gw_step g (broadcast_event event g)"

inductive_cases gw_stepE: "gw_step g g'"

text \<open>What a step changes of the tables.\<close>

definition same_tables :: "'e rwi_gateway \<Rightarrow> 'e rwi_gateway \<Rightarrow> bool" where
  "same_tables g g' \<longleftrightarrow> gw_sessions g' = gw_sessions g \<and> context_subscriptions g' = context_subscriptions g
     \<and> call_owners g' = call_owners g \<and> supervisor_calls g' = supervisor_calls g"

definition same_cache :: "'e rwi_gateway \<Rightarrow> 'e rwi_gateway \<Rightarrow> bool" where
  "same_cache g g' \<longleftrightarrow> event_cache g' = event_cache g \<and> next_sequence g' = next_sequence g \<and> max_cache_size g' = max_cache_size g"

lemma same_tables_inv:
  assumes "same_tables g g'"
  shows "own.tracked g' = own.tracked g" "own.owned g' = own.owned g" "sup.tracked g' = sup.tracked g"
    "subscriptions_agree g' = subscriptions_agree g"
  using assms
  by (simp_all add: same_tables_def own.tracked_def own.owned_def sup.tracked_def subscriptions_agree_def call_owner_def call_supervisor_def get_call_owner_def
      get_supervisor_session_def session_calls_def session_targets_def session_contexts_def get_sessions_subscribed_to_context_def)

lemma same_cache_ok: "same_cache g g' \<Longrightarrow> cache_ok g' = cache_ok g"
  by (simp add: same_cache_def cache_ok_def)

lemma send_same [simp]: "same_tables g (send_event_to_session s e g)" "same_cache g (send_event_to_session s e g)"
  by (simp_all add: same_tables_def same_cache_def send_event_to_session_def split: option.split)

lemma same_trans:
  "\<lbrakk>same_tables g1 g2; same_tables g2 g3\<rbrakk> \<Longrightarrow> same_tables g1 g3" "\<lbrakk>same_cache g1 g2; same_cache g2 g3\<rbrakk> \<Longrightarrow> same_cache g1 g3"
  by (simp_all add: same_tables_def same_cache_def)

lemma fold_send_same [simp]:
  "same_tables g (fold (\<lambda>s. send_event_to_session s e) ss g)" "same_cache g (fold (\<lambda>s. send_event_to_session s e) ss g)"
proof -
  have "same_tables g (fold (\<lambda>s. send_event_to_session s e) ss g) \<and> same_cache g (fold (\<lambda>s. send_event_to_session s e) ss g)"
  proof (induction ss arbitrary: g)
    case (Cons s ss)
    show ?case using Cons [of "send_event_to_session s e g"] same_trans send_same [of g s e] by (simp, blast)
  qed (simp add: same_tables_def same_cache_def)
  then show "same_tables g (fold (\<lambda>s. send_event_to_session s e) ss g)" "same_cache g (fold (\<lambda>s. send_event_to_session s e) ss g)" by blast+
qed

lemma cache_event_tables [simp]: "same_tables g (snd (cache_event now c e g))"
  by (simp add: same_tables_def cache_event_def Let_def)

text \<open>The oldest events leave the cache, the new one comes last.\<close>

lemma cache_event_cache:
  obtains n where "event_cache (snd (cache_event now c e g)) =
      drop n (event_cache g @ [\<lparr>ec_sequence = next_sequence g, ec_timestamp = now, ec_call_id = c, ec_event = e\<rparr>])"
    "length (event_cache (snd (cache_event now c e g))) \<le> max_cache_size g"
    "next_sequence (snd (cache_event now c e g)) = Suc (next_sequence g)" "max_cache_size (snd (cache_event now c e g)) = max_cache_size g"
proof -
  let ?x = "\<lparr>ec_sequence = next_sequence g, ec_timestamp = now, ec_call_id = c, ec_event = e\<rparr>"
  obtain m where m: "drop_old now (max_cache_age_secs g) (event_cache g) = drop m (event_cache g)" "m \<le> length (event_cache g)"
    unfolding drop_old_def dropWhile_eq_drop by (metis length_takeWhile_le)
  let ?k = "length (drop m (event_cache g) @ [?x]) - max_cache_size g"
  have "event_cache (snd (cache_event now c e g)) = drop ?k (drop m (event_cache g) @ [?x])"
    by (simp add: cache_event_def Let_def m(1))
  also have "\<dots> = drop ?k (drop m (event_cache g @ [?x]))" using m(2) by simp
  finally have eq: "event_cache (snd (cache_event now c e g)) = drop (?k + m) (event_cache g @ [?x])" by (simp only: drop_drop)
  show thesis
    by (rule that [OF eq]) (simp_all add: cache_event_def Let_def m(1))
qed

lemma cache_event_ok: "cache_ok g \<Longrightarrow> cache_ok (snd (cache_event now c e g))"
proof -
  assume ok: "cache_ok g"
  let ?x = "\<lparr>ec_sequence = next_sequence g, ec_timestamp = now, ec_call_id = c, ec_event = e\<rparr>" and ?g = "snd (cache_event now c e g)"
  obtain n where n: "event_cache ?g = drop n (event_cache g @ [?x])" "length (event_cache ?g) \<le> max_cache_size g"
    "next_sequence ?g = Suc (next_sequence g)" "max_cache_size ?g = max_cache_size g"
    by (rule cache_event_cache)
  have "map ec_sequence (event_cache g @ [?x]) = [next_sequence g - length (event_cache g) ..< Suc (next_sequence g)]"
    using ok by (simp add: cache_ok_def)
  then have "map ec_sequence (event_cache ?g) = drop n [next_sequence g - length (event_cache g) ..< Suc (next_sequence g)]"
    by (simp only: n(1) drop_map [symmetric])
  then have seqs: "map ec_sequence (event_cache ?g) = [next_sequence g - length (event_cache g) + n ..< Suc (next_sequence g)]"
    by (simp add: drop_upt del: upt_Suc)
  then have "length (event_cache ?g) = Suc (next_sequence g) - (next_sequence g - length (event_cache g) + n)"
    by (metis length_map length_upt)
  moreover have "[next_sequence g - length (event_cache g) + n ..< Suc (next_sequence g)] =
      [Suc (next_sequence g) - (Suc (next_sequence g) - (next_sequence g - length (event_cache g) + n)) ..< Suc (next_sequence g)]"
    by (cases "next_sequence g - length (event_cache g) + n \<le> Suc (next_sequence g)") (simp_all del: upt_Suc)
  ultimately show ?thesis
    using ok seqs n(2) unfolding cache_ok_def n(3,4) by (simp del: upt_Suc) linarith
qed

section \<open>The invariant\<close>

lemma gw_new_inv [inv_intros]: "gw_inv (with_config cap age)"
  by (simp add: gw_inv_def own.tracked_def own.owned_def sup.tracked_def subscriptions_agree_def cache_ok_def with_config_def call_owner_def
      call_supervisor_def get_call_owner_def get_supervisor_session_def session_calls_def session_targets_def session_contexts_def
      get_sessions_subscribed_to_context_def)

definition subscribers :: "(string, string list) hmap \<Rightarrow> string \<Rightarrow> string set" where
  "subscribers m ctx = set (case hm_get m ctx of Some subs \<Rightarrow> subs | None \<Rightarrow> [])"

lemma set_subscribed: "set (get_sessions_subscribed_to_context ctx g) = subscribers (context_subscriptions g) ctx"
  by (simp add: get_sessions_subscribed_to_context_def subscribers_def)

lemma subscribers_drop:
  "s' \<in> subscribers (fold (drop_subscriber s) cs m) ctx \<longleftrightarrow> s' \<in> subscribers m ctx \<and> \<not> (s' = s \<and> ctx \<in> set cs)"
proof (induction cs arbitrary: m)
  case (Cons c cs)
  show ?case unfolding fold_Cons comp_def Cons by (auto simp: subscribers_def drop_subscriber_def split: option.splits if_splits)
qed simp

lemma subscribers_add:
  "s' \<in> subscribers (fold (add_subscriber s) cs m) ctx \<longleftrightarrow> s' \<in> subscribers m ctx \<or> s' = s \<and> ctx \<in> set cs"
proof (induction cs arbitrary: m)
  case (Cons c cs)
  show ?case unfolding fold_Cons comp_def Cons by (auto simp: subscribers_def add_subscriber_def split: option.splits if_splits)
qed simp

lemma set_fold_insert: "set (fold List.insert xs ys) = set xs \<union> set ys"
  by (induction xs arbitrary: ys) auto

lemma set_fold_removeAll: "set (fold removeAll xs ys) = set ys - set xs"
  by (induction xs arbitrary: ys) auto

lemma view_simps [simp]:
  "session_calls (put_session s x g) s' = (if s' = s then hm_keys (owned_calls x) else session_calls g s')"
  "session_targets (put_session s x g) s' = (if s' = s then hm_keys (supervisor_targets x) else session_targets g s')"
  "session_contexts (put_session s x g) s' = (if s' = s then subscribed_contexts x else session_contexts g s')"
  "call_owner (put_session s x g) = call_owner g" "call_supervisor (put_session s x g) = call_supervisor g"
  "get_sessions_subscribed_to_context ctx (put_session s x g) = get_sessions_subscribed_to_context ctx g"
  "session_calls (g\<lparr>call_owners := m\<rparr>) = session_calls g" "session_targets (g\<lparr>call_owners := m\<rparr>) = session_targets g"
  "session_contexts (g\<lparr>call_owners := m\<rparr>) = session_contexts g" "call_owner (g\<lparr>call_owners := m\<rparr>) = hm_get m"
  "call_supervisor (g\<lparr>call_owners := m\<rparr>) = call_supervisor g"
  "get_sessions_subscribed_to_context ctx (g\<lparr>call_owners := m\<rparr>) = get_sessions_subscribed_to_context ctx g"
  "session_calls (g\<lparr>supervisor_calls := m\<rparr>) = session_calls g" "session_targets (g\<lparr>supervisor_calls := m\<rparr>) = session_targets g"
  "session_contexts (g\<lparr>supervisor_calls := m\<rparr>) = session_contexts g" "call_owner (g\<lparr>supervisor_calls := m\<rparr>) = call_owner g"
  "call_supervisor (g\<lparr>supervisor_calls := m\<rparr>) = hm_get m"
  "get_sessions_subscribed_to_context ctx (g\<lparr>supervisor_calls := m\<rparr>) = get_sessions_subscribed_to_context ctx g"
  "session_calls (g\<lparr>context_subscriptions := w\<rparr>) = session_calls g" "session_targets (g\<lparr>context_subscriptions := w\<rparr>) = session_targets g"
  "session_contexts (g\<lparr>context_subscriptions := w\<rparr>) = session_contexts g" "call_owner (g\<lparr>context_subscriptions := w\<rparr>) = call_owner g"
  "call_supervisor (g\<lparr>context_subscriptions := w\<rparr>) = call_supervisor g"
  by (auto simp: call_owner_def call_supervisor_def get_call_owner_def get_supervisor_session_def session_calls_def session_targets_def
      session_contexts_def put_session_def get_sessions_subscribed_to_context_def fun_eq_iff)

lemma session_views:
  "hm_get (gw_sessions g) s = Some x \<Longrightarrow> session_calls g s = hm_keys (owned_calls x)"
  "hm_get (gw_sessions g) s = Some x \<Longrightarrow> session_targets g s = hm_keys (supervisor_targets x)"
  "hm_get (gw_sessions g) s = Some x \<Longrightarrow> session_contexts g s = subscribed_contexts x"
  "hm_get (call_owners g) = call_owner g" "hm_get (supervisor_calls g) = call_supervisor g"
  by (simp_all add: session_calls_def session_targets_def session_contexts_def call_owner_def call_supervisor_def get_call_owner_def
      get_supervisor_session_def fun_eq_iff)

lemma key_sets [simp]: "fst ` set (hm_insert k v m) = insert k (fst ` set m)" "fst ` set (hm_remove k m) = fst ` set m - {k}"
  using delete_keys [of k m, THEN arg_cong [where f = set]] by (simp_all add: dom_update)

text \<open>The invariant is about the views only, and a step that changes the owner of a single call, together with the calls of the sessions, keeps it.\<close>

lemma own_put:
  assumes "own.tracked g" "own.owned g"
    and "\<And>c. call_owner g' c = (if c = k then v else call_owner g c)"
    and "\<And>s c. c \<in> set (session_calls g' s) \<longleftrightarrow> (if c = k then v = Some s else c \<in> set (session_calls g s))"
  shows "own.tracked g' \<and> own.owned g'"
  using assms(1,2) unfolding own.tracked_def own.owned_def assms(3,4) by meson

lemma sup_put:
  assumes "sup.tracked g"
    and "\<And>c. call_supervisor g' c = (if c = k then v else call_supervisor g c)"
    and "\<And>s c. c \<in> set (session_targets g' s) \<longleftrightarrow> (if c = k \<and> s = t then b else c \<in> set (session_targets g s))" "v = None \<or> v = Some t \<and> b"
  shows "sup.tracked g'"
  using assms(1,4) unfolding sup.tracked_def assms(2,3) by (metis option.distinct(1) option.inject)

lemma views_same:
  assumes "\<And>c. call_owner g' c = call_owner g c" "\<And>s. set (session_calls g' s) = set (session_calls g s)"
  shows "own.tracked g' = own.tracked g" "own.owned g' = own.owned g"
  unfolding own.tracked_def own.owned_def assms by (rule refl)+

lemma sup_same:
  assumes "\<And>c. call_supervisor g' c = call_supervisor g c" "\<And>s. set (session_targets g' s) = set (session_targets g s)"
  shows "sup.tracked g' = sup.tracked g"
  unfolding sup.tracked_def assms by (rule refl)

lemma subs_same:
  assumes "\<And>ctx. get_sessions_subscribed_to_context ctx g' = get_sessions_subscribed_to_context ctx g"
    "\<And>s. set (session_contexts g' s) = set (session_contexts g s)"
  shows "subscriptions_agree g' = subscriptions_agree g"
  unfolding subscriptions_agree_def assms by (rule refl)

lemma claim_inv:
  assumes "own.tracked g" "own.owned g"
  shows "own.tracked (snd (claim_call_ownership now s c mode g)) \<and> own.owned (snd (claim_call_ownership now s c mode g))"
proof (cases "\<exists>x. hm_get (gw_sessions g) s = Some x \<and> \<not> owns_call c x \<and> (\<forall>s'. call_owner g c = Some s' \<longrightarrow> s' = s)")
  case True
  then obtain x where x: "hm_get (gw_sessions g) s = Some x" "\<not> owns_call c x" "\<forall>s'. call_owner g c = Some s' \<longrightarrow> s' = s" by blast
  then have eq: "snd (claim_call_ownership now s c mode g) =
      (put_session s (x\<lparr>owned_calls := hm_insert c \<lparr>co_call_id = c, co_mode = mode, co_created_at = now\<rparr> (owned_calls x)\<rparr>) g)
        \<lparr>call_owners := hm_insert c s (call_owners g)\<rparr>"
    by (auto simp: claim_call_ownership_def claim_call_def session_views(4) split: option.split)
  have calls_x: "fst ` set (owned_calls x) = set (session_calls g s)" by (simp add: session_views(1) [OF x(1)])
  have none: "c \<notin> set (session_calls g s')" for s'
  proof
    assume in_s: "c \<in> set (session_calls g s')"
    then have "call_owner g c = Some s'" using assms(2) unfolding own.owned_def by blast
    then have "s' = s" using x(3) by blast
    then have "c \<in> set (hm_keys (owned_calls x))" using in_s session_views(1) [OF x(1)] by simp
    then show False using x(2) unfolding owns_call_def hm_keys_get by blast
  qed
  show ?thesis
    unfolding eq
    by (rule own_put [OF assms, where k = c and v = "Some s"])
      (use none in \<open>auto simp: session_views(4) calls_x\<close>)
next
  case False
  then have "snd (claim_call_ownership now s c mode g) = g \<or>
      (\<exists>x. hm_get (gw_sessions g) s = Some x \<and> snd (claim_call_ownership now s c mode g) = put_session s x g)"
    by (auto simp: claim_call_ownership_def claim_call_def session_views(4) split: option.split)
  then have "\<And>k. call_owner (snd (claim_call_ownership now s c mode g)) k = call_owner g k"
    "\<And>k. set (session_calls (snd (claim_call_ownership now s c mode g)) k) = set (session_calls g k)"
    by (auto simp: session_views(1) split: if_splits)
  note same = views_same [OF this]
  show ?thesis unfolding same using assms by blast
qed

lemma release_inv:
  assumes "own.tracked g" "own.owned g"
  shows "own.tracked (snd (release_call_ownership s c g)) \<and> own.owned (snd (release_call_ownership s c g))"
proof (cases "\<exists>x. hm_get (gw_sessions g) s = Some x \<and> owns_call c x \<and> (\<forall>s'. call_owner g c = Some s' \<longrightarrow> s' = s)")
  case True
  then obtain x where x: "hm_get (gw_sessions g) s = Some x" "owns_call c x" "\<forall>s'. call_owner g c = Some s' \<longrightarrow> s' = s" by blast
  then have eq: "snd (release_call_ownership s c g) =
      (put_session s (x\<lparr>owned_calls := hm_remove c (owned_calls x)\<rparr>) g)\<lparr>call_owners := hm_remove c (call_owners g)\<rparr>"
    by (auto simp: release_call_ownership_def release_call_def session_views(4) split: option.split)
  have calls_x: "fst ` set (owned_calls x) = set (session_calls g s)" by (simp add: session_views(1) [OF x(1)])
  have only: "c \<in> set (session_calls g s') \<longrightarrow> s' = s" for s' using assms(2) x(3) unfolding own.owned_def by blast
  show ?thesis
    unfolding eq
    by (rule own_put [OF assms, where k = c and v = None])
      (use only in \<open>auto simp: session_views(4) calls_x\<close>)
next
  case False
  then have "snd (release_call_ownership s c g) = g \<or>
      (\<exists>x. hm_get (gw_sessions g) s = Some x \<and> snd (release_call_ownership s c g) = put_session s (x\<lparr>owned_calls := hm_remove c (owned_calls x)\<rparr>) g
         \<and> \<not> owns_call c x)"
    by (auto simp: release_call_ownership_def release_call_def session_views(4) split: option.split bool.split)
  moreover have "hm_remove c (owned_calls x) = owned_calls x" if "\<not> owns_call c x" for x
    using that by (simp add: owns_call_def hm_remove_absent)
  ultimately have "\<And>k. call_owner (snd (release_call_ownership s c g)) k = call_owner g k"
    "\<And>k. set (session_calls (snd (release_call_ownership s c g)) k) = set (session_calls g k)"
    by (auto simp: session_views(1) split: if_splits)
  note same = views_same [OF this]
  show ?thesis unfolding same using assms by blast
qed

lemma supervisor_inv:
  assumes "sup.tracked g"
  shows "sup.tracked (snd (attach_supervisor s c mode g))" "sup.tracked (snd (detach_supervisor s c g))"
proof -
  show "sup.tracked (snd (attach_supervisor s c mode g))"
  proof (cases "hm_get (gw_sessions g) s")
    case (Some x)
    have targets_x: "fst ` set (supervisor_targets x) = set (session_targets g s)" by (simp add: session_views(2) [OF Some])
    show ?thesis
      by (rule sup_put [OF assms, where k = c and v = "Some s" and t = s and b = True])
        (auto simp: attach_supervisor_def Some add_supervisor_target_def session_views(5) targets_x)
  qed (simp add: attach_supervisor_def assms)
  show "sup.tracked (snd (detach_supervisor s c g))"
  proof (cases "hm_get (gw_sessions g) s")
    case (Some x)
    have targets_x: "fst ` set (supervisor_targets x) = set (session_targets g s)" by (simp add: session_views(2) [OF Some])
    show ?thesis
    proof (cases "is_supervisor_of c x")
      case True
      show ?thesis
        by (rule sup_put [OF assms, where k = c and v = None and t = s and b = False])
          (auto simp: detach_supervisor_def Some remove_supervisor_target_def True session_views(5)
            targets_x)
    next
      case False
      have "sup.tracked (snd (detach_supervisor s c g)) = sup.tracked g"
        by (rule sup_same)
          (use False in \<open>auto simp: detach_supervisor_def Some remove_supervisor_target_def is_supervisor_of_def hm_remove_absent
            session_views(2) [OF Some]\<close>)
      then show ?thesis using assms by blast
    qed
  qed (simp add: detach_supervisor_def assms)
qed

lemma subscription_inv:
  assumes "subscriptions_agree g"
  shows "subscriptions_agree (snd (gw_subscribe s cs g))" "subscriptions_agree (snd (gw_unsubscribe s cs g))"
    "subscriptions_agree (gw_remove_session s g)"
proof -
  have subs: "s' \<in> subscribers (context_subscriptions g) ctx \<longleftrightarrow> ctx \<in> set (session_contexts g s')" for s' ctx
    using assms by (simp add: subscriptions_agree_def set_subscribed)
  show "subscriptions_agree (snd (gw_subscribe s cs g))"
  proof (cases "hm_get (gw_sessions g) s")
    case (Some x)
    then show ?thesis
      by (auto simp: subscriptions_agree_def set_subscribed gw_subscribe_def subscribers_add subs
          session_views(3) rs_subscribe_def set_fold_insert)
  qed (simp add: gw_subscribe_def assms)
  show "subscriptions_agree (snd (gw_unsubscribe s cs g))"
  proof (cases "hm_get (gw_sessions g) s")
    case (Some x)
    then show ?thesis
      by (auto simp: subscriptions_agree_def set_subscribed gw_unsubscribe_def subscribers_drop subs
          session_views(3) rs_unsubscribe_def set_fold_removeAll)
  qed (simp add: gw_unsubscribe_def assms)
  show "subscriptions_agree (gw_remove_session s g)"
  proof (cases "hm_get (gw_sessions g) s")
    case (Some x)
    then have "session_contexts (gw_remove_session s g) s' = (if s' = s then [] else session_contexts g s')" for s'
      by (simp add: gw_remove_session_def session_contexts_def)
    then show ?thesis
      using Some by (auto simp: subscriptions_agree_def set_subscribed gw_remove_session_def subscribers_drop subs
          session_views(3))
  next
    case None
    then have "same_tables g (gw_remove_session s g)" by (simp add: gw_remove_session_def same_tables_def)
    then show ?thesis using assms by (simp add: same_tables_inv)
  qed
qed

lemma session_ops_frame:
  "own.tracked (snd (gw_subscribe s cs g)) = own.tracked g" "own.owned (snd (gw_subscribe s cs g)) = own.owned g"
  "sup.tracked (snd (gw_subscribe s cs g)) = sup.tracked g"
  "own.tracked (snd (gw_unsubscribe s cs g)) = own.tracked g" "own.owned (snd (gw_unsubscribe s cs g)) = own.owned g"
  "sup.tracked (snd (gw_unsubscribe s cs g)) = sup.tracked g"
  "own.tracked (snd (attach_supervisor s c sm g)) = own.tracked g" "own.owned (snd (attach_supervisor s c sm g)) = own.owned g"
  "own.tracked (snd (detach_supervisor s c g)) = own.tracked g" "own.owned (snd (detach_supervisor s c g)) = own.owned g"
  "sup.tracked (snd (claim_call_ownership now s c mode g)) = sup.tracked g"
  "sup.tracked (snd (release_call_ownership s c g)) = sup.tracked g"
  "subscriptions_agree (snd (attach_supervisor s c sm g)) = subscriptions_agree g"
  "subscriptions_agree (snd (detach_supervisor s c g)) = subscriptions_agree g"
  "subscriptions_agree (snd (claim_call_ownership now s c mode g)) = subscriptions_agree g"
  "subscriptions_agree (snd (release_call_ownership s c g)) = subscriptions_agree g"
  by (intro views_same sup_same subs_same; cases "hm_get (gw_sessions g) s";
      auto simp: gw_subscribe_def gw_unsubscribe_def attach_supervisor_def detach_supervisor_def claim_call_ownership_def
        release_call_ownership_def rs_subscribe_def rs_unsubscribe_def add_supervisor_target_def remove_supervisor_target_def
        claim_call_def release_call_def session_views split: option.splits bool.splits if_splits)+

lemma session_ops_cache:
  "same_cache g (create_session uuid now identity g)" "same_cache g (set_session_event_sender s sender g)" "same_cache g (gw_remove_session s g)"
  "same_cache g (snd (gw_subscribe s cs g))" "same_cache g (snd (gw_unsubscribe s cs g))"
  "same_cache g (snd (claim_call_ownership now s c mode g))" "same_cache g (snd (release_call_ownership s c g))"
  "same_cache g (snd (attach_supervisor s c sm g))" "same_cache g (snd (detach_supervisor s c g))"
  by (auto simp: same_cache_def create_session_def set_session_event_sender_def gw_remove_session_def gw_subscribe_def gw_unsubscribe_def
      claim_call_ownership_def release_call_ownership_def attach_supervisor_def detach_supervisor_def put_session_def Let_def
      split: option.split prod.split bool.split)

lemma gw_create_inv:
  assumes "hm_get (gw_sessions g) uuid = None"
  shows "own.tracked (create_session uuid now i g) = own.tracked g" "own.owned (create_session uuid now i g) = own.owned g"
    "sup.tracked (create_session uuid now i g) = sup.tracked g" "subscriptions_agree (create_session uuid now i g) = subscriptions_agree g"
proof -
  have put: "create_session uuid now i g = put_session uuid (rwi_session_new uuid now i) g"
    by (simp add: create_session_def put_session_def)
  have none: "session_calls g uuid = []" "session_targets g uuid = []" "session_contexts g uuid = []"
    using assms by (simp_all add: session_calls_def session_targets_def session_contexts_def)
  show "own.tracked (create_session uuid now i g) = own.tracked g" "own.owned (create_session uuid now i g) = own.owned g"
    "sup.tracked (create_session uuid now i g) = sup.tracked g" "subscriptions_agree (create_session uuid now i g) = subscriptions_agree g"
    unfolding put by (intro views_same sup_same subs_same; simp add: rwi_session_new_def none)+
qed

text \<open>Events change the cache and what was sent, not the tables.\<close>

lemma event_ops:
  "same_tables g (send_event_to_call_owner now c e g)" "same_tables g (fan_out_event_to_context now ctx e c g)" "same_tables g (broadcast_event e g)"
  "same_cache (snd (cache_event now c e g)) (send_event_to_call_owner now c e g)"
  "same_cache (snd (cache_event now c e g)) (fan_out_event_to_context now ctx e c g)" "same_cache g (broadcast_event e g)"
proof -
  show "same_tables g (send_event_to_call_owner now c e g)"
    using same_trans(1) [OF cache_event_tables [of g now c e] send_same(1)] by (simp add: send_event_to_call_owner_def Let_def split: option.split)
  show "same_tables g (fan_out_event_to_context now ctx e c g)"
    using same_trans(1) [OF cache_event_tables [of g now c e] fold_send_same(1)] by (simp add: fan_out_event_to_context_def Let_def)
  show "same_cache (snd (cache_event now c e g)) (send_event_to_call_owner now c e g)"
    using send_same(2) [of "snd (cache_event now c e g)"] by (simp add: send_event_to_call_owner_def Let_def same_cache_def split: option.split)
  show "same_cache (snd (cache_event now c e g)) (fan_out_event_to_context now ctx e c g)"
    by (simp add: fan_out_event_to_context_def Let_def)
qed (simp_all add: broadcast_event_def)

lemma gw_step_inv [inv_intros]: "\<lbrakk>gw_step g g'; gw_inv g\<rbrakk> \<Longrightarrow> gw_inv g'"
proof (induction rule: gw_step.induct)
  case (step_remove g s)
  then show ?case
    by (simp add: gw_inv_def own.drop_tracked own.drop_owned sup.drop_tracked subscription_inv same_cache_ok [OF session_ops_cache(3)])
next
  case (step_sender g s sender)
  have "same_tables g (set_session_event_sender s sender g)" by (simp add: same_tables_def set_session_event_sender_def)
  then show ?case using step_sender by (simp add: gw_inv_def same_tables_inv same_cache_ok [OF session_ops_cache(2)])
next
  case (step_claim g now s c mode)
  then show ?case using claim_inv [of g now s c mode] by (simp add: gw_inv_def session_ops_frame same_cache_ok [OF session_ops_cache(6)])
next
  case (step_release g s c)
  then show ?case using release_inv [of g s c] by (simp add: gw_inv_def session_ops_frame same_cache_ok [OF session_ops_cache(7)])
qed (simp_all add: gw_inv_def session_ops_frame gw_create_inv subscription_inv supervisor_inv same_tables_inv [OF event_ops(1)] same_tables_inv [OF event_ops(2)]
    same_tables_inv [OF event_ops(3)] same_cache_ok [OF event_ops(4)] same_cache_ok [OF event_ops(5)] same_cache_ok [OF event_ops(6)]
    cache_event_ok same_cache_ok [OF session_ops_cache(1)] same_cache_ok [OF session_ops_cache(4)] same_cache_ok [OF session_ops_cache(5)]
    same_cache_ok [OF session_ops_cache(8)] same_cache_ok [OF session_ops_cache(9)])

lemma gw_reachable_inv: "gw_step\<^sup>*\<^sup>* (with_config cap age) g \<Longrightarrow> gw_inv g"
  by (induction rule: rtranclp_induct) (auto intro: inv_intros)

section \<open>Properties of the gateway\<close>

definition demo_identity :: rwi_identity where
  "demo_identity = \<lparr>id_token = ''t'', id_scopes = [''call.control'']\<rparr>"

definition demo_gateway :: "string rwi_gateway" where
  "demo_gateway = snd (claim_call_ownership 0 ''s'' ''c1'' OwnControl (create_session ''s'' 0 demo_identity (with_config 10 60)))"

lemma demo_gateway_reachable: "gw_step\<^sup>*\<^sup>* (with_config 10 60) demo_gateway"
proof -
  have "gw_step (with_config 10 60 :: string rwi_gateway) (create_session ''s'' 0 demo_identity (with_config 10 60))"
    by (rule step_create) (simp add: with_config_def)
  moreover have "gw_step (create_session ''s'' 0 demo_identity (with_config 10 60)) demo_gateway"
    unfolding demo_gateway_def by (rule step_claim)
  ultimately show ?thesis by (rule rtranclp.rtrancl_into_rtrancl [OF r_into_rtranclp])
qed

text \<open>C22: In every state that the gateway can reach, a call has an owner just when the owner's session lists the call, so no two sessions own
  one call; and the removal of a session frees its calls and no other.\<close>

theorem call_has_one_owner:
  assumes "gw_step\<^sup>*\<^sup>* (with_config cap age) g"
  shows "(session_owns_call s c g \<longleftrightarrow> (\<exists>x. hm_get (gw_sessions g) s = Some x \<and> owns_call c x))
       \<and> get_call_owner c (gw_remove_session s g) = (if session_owns_call s c g then None else get_call_owner c g)"
proof -
  have inv: "own.tracked g" "own.owned g" using gw_reachable_inv [OF assms] by (simp_all add: gw_inv_def)
  have "session_owns_call s c g \<longleftrightarrow> c \<in> set (session_calls g s)"
    using inv unfolding own.tracked_def own.owned_def session_owns_call_def session_views(4) by blast
  also have "\<dots> \<longleftrightarrow> (\<exists>x. hm_get (gw_sessions g) s = Some x \<and> owns_call c x)"
    by (cases "hm_get (gw_sessions g) s") (simp_all add: session_calls_def owns_call_def hm_keys_get [simplified])
  finally have "session_owns_call s c g \<longleftrightarrow> (\<exists>x. hm_get (gw_sessions g) s = Some x \<and> owns_call c x)" .
  moreover have "get_call_owner c (gw_remove_session s g) = (if session_owns_call s c g then None else get_call_owner c g)"
    using own.drop_exact [OF inv, of s c] by (simp add: call_owner_def session_owns_call_def get_call_owner_def)
  ultimately show ?thesis by blast
qed

theorem call_has_one_owner_witness:
  "session_owns_call ''s'' ''c1'' demo_gateway \<and> get_call_owner ''c1'' (gw_remove_session ''s'' demo_gateway) = None"
  using call_has_one_owner [OF demo_gateway_reachable, of "''s''" "''c1''"]
  by (simp add: session_owns_call_def demo_gateway_def with_config_def create_session_def claim_call_ownership_def claim_call_def rwi_session_new_def
      owns_call_def put_session_def)

text \<open>The entries that a list of events makes in the cache.\<close>

fun entries_from :: "nat \<Rightarrow> (nat \<times> string \<times> 'e) list \<Rightarrow> 'e event_cache_entry list" where
  "entries_from k [] = []"
| "entries_from k ((now, c, e) # es) = \<lparr>ec_sequence = k, ec_timestamp = now, ec_call_id = c, ec_event = e\<rparr> # entries_from (Suc k) es"

definition send_all :: "(nat \<times> string \<times> 'e) list \<Rightarrow> 'e rwi_gateway \<Rightarrow> 'e rwi_gateway" where
  "send_all es g = fold (\<lambda>(now, c, e). send_event_to_call_owner now c e) es g"

lemma send_all_cache:
  "\<exists>n. event_cache (send_all es g) = drop n (event_cache g @ entries_from (next_sequence g) es)"
proof (induction es arbitrary: g)
  case (Cons x es)
  obtain now c e where x: "x = (now, c, e)" by (cases x)
  let ?g = "send_event_to_call_owner now c e g"
  have same: "event_cache ?g = event_cache (snd (cache_event now c e g))" "next_sequence ?g = next_sequence (snd (cache_event now c e g))"
    using event_ops(4) [of now c e g] by (simp_all add: same_cache_def)
  obtain m where m: "event_cache ?g = drop m (event_cache g @ [\<lparr>ec_sequence = next_sequence g, ec_timestamp = now, ec_call_id = c, ec_event = e\<rparr>])"
    "next_sequence ?g = Suc (next_sequence g)"
    unfolding same by (rule cache_event_cache [of now c e g]) blast
  obtain n where n: "event_cache (send_all es ?g) = drop n (event_cache ?g @ entries_from (Suc (next_sequence g)) es)"
    using Cons [of ?g] m(2) by auto
  let ?old = "event_cache g @ [\<lparr>ec_sequence = next_sequence g, ec_timestamp = now, ec_call_id = c, ec_event = e\<rparr>]"
  let ?rest = "entries_from (Suc (next_sequence g)) es"
  have "drop m ?old = drop (min m (length ?old)) ?old" by (cases "m \<le> length ?old") (simp_all add: min_absorb1 min_absorb2)
  moreover have "drop k ?old @ ?rest = drop k (?old @ ?rest)" if "k \<le> length ?old" for k
    unfolding drop_append using that by (simp only: diff_is_0_eq [THEN iffD2] drop0)
  ultimately have "drop n (drop m ?old @ ?rest) = drop (n + min m (length ?old)) (?old @ ?rest)"
    by (simp only: drop_drop min.cobounded2)
  then show ?case using n m(1) by (auto simp: send_all_def x)
qed (auto simp: send_all_def intro: exI [of _ 0])

lemma entries_from_events: "map ec_event (entries_from k es) = map (snd \<circ> snd) es"
  by (induction k es rule: entries_from.induct) simp_all

lemma entries_from_sequences: "x \<in> set (entries_from k es) \<Longrightarrow> k \<le> ec_sequence x"
  by (induction k es rule: entries_from.induct) auto



text \<open>An event for a context goes to the channels of exactly its subscribers.\<close>

lemma sent_fold_send:
  "sent (fold (\<lambda>s. send_event_to_session s e) ss g) = sent g @ map (\<lambda>x. (x, e)) (List.map_filter (hm_get (session_event_senders g)) ss)"
proof (induction ss arbitrary: g)
  case (Cons s ss)
  have "session_event_senders (send_event_to_session s e g) = session_event_senders g"
    by (simp add: send_event_to_session_def split: option.split)
  then show ?case using Cons [of "send_event_to_session s e g"]
    by (simp add: List.map_filter_simps send_event_to_session_def split: option.split)
qed (simp add: List.map_filter_simps)

lemma fan_out_exact:
  "sent (fan_out_event_to_context now ctx e c g) =
     sent g @ map (\<lambda>x. (x, e)) (List.map_filter (hm_get (session_event_senders g)) (get_sessions_subscribed_to_context ctx g))"
  by (simp add: fan_out_event_to_context_def sent_fold_send Let_def cache_event_def get_sessions_subscribed_to_context_def)

text \<open>When two sessions supervise a call and the first one stops, the gateway has no supervisor of the call any more.\<close>

lemma first_supervisor_detaches_second:
  assumes "hm_get (gw_sessions g) s1 = Some x1" "hm_get (gw_sessions g) s2 = Some x2" "s1 \<noteq> s2"
  shows "let g' = snd (detach_supervisor s1 c (snd (attach_supervisor s2 c m2 (snd (attach_supervisor s1 c m1 g)))))
         in \<not> is_supervisor c g' \<and> map_option (is_supervisor_of c) (hm_get (gw_sessions g') s2) = Some True"
  using assms
  by (simp add: attach_supervisor_def detach_supervisor_def put_session_def add_supervisor_target_def remove_supervisor_target_def
      is_supervisor_of_def is_supervisor_def)

text \<open>When the clock of the host is set back, every event that is younger than the clock leaves the cache.\<close>

lemma clock_set_back_empties_cache:
  assumes "\<forall>e \<in> set (event_cache g). now < ec_timestamp e \<and> ec_timestamp e - now \<le> 2 ^ 63" "max_cache_age_secs g < 2 ^ 63" "0 < max_cache_size g"
  shows "map ec_event (event_cache (snd (cache_event now c e g))) = [e]"
proof -
  have "max_cache_age_secs g < cache_age now (ec_timestamp x)" if "x \<in> set (event_cache g)" for x
  proof -
    have "cache_age now (ec_timestamp x) = 2 ^ 64 - (ec_timestamp x - now)"
      using assms(1) that unfolding cache_age_def by (subst mod_less) auto
    moreover have "ec_timestamp x - now \<le> 2 ^ 63" using assms(1) that by blast
    ultimately show ?thesis using assms(2) by simp
  qed
  then have "drop_old now (max_cache_age_secs g) (event_cache g) = []" by (simp add: drop_old_def)
  then show ?thesis using assms(3) by (simp add: cache_event_def Let_def)
qed

text \<open>A token is accepted with the scopes of its last entry in the configuration.\<close>

lemma validate_token_last:
  "validate_token t (rwi_auth_new tokens contexts) = find (\<lambda>i. id_token i = t) (rev tokens)"
proof -
  have "hm_get (fold (\<lambda>i. hm_insert (id_token i) i) tokens m) t = (case find (\<lambda>i. id_token i = t) (rev tokens) of Some i \<Rightarrow> Some i | None \<Rightarrow> hm_get m t)" for m
    by (induction tokens rule: rev_induct) simp_all
  then show ?thesis by (simp add: validate_token_def rwi_auth_new_def split: option.split)
qed

end
