(* ===== verification/Transfers.thy ===== *)
theory Transfers
  imports Call_Registry Gateway
begin

text \<open>
  Transfers of calls over the real-time web interface, \<open>src/src/rwi/transfer.rs\<close>: the table of transfers, blind and replacing transfers
  by REFER, attended transfers, the reports of a REFER, and the fallback in which the gateway calls the target itself. The controller reads the
  registry of active calls and reports to the owner of a call through the gateway of the interface. Commands to sessions are a log of channels and
  commands; a channel whose session has gone refuses commands. The parsing of addresses and the offer of the media stack are
  parameters; the task that waits for the called party is modelled by the steps it takes.
\<close>

section \<open>Transactions\<close>

datatype refer_transfer_result =
  ReferAccepted | ReferRejectedWith nat | ReferNotSupported nat | ReferTimeout | ReferInternalError string

datatype transfer_mode = SipRefer | Replaces | ThreePccFallback

datatype transfer_failure_reason =
  ReferRejected | ThreePccFailed | FailTimeout | FailCancelled | InvalidTarget | InvalidState | BridgeFailed | InternalError

fun failure_as_str :: "transfer_failure_reason \<Rightarrow> string" where
  "failure_as_str ReferRejected = ''refer_rejected''"
| "failure_as_str ThreePccFailed = ''3pcc_failed''"
| "failure_as_str FailTimeout = ''timeout''"
| "failure_as_str FailCancelled = ''cancelled''"
| "failure_as_str InvalidTarget = ''invalid_target''"
| "failure_as_str InvalidState = ''invalid_state''"
| "failure_as_str BridgeFailed = ''bridge_failed''"
| "failure_as_str InternalError = ''internal_error''"

datatype transfer_status =
  TsInit | TsReferSent | TsNotifyTrying | TsNotifyProgress | TsAccepted | TsCompleted | TsFailed transfer_failure_reason | TsCanceled | TsTimedOut

record transfer_transaction =
  transfer_id :: string
  tt_call_id :: string
  tt_dialog_id :: "string option"
  tt_target :: string
  tt_status :: transfer_status
  tt_mode :: transfer_mode
  tt_created_at :: instant
  tt_updated_at :: instant
  tt_sip_status :: "nat option"
  tt_error_message :: "string option"
  consultation_call_id :: "string option"
  original_leg :: "string option"

definition transaction_new :: "string \<Rightarrow> instant \<Rightarrow> string \<Rightarrow> string \<Rightarrow> transfer_mode \<Rightarrow> transfer_transaction" where
  "transaction_new uuid now c target mode =
     \<lparr>transfer_id = uuid, tt_call_id = c, tt_dialog_id = None, tt_target = target, tt_status = TsInit, tt_mode = mode, tt_created_at = now,
      tt_updated_at = now, tt_sip_status = None, tt_error_message = None, consultation_call_id = None, original_leg = None\<rparr>"

definition update_status :: "instant \<Rightarrow> transfer_status \<Rightarrow> transfer_transaction \<Rightarrow> transfer_transaction" where
  "update_status now status t = t\<lparr>tt_status := status, tt_updated_at := now\<rparr>"

fun terminal_status :: "transfer_status \<Rightarrow> bool" where
  "terminal_status TsCompleted = True"
| "terminal_status (TsFailed _) = True"
| "terminal_status TsCanceled = True"
| "terminal_status TsTimedOut = True"
| "terminal_status _ = False"

definition is_terminal :: "transfer_transaction \<Rightarrow> bool" where
  "is_terminal t = terminal_status (tt_status t)"

record transfer_config =
  refer_enabled :: bool
  attended_enabled :: bool
  three_pcc_fallback_enabled :: bool
  refer_timeout_secs :: nat
  three_pcc_timeout_secs :: nat
  max_concurrent_transfers :: nat

definition default_transfer_config :: transfer_config where
  "default_transfer_config = \<lparr>refer_enabled = True, attended_enabled = True, three_pcc_fallback_enabled = True,
     refer_timeout_secs = 30, three_pcc_timeout_secs = 60, max_concurrent_transfers = 1000\<rparr>"

section \<open>The controller\<close>

datatype transfer_event =
    CallTransferAccepted string
  | CallTransferFailed string "nat option" "string option"
  | CallTransferred string
  | CallRinging string
  | CallEarlyMedia string
  | CallAnswered string

datatype call_command =
    CmdTransfer string string bool
  | CmdHold string "string option"
  | CmdUnhold string
  | CmdBridge string string
  | CmdHangup string "hangup_reason option" "nat option"

text \<open>A task that waits for the party it calls in a transfer.\<close>

record originate_task =
  ot_call_id :: string
  ot_target :: string
  ot_transfer_id :: string
  ot_original_call_id :: string

record sip_server =
  sv_realms :: "string list option"
  sv_addr :: string

record transfer_lib =
  tl_parse_uri :: "string \<Rightarrow> unit result"
  tl_offer :: "string \<Rightarrow> unit result"

record transfer_controller =
  tc_config :: transfer_config
  transactions :: "(string, transfer_transaction) hmap"
  call_registry :: registry_state
  gateway :: "transfer_event rwi_gateway"
  tc_sip_server :: "sip_server option"
  tc_commands :: "(nat \<times> call_command) list"
  tc_closed :: "nat \<Rightarrow> bool"
  tc_tasks :: "originate_task list"
  tc_bridges :: "originate_task list"
  tc_uuid :: "nat \<Rightarrow> string"
  tc_uuids_used :: nat
  tc_now :: instant
  tc_wall :: nat

definition tc_new_uuid :: "transfer_controller \<Rightarrow> string \<times> transfer_controller" where
  "tc_new_uuid st = (tc_uuid st (tc_uuids_used st), st\<lparr>tc_uuids_used := tc_uuids_used st + 1\<rparr>)"

definition emit :: "string \<Rightarrow> transfer_event \<Rightarrow> transfer_controller \<Rightarrow> transfer_controller" where
  "emit c event st = st\<lparr>gateway := send_event_to_call_owner (tc_wall st) c event (gateway st)\<rparr>"

definition send_to :: "session_handle \<Rightarrow> call_command \<Rightarrow> transfer_controller \<Rightarrow> unit result \<times> transfer_controller" where
  "send_to h cmd st =
     (if tc_closed st (sh_channel h) then (Inl ''channel closed'', st)
      else (Inr (), st\<lparr>tc_commands := tc_commands st @ [(sh_channel h, cmd)]\<rparr>))"

abbreviation put_tx :: "string \<Rightarrow> transfer_transaction \<Rightarrow> transfer_controller \<Rightarrow> transfer_controller" where
  "put_tx tid t st \<equiv> st\<lparr>transactions := hm_insert tid t (transactions st)\<rparr>"

definition modify_tx :: "string \<Rightarrow> (transfer_transaction \<Rightarrow> transfer_transaction) \<Rightarrow> transfer_controller \<Rightarrow> transfer_controller" where
  "modify_tx tid f st = (case hm_get (transactions st) tid of None \<Rightarrow> st | Some t \<Rightarrow> put_tx tid (f t) st)"

definition tc_get_handle :: "string \<Rightarrow> transfer_controller \<Rightarrow> session_handle option" where
  "tc_get_handle c st = get_handle c (call_registry st)"

definition verify_call_state_for_transfer :: "string \<Rightarrow> transfer_controller \<Rightarrow> transfer_failure_reason + unit" where
  "verify_call_state_for_transfer c st =
     (case get_entry c (call_registry st) of
        None \<Rightarrow> Inl InvalidState
      | Some entry \<Rightarrow> if ce_status entry = StTalking then Inr () else Inl InvalidState)"

type_synonym transfer_outcome = "transfer_failure_reason + transfer_transaction"

text \<open>A transfer enters the table, unless the table is full.\<close>

definition insert_transaction :: "transfer_transaction \<Rightarrow> transfer_controller \<Rightarrow> (transfer_failure_reason + unit) \<times> transfer_controller" where
  "insert_transaction t st =
     (if max_concurrent_transfers (tc_config st) \<le> length (transactions st) then (Inl InternalError, st)
      else (Inr (), put_tx (transfer_id t) t st))"

definition initiate_refer :: "transfer_mode \<Rightarrow> string \<Rightarrow> string \<Rightarrow> transfer_controller \<Rightarrow> transfer_outcome \<times> transfer_controller" where
  "initiate_refer mode c target st =
     (if \<not> refer_enabled (tc_config st) then (Inl InternalError, st)
      else case verify_call_state_for_transfer c st of
        Inl e \<Rightarrow> (Inl e, st)
      | Inr _ \<Rightarrow>
          let (uuid, st1) = tc_new_uuid st;
              t = update_status (tc_now st) TsAccepted (transaction_new uuid (tc_now st) c target mode)
          in case insert_transaction t st1 of
               (Inl e, st2) \<Rightarrow> (Inl e, st2)
             | (Inr _, st2) \<Rightarrow>
                 (case tc_get_handle c st2 of
                    None \<Rightarrow> (Inl InvalidState, st2)
                  | Some _ \<Rightarrow> (Inr t, emit c (CallTransferAccepted c) st2)))"

definition initiate_blind_transfer :: "string \<Rightarrow> string \<Rightarrow> transfer_controller \<Rightarrow> transfer_outcome \<times> transfer_controller" where
  "initiate_blind_transfer = initiate_refer SipRefer"

definition initiate_replace_transfer :: "string \<Rightarrow> string \<Rightarrow> transfer_controller \<Rightarrow> transfer_outcome \<times> transfer_controller" where
  "initiate_replace_transfer = initiate_refer Replaces"

definition try_refer :: "bool \<Rightarrow> string \<Rightarrow> transfer_transaction \<Rightarrow> transfer_controller \<Rightarrow> (refer_transfer_result + unit) \<times> transfer_controller" where
  "try_refer attended failed t st =
     (case tc_get_handle (tt_call_id t) st of
        None \<Rightarrow> (Inl (ReferInternalError ''Call not found''), st)
      | Some h \<Rightarrow>
          (case send_to h (CmdTransfer (tt_call_id t) (tt_target t) attended) st of
             (Inl e, st1) \<Rightarrow> (Inl (ReferInternalError (failed @ e)), st1)
           | (Inr _, st1) \<Rightarrow> (Inr (), st1)))"

definition try_refer_transfer :: "transfer_transaction \<Rightarrow> transfer_controller \<Rightarrow> (refer_transfer_result + unit) \<times> transfer_controller" where
  "try_refer_transfer = try_refer False ''Failed to send transfer command: ''"

definition try_refer_transfer_with_replaces ::
  "transfer_transaction \<Rightarrow> transfer_controller \<Rightarrow> (refer_transfer_result + unit) \<times> transfer_controller" where
  "try_refer_transfer_with_replaces = try_refer True ''Failed to send replace transfer command: ''"

definition fail_transfer :: "string \<Rightarrow> transfer_failure_reason \<Rightarrow> nat option \<Rightarrow> transfer_controller \<Rightarrow> transfer_controller" where
  "fail_transfer tid reason sip_status st =
     (case hm_get (transactions st) tid of
        None \<Rightarrow> st
      | Some t \<Rightarrow>
          emit (tt_call_id t) (CallTransferFailed (tt_call_id t) sip_status (Some (failure_as_str reason)))
            (put_tx tid ((update_status (tc_now st) (TsFailed reason) t)\<lparr>tt_sip_status := sip_status\<rparr>) st))"

definition dispatch_or_fail ::
  "transfer_transaction \<Rightarrow> (refer_transfer_result + unit) \<times> transfer_controller \<Rightarrow> transfer_outcome \<times> transfer_controller" where
  "dispatch_or_fail t r =
     (case r of
        (Inr _, st) \<Rightarrow> (Inr t, st)
      | (Inl _, st) \<Rightarrow> (Inl InternalError, fail_transfer (transfer_id t) InternalError None st))"

definition execute_blind_transfer :: "string \<Rightarrow> string \<Rightarrow> transfer_controller \<Rightarrow> transfer_outcome \<times> transfer_controller" where
  "execute_blind_transfer c target st =
     (case initiate_blind_transfer c target st of
        (Inl e, st1) \<Rightarrow> (Inl e, st1)
      | (Inr t, st1) \<Rightarrow> dispatch_or_fail t (try_refer_transfer t st1))"

definition execute_replace_transfer :: "string \<Rightarrow> string \<Rightarrow> transfer_controller \<Rightarrow> transfer_outcome \<times> transfer_controller" where
  "execute_replace_transfer c target st =
     (case initiate_replace_transfer c target st of
        (Inl e, st1) \<Rightarrow> (Inl e, st1)
      | (Inr t, st1) \<Rightarrow> dispatch_or_fail t (try_refer_transfer_with_replaces t st1))"

section \<open>Attended transfers\<close>

definition initiate_attended_transfer :: "string \<Rightarrow> string \<Rightarrow> nat option \<Rightarrow> transfer_controller \<Rightarrow> transfer_outcome \<times> transfer_controller" where
  "initiate_attended_transfer c target timeout_secs st =
     (if \<not> attended_enabled (tc_config st) then (Inl InternalError, st)
      else case verify_call_state_for_transfer c st of
        Inl e \<Rightarrow> (Inl e, st)
      | Inr _ \<Rightarrow>
          let (uuid, st1) = tc_new_uuid st; (consultation, st2) = tc_new_uuid st1;
              t = (transaction_new uuid (tc_now st) c target SipRefer)
                    \<lparr>consultation_call_id := Some consultation, original_leg := Some c\<rparr>
          in case insert_transaction t st2 of
               (Inl e, st3) \<Rightarrow> (Inl e, st3)
             | (Inr _, st3) \<Rightarrow>
                 (case tc_get_handle c st3 of
                    None \<Rightarrow> (Inl InvalidState, st3)
                  | Some h \<Rightarrow>
                      (Inr t, emit c (CallTransferAccepted c) (snd (send_to h (CmdHold c (Some ''hold.wav'')) st3)))))"

definition complete_attended_transfer :: "string \<Rightarrow> string \<Rightarrow> transfer_controller \<Rightarrow> transfer_outcome \<times> transfer_controller" where
  "complete_attended_transfer c consultation st =
     (case find (\<lambda>t. tt_call_id t = c \<and> consultation_call_id t = Some consultation) (hm_values (transactions st)) of
        None \<Rightarrow> (Inl InvalidState, st)
      | Some t \<Rightarrow>
          (case tc_get_handle c st of
             None \<Rightarrow> (Inl InvalidState, st)
           | Some h \<Rightarrow>
               let st1 = snd (send_to h (CmdBridge c consultation) st)
               in (Inr (update_status (tc_now st) TsCompleted t), emit c (CallTransferred c) st1)))"

definition cancel_attended_transfer :: "string \<Rightarrow> transfer_controller \<Rightarrow> transfer_outcome \<times> transfer_controller" where
  "cancel_attended_transfer consultation st =
     (case find (\<lambda>t. consultation_call_id t = Some consultation) (hm_values (transactions st)) of
        None \<Rightarrow> (Inl InvalidState, st)
      | Some t \<Rightarrow>
          let st1 = (case tc_get_handle consultation st of
                       None \<Rightarrow> st
                     | Some h \<Rightarrow> snd (send_to h (CmdHangup ''transfer'' (Some BySystem) (Some 487)) st));
              st2 = (case original_leg t of
                       None \<Rightarrow> st1
                     | Some original \<Rightarrow>
                         let st' = (case tc_get_handle original st1 of
                                      None \<Rightarrow> st1 | Some h \<Rightarrow> snd (send_to h (CmdUnhold original) st1))
                         in emit original (CallTransferFailed original (Some 487) (Some ''cancelled'')) st')
          in (Inr (update_status (tc_now st) TsCanceled t), st2))"

section \<open>Reports of a REFER\<close>

definition handle_refer_response :: "string \<Rightarrow> nat \<Rightarrow> transfer_controller \<Rightarrow> transfer_transaction option \<times> transfer_controller" where
  "handle_refer_response tid sip_status st =
     (case hm_get (transactions st) tid of
        None \<Rightarrow> (None, st)
      | Some t0 \<Rightarrow>
          let t = t0\<lparr>tt_sip_status := Some sip_status\<rparr>; now = tc_now st; c = tt_call_id t in
          if 200 \<le> sip_status \<and> sip_status < 300 then
            (if tt_status t = TsAccepted then (Some t, put_tx tid t st)
             else let t' = update_status now TsAccepted t in (Some t', emit c (CallTransferAccepted c) (put_tx tid t' st)))
          else if 400 \<le> sip_status then
            (if three_pcc_fallback_enabled (tc_config st) \<and> tt_mode t = SipRefer
             then let t' = update_status now TsNotifyTrying t in (Some t', put_tx tid t' st)
             else let t' = update_status now (TsFailed ReferRejected) t
                  in (Some t', emit c (CallTransferFailed c (Some sip_status) (Some (failure_as_str ReferRejected))) (put_tx tid t' st)))
          else (Some t, put_tx tid t st))"

definition handle_notify :: "string \<Rightarrow> nat \<Rightarrow> transfer_controller \<Rightarrow> transfer_transaction option \<times> transfer_controller" where
  "handle_notify tid notify_status st =
     (case hm_get (transactions st) tid of
        None \<Rightarrow> (None, st)
      | Some t0 \<Rightarrow>
          let t = t0\<lparr>tt_sip_status := Some notify_status\<rparr>; now = tc_now st; c = tt_call_id t in
          if notify_status = 100 then
            let t' = update_status now TsNotifyTrying t in (Some t', put_tx tid t' st)
          else if notify_status = 180 \<or> notify_status = 183 then
            let t' = update_status now TsNotifyProgress t in (Some t', put_tx tid t' st)
          else if notify_status = 200 then
            let t' = update_status now TsCompleted t in (Some t', emit c (CallTransferred c) (put_tx tid t' st))
          else if 400 \<le> notify_status then
            (if three_pcc_fallback_enabled (tc_config st) \<and> tt_mode t = SipRefer
             then let t' = update_status now TsNotifyTrying (t\<lparr>tt_mode := ThreePccFallback\<rparr>) in (Some t', put_tx tid t' st)
             else let t' = update_status now (TsFailed ReferRejected) t
                  in (Some t', emit c (CallTransferFailed c (Some notify_status) (Some (failure_as_str ReferRejected))) (put_tx tid t' st)))
          else (Some t, put_tx tid t st))"

definition pending_transfer :: "string \<Rightarrow> transfer_controller \<Rightarrow> string option" where
  "pending_transfer c st =
     map_option transfer_id (find (\<lambda>t. tt_call_id t = c \<and> \<not> is_terminal t) (hm_values (transactions st)))"

definition handle_refer_response_by_call_id :: "string \<Rightarrow> nat \<Rightarrow> transfer_controller \<Rightarrow> transfer_transaction option \<times> transfer_controller" where
  "handle_refer_response_by_call_id c sip_status st =
     (case pending_transfer c st of None \<Rightarrow> (None, st) | Some tid \<Rightarrow> handle_refer_response tid sip_status st)"

definition handle_notify_by_call_id :: "string \<Rightarrow> nat \<Rightarrow> transfer_controller \<Rightarrow> transfer_transaction option \<times> transfer_controller" where
  "handle_notify_by_call_id c notify_status st =
     (case pending_transfer c st of None \<Rightarrow> (None, st) | Some tid \<Rightarrow> handle_notify tid notify_status st)"

section \<open>The fallback\<close>

definition fallback_to_3pcc :: "string \<Rightarrow> transfer_controller \<Rightarrow> transfer_transaction option \<times> transfer_controller" where
  "fallback_to_3pcc tid st =
     (case hm_get (transactions st) tid of
        None \<Rightarrow> (None, st)
      | Some t \<Rightarrow>
          if \<not> three_pcc_fallback_enabled (tc_config st)
          then let t' = update_status (tc_now st) (TsFailed ReferRejected) t; c = tt_call_id t'
               in (Some t', emit c (CallTransferFailed c (tt_sip_status t') (Some (failure_as_str ReferRejected))) (put_tx tid t' st))
          else let t' = update_status (tc_now st) TsNotifyTrying (t\<lparr>tt_mode := ThreePccFallback\<rparr>) in (Some t', put_tx tid t' st))"

definition originate_for_3pcc ::
  "transfer_lib \<Rightarrow> string \<Rightarrow> string \<Rightarrow> sip_server \<Rightarrow> string \<Rightarrow> string \<Rightarrow> transfer_controller \<Rightarrow> unit result \<times> transfer_controller" where
  "originate_for_3pcc lib c target server tid original st =
     (let realm = (case Option.bind (sv_realms server) (\<lambda>rs. case rs of [] \<Rightarrow> None | r # _ \<Rightarrow> Some r) of Some r \<Rightarrow> r | None \<Rightarrow> sv_addr server)
      in case tl_parse_uri lib target of
           Inl e \<Rightarrow> (Inl (''Invalid target URI: '' @ e), st)
         | Inr _ \<Rightarrow>
             (case tl_parse_uri lib (''sip:transfer@'' @ realm) of
                Inl e \<Rightarrow> (Inl (''Invalid caller URI: '' @ e), st)
              | Inr _ \<Rightarrow>
                  (case tl_offer lib (''3pcc-'' @ c) of
                     Inl e \<Rightarrow> (Inl (''Failed to generate SDP: '' @ e), st)
                   | Inr _ \<Rightarrow>
                       (Inr (), st\<lparr>tc_tasks := tc_tasks st @
                          [\<lparr>ot_call_id = c, ot_target = target, ot_transfer_id = tid, ot_original_call_id = original\<rparr>]\<rparr>))))"

definition execute_3pcc_transfer :: "transfer_lib \<Rightarrow> string \<Rightarrow> transfer_controller \<Rightarrow> transfer_outcome \<times> transfer_controller" where
  "execute_3pcc_transfer lib tid st =
     (case hm_get (transactions st) tid of
        None \<Rightarrow> (Inl InvalidState, st)
      | Some t \<Rightarrow>
          if tt_mode t \<noteq> ThreePccFallback then (Inl InvalidState, st)
          else case tc_sip_server st of
            None \<Rightarrow> (Inl InternalError, st)
          | Some server \<Rightarrow>
              (case tc_get_handle (tt_call_id t) st of
                 None \<Rightarrow> (Inl InvalidState, st)
               | Some h \<Rightarrow>
                   let c = tt_call_id t; st1 = snd (send_to h (CmdHold c (Some ''hold.wav'')) st);
                       (new_call, st2) = tc_new_uuid st1
                   in case originate_for_3pcc lib new_call (tt_target t) server tid c st2 of
                        (Inr _, st3) \<Rightarrow>
                          (Inr t, emit c (CallTransferred c)
                             (modify_tx tid (\<lambda>t. update_status (tc_now st) TsNotifyProgress (t\<lparr>consultation_call_id := Some new_call\<rparr>)) st3))
                      | (Inl e, st3) \<Rightarrow>
                          (Inl ThreePccFailed,
                           emit c (CallTransferFailed c None (Some (''3pcc_originate_failed: '' @ e)))
                             (modify_tx tid (\<lambda>t. (update_status (tc_now st) (TsFailed ThreePccFailed) t)
                                                    \<lparr>tt_error_message := Some (''Originate failed: '' @ e)\<rparr>)
                               (snd (send_to h (CmdUnhold c) st3))))))"

text \<open>The steps of the task: it registers the call, reports its progress, and ends with an answer, a refusal, an error or a timeout.
  After an answer it schedules the bridge, which comes half a second later.\<close>

definition task_start :: "nat \<Rightarrow> int \<Rightarrow> originate_task \<Rightarrow> transfer_controller \<Rightarrow> transfer_controller" where
  "task_start channel started task st =
     st\<lparr>call_registry := upsert
         \<lparr>ce_session_id = ot_call_id task, ce_caller = Some ''transfer'', ce_callee = Some (ot_target task), ce_direction = ''outbound'',
          ce_started_at = started, ce_answered_at = None, ce_status = StRinging\<rparr>
         \<lparr>sh_session_id = ot_call_id task, sh_channel = channel\<rparr> (call_registry st)\<rparr>"

datatype dialog_progress = DialogCalling | DialogEarly | DialogOther

fun task_progress :: "dialog_progress \<Rightarrow> originate_task \<Rightarrow> transfer_controller \<Rightarrow> transfer_controller" where
  "task_progress DialogCalling task st = emit (ot_call_id task) (CallRinging (ot_call_id task)) st"
| "task_progress DialogEarly task st = emit (ot_call_id task) (CallEarlyMedia (ot_call_id task)) st"
| "task_progress DialogOther task st = st"

datatype originate_end = Answered | Refused nat | OriginateError | OriginateTimeout | NoResponse

fun task_end :: "int \<Rightarrow> originate_end \<Rightarrow> originate_task \<Rightarrow> transfer_controller \<Rightarrow> transfer_controller" where
  "task_end now Answered task st =
     (let st1 = st\<lparr>call_registry := update_entry (ot_call_id task)
                      (\<lambda>e. e\<lparr>ce_answered_at := Some now, ce_status := StTalking\<rparr>) (call_registry st)\<rparr>;
          st2 = emit (ot_call_id task) (CallAnswered (ot_call_id task)) st1
      in st2\<lparr>tc_bridges := tc_bridges st2 @ [task]\<rparr>)"
| "task_end now _ task st = st\<lparr>call_registry := remove_session (ot_call_id task) (call_registry st)\<rparr>"

definition task_bridge :: "originate_task \<Rightarrow> transfer_controller \<Rightarrow> transfer_controller" where
  "task_bridge task st =
     (let c = ot_original_call_id task in
      case get_handle c (call_registry st) of
        None \<Rightarrow> st
      | Some h \<Rightarrow>
          (case send_to h (CmdBridge c (ot_call_id task)) st of
             (Inr _, st1) \<Rightarrow> emit c (CallTransferred c) st1
           | (Inl e, st1) \<Rightarrow> emit c (CallTransferFailed c None (Some (''bridge_failed: '' @ e))) st1))"

definition complete_3pcc_transfer :: "string \<Rightarrow> transfer_controller \<Rightarrow> transfer_outcome \<times> transfer_controller" where
  "complete_3pcc_transfer tid st =
     (case hm_get (transactions st) tid of
        None \<Rightarrow> (Inl InvalidState, st)
      | Some t \<Rightarrow>
          if tt_mode t \<noteq> ThreePccFallback then (Inl InvalidState, st)
          else case consultation_call_id t of
            None \<Rightarrow> (Inl InvalidState, st)
          | Some consultation \<Rightarrow>
              (case tc_get_handle (tt_call_id t) st of
                 None \<Rightarrow> (Inl InvalidState, st)
               | Some h \<Rightarrow>
                   let c = tt_call_id t
                   in (Inr t, emit c (CallTransferred c)
                        (modify_tx tid (update_status (tc_now st) TsCompleted) (snd (send_to h (CmdBridge c consultation) st))))))"

definition handle_3pcc_failure :: "string \<Rightarrow> string \<Rightarrow> transfer_controller \<Rightarrow> (transfer_failure_reason + unit) \<times> transfer_controller" where
  "handle_3pcc_failure tid reason st =
     (case hm_get (transactions st) tid of
        None \<Rightarrow> (Inl InvalidState, st)
      | Some t \<Rightarrow>
          let c = tt_call_id t;
              st1 = (case tc_get_handle c st of
                       None \<Rightarrow> st
                     | Some h \<Rightarrow> snd (send_to h (CmdUnhold c) (snd (send_to h (CmdUnhold c) st))))
          in (Inr (), emit c (CallTransferFailed c None (Some (''3pcc_failed: '' @ reason)))
               (modify_tx tid (\<lambda>t. (update_status (tc_now st) (TsFailed ThreePccFailed) t)\<lparr>tt_error_message := Some reason\<rparr>) st1)))"

section \<open>The table of transfers\<close>

definition get_transaction :: "string \<Rightarrow> transfer_controller \<Rightarrow> transfer_transaction option" where
  "get_transaction tid st = hm_get (transactions st) tid"

definition get_transaction_by_call_id :: "string \<Rightarrow> transfer_controller \<Rightarrow> transfer_transaction option" where
  "get_transaction_by_call_id c st = find (\<lambda>t. tt_call_id t = c) (hm_values (transactions st))"

definition cleanup_terminal_transactions :: "transfer_controller \<Rightarrow> nat \<times> transfer_controller" where
  "cleanup_terminal_transactions st =
     (let rest = hm_retain (\<lambda>_ t. \<not> is_terminal t) (transactions st)
      in (length (transactions st) - length rest, st\<lparr>transactions := rest\<rparr>))"

definition get_active_transfer_count :: "transfer_controller \<Rightarrow> nat" where
  "get_active_transfer_count st = length (filter (\<lambda>t. \<not> is_terminal t) (hm_values (transactions st)))"

definition cancel_all_transfers_for_call :: "string \<Rightarrow> transfer_controller \<Rightarrow> nat \<times> transfer_controller" where
  "cancel_all_transfers_for_call c st =
     (let hit = (\<lambda>t. tt_call_id t = c \<and> \<not> is_terminal t)
      in (length (filter hit (hm_values (transactions st))),
          st\<lparr>transactions := map (\<lambda>(k, t). (k, if hit t then update_status (tc_now st) TsCanceled t else t)) (transactions st)\<rparr>))"

section \<open>What an operation leaves alone\<close>

lemma emit_frame [simp]:
  "transactions (emit c e st) = transactions st" "tc_config (emit c e st) = tc_config st" "tc_uuid (emit c e st) = tc_uuid st"
  "tc_uuids_used (emit c e st) = tc_uuids_used st" "tc_commands (emit c e st) = tc_commands st" "call_registry (emit c e st) = call_registry st"
  by (simp_all add: emit_def)

lemma send_to_frame [simp]:
  "transactions (snd (send_to h m st)) = transactions st" "tc_config (snd (send_to h m st)) = tc_config st" "tc_uuid (snd (send_to h m st)) = tc_uuid st"
  "tc_uuids_used (snd (send_to h m st)) = tc_uuids_used st" "gateway (snd (send_to h m st)) = gateway st"
  "call_registry (snd (send_to h m st)) = call_registry st"
  by (simp_all add: send_to_def)

lemma new_uuid_frame [simp]:
  "transactions (snd (tc_new_uuid st)) = transactions st" "tc_config (snd (tc_new_uuid st)) = tc_config st" "tc_uuid (snd (tc_new_uuid st)) = tc_uuid st"
  "tc_uuids_used (snd (tc_new_uuid st)) = Suc (tc_uuids_used st)" "fst (tc_new_uuid st) = tc_uuid st (tc_uuids_used st)"
  "call_registry (snd (tc_new_uuid st)) = call_registry st"
  by (simp_all add: tc_new_uuid_def)

text \<open>What the operations do to the table: nothing, one new transfer under a new id, or new values for transfers that are not over.\<close>

definition fresh_id :: "transfer_controller \<Rightarrow> transfer_controller \<Rightarrow> string \<Rightarrow> bool" where
  "fresh_id st st' k \<longleftrightarrow> (\<exists>i. tc_uuids_used st \<le> i \<and> i < tc_uuids_used st' \<and> k = tc_uuid st i)"

definition table_step :: "transfer_controller \<Rightarrow> transfer_controller \<Rightarrow> bool" where
  "table_step st st' \<longleftrightarrow>
     tc_config st' = tc_config st \<and> tc_uuid st' = tc_uuid st \<and> tc_uuids_used st \<le> tc_uuids_used st'
     \<and> (hm_wf (transactions st) \<longrightarrow> hm_wf (transactions st'))
     \<and> length (transactions st) \<le> length (transactions st')
     \<and> length (transactions st') \<le> max (length (transactions st)) (max_concurrent_transfers (tc_config st))
     \<and> (\<forall>k t. hm_get (transactions st) k = Some t \<longrightarrow> \<not> fresh_id st st' k \<longrightarrow> is_terminal t \<longrightarrow> hm_get (transactions st') k = Some t)
     \<and> (\<forall>k t. hm_get (transactions st') k = Some t \<longrightarrow> hm_get (transactions st) k = None \<longrightarrow> fresh_id st st' k)
     \<and> (\<forall>k t. hm_get (transactions st') k = Some t \<longrightarrow> transfer_id t = k
          \<or> (\<exists>t0. hm_get (transactions st) k = Some t0 \<and> transfer_id t = transfer_id t0))"

lemma table_same:
  "\<lbrakk>transactions st' = transactions st; tc_config st' = tc_config st; tc_uuid st' = tc_uuid st; tc_uuids_used st \<le> tc_uuids_used st'\<rbrakk> \<Longrightarrow> table_step st st'"
  by (simp add: table_step_def)

lemma table_put:
  assumes "hm_get (transactions st) k = Some t0" "\<not> is_terminal t0" "transfer_id t = transfer_id t0"
    and "transactions st' = hm_insert k t (transactions st)" "tc_config st' = tc_config st" "tc_uuid st' = tc_uuid st" "tc_uuids_used st' = tc_uuids_used st"
  shows "table_step st st'"
  using assms by (auto simp: table_step_def hm_length_insert)

lemma table_insert:
  assumes "insert_transaction t st1 = (r, st')" "transactions st1 = transactions st" "tc_config st1 = tc_config st" "tc_uuid st1 = tc_uuid st"
    "tc_uuids_used st < tc_uuids_used st1" "transfer_id t = tc_uuid st (tc_uuids_used st)"
  shows "table_step st st'"
proof (cases r)
  case (Inl e)
  then have "st' = st1" using assms(1) by (simp add: insert_transaction_def split: if_splits)
  then show ?thesis using assms by (intro table_same) auto
next
  case (Inr u)
  then have st': "st' = put_tx (transfer_id t) t st1" "length (transactions st) < max_concurrent_transfers (tc_config st)"
    using assms(1-3) by (auto simp: insert_transaction_def split: if_splits)
  have "fresh_id st st' (transfer_id t)" using assms(4-6) st'(1) by (auto simp: fresh_id_def)
  then show ?thesis using st' assms(2-5) by (auto simp: table_step_def hm_length_insert split: if_splits)
qed

lemma table_view:
  "\<lbrakk>table_step st st'; transactions st'' = transactions st'; tc_config st'' = tc_config st'; tc_uuid st'' = tc_uuid st';
    tc_uuids_used st'' = tc_uuids_used st'\<rbrakk> \<Longrightarrow> table_step st st''"
  by (simp add: table_step_def fresh_id_def)

lemma table_trans:
  assumes "table_step st1 st2" "table_step st2 st3" shows "table_step st1 st3"
proof -
  have used: "tc_uuids_used st1 \<le> tc_uuids_used st2" "tc_uuids_used st2 \<le> tc_uuids_used st3" "tc_uuid st2 = tc_uuid st1"
    using assms by (simp_all add: table_step_def)
  have fresh: "fresh_id st1 st2 k \<or> fresh_id st2 st3 k \<Longrightarrow> fresh_id st1 st3 k" for k
  proof -
    assume "fresh_id st1 st2 k \<or> fresh_id st2 st3 k"
    then obtain i where "tc_uuids_used st1 \<le> i" "i < tc_uuids_used st3" "k = tc_uuid st1 i"
      unfolding fresh_id_def used(3) using used(1,2) by (metis order_less_le_trans order_trans)
    then show ?thesis unfolding fresh_id_def by blast
  qed
  note s1 = assms(1) [unfolded table_step_def] and s2 = assms(2) [unfolded table_step_def]
  have "hm_get (transactions st3) k = Some t"
    if "hm_get (transactions st1) k = Some t" "\<not> fresh_id st1 st3 k" "is_terminal t" for k t
  proof -
    have "hm_get (transactions st2) k = Some t" using that s1 fresh by blast
    then show ?thesis using that s2 fresh by blast
  qed
  moreover have "fresh_id st1 st3 k" if "hm_get (transactions st3) k = Some t" "hm_get (transactions st1) k = None" for k t
  proof (cases "hm_get (transactions st2) k")
    case None
    then show ?thesis using that(1) s2 fresh by blast
  next
    case (Some t2)
    then show ?thesis using that(2) s1 fresh by blast
  qed
  moreover have "transfer_id t = k \<or> (\<exists>t0. hm_get (transactions st1) k = Some t0 \<and> transfer_id t = transfer_id t0)"
    if in3: "hm_get (transactions st3) k = Some t" for k t
  proof -
    consider "transfer_id t = k" | t2 where "hm_get (transactions st2) k = Some t2" "transfer_id t = transfer_id t2" using in3 s2 by blast
    then show ?thesis using s1 by cases auto
  qed
  moreover have "tc_config st3 = tc_config st1" "tc_uuid st3 = tc_uuid st1" "tc_uuids_used st1 \<le> tc_uuids_used st3"
    "hm_wf (transactions st1) \<longrightarrow> hm_wf (transactions st3)" using s1 s2 by simp_all
  moreover have "length (transactions st1) \<le> length (transactions st3)"
    "length (transactions st3) \<le> max (length (transactions st1)) (max_concurrent_transfers (tc_config st1))"
    using assms unfolding table_step_def by (linarith, simp add: max_def split: if_splits)
  ultimately show ?thesis unfolding table_step_def by blast
qed

definition tx_ok :: "transfer_controller \<Rightarrow> bool" where
  "tx_ok st \<longleftrightarrow> hm_wf (transactions st)
     \<and> (\<forall>k t. hm_get (transactions st) k = Some t \<longrightarrow> transfer_id t = k \<and> (\<exists>i < tc_uuids_used st. k = tc_uuid st i))"

lemma tx_ok_step: "\<lbrakk>table_step st st'; tx_ok st\<rbrakk> \<Longrightarrow> tx_ok st'"
proof -
  assume step: "table_step st st'" and ok: "tx_ok st"
  have "transfer_id t = k \<and> (\<exists>i < tc_uuids_used st'. k = tc_uuid st' i)" if t: "hm_get (transactions st') k = Some t" for k t
  proof
    show "transfer_id t = k" using t step ok unfolding table_step_def tx_ok_def by metis
    show "\<exists>i < tc_uuids_used st'. k = tc_uuid st' i"
    proof (cases "hm_get (transactions st) k")
      case None
      then have "fresh_id st st' k" using t step unfolding table_step_def by blast
      then show ?thesis using step unfolding fresh_id_def table_step_def by metis
    next
      case (Some t0)
      then obtain i where "i < tc_uuids_used st" "k = tc_uuid st i" using ok unfolding tx_ok_def by blast
      then show ?thesis using step unfolding table_step_def by (metis order_less_le_trans)
    qed
  qed
  then show ?thesis using step ok unfolding tx_ok_def table_step_def by blast
qed

section \<open>The operations on the table\<close>

lemma initiate_refer_table: "table_step st (snd (initiate_refer mode c target st))"
proof -
  let ?t = "update_status (tc_now st) TsAccepted (transaction_new (tc_uuid st (tc_uuids_used st)) (tc_now st) c target mode)"
  obtain r st2 where ins: "insert_transaction ?t (snd (tc_new_uuid st)) = (r, st2)" by (cases "insert_transaction ?t (snd (tc_new_uuid st))")
  have "table_step st st2"
    by (rule table_insert [OF ins]) (simp_all add: update_status_def transaction_new_def)
  then show ?thesis
    using ins
    by (auto simp: initiate_refer_def Let_def case_prod_beta table_same table_view split: sum.split option.split)
qed

lemma initiate_refer_stored:
  assumes "initiate_refer mode c target st = (Inr t, st')"
  shows "hm_get (transactions st') (transfer_id t) = Some t \<and> tt_status t = TsAccepted \<and> tt_call_id t = c"
  using assms
  by (auto simp: initiate_refer_def Let_def case_prod_beta insert_transaction_def update_status_def transaction_new_def
      split: sum.splits option.splits if_splits)

lemma try_refer_frame [simp]:
  "transactions (snd (try_refer a f t st)) = transactions st" "tc_config (snd (try_refer a f t st)) = tc_config st"
  "tc_uuid (snd (try_refer a f t st)) = tc_uuid st" "tc_uuids_used (snd (try_refer a f t st)) = tc_uuids_used st"
  by (simp_all add: try_refer_def send_to_def split: option.split)

lemma fail_transfer_table:
  assumes "\<And>t. hm_get (transactions st) tid = Some t \<Longrightarrow> \<not> is_terminal t"
  shows "table_step st (fail_transfer tid reason code st)"
proof (cases "hm_get (transactions st) tid")
  case (Some t)
  show ?thesis
    by (rule table_put [OF Some assms [OF Some], of "(update_status (tc_now st) (TsFailed reason) t)\<lparr>tt_sip_status := code\<rparr>"])
      (simp_all add: fail_transfer_def Some update_status_def)
qed (simp add: fail_transfer_def table_same)

lemma execute_table:
  "table_step st (snd (case initiate_refer mode c target st of
       (Inl e, st1) \<Rightarrow> (Inl e, st1) | (Inr t, st1) \<Rightarrow> dispatch_or_fail t (try_refer a f t st1)))"
proof -
  obtain r st1 where init: "initiate_refer mode c target st = (r, st1)" by (cases "initiate_refer mode c target st")
  then have step: "table_step st st1" using initiate_refer_table [of st mode c target] by simp
  show ?thesis
  proof (cases r)
    case (Inr t)
    obtain q st2 where tried: "try_refer a f t st1 = (q, st2)" by (cases "try_refer a f t st1")
    then have st2: "transactions st2 = transactions st1" "table_step st1 st2"
      using try_refer_frame [of a f t st1] by (auto intro: table_same)
    have "table_step st1 (snd (dispatch_or_fail t (q, st2)))"
    proof (cases q)
      case (Inl e)
      have "table_step st2 (fail_transfer (transfer_id t) InternalError None st2)"
        using initiate_refer_stored [OF init [unfolded Inr]] by (intro fail_transfer_table) (simp add: st2(1) is_terminal_def)
      then show ?thesis using Inl table_trans [OF st2(2)] by (simp add: dispatch_or_fail_def)
    qed (use st2(2) in \<open>simp add: dispatch_or_fail_def\<close>)
    then show ?thesis using table_trans [OF step] init Inr tried by simp
  qed (use init step in simp)
qed

lemma attended_table: "table_step st (snd (initiate_attended_transfer c target limit st))"
proof -
  let ?t = "(transaction_new (tc_uuid st (tc_uuids_used st)) (tc_now st) c target SipRefer)
              \<lparr>consultation_call_id := Some (tc_uuid st (Suc (tc_uuids_used st))), original_leg := Some c\<rparr>"
  obtain r st2 where ins: "insert_transaction ?t (snd (tc_new_uuid (snd (tc_new_uuid st)))) = (r, st2)"
    by (cases "insert_transaction ?t (snd (tc_new_uuid (snd (tc_new_uuid st))))")
  have "table_step st st2"
    by (rule table_insert [OF ins]) (simp_all add: transaction_new_def)
  then show ?thesis
    using ins
    by (auto simp: initiate_attended_transfer_def Let_def case_prod_beta table_same table_view split: sum.split option.split)
qed

lemma attended_end_table:
  "transactions (snd (complete_attended_transfer c consultation st)) = transactions st"
  "table_step st (snd (complete_attended_transfer c consultation st))"
  "transactions (snd (cancel_attended_transfer consultation st)) = transactions st"
  "table_step st (snd (cancel_attended_transfer consultation st))"
  by (auto simp: complete_attended_transfer_def cancel_attended_transfer_def Let_def intro!: table_same split: option.split)

lemma report_table:
  assumes "hm_get (transactions st) tid = Some t0" "\<not> is_terminal t0"
  shows "table_step st (snd (handle_refer_response tid code st))" "table_step st (snd (handle_notify tid code st))"
proof -
  have put: "table_step st st'" if "transactions st' = hm_insert tid t (transactions st)" "transfer_id t = transfer_id t0"
      "tc_config st' = tc_config st" "tc_uuid st' = tc_uuid st" "tc_uuids_used st' = tc_uuids_used st" for st' t
    using table_put [OF assms] that by blast
  show "table_step st (snd (handle_refer_response tid code st))"
    by (auto simp: handle_refer_response_def assms(1) Let_def update_status_def intro!: put)
  show "table_step st (snd (handle_notify tid code st))"
    by (auto simp: handle_notify_def assms(1) Let_def update_status_def intro!: put)
qed

lemma find_SomeD: "find P xs = Some x \<Longrightarrow> x \<in> set xs \<and> P x"
  by (induction xs) (auto split: if_splits)

lemma pending_transfer_Some:
  assumes "tx_ok st" "pending_transfer c st = Some tid"
  obtains t where "hm_get (transactions st) tid = Some t" "\<not> is_terminal t" "tt_call_id t = c"
proof -
  obtain t where t: "t \<in> set (hm_values (transactions st))" "tt_call_id t = c" "\<not> is_terminal t" "tid = transfer_id t"
    using assms(2) unfolding pending_transfer_def by (auto dest!: find_SomeD)
  then obtain k where "(k, t) \<in> set (transactions st)" by auto
  then have get: "hm_get (transactions st) k = Some t" using assms(1) unfolding tx_ok_def by (auto simp: hm_get_in_set)
  then have "k = tid" using assms(1) t(4) unfolding tx_ok_def by blast
  then show thesis using that get t by blast
qed

lemma report_by_call_table:
  assumes "tx_ok st"
  shows "table_step st (snd (handle_refer_response_by_call_id c code st))" "table_step st (snd (handle_notify_by_call_id c code st))"
  unfolding handle_refer_response_by_call_id_def handle_notify_by_call_id_def
  by (auto simp: table_same split: option.split elim!: pending_transfer_Some [OF assms] intro: report_table)

section \<open>The controller at work\<close>

text \<open>The operations that the processor of the interface calls, and what happens around the controller: the registry, the gateway and the
  channels change, time passes.\<close>

inductive tc_step :: "transfer_controller \<Rightarrow> transfer_controller \<Rightarrow> bool" where
  tc_blind: "tc_step st (snd (execute_blind_transfer c target st))"
| tc_replace: "tc_step st (snd (execute_replace_transfer c target st))"
| tc_attended: "tc_step st (snd (initiate_attended_transfer c target limit st))"
| tc_complete: "tc_step st (snd (complete_attended_transfer c consultation st))"
| tc_cancel: "tc_step st (snd (cancel_attended_transfer consultation st))"
| tc_refer_response: "tc_step st (snd (handle_refer_response_by_call_id c code st))"
| tc_notify: "tc_step st (snd (handle_notify_by_call_id c code st))"
| tc_environment: "tc_step st (st\<lparr>call_registry := r, gateway := g, tc_closed := gone, tc_now := now, tc_wall := wall\<rparr>)"

lemma tc_step_table: "\<lbrakk>tc_step st st'; tx_ok st\<rbrakk> \<Longrightarrow> table_step st st'"
proof (induction rule: tc_step.induct)
  case (tc_blind st c target)
  then show ?case
    using execute_table [where st = st and mode = SipRefer and c = c and target = target and a = False and f = "''Failed to send transfer command: ''"]
    by (simp only: execute_blind_transfer_def initiate_blind_transfer_def try_refer_transfer_def)
next
  case (tc_replace st c target)
  then show ?case
    using execute_table [where st = st and mode = Replaces and c = c and target = target and a = True and f = "''Failed to send replace transfer command: ''"]
    by (simp only: execute_replace_transfer_def initiate_replace_transfer_def try_refer_transfer_with_replaces_def)
qed (simp_all add: attended_table attended_end_table report_by_call_table table_same)

lemma tc_step_ok: "\<lbrakk>tc_step st st'; tx_ok st\<rbrakk> \<Longrightarrow> tx_ok st'"
  using tc_step_table tx_ok_step by blast

lemma tc_steps_table: "\<lbrakk>tc_step\<^sup>*\<^sup>* st st'; tx_ok st\<rbrakk> \<Longrightarrow> table_step st st' \<and> tx_ok st'"
proof (induction rule: rtranclp_induct)
  case (step y z)
  then show ?case using tc_step_table [of y z] tx_ok_step [of y z] table_trans [of st y z] by blast
qed (simp add: table_same)

lemma used_not_fresh: "\<lbrakk>inj (tc_uuid st); tx_ok st; hm_get (transactions st) k = Some t\<rbrakk> \<Longrightarrow> \<not> fresh_id st st' k"
  unfolding tx_ok_def fresh_id_def inj_def by (metis leD)

definition demo_controller :: transfer_controller where
  "demo_controller =
     \<lparr>tc_config = default_transfer_config\<lparr>max_concurrent_transfers := 1\<rparr>, transactions = [],
      call_registry = upsert \<lparr>ce_session_id = ''c1'', ce_caller = None, ce_callee = None, ce_direction = ''inbound'', ce_started_at = 0,
        ce_answered_at = Some 0, ce_status = StTalking\<rparr> \<lparr>sh_session_id = ''c1'', sh_channel = 7\<rparr> registry_new,
      gateway = with_config 10 60, tc_sip_server = None, tc_commands = [], tc_closed = (\<lambda>_. False), tc_tasks = [], tc_bridges = [],
      tc_uuid = string_of_nat, tc_uuids_used = 0, tc_now = 0, tc_wall = 0\<rparr>"

lemma demo_controller_ok: "tx_ok demo_controller" by (simp add: tx_ok_def demo_controller_def)

section \<open>Properties of the controller\<close>

text \<open>C24: A transfer that is completed, failed, cancelled or timed out stays as it is, whatever the interface asks for and whatever reports
  arrive for its call: no later operation changes its entry in the table.\<close>

theorem ended_transfer_is_final:
  assumes "tc_step\<^sup>*\<^sup>* st st'" "tx_ok st" "inj (tc_uuid st)" "get_transaction tid st = Some t" "is_terminal t"
  shows "get_transaction tid st' = Some t"
proof -
  have "table_step st st'" using tc_steps_table [OF assms(1,2)] by blast
  moreover have "\<not> fresh_id st st' tid" using used_not_fresh [OF assms(3,2)] assms(4) by (simp add: get_transaction_def)
  ultimately show ?thesis using assms(4,5) unfolding table_step_def get_transaction_def by blast
qed

lemma string_of_nat_inj: "inj string_of_nat"
  by (rule injI) (metis digits_val_string_of_nat option.inject)

definition demo_transferred :: transfer_controller where
  "demo_transferred = snd (execute_blind_transfer ''c1'' ''sip:b@x'' demo_controller)"

definition demo_transaction :: transfer_transaction where
  "demo_transaction = update_status 0 TsAccepted (transaction_new (string_of_nat 0) 0 ''c1'' ''sip:b@x'' SipRefer)"

definition demo_completed :: transfer_controller where
  "demo_completed = snd (handle_notify_by_call_id ''c1'' 200 demo_transferred)"

lemma demo_transferred:
  "transactions demo_transferred = [(string_of_nat 0, demo_transaction)]"
  "tc_config demo_transferred = default_transfer_config\<lparr>max_concurrent_transfers := 1\<rparr>" "tc_uuid demo_transferred = string_of_nat"
proof -
  have verify: "verify_call_state_for_transfer ''c1'' demo_controller = Inr ()"
    by (simp add: verify_call_state_for_transfer_def demo_controller_def upsert_def get_entry_def)
  have handle: "tc_get_handle ''c1'' st = Some \<lparr>sh_session_id = ''c1'', sh_channel = 7\<rparr>" if "call_registry st = call_registry demo_controller" for st
    using that by (simp add: tc_get_handle_def demo_controller_def upsert_def get_handle_def)
  have fields: "refer_enabled (tc_config demo_controller)" "tc_uuid demo_controller = string_of_nat" "tc_uuids_used demo_controller = 0"
      "tc_now demo_controller = 0" "transactions demo_controller = []" "max_concurrent_transfers (tc_config demo_controller) = 1"
      "tc_closed demo_controller = (\<lambda>_. False)" "tc_config demo_controller = default_transfer_config\<lparr>max_concurrent_transfers := 1\<rparr>"
    by (simp_all add: demo_controller_def default_transfer_config_def)
  let ?st = "emit ''c1'' (CallTransferAccepted ''c1'') (demo_controller\<lparr>tc_uuids_used := 1, transactions := [(string_of_nat 0, demo_transaction)]\<rparr>)"
  have init: "initiate_refer SipRefer ''c1'' ''sip:b@x'' demo_controller = (Inr demo_transaction, ?st)"
    unfolding initiate_refer_def
    by (simp add: verify fields(1-6) tc_new_uuid_def insert_transaction_def handle demo_transaction_def update_status_def transaction_new_def Let_def)
  have "try_refer False f demo_transaction ?st = (Inr (), ?st\<lparr>tc_commands := tc_commands ?st @ [(7, CmdTransfer ''c1'' ''sip:b@x'' False)]\<rparr>)" for f
    by (simp add: try_refer_def handle send_to_def emit_def fields(7) demo_transaction_def update_status_def transaction_new_def)
  then have eq: "demo_transferred = ?st\<lparr>tc_commands := tc_commands ?st @ [(7, CmdTransfer ''c1'' ''sip:b@x'' False)]\<rparr>"
    by (simp add: demo_transferred_def execute_blind_transfer_def initiate_blind_transfer_def init try_refer_transfer_def dispatch_or_fail_def)
  show "transactions demo_transferred = [(string_of_nat 0, demo_transaction)]"
    "tc_config demo_transferred = default_transfer_config\<lparr>max_concurrent_transfers := 1\<rparr>" "tc_uuid demo_transferred = string_of_nat"
    unfolding eq by (simp_all add: emit_def fields)
qed

lemma demo_pending: "pending_transfer ''c1'' demo_transferred = Some (string_of_nat 0)"
  by (simp add: pending_transfer_def demo_transferred demo_transaction_def update_status_def transaction_new_def is_terminal_def)

lemma demo_completed:
  "map_option is_terminal (get_transaction (string_of_nat 0) demo_completed) = Some True" "tc_uuid demo_completed = string_of_nat"
  "max_concurrent_transfers (tc_config demo_completed) \<le> length (transactions demo_completed)"
  by (simp_all add: demo_completed_def handle_notify_by_call_id_def demo_pending handle_notify_def demo_transferred get_transaction_def
      update_status_def is_terminal_def Let_def)

lemma demo_ok: "tx_ok demo_transferred" "tx_ok demo_completed"
proof -
  show "tx_ok demo_transferred" unfolding demo_transferred_def by (rule tc_step_ok [OF tc_blind demo_controller_ok])
  then show "tx_ok demo_completed" unfolding demo_completed_def by (rule tc_step_ok [OF tc_notify])
qed

theorem ended_transfer_is_final_witness:
  "get_transaction (string_of_nat 0) (snd (handle_notify_by_call_id ''c1'' 486 demo_completed)) = get_transaction (string_of_nat 0) demo_completed"
proof -
  obtain t where t: "get_transaction (string_of_nat 0) demo_completed = Some t" "is_terminal t" using demo_completed(1) by auto
  have "inj (tc_uuid demo_completed)" by (simp add: demo_completed(2) string_of_nat_inj)
  from ended_transfer_is_final [OF r_into_rtranclp [where r = tc_step, OF tc_notify] demo_ok(2) this t] show ?thesis using t(1) by simp
qed

text \<open>The table of transfers never shrinks: none of the operations that the interface uses removes an entry. Once as many transfers have been
  asked for as may go on at a time, every further transfer is refused for ever, although all the earlier ones may be over.\<close>

theorem full_table_refuses_for_ever:
  assumes "tx_ok st" "max_concurrent_transfers (tc_config st) \<le> length (transactions st)" "tc_step\<^sup>*\<^sup>* st st'"
  shows "\<nexists>t. fst (execute_blind_transfer c target st') = Inr t \<or> fst (execute_replace_transfer c target st') = Inr t
           \<or> fst (initiate_attended_transfer c target limit st') = Inr t"
proof -
  have "table_step st st'" using tc_steps_table [OF assms(3,1)] by blast
  then have full: "max_concurrent_transfers (tc_config st') \<le> length (transactions st')"
    using assms(2) unfolding table_step_def by auto
  have ins: "insert_transaction t s = (Inl InternalError, s)" if "transactions s = transactions st'" "tc_config s = tc_config st'" for t s
    using full that by (simp add: insert_transaction_def)
  have none: "\<nexists>t. fst (initiate_refer mode c target st') = Inr t" for mode
    by (auto simp: initiate_refer_def Let_def case_prod_beta ins split: sum.split)
  have "\<nexists>t. fst (case initiate_refer mode c target st' of
      (Inl e, st1) \<Rightarrow> (Inl e, st1) | (Inr t, st1) \<Rightarrow> dispatch_or_fail t (try_refer a f t st1)) = Inr t" for mode a f
  proof -
    obtain e where "fst (initiate_refer mode c target st') = Inl e"
      using none [of mode] by (cases "fst (initiate_refer mode c target st')") auto
    then show ?thesis by (cases "initiate_refer mode c target st'") simp
  qed
  moreover have "\<nexists>t. fst (initiate_attended_transfer c target limit st') = Inr t"
    by (auto simp: initiate_attended_transfer_def Let_def case_prod_beta ins split: sum.split)
  ultimately show ?thesis
    by (simp only: execute_blind_transfer_def initiate_blind_transfer_def try_refer_transfer_def execute_replace_transfer_def
        initiate_replace_transfer_def try_refer_transfer_with_replaces_def) blast
qed

theorem full_table_refuses_for_ever_witness:
  "\<nexists>t. fst (execute_blind_transfer ''c1'' ''sip:d@x'' demo_completed) = Inr t"
  using full_table_refuses_for_ever [OF demo_ok(2) demo_completed(3) rtranclp.rtrancl_refl] by blast

text \<open>The end of an attended transfer is returned to the caller and reported, but not recorded: the table is as before.\<close>

lemma attended_end_not_recorded:
  "fst (complete_attended_transfer c consultation st) = Inr t \<Longrightarrow> is_terminal t \<and> transactions (snd (complete_attended_transfer c consultation st)) = transactions st"
  "fst (cancel_attended_transfer consultation st) = Inr t \<Longrightarrow> is_terminal t \<and> transactions (snd (cancel_attended_transfer consultation st)) = transactions st"
  using attended_end_table
  by (auto simp: complete_attended_transfer_def cancel_attended_transfer_def Let_def is_terminal_def update_status_def split: option.splits)

text \<open>When a blind transfer is rejected and the fallback is enabled, nobody is told: the owner of the call gets no event and the session no
  command. The transfer is only marked as trying.\<close>

theorem rejected_transfer_is_silent:
  assumes "tx_ok st" "pending_transfer c st = Some tid" "get_transaction tid st = Some t" "tt_mode t = SipRefer"
    "three_pcc_fallback_enabled (tc_config st)" "400 \<le> code"
  shows "let st1 = snd (handle_refer_response_by_call_id c code st); st2 = snd (handle_notify_by_call_id c code st)
         in gateway st1 = gateway st \<and> tc_commands st1 = tc_commands st \<and> map_option tt_status (get_transaction tid st1) = Some TsNotifyTrying
            \<and> gateway st2 = gateway st \<and> tc_commands st2 = tc_commands st \<and> map_option tt_status (get_transaction tid st2) = Some TsNotifyTrying"
  using assms
  by (simp add: handle_refer_response_by_call_id_def handle_notify_by_call_id_def handle_refer_response_def handle_notify_def Let_def
      get_transaction_def update_status_def)

theorem rejected_transfer_is_silent_witness:
  "gateway (snd (handle_refer_response_by_call_id ''c1'' 603 demo_transferred)) = gateway demo_transferred"
proof -
  have "get_transaction (string_of_nat 0) demo_transferred = Some demo_transaction" "tt_mode demo_transaction = SipRefer"
    "three_pcc_fallback_enabled (tc_config demo_transferred)"
    by (simp_all add: get_transaction_def demo_transferred demo_transaction_def update_status_def transaction_new_def default_transfer_config_def)
  from rejected_transfer_is_silent [OF demo_ok(1) demo_pending this, of 603] show ?thesis by (simp add: Let_def)
qed

text \<open>A transfer that fails for want of a session stays in the table as accepted.\<close>

lemma failed_initiation_leaks:
  assumes "refer_enabled (tc_config st)" "verify_call_state_for_transfer c st = Inr ()" "tc_get_handle c st = None"
    "length (transactions st) < max_concurrent_transfers (tc_config st)"
  shows "fst (execute_blind_transfer c target st) = Inl InvalidState
       \<and> map_option tt_status (get_transaction (tc_uuid st (tc_uuids_used st)) (snd (execute_blind_transfer c target st))) = Some TsAccepted"
  using assms
  by (simp add: execute_blind_transfer_def initiate_blind_transfer_def initiate_refer_def Let_def case_prod_beta insert_transaction_def
      transaction_new_def update_status_def get_transaction_def tc_get_handle_def)

text \<open>The owner hears that the call is transferred when the gateway begins to call the target, and nothing when the target refuses.\<close>

lemma refused_target_is_silent:
  "e \<noteq> Answered \<Longrightarrow> gateway (task_end now e task st) = gateway st \<and> transactions (task_end now e task st) = transactions st
     \<and> tc_commands (task_end now e task st) = tc_commands st"
  by (cases e) simp_all

text \<open>After a clean-up exactly the transfers that go on are left.\<close>

lemma cleanup_exact:
  assumes "tx_ok st"
  shows "get_transaction tid (snd (cleanup_terminal_transactions st)) =
           (case get_transaction tid st of Some t \<Rightarrow> if is_terminal t then None else Some t | None \<Rightarrow> None)
       \<and> length (transactions (snd (cleanup_terminal_transactions st))) = get_active_transfer_count st"
proof -
  have "length (hm_retain (\<lambda>_ t. \<not> is_terminal t) m) = length (filter (\<lambda>t. \<not> is_terminal t) (hm_values m))" for m :: "(string, transfer_transaction) hmap"
    by (induction m) (auto simp: hm_retain_def)
  then show ?thesis
    using assms by (auto simp: tx_ok_def cleanup_terminal_transactions_def get_transaction_def get_active_transfer_count_def hm_get_retain Let_def split: option.split)
qed

end
