(* ===== verification/Spec2Isabelle.thy ===== *)
theory Spec2Isabelle
  imports Call_Entry Cluster Dialog_Timers Acl Routing Locator Call_Queue Conference Queue_App Ivr_App Voicemail Registrar Supervisor Wire Negotiate Transfers
begin

text \<open>
  A verification library for the media gateway (a SIP proxy and PBX in Rust), beside the sources under
  \<open>src/src\<close>.  Names of files below are relative to that directory.

  \<^bold>\<open>The program.\<close>  A SIP transaction enters \<open>proxy/server.rs\<close>, which runs the modules of the proxy over it.
  The access control module (\<open>proxy/acl.rs\<close>) refuses unwelcome sources and recognises trunks; the authentication
  module (\<open>proxy/auth.rs\<close>) challenges callers and looks them up in the user back ends (\<open>proxy/user*.rs\<close>); the
  registrar (\<open>proxy/registrar.rs\<close>) stores the contacts of phones in the location service (\<open>proxy/locator.rs\<close>); the
  call module routes an INVITE by the rules of the configuration (\<open>proxy/routing\<close>), which may rewrite it, check the
  limits of the caller (\<open>call/policy.rs\<close>), choose a trunk, or build a plan with queues and applications
  (\<open>call/mod.rs\<close>).  The plan then passes the inspectors (\<open>proxy/number_pool.rs\<close>, \<open>proxy/emergency.rs\<close>).  The call module
  (\<open>proxy/call.rs\<close>) also takes calls that replace another one, transfers asked for by REFER and commands by MESSAGE.  The
  presence module (\<open>proxy/presence.rs\<close>) follows the registrations, and the nodes of a cluster tell each other
  (\<open>proxy/cluster_event.rs\<close>).  A call that is set up is a session (\<open>proxy/proxy_call/sip_session.rs\<close>) that is listed in the
  registry of active calls, keeps one session timer per dialog (\<open>proxy/proxy_call/session_timer.rs\<close>), and negotiates
  its codecs (\<open>media/negotiate.rs\<close>).  A session may hand its call to an application (\<open>call/app\<close>: queue, voice menus,
  voicemail), put it into a queue of waiting legs or a conference (\<open>call/runtime\<close>), or let a supervisor listen
  (\<open>media/mixer.rs\<close>).  External programs control calls over a web socket (\<open>rwi\<close>): a gateway knows which session
  owns and supervises which call, and a controller carries out transfers.

  \<^bold>\<open>The theories\<close>, in the order of their imports.
  \<^item> \<open>Prelude\<close>: the parts of Rust's standard library the sources use (text, numbers and their text,
    saturation, panics, hash maps) with their laws.
  \<^item> \<open>Sip\<close>: header fields, URIs and addresses of the SIP stack.  The stack's own functions (printing,
    parsing and comparing URIs) are the fields of a \<open>sip_lib\<close> record, an argument of what uses them.
  \<^item> \<open>Session_Timer\<close>: the state of one timer, its deadlines, its header fields, the negotiation of an
    interval and of the refresher, and the effect of the peer's answer.  Shown: the wake-up time
    is exact, a refresh comes before the expiry, what one side writes the other reads, and every
    outcome of a refresh.
  \<^item> \<open>Dialog_Timers\<close>: the timers of a call, over the contract of the runtime's delay queue (a locale: the queue
    is abstracted to a map from keys to dialogs with due times).  Shown: the schedule refines a map of due
    times, a refresh comes to an end whatever the peer answers, and no active timer is forgotten
    by the event loop.
  \<^item> \<open>Ip_Addr\<close>: addresses of \<open>std::net\<close>, their parsers and prefixes as words.
  \<^item> \<open>Trunk\<close>: the configuration of a trunk, its recognition by source address, prefixes of users, directions.
  \<^item> \<open>Acl\<close>: networks, rules, flood protection, the handlers of the module, and how the server runs the handlers of
    a transaction.  Shown: the rules follow the first-match reading of their texts, floods are limited over
    any order of arrivals and departures, and when exactly a transaction passes.
  \<^item> \<open>Freq_Policy\<close>: the policy guard and its limiters, in memory and in the database.  The contract of a
    limiter is a locale over abstract counters, interpreted on both; the guard is verified once, against the
    contract.
  \<^item> \<open>Dialplan\<close>: locations, endpoints of transfers, forwarding, queue plans, flows.
  \<^item> \<open>Route_Rules\<close>: conditions and captures of rules, rewrite templates, selection of a trunk (random, hash, round
    robin, weighted), what a trunk does to an INVITE, queue configuration.
  \<^item> \<open>Routing\<close>: the match of an INVITE against the rules (\<open>match_invite_impl\<close>) with its trace, and its
    preview.  Shown: the first matching rule decides, the trace explains each refusal, a preview keeps the
    round robin.
  \<^item> \<open>Locator\<close>: the locator in memory and the targets of dialogs.  The contract of a location service is a
    locale; its client is the target of a dialog.  Shown: lookups return live bindings, newest first; a
    registered phone is found until it expires; a closed connection is forgotten.

  \<^item> \<open>Users\<close>: the record of a user and the back ends in memory, in a text file and on the table of extensions behind
    a bounded cache.  What authentication relies on is the locale \<open>user_store\<close>, interpreted on two of them.
  \<^item> \<open>Auth\<close>: the cache of authenticated dialogs, the realms, and the module that challenges.  Shown: who exactly
    is admitted, that a hit of the cache was authenticated before, and that an account without a password admits anyone.
  \<^item> \<open>Registrar\<close>: contacts and the handler of REGISTER.  Shown: a phone that registers is found, a refused request changes
    nothing, what is written as a contact reads back, and that one authenticated dialog registers any user.
  \<^item> \<open>Call_Registry\<close>: the registry of active calls and the mirrored state of a session.  The facts kept by call and by
    owner are the locale \<open>directory\<close> of the prelude, interpreted here, on the mixers of \<open>Supervisor\<close> and twice on
    \<open>Gateway\<close>.  Shown: a removed session leaves nothing behind; its events replay to its state.
  \<^item> \<open>Inspectors\<close>: what is done to plans and messages on their way: the pool of caller numbers, emergency calls, private
    addresses in contacts, and the health of trunks.  Shown: the numbers take turns, a number that contains an emergency number
    takes the emergency trunk, and the health of a trunk is that of its latest probes.
  \<^item> \<open>Call_Module\<close>: the plan of a call: direction, forwarding, routing, inspectors, recording, and the refusals.  Shown: an
    unrouted call rings the newest phone, emergency calls are looked at after the routing, the lists of the recording policy are
    without effect, and a recording stays in its directory.
  \<^item> \<open>Call_Entry\<close>: the handler of the requests of a call, with Replaces, REFER and MESSAGE, over the registry of calls and the
    conferences.  Shown: every INVITE is answered, and a replaced party gives its seat in a conference away.
  \<^item> \<open>Presence\<close>: states, watchers and mailboxes.  Shown: a watcher is notified while its subscription lasts, the states of
    this node survive a restart, and a phone that signs off is shown as available.
  \<^item> \<open>Cluster\<close>: messages between nodes.  Shown: a published state reaches the peers unchanged and goes no further.
  \<^item> \<open>Call_Queue\<close>: queues of waiting legs.  Shown: a queue is the stable sort of the arrivals that have not left.
  \<^item> \<open>Conference\<close>: rooms, their manager and the mixer.  Shown: everyone hears the sum of the others, and the maps of the
    manager stay consistent.
  \<^item> \<open>Agents\<close>: presence of agents and their selection.  The contract of a registry is the locale \<open>agent_registry\<close>,
    interpreted on the ones in memory and on a database.
  \<^item> \<open>Call_App\<close>: the framework of applications: actions, controller, timers, collection of digits, event loop.
    The locale \<open>app_contract\<close> says what an application promises, and that its run then ends in a good outcome.
  \<^item> \<open>Queue_App\<close>, \<open>Ivr_App\<close>, \<open>Voicemail\<close>: the applications; the last two interpret \<open>app_contract\<close>.  Shown: a sequential queue
    falls back, a validated menu stays on known menus, a silent caller is sent away, a message is recorded.
  \<^item> \<open>Supervisor\<close>: who hears whom in each mode of supervision.
  \<^item> \<open>Wire\<close>: packets of the flow recorder and telephone events, with their round trip.
  \<^item> \<open>Negotiate\<close>: choice and offers of codecs and the restricted SDP.  Shown: the offer is complete, a
    restricted section has exactly the chosen formats, and lists of codecs read back.
  \<^item> \<open>Gateway\<close>: sessions of the web interface.  Shown: a call has one owner, and a session that comes back is sent what it missed.
  \<^item> \<open>Transfers\<close>: the controller of transfers.  Shown: a transfer that ended is final.

  \<^bold>\<open>Correspondence.\<close>  A struct is a record, an enum a datatype, a function or method a definition of the same name
  (prefixed where two sources share a name), with the state it changes as its last argument and in its result.
  An asynchronous function that holds a lock for its whole body is one step; where a body lets go of the state
  between two statements (the database limiter, the refresh of a dialog) the statements are separate
  definitions.  The clock is an argument.  Errors are \<open>Inl\<close>, panics are \<open>Panic\<close>.  Logging and metrics are
  left out.

  \<^bold>\<open>Bounds.\<close>  Most loops run over lists, and the loop over the characters of a template has a termination proof.
  Only the event loop of an application has fuel, because an application may chain to another; two units for each
  event and two more are proved enough for applications that do not chain.  The collection of digits and the
  loops that read a channel recurse over what arrives in it.  An action of a voice menu may call a web hook, whose
  answer never is a web hook, so its execution ends.  Session intervals are natural numbers; the theorems that rule
  out a panic of the clock state their bound (\<open>2 ^ 62\<close> seconds), and one theorem shows the panic above it.  Weights of
  trunks add with saturation at 32 bits; ages of events and the product in the timeout of the menus wrap at 64 bits.
  Counters that stay far from their width are natural numbers.

  \<^bold>\<open>Parameters.\<close>  Outside the repository are the SIP stack, regular expressions, random numbers and hashing,
  DNS, phone numbers, time zones, the delay queue, bounded caches, digests, SDP and the table of codecs, XML, JSON and
  URL decoding, and speech synthesis.  Each is an argument; what a theorem needs of it is a
  named predicate (\<open>delay_queue_ok\<close>, \<open>random_ok\<close>, \<open>lru_laws\<close>) with a concrete instance in a witness.

  \<^bold>\<open>Not modelled.\<close>  Media and RTP transport, the web console and REST handlers, database entities and migrations,
  storage, the dispatch of the commands of the web interface, the registration at trunks, start-up and configuration parsing, and the
  signalling of a SIP session beyond its timers: input and output over libraries.

  \<^bold>\<open>Plan.\<close>  What could come next: the locator in the database as a second instance of the location service with the round
  trip of its metadata, and the domain model of calls and legs.
\<close>

end
